(* ===== verification/Prelude.thy ===== *)
theory Prelude
  imports
    Complex_Main
    "HOL-Library.Word"
    "HOL-Library.AList"
    "HOL-Library.Char_ord"
    "HOL-Library.List_Lexorder"
begin

text \<open>
  Shared vocabulary of the development: the Python values the code works with (bytes,
  strings, insertion-ordered dictionaries, wall-clock seconds), big-endian integers and
  UTF-8, an interface locale for the dictionaries, and the generic lemmas the component
  theories use.

  \<^item> \<open>bytes\<close> is a list of 8-bit words.
  \<^item> A Python \<open>str\<close> is a HOL \<open>string\<close>: a code point is a \<open>char\<close>, so the
    model covers the code points 0 to 255; \<open>utf8\<close> is exact on them.
  \<^item> A \<open>dict\<close> or \<open>OrderedDict\<close> is an association list in insertion order with
    distinct keys. Assigning to a present key keeps its place, a new key goes to the end:
    this is what \<open>AList.update\<close> does.
  \<^item> Seconds of \<open>time.time()\<close> and \<open>time.monotonic()\<close> are reals, so rounding of
    floating-point subtraction is not modelled.
\<close>

named_theorems dict_simps "lookup after each dictionary operation"
named_theorems codec_simps "decode after encode"

type_synonym byte = "8 word"
type_synonym bytes = "byte list"
type_synonym time = real
type_synonym node_id = string
type_synonym ('k, 'v) dict = "('k \<times> 'v) list"

text \<open>The exceptions the modelled code raises, with the message where it is a constant.\<close>

datatype py_error =
    ValueError string
  | TypeError string
  | KeyError string
  | RuntimeError string
  | OverflowError
  | BadSignatureError
  | CryptoError

type_synonym 'a py = "py_error + 'a"

definition py_bind :: "'a py \<Rightarrow> ('a \<Rightarrow> 'b py) \<Rightarrow> 'b py" where
  "py_bind m f = (case m of Inl e \<Rightarrow> Inl e | Inr x \<Rightarrow> f x)"

lemma py_bind_simps [simp]: "py_bind (Inl e) f = Inl e" "py_bind (Inr x) f = f x"
  by (simp_all add: py_bind_def)

lemma py_bind_Inr_iff: "py_bind m f = Inr y \<longleftrightarrow> (\<exists>x. m = Inr x \<and> f x = Inr y)"
  by (cases m) auto

lemma py_bind_split:
  "P (py_bind m f) \<longleftrightarrow> (\<forall>e. m = Inl e \<longrightarrow> P (Inl e)) \<and> (\<forall>x. m = Inr x \<longrightarrow> P (f x))"
  by (cases m) auto

section \<open>Python dictionaries\<close>

abbreviation dget :: "('k, 'v) dict \<Rightarrow> 'k \<Rightarrow> 'v option" where
  "dget d k \<equiv> map_of d k"

abbreviation dset :: "'k \<Rightarrow> 'v \<Rightarrow> ('k, 'v) dict \<Rightarrow> ('k, 'v) dict" where
  "dset k v d \<equiv> AList.update k v d"

abbreviation dpop :: "'k \<Rightarrow> ('k, 'v) dict \<Rightarrow> ('k, 'v) dict" where
  "dpop k d \<equiv> AList.delete k d"

abbreviation dkeys :: "('k, 'v) dict \<Rightarrow> 'k list" where
  "dkeys d \<equiv> map fst d"

abbreviation dwf :: "('k, 'v) dict \<Rightarrow> bool" where
  "dwf d \<equiv> distinct (map fst d)"

abbreviation dget_default :: "'v \<Rightarrow> ('k, 'v) dict \<Rightarrow> 'k \<Rightarrow> 'v" where
  "dget_default x d k \<equiv> (case map_of d k of None \<Rightarrow> x | Some v \<Rightarrow> v)"

text \<open>\<open>OrderedDict.move_to_end(k)\<close> for a key that is present.\<close>

definition dmove_end :: "'k \<Rightarrow> ('k, 'v) dict \<Rightarrow> ('k, 'v) dict" where
  "dmove_end k d = (case map_of d k of None \<Rightarrow> d | Some v \<Rightarrow> AList.delete k d @ [(k, v)])"

lemma dget_dset [dict_simps, simp]: "dget (dset k v d) k' = (if k' = k then Some v else dget d k')"
  by (simp add: update_conv')

lemma dget_dpop [dict_simps, simp]: "dget (dpop k d) k' = (if k' = k then None else dget d k')"
  by (simp add: delete_conv')

lemma dwf_dset [intro, simp]: "dwf d \<Longrightarrow> dwf (dset k v d)"
  by (rule distinct_update)

lemma dwf_dpop [intro, simp]: "dwf d \<Longrightarrow> dwf (dpop k d)"
  by (rule distinct_delete)

lemma set_dkeys_dset [simp]: "set (dkeys (dset k v d)) = insert k (set (dkeys d))"
  by (metis dom_update dom_map_of_conv_image_fst image_set update_conv' dom_fun_upd option.distinct(1))

lemma set_dkeys_dpop [simp]: "set (dkeys (dpop k d)) = set (dkeys d) - {k}"
  by (metis delete_keys removeAll_filter_not_eq set_removeAll)

lemma fst_set_dset [simp]: "fst ` set (dset k v d) = insert k (fst ` set d)"
  using set_dkeys_dset [of k v d] by (simp only: set_map)

lemma fst_set_dpop [simp]: "fst ` set (dpop k d) = fst ` set d - {k}"
  using set_dkeys_dpop [of k d] by (simp only: set_map)

lemma dget_None_iff: "dget d k = None \<longleftrightarrow> k \<notin> set (dkeys d)"
  by (simp add: map_of_eq_None_iff)

lemma dget_Some_key: "dget d k = Some v \<Longrightarrow> k \<in> set (dkeys d)"
  by (metis dget_None_iff option.distinct(1))

lemma length_dset:
  "length (dset k v d) = (if k \<in> set (dkeys d) then length d else Suc (length d))"
  by (induction d) auto

lemma length_dpop_le: "length (dpop k d) \<le> length d"
  by (simp add: AList.delete_eq)

lemma dget_append: "dget (d @ e) k = (case dget d k of None \<Rightarrow> dget e k | Some v \<Rightarrow> Some v)"
  by (induction d) auto

lemma dget_dmove_end [dict_simps, simp]: "dget (dmove_end k d) k' = dget d k'"
  unfolding dmove_end_def by (auto simp: dget_append simp del: map_of_append split: option.splits)

lemma dkeys_dmove_end: "dwf d \<Longrightarrow> dget d k = Some v \<Longrightarrow> dkeys (dmove_end k d) = removeAll k (dkeys d) @ [k]"
  by (simp add: dmove_end_def delete_keys removeAll_filter_not_eq)

lemma dwf_dmove_end [intro, simp]: "dwf d \<Longrightarrow> dwf (dmove_end k d)"
proof (cases "dget d k")
  case (Some v)
  moreover assume "dwf d"
  then have "dwf (dpop k d)" by (rule distinct_delete)
  moreover have "k \<notin> set (dkeys (dpop k d))" by simp
  ultimately show ?thesis by (simp add: dmove_end_def)
qed (simp add: dmove_end_def)

lemma fst_set_dmove_end [simp]: "fst ` set (dmove_end k d) = fst ` set d"
proof -
  have "dom (map_of (dmove_end k d)) = dom (map_of d)"
    by (simp add: fun_eq_iff dom_def)
  then show ?thesis by (simp add: dom_map_of_conv_image_fst)
qed

lemma set_dkeys_dmove_end: "set (dkeys (dmove_end k d)) = set (dkeys d)"
  by (simp only: set_map fst_set_dmove_end)

lemma length_dmove_end: "dwf d \<Longrightarrow> length (dmove_end k d) = length d"
  by (metis dwf_dmove_end distinct_card length_map set_dkeys_dmove_end)

lemma dwf_tl: "dwf d \<Longrightarrow> dwf (tl d)"
  by (cases d) auto

lemma dget_tl_subset: "dwf d \<Longrightarrow> dget (tl d) k = Some v \<Longrightarrow> dget d k = Some v"
proof (cases d)
  case (Cons p ps)
  assume "dwf d" "dget (tl d) k = Some v"
  then have "k \<in> set (dkeys ps)" using Cons dget_Some_key [of ps k v] by simp
  with Cons \<open>dwf d\<close> have "k \<noteq> fst p" by (metis distinct.simps(2) list.simps(9))
  with Cons \<open>dget (tl d) k = Some v\<close> show ?thesis by (simp del: map_of_eq_Some_iff)
qed simp

lemma dget_map_val: "dget (map (\<lambda>(k, v). (k, f v)) d) x = map_option f (dget d x)"
  by (induction d) auto

lemma dkeys_map_val: "dkeys (map (\<lambda>(k, v). (k, f v)) d) = dkeys d"
  by (induction d) auto

text \<open>
  The contract the components rely on when they keep a table of per-key state: a lookup
  after a store or a removal, at the same key and at another, and the key set. Components
  that only need these laws are stated over the locale.
\<close>

locale keyed_table =
  fixes get :: "'t \<Rightarrow> 'k \<Rightarrow> 'v option"
    and put :: "'k \<Rightarrow> 'v \<Rightarrow> 't \<Rightarrow> 't"
    and drop_key :: "'k \<Rightarrow> 't \<Rightarrow> 't"
    and keys_of :: "'t \<Rightarrow> 'k set"
  assumes get_put: "get (put k v t) k' = (if k' = k then Some v else get t k')"
    and get_drop: "get (drop_key k t) k' = (if k' = k then None else get t k')"
    and keys_of_get: "k \<in> keys_of t \<longleftrightarrow> get t k \<noteq> None"
begin

lemma get_put_same: "get (put k v t) k = Some v"
  by (simp add: get_put)

lemma get_put_other: "k' \<noteq> k \<Longrightarrow> get (put k v t) k' = get t k'"
  by (simp add: get_put)

lemma put_put_same: "get (put k v (put k w t)) k' = get (put k v t) k'"
  by (simp add: get_put)

lemma drop_put_same: "get (drop_key k (put k v t)) k' = get (drop_key k t) k'"
  by (simp add: get_put get_drop)

lemma keys_of_put: "keys_of (put k v t) = insert k (keys_of t)"
  by (auto simp: keys_of_get get_put split: if_splits)

lemma keys_of_drop: "keys_of (drop_key k t) = keys_of t - {k}"
  by (auto simp: keys_of_get get_drop split: if_splits)

end

interpretation pydict: keyed_table "dget" "dset" "dpop" "\<lambda>d. set (dkeys d)"
  by unfold_locales (auto simp: dget_None_iff)

section \<open>Big-endian integers\<close>

primrec be_bytes :: "nat \<Rightarrow> nat \<Rightarrow> bytes" where
  "be_bytes 0 v = []"
| "be_bytes (Suc n) v = be_bytes n (v div 256) @ [word_of_nat (v mod 256)]"

definition be_val :: "bytes \<Rightarrow> nat" where
  "be_val bs = foldl (\<lambda>a b. a * 256 + unat b) 0 bs"

lemma length_be_bytes [simp]: "length (be_bytes n v) = n"
  by (induction n arbitrary: v) auto

lemma be_val_Nil [simp]: "be_val [] = 0"
  by (simp add: be_val_def)

lemma be_val_snoc [simp]: "be_val (bs @ [b]) = be_val bs * 256 + unat b"
  by (simp add: be_val_def)

lemma unat_byte_of_nat: "v < 256 \<Longrightarrow> unat (word_of_nat v :: byte) = v"
  by (simp add: unat_of_nat)

lemma be_val_be_bytes [codec_simps]: "v < 256 ^ n \<Longrightarrow> be_val (be_bytes n v) = v"
proof (induction n arbitrary: v)
  case 0
  then show ?case by simp
next
  case (Suc n)
  then have "v div 256 < 256 ^ n"
    by (simp add: less_mult_imp_div_less mult.commute)
  then show ?case
    by (simp add: Suc.IH unat_byte_of_nat)
qed

lemma unat_lt2p_b: "unat (b :: byte) < 256"
  by (rule order.strict_trans2 [OF unsigned_less]) simp

lemma be_val_bound: "be_val bs < 256 ^ length bs"
proof (induction bs rule: rev_induct)
  case Nil
  then show ?case by simp
next
  case (snoc b bs)
  have "unat b < 256" using unat_lt2p_b [of b] by simp
  with snoc show ?case by simp
qed

lemma be_bytes_inject: "v < 256 ^ n \<Longrightarrow> w < 256 ^ n \<Longrightarrow> be_bytes n v = be_bytes n w \<longleftrightarrow> v = w"
  by (metis be_val_be_bytes)

text \<open>\<open>int.to_bytes(n, "big")\<close>: negative and too-large values raise OverflowError.\<close>

definition to_bytes :: "nat \<Rightarrow> int \<Rightarrow> bytes option" where
  "to_bytes n v = (if 0 \<le> v \<and> v < 256 ^ n then Some (be_bytes n (nat v)) else None)"

lemma to_bytes_nat: "v < 256 ^ n \<Longrightarrow> to_bytes n (int v) = Some (be_bytes n v)"
  by (simp add: to_bytes_def)

lemma to_bytes_Some_length: "to_bytes n v = Some bs \<Longrightarrow> length bs = n"
  by (auto simp: to_bytes_def split: if_splits)

lemma to_bytes_Some_iff: "to_bytes n v = Some bs \<longleftrightarrow> 0 \<le> v \<and> v < 256 ^ n \<and> bs = be_bytes n (nat v)"
  by (auto simp: to_bytes_def)

section \<open>UTF-8\<close>

definition utf8_char :: "char \<Rightarrow> bytes" where
  "utf8_char c = (let n = of_char c :: nat in
     if n < 128 then [word_of_nat n]
     else [word_of_nat (192 + n div 64), word_of_nat (128 + n mod 64)])"

definition utf8 :: "string \<Rightarrow> bytes" where
  "utf8 s = concat (map utf8_char s)"

text \<open>Decoding, strict: \<open>None\<close> for anything that is not the encoding of code points below 256.\<close>

fun utf8_decode :: "bytes \<Rightarrow> string option" where
  "utf8_decode [] = Some []"
| "utf8_decode (b # bs) =
     (if unat b < 128 then map_option ((#) (char_of (unat b))) (utf8_decode bs)
      else case bs of
        [] \<Rightarrow> None
      | b' # bs' \<Rightarrow>
          if 194 \<le> unat b \<and> unat b < 196 \<and> 128 \<le> unat b' \<and> unat b' < 192
          then map_option ((#) (char_of ((unat b - 192) * 64 + (unat b' - 128)))) (utf8_decode bs')
          else None)"

lemma of_char_bound: "(of_char c :: nat) < 256"
  using range_nat_of_char by (metis atLeastLessThan_iff rangeI)

lemma utf8_Nil [simp]: "utf8 [] = []"
  by (simp add: utf8_def)

lemma utf8_Cons: "utf8 (c # s) = utf8_char c @ utf8 s"
  by (simp add: utf8_def)

lemma utf8_append: "utf8 (s @ t) = utf8 s @ utf8 t"
  by (simp add: utf8_def)

lemma utf8_decode_utf8_char: "utf8_decode (utf8_char c @ bs) = map_option ((#) c) (utf8_decode bs)"
proof (cases "(of_char c :: nat) < 128")
  case True
  then show ?thesis
    by (simp add: utf8_char_def Let_def unat_byte_of_nat)
next
  case False
  define n where "n = (of_char c :: nat)"
  have n: "128 \<le> n" "n < 256" using False of_char_bound by (simp_all add: n_def)
  have d: "2 \<le> n div 64" "n div 64 < 4" using n by auto
  have u: "unat (word_of_nat (192 + n div 64) :: byte) = 192 + n div 64"
          "unat (word_of_nat (128 + n mod 64) :: byte) = 128 + n mod 64"
    using d by (simp_all only: unat_byte_of_nat)
       (meson mod_less_divisor add_less_cancel_left less_trans zero_less_numeral, simp)?
  have enc: "utf8_char c = [word_of_nat (192 + n div 64), word_of_nat (128 + n mod 64)]"
    using n by (simp add: utf8_char_def Let_def n_def)
  have dec: "char_of (n div 64 * 64 + n mod 64) = c"
    by (simp add: n_def)
  show ?thesis
    using d u dec by (simp add: enc)
qed

lemma utf8_decode_utf8 [codec_simps]: "utf8_decode (utf8 s) = Some s"
  by (induction s) (simp_all add: utf8_Cons utf8_decode_utf8_char)

lemma utf8_inject [simp]: "utf8 s = utf8 t \<longleftrightarrow> s = t"
  by (metis option.inject utf8_decode_utf8)

end
