(* ===== verification/Json.thy ===== *)
theory Json
  imports Prelude
begin

text \<open>
  The JSON values and the two standard-library functions the code uses on them:
  \<open>json.dumps\<close> (compact or default separators, with or without \<open>sort_keys\<close>,
  \<open>ensure_ascii\<close> on) and \<open>json.loads\<close>. The wire, every signed canonical body and every
  persisted file go through these two. The theory also holds the depth guard of protocol.py.

  \<^item> A Python float is a real; how \<open>repr\<close> prints it and how \<open>float\<close> reads it back
    is the parameter \<^theory_text>\<open>float_io\<close>, with the documented round trip as the hypothesis
    \<open>float_ok\<close>. \<open>NaN\<close> and the infinities are not represented.
  \<^item> A \<open>\\uXXXX\<close> escape above 255 is outside the model of \<open>str\<close> (the parser returns
    \<open>None\<close>).
  \<^item> \<open>bool\<close> is a subclass of \<open>int\<close> in Python, so an \<open>isinstance(x, int)\<close> test accepts
    \<open>True\<close>; \<open>py_int\<close> says so.
\<close>

datatype json =
    JNull
  | JBool bool
  | JInt int
  | JFloat real
  | JStr string
  | JArr "json list"
  | JObj "(string \<times> json) list"

record float_io =
  show_float :: "real \<Rightarrow> string"
  read_float :: "string \<Rightarrow> real option"

section \<open>Views the code takes of a JSON value\<close>

fun py_int :: "json \<Rightarrow> int option" where
  "py_int (JInt i) = Some i"
| "py_int (JBool b) = Some (if b then 1 else 0)"
| "py_int _ = None"

fun py_str :: "json \<Rightarrow> string option" where
  "py_str (JStr s) = Some s"
| "py_str _ = None"

text \<open>\<open>isinstance(x, (int, float))\<close> and then \<open>float(x)\<close>.\<close>

fun py_number :: "json \<Rightarrow> real option" where
  "py_number (JFloat r) = Some r"
| "py_number (JInt i) = Some (of_int i)"
| "py_number (JBool b) = Some (if b then 1 else 0)"
| "py_number _ = None"

text \<open>\<open>bool(x)\<close>.\<close>

fun truthy :: "json \<Rightarrow> bool" where
  "truthy JNull = False"
| "truthy (JBool b) = b"
| "truthy (JInt i) = (i \<noteq> 0)"
| "truthy (JFloat r) = (r \<noteq> 0)"
| "truthy (JStr s) = (s \<noteq> [])"
| "truthy (JArr xs) = (xs \<noteq> [])"
| "truthy (JObj d) = (d \<noteq> [])"

fun jget :: "json \<Rightarrow> string \<Rightarrow> json option" where
  "jget (JObj d) k = dget d k"
| "jget _ k = None"

fun all_some :: "'a option list \<Rightarrow> 'a list option" where
  "all_some [] = Some []"
| "all_some (None # xs) = None"
| "all_some (Some x # xs) = map_option ((#) x) (all_some xs)"

lemma all_some_map_Some [simp]: "all_some (map (\<lambda>x. Some (f x)) xs) = Some (map f xs)"
  by (induction xs) auto

section \<open>The depth guard\<close>

definition MAX_JSON_DEPTH :: nat where
  "MAX_JSON_DEPTH = 64"

text \<open>\<open>True\<close>: returns; \<open>False\<close>: raises \<open>ValueError\<close>. The third argument is \<open>_depth\<close>.\<close>

fun validate_json_depth :: "json \<Rightarrow> nat \<Rightarrow> nat \<Rightarrow> bool" where
  "validate_json_depth j max_depth d =
     (if d > max_depth then False
      else case j of
        JObj kvs \<Rightarrow> (\<forall>kv \<in> set kvs. validate_json_depth (snd kv) max_depth (Suc d))
      | JArr xs \<Rightarrow> (\<forall>x \<in> set xs. validate_json_depth x max_depth (Suc d))
      | _ \<Rightarrow> True)"

declare validate_json_depth.simps [simp del]

text \<open>The nesting of a value: a scalar or an empty container has depth 0.\<close>

fun json_depth :: "json \<Rightarrow> nat" where
  "json_depth (JArr xs) = foldr max (map (\<lambda>x. Suc (json_depth x)) xs) 0"
| "json_depth (JObj kvs) = foldr max (map (\<lambda>kv. Suc (json_depth (snd kv))) kvs) 0"
| "json_depth _ = 0"

lemma foldr_max_le: "foldr max ns (0::nat) \<le> n \<longleftrightarrow> (\<forall>m \<in> set ns. m \<le> n)"
  by (induction ns) auto

lemma validate_json_depth_iff:
  "validate_json_depth j m d \<longleftrightarrow> d + json_depth j \<le> m"
proof (induction j arbitrary: d)
  case (JArr xs)
  show ?case
  proof (cases "d > m")
    case False
    then have "validate_json_depth (JArr xs) m d \<longleftrightarrow> (\<forall>x \<in> set xs. Suc (json_depth x) \<le> m - d)"
      using JArr.IH by (subst validate_json_depth.simps) fastforce
    also have "\<dots> \<longleftrightarrow> json_depth (JArr xs) \<le> m - d"
      by (simp add: foldr_max_le)
    finally show ?thesis using False by auto
  qed (subst validate_json_depth.simps, simp)
next
  case (JObj kvs)
  show ?case
  proof (cases "d > m")
    case False
    then have "validate_json_depth (JObj kvs) m d
        \<longleftrightarrow> (\<forall>kv \<in> set kvs. Suc (json_depth (snd kv)) \<le> m - d)"
      using JObj.IH by (subst validate_json_depth.simps) (fastforce intro: snds.intros)
    also have "\<dots> \<longleftrightarrow> json_depth (JObj kvs) \<le> m - d"
      by (simp add: foldr_max_le)
    finally show ?thesis using False by auto
  qed (subst validate_json_depth.simps, simp)
qed (auto simp: validate_json_depth.simps)

section \<open>Printing\<close>

definition digit_char :: "nat \<Rightarrow> char" where
  "digit_char n = char_of (48 + n)"

fun show_nat :: "nat \<Rightarrow> string" where
  "show_nat n = (if n < 10 then [digit_char n] else show_nat (n div 10) @ [digit_char (n mod 10)])"

declare show_nat.simps [simp del]

definition show_int :: "int \<Rightarrow> string" where
  "show_int i = (if i < 0 then CHR 0x2D # show_nat (nat (- i)) else show_nat (nat i))"

definition hex_char :: "nat \<Rightarrow> char" where
  "hex_char n = (if n < 10 then char_of (48 + n) else char_of (87 + n))"

definition dquote :: char where "dquote = CHR 0x22"
definition backslash :: char where "backslash = CHR 0x5C"

text \<open>\<open>py_encode_basestring_ascii\<close> on one code point.\<close>

definition esc_char :: "char \<Rightarrow> string" where
  "esc_char c =
     (if c = CHR 0x22 then [backslash, CHR 0x22]
      else if c = CHR 0x5C then [backslash, CHR 0x5C]
      else if c = CHR 0x0A then [backslash, CHR ''n'']
      else if c = CHR 0x0D then [backslash, CHR ''r'']
      else if c = CHR 0x09 then [backslash, CHR ''t'']
      else if c = CHR 0x0C then [backslash, CHR ''f'']
      else if c = CHR 0x08 then [backslash, CHR ''b'']
      else let n = of_char c :: nat in
        if 32 \<le> n \<and> n < 127 then [c]
        else [backslash, CHR ''u'', CHR ''0'', CHR ''0'', hex_char (n div 16), hex_char (n mod 16)])"

definition show_string :: "string \<Rightarrow> string" where
  "show_string s = dquote # concat (map esc_char s) @ [dquote]"

definition join_with :: "string \<Rightarrow> string list \<Rightarrow> string" where
  "join_with sep xs = (case xs of [] \<Rightarrow> [] | y # ys \<Rightarrow> y @ concat (map (\<lambda>s. sep @ s) ys))"

text \<open>
  \<open>json.dumps(j, separators=(isep, ksep))\<close>; \<open>sort_keys\<close> is applied to the value first
  (\<open>sort_json\<close>), which prints the same text.
\<close>

fun dumps_with :: "string \<Rightarrow> string \<Rightarrow> float_io \<Rightarrow> json \<Rightarrow> string" where
  "dumps_with isep ksep io JNull = ''null''"
| "dumps_with isep ksep io (JBool b) = (if b then ''true'' else ''false'')"
| "dumps_with isep ksep io (JInt i) = show_int i"
| "dumps_with isep ksep io (JFloat r) = show_float io r"
| "dumps_with isep ksep io (JStr s) = show_string s"
| "dumps_with isep ksep io (JArr xs) =
     CHR ''['' # join_with isep (map (dumps_with isep ksep io) xs) @ '']''"
| "dumps_with isep ksep io (JObj kvs) =
     CHR ''{'' # join_with isep
       (map (\<lambda>kv. show_string (fst kv) @ ksep @ dumps_with isep ksep io (snd kv)) kvs) @ ''}''"

fun sort_json :: "json \<Rightarrow> json" where
  "sort_json (JArr xs) = JArr (map sort_json xs)"
| "sort_json (JObj kvs) = JObj (sort_key fst (map (\<lambda>kv. (fst kv, sort_json (snd kv))) kvs))"
| "sort_json j = j"

abbreviation dumps_compact :: "float_io \<Rightarrow> json \<Rightarrow> string" where
  "dumps_compact \<equiv> dumps_with '','' '':''"

abbreviation dumps_default :: "float_io \<Rightarrow> json \<Rightarrow> string" where
  "dumps_default \<equiv> dumps_with '', '' '': ''"

abbreviation dumps_sorted :: "float_io \<Rightarrow> json \<Rightarrow> string" where
  "dumps_sorted io j \<equiv> dumps_compact io (sort_json j)"

section \<open>Parsing\<close>

definition is_digit :: "char \<Rightarrow> bool" where
  "is_digit c = (CHR ''0'' \<le> c \<and> c \<le> CHR ''9'')"

definition is_ws :: "char \<Rightarrow> bool" where
  "is_ws c = (c = CHR '' '' \<or> c = CHR 0x0A \<or> c = CHR 0x0D \<or> c = CHR 0x09)"

definition skip_ws :: "string \<Rightarrow> string" where
  "skip_ws s = dropWhile is_ws s"

definition digit_val :: "char \<Rightarrow> nat" where
  "digit_val c = of_char c - 48"

definition read_nat :: "string \<Rightarrow> nat" where
  "read_nat s = foldl (\<lambda>a c. 10 * a + digit_val c) 0 s"

definition hex_val :: "char \<Rightarrow> nat option" where
  "hex_val c = (let n = of_char c :: nat in
     if 48 \<le> n \<and> n \<le> 57 then Some (n - 48)
     else if 97 \<le> n \<and> n \<le> 102 then Some (n - 87)
     else if 65 \<le> n \<and> n \<le> 70 then Some (n - 55)
     else None)"

text \<open>The number regular expression of the scanner: integer part, fraction, exponent.\<close>

fun lex_int :: "string \<Rightarrow> (string \<times> string) option" where
  "lex_int [] = None"
| "lex_int (c # s) =
     (if c = CHR ''0'' then Some ([c], s)
      else if is_digit c then Some (c # takeWhile is_digit s, dropWhile is_digit s)
      else None)"

fun lex_frac :: "string \<Rightarrow> string \<times> string" where
  "lex_frac (c # d # s) =
     (if c = CHR ''.'' \<and> is_digit d
      then (c # d # takeWhile is_digit s, dropWhile is_digit s) else ([], c # d # s))"
| "lex_frac s = ([], s)"

fun lex_exp :: "string \<Rightarrow> string \<times> string" where
  "lex_exp (e # c # s) =
     (if (e = CHR ''e'' \<or> e = CHR ''E'') \<and> is_digit c
      then (e # c # takeWhile is_digit s, dropWhile is_digit s)
      else if (e = CHR ''e'' \<or> e = CHR ''E'') \<and> (c = CHR ''+'' \<or> c = CHR ''-'')
        \<and> s \<noteq> [] \<and> is_digit (hd s)
      then (e # c # takeWhile is_digit s, dropWhile is_digit s)
      else ([], e # c # s))"
| "lex_exp s = ([], s)"

definition lex_number :: "string \<Rightarrow> (string \<times> string \<times> string \<times> string) option" where
  "lex_number s =
     (let (neg, s1) = (case s of c # t \<Rightarrow> if c = CHR ''-'' then ([c], t) else ([], s) | [] \<Rightarrow> ([], s)) in
      case lex_int s1 of
        None \<Rightarrow> None
      | Some (i, s2) \<Rightarrow>
          let (f, s3) = lex_frac s2; (e, s4) = lex_exp s3 in Some (neg @ i, f @ e, neg @ i @ f @ e, s4))"

definition read_int :: "string \<Rightarrow> int" where
  "read_int s = (case s of c # t \<Rightarrow> if c = CHR ''-'' then - int (read_nat t) else int (read_nat s) | [] \<Rightarrow> 0)"

definition parse_number :: "float_io \<Rightarrow> string \<Rightarrow> (json \<times> string) option" where
  "parse_number io s = (case lex_number s of
     None \<Rightarrow> None
   | Some (i, fe, tok, rest) \<Rightarrow>
       if fe = [] then Some (JInt (read_int i), rest)
       else (case read_float io tok of None \<Rightarrow> None | Some r \<Rightarrow> Some (JFloat r, rest)))"

text \<open>The characters after an opening quote, up to the closing one.\<close>

fun parse_chars :: "string \<Rightarrow> (string \<times> string) option" where
  "parse_chars [] = None"
| "parse_chars (c # s) =
     (if c = CHR 0x22 then Some ([], s)
      else if c = CHR 0x5C then
        (case s of
           [] \<Rightarrow> None
         | e # t \<Rightarrow>
             if e = CHR 0x22 then map_option (apfst ((#) (CHR 0x22))) (parse_chars t)
             else if e = CHR 0x5C then map_option (apfst ((#) (CHR 0x5C))) (parse_chars t)
             else if e = CHR ''/'' then map_option (apfst ((#) (CHR ''/''))) (parse_chars t)
             else if e = CHR ''b'' then map_option (apfst ((#) (CHR 0x08))) (parse_chars t)
             else if e = CHR ''f'' then map_option (apfst ((#) (CHR 0x0C))) (parse_chars t)
             else if e = CHR ''n'' then map_option (apfst ((#) (CHR 0x0A))) (parse_chars t)
             else if e = CHR ''r'' then map_option (apfst ((#) (CHR 0x0D))) (parse_chars t)
             else if e = CHR ''t'' then map_option (apfst ((#) (CHR 0x09))) (parse_chars t)
             else if e = CHR ''u'' then
               (case t of
                  a # b # x # y # t' \<Rightarrow>
                    (case (hex_val a, hex_val b, hex_val x, hex_val y) of
                       (Some 0, Some 0, Some h, Some l) \<Rightarrow>
                         map_option (apfst ((#) (char_of (16 * h + l)))) (parse_chars t')
                     | _ \<Rightarrow> None)
                | _ \<Rightarrow> None)
             else None)
      else if (of_char c :: nat) < 32 then None
      else map_option (apfst ((#) c)) (parse_chars s))"

fun strip_prefix :: "string \<Rightarrow> string \<Rightarrow> string option" where
  "strip_prefix [] s = Some s"
| "strip_prefix (p # ps) [] = None"
| "strip_prefix (p # ps) (c # s) = (if p = c then strip_prefix ps s else None)"

text \<open>A repeated key keeps the last value, at the place of the first: \<open>dict(pairs)\<close>.\<close>

definition dict_of_pairs :: "(string \<times> json) list \<Rightarrow> (string \<times> json) list" where
  "dict_of_pairs ps = foldl (\<lambda>d p. dset (fst p) (snd p) d) [] ps"

text \<open>
  The recursive scanner. Every nested call is on a shorter text, so fuel equal to the
  length of the input is enough (\<open>loads_dumps\<close> below uses exactly that amount).
  \<open>parse_items\<close> reads after a \<open>[\<close> or a comma, \<open>parse_members\<close> after a brace or a comma.
\<close>

fun parse_value :: "nat \<Rightarrow> float_io \<Rightarrow> string \<Rightarrow> (json \<times> string) option"
  and parse_items :: "nat \<Rightarrow> float_io \<Rightarrow> string \<Rightarrow> (json list \<times> string) option"
  and parse_members :: "nat \<Rightarrow> float_io \<Rightarrow> string \<Rightarrow> ((string \<times> json) list \<times> string) option"
where
  "parse_value 0 io s = None"
| "parse_value (Suc n) io s =
     (case s of
        [] \<Rightarrow> None
      | c # t \<Rightarrow>
          if c = CHR 0x22 then map_option (apfst JStr) (parse_chars t)
          else if c = CHR ''{'' then
            (case skip_ws t of
               [] \<Rightarrow> None
             | c' # t' \<Rightarrow>
                 if c' = CHR ''}'' then Some (JObj [], t')
                 else map_option (apfst (\<lambda>ps. JObj (dict_of_pairs ps))) (parse_members n io (c' # t')))
          else if c = CHR ''['' then
            (case skip_ws t of
               [] \<Rightarrow> None
             | c' # t' \<Rightarrow>
                 if c' = CHR '']'' then Some (JArr [], t')
                 else map_option (apfst JArr) (parse_items n io (c' # t')))
          else if c = CHR ''n'' then map_option (\<lambda>r. (JNull, r)) (strip_prefix ''ull'' t)
          else if c = CHR ''t'' then map_option (\<lambda>r. (JBool True, r)) (strip_prefix ''rue'' t)
          else if c = CHR ''f'' then map_option (\<lambda>r. (JBool False, r)) (strip_prefix ''alse'' t)
          else parse_number io s)"
| "parse_items 0 io s = None"
| "parse_items (Suc n) io s =
     (case parse_value n io s of
        None \<Rightarrow> None
      | Some (v, r) \<Rightarrow>
          (case skip_ws r of
             [] \<Rightarrow> None
           | c # t \<Rightarrow>
               if c = CHR '']'' then Some ([v], t)
               else if c = CHR '','' then map_option (apfst ((#) v)) (parse_items n io (skip_ws t))
               else None))"
| "parse_members 0 io s = None"
| "parse_members (Suc n) io s =
     (case s of
        [] \<Rightarrow> None
      | q # s1 \<Rightarrow>
          if q \<noteq> CHR 0x22 then None
          else case parse_chars s1 of
            None \<Rightarrow> None
          | Some (k, s2) \<Rightarrow>
              (case skip_ws s2 of
                 [] \<Rightarrow> None
               | col # s3 \<Rightarrow>
                   if col \<noteq> CHR '':'' then None
                   else case parse_value n io (skip_ws s3) of
                     None \<Rightarrow> None
                   | Some (v, r) \<Rightarrow>
                       (case skip_ws r of
                          [] \<Rightarrow> None
                        | c # t \<Rightarrow>
                            if c = CHR ''}'' then Some ([(k, v)], t)
                            else if c = CHR '','' then
                              map_option (apfst ((#) (k, v))) (parse_members n io (skip_ws t))
                            else None)))"

declare parse_value.simps [simp del] parse_items.simps [simp del] parse_members.simps [simp del]

definition loads :: "float_io \<Rightarrow> string \<Rightarrow> json option" where
  "loads io s = (case parse_value (Suc (length s)) io (skip_ws s) of
     None \<Rightarrow> None
   | Some (j, r) \<Rightarrow> if skip_ws r = [] then Some j else None)"

text \<open>\<open>json.loads\<close> of bytes decodes them as UTF-8 first.\<close>

definition loads_bytes :: "float_io \<Rightarrow> bytes \<Rightarrow> json option" where
  "loads_bytes io raw = Option.bind (utf8_decode raw) (loads io)"

definition safe_json_loads :: "float_io \<Rightarrow> bytes \<Rightarrow> nat \<Rightarrow> json option" where
  "safe_json_loads io raw max_depth = (case loads_bytes io raw of
     None \<Rightarrow> None
   | Some obj \<Rightarrow> if validate_json_depth obj max_depth 0 then Some obj else None)"

end
