(* ===== verification/Json_Codec.thy ===== *)
theory Json_Codec
  imports Json
begin

text \<open>
  The printer and the parser of the JSON layer agree: what \<open>json.dumps\<close> writes, with
  compact or default separators, \<open>json.loads\<close> reads back, for every value whose objects
  have distinct keys and whose floats survive \<open>repr\<close>. Printing is therefore injective, which
  is what the signed canonical bodies rest on.
\<close>

definition float_ok :: "float_io \<Rightarrow> real \<Rightarrow> bool" where
  "float_ok io r = (read_float io (show_float io r) = Some r \<and>
     (case lex_number (show_float io r) of
        None \<Rightarrow> False | Some (i, fe, tok, rest) \<Rightarrow> fe \<noteq> [] \<and> rest = []))"

fun wf_json :: "float_io \<Rightarrow> json \<Rightarrow> bool" where
  "wf_json io (JFloat r) = float_ok io r"
| "wf_json io (JArr xs) = (\<forall>x \<in> set xs. wf_json io x)"
| "wf_json io (JObj kvs) = (dwf kvs \<and> (\<forall>kv \<in> set kvs. wf_json io (snd kv)))"
| "wf_json io _ = True"

text \<open>What follows a value inside a printed text: nothing, a comma or a closing bracket.\<close>

definition val_end :: "string \<Rightarrow> bool" where
  "val_end s = (case s of [] \<Rightarrow> True | c # _ \<Rightarrow> c = CHR '','' \<or> c = CHR '']'' \<or> c = CHR ''}'')"

lemma val_end_simps [simp]:
  "val_end []" "val_end (CHR '','' # s)" "val_end (CHR '']'' # s)" "val_end (CHR ''}'' # s)"
  by (simp_all add: val_end_def)

section \<open>Characters and strings\<close>

lemma of_char_char_of: "n < 256 \<Longrightarrow> (of_char (char_of (n::nat)) :: nat) = n"
  by simp

lemma hex_val_hex_char: "n < 16 \<Longrightarrow> hex_val (hex_char n) = Some n"
  by (simp add: hex_val_def hex_char_def Let_def)

lemma parse_chars_plain:
  "c \<noteq> CHR 0x22 \<Longrightarrow> c \<noteq> CHR 0x5C \<Longrightarrow> 32 \<le> (of_char c :: nat) \<Longrightarrow>
   parse_chars (c # s) = map_option (apfst ((#) c)) (parse_chars s)"
  by simp

lemma parse_chars_u00:
  assumes "h < 16" "l < 16"
  shows "parse_chars (CHR 0x5C # CHR ''u'' # CHR ''0'' # CHR ''0'' # hex_char h # hex_char l # s)
    = map_option (apfst ((#) (char_of (16 * h + l)))) (parse_chars s)"
proof -
  have "hex_val (CHR ''0'') = Some 0" by (simp add: hex_val_def Let_def)
  then show ?thesis using assms by (simp add: hex_val_hex_char)
qed

lemma parse_chars_esc: "parse_chars (esc_char c @ s) = map_option (apfst ((#) c)) (parse_chars s)"
proof -
  consider (special) "c \<in> {CHR 0x22, CHR 0x5C, CHR 0x0A, CHR 0x0D, CHR 0x09, CHR 0x0C, CHR 0x08}"
    | (plain) "c \<notin> {CHR 0x22, CHR 0x5C, CHR 0x0A, CHR 0x0D, CHR 0x09, CHR 0x0C, CHR 0x08}"
        "32 \<le> (of_char c :: nat) \<and> (of_char c :: nat) < 127"
    | (hex) "c \<notin> {CHR 0x22, CHR 0x5C, CHR 0x0A, CHR 0x0D, CHR 0x09, CHR 0x0C, CHR 0x08}"
        "\<not> (32 \<le> (of_char c :: nat) \<and> (of_char c :: nat) < 127)"
    by blast
  then show ?thesis
  proof cases
    case special
    then show ?thesis by (auto simp: esc_char_def backslash_def)
  next
    case plain
    then have "esc_char c = [c]" by (simp add: esc_char_def Let_def)
    with plain show ?thesis by simp
  next
    case hex
    define n where "n = (of_char c :: nat)"
    have "n < 256" by (simp add: n_def of_char_bound)
    then have "n div 16 < 16" "n mod 16 < 16" by simp_all
    moreover have "char_of (16 * (n div 16) + n mod 16) = c" by (simp add: n_def)
    moreover have "esc_char c = [CHR 0x5C, CHR ''u'', CHR ''0'', CHR ''0'', hex_char (n div 16), hex_char (n mod 16)]"
      using hex by (simp add: esc_char_def Let_def n_def backslash_def)
    ultimately show ?thesis
      using parse_chars_u00 [of "n div 16" "n mod 16" s] by simp
  qed
qed

declare parse_chars.simps [simp del]

lemma parse_chars_show: "parse_chars (concat (map esc_char s) @ CHR 0x22 # rest) = Some (s, rest)"
  by (induction s) (simp_all add: parse_chars_esc parse_chars.simps)

section \<open>Numbers\<close>

lemma is_digit_digit_char: "n < 10 \<Longrightarrow> is_digit (digit_char n)"
  by (simp add: is_digit_def digit_char_def less_eq_char_def)

lemma digit_val_digit_char: "n < 10 \<Longrightarrow> digit_val (digit_char n) = n"
  by (simp add: digit_val_def digit_char_def)

lemma char_of_48: "char_of (48::nat) = CHR ''0''"
  by code_simp

lemma show_nat_0: "show_nat 0 = [CHR ''0'']"
  by code_simp

lemma show_nat_digits: "\<forall>c \<in> set (show_nat n). is_digit c"
proof (induction n rule: show_nat.induct)
  case (1 n)
  then show ?case
    by (subst show_nat.simps) (auto simp: is_digit_digit_char)
qed

lemma show_nat_nonempty: "show_nat n \<noteq> []"
  by (subst show_nat.simps) simp

lemma read_nat_snoc: "read_nat (s @ [c]) = 10 * read_nat s + digit_val c"
  by (simp add: read_nat_def)

lemma read_nat_show_nat: "read_nat (show_nat n) = n"
proof (induction n rule: show_nat.induct)
  case (1 n)
  show ?case
  proof (cases "n < 10")
    case True
    then show ?thesis
      by (subst show_nat.simps) (simp add: read_nat_def digit_val_digit_char)
  next
    case False
    with 1 show ?thesis
      by (subst show_nat.simps) (simp add: read_nat_snoc digit_val_digit_char)
  qed
qed

lemma show_nat_hd: "n \<noteq> 0 \<Longrightarrow> hd (show_nat n) \<noteq> CHR ''0''"
proof (induction n rule: show_nat.induct)
  case (1 n)
  show ?case
  proof (cases "n < 10")
    case True
    then have "digit_val (digit_char n) \<noteq> digit_val (CHR ''0'')"
      using 1 True by (simp only: digit_val_digit_char) (simp add: digit_val_def)
    then show ?thesis using True by (subst show_nat.simps) auto
  next
    case False
    then have "hd (show_nat (n div 10)) \<noteq> CHR ''0''" using 1 by simp
    with False show ?thesis by (subst show_nat.simps) (simp add: show_nat_nonempty)
  qed
qed

lemma val_end_no_digit: "val_end r \<Longrightarrow> r = [] \<or> \<not> is_digit (hd r)"
  by (auto simp: val_end_def is_digit_def less_eq_char_def split: list.splits)

lemma takeWhile_digits_append:
  "val_end r \<Longrightarrow> takeWhile is_digit (s @ r) = takeWhile is_digit s"
  "val_end r \<Longrightarrow> dropWhile is_digit (s @ r) = dropWhile is_digit s @ r"
  by (induction s) (use val_end_no_digit [of r] in \<open>cases r; auto\<close>, use val_end_no_digit [of r] in \<open>cases r; auto\<close>,
       auto)

lemma lex_int_append: "lex_int s = Some (a, b) \<Longrightarrow> val_end r \<Longrightarrow> lex_int (s @ r) = Some (a, b @ r)"
  by (cases s) (auto simp: takeWhile_digits_append split: if_splits)

lemma lex_frac_append: "lex_frac s = (a, b) \<Longrightarrow> val_end r \<Longrightarrow> lex_frac (s @ r) = (a, b @ r)"
proof -
  assume *: "lex_frac s = (a, b)" "val_end r"
  consider "s = []" | c where "s = [c]" | c d t where "s = c # d # t"
    by (metis list.exhaust)
  then show ?thesis
  proof cases
    case 1
    with * show ?thesis
      by (cases r rule: lex_frac.cases) (auto simp: val_end_def)
  next
    case 2
    with * val_end_no_digit [of r] show ?thesis by (cases r) auto
  next
    case 3
    with * show ?thesis by (auto simp: takeWhile_digits_append split: if_splits)
  qed
qed

lemma lex_exp_append: "lex_exp s = (a, b) \<Longrightarrow> val_end r \<Longrightarrow> lex_exp (s @ r) = (a, b @ r)"
proof -
  assume *: "lex_exp s = (a, b)" "val_end r"
  note nd = val_end_no_digit [OF *(2)]
  consider "s = []" | c where "s = [c]" | c d where "s = [c, d]" | c d e t where "s = c # d # e # t"
    by (metis list.exhaust)
  then show ?thesis
  proof cases
    case 1
    with * show ?thesis
      by (cases r rule: lex_exp.cases) (auto simp: val_end_def)
  next
    case 2
    with * nd show ?thesis by (cases r) (auto simp: val_end_def)
  next
    case 3
    with * nd show ?thesis using takeWhile_digits_append [OF *(2), of "[]"]
      by (auto split: if_splits)
  next
    case 4
    with * show ?thesis
      using takeWhile_digits_append [OF *(2)] by (auto split: if_splits)
  qed
qed

lemma lex_number_append:
  assumes "lex_number s = Some (i, fe, tok, b)" "val_end r"
  shows "lex_number (s @ r) = Some (i, fe, tok, b @ r)"
proof -
  obtain neg s1 where neg: "(case s of c # t \<Rightarrow> if c = CHR ''-'' then ([c], t) else ([], s) | [] \<Rightarrow> ([], s)) = (neg, s1)"
    by fastforce
  with assms(1) obtain i' s2 where i: "lex_int s1 = Some (i', s2)"
    by (auto simp: lex_number_def split: option.splits)
  have "s \<noteq> []" using i neg by auto
  then have neg': "(case s @ r of c # t \<Rightarrow> if c = CHR ''-'' then ([c], t) else ([], s @ r) | [] \<Rightarrow> ([], s @ r)) = (neg, s1 @ r)"
    using neg by (auto split: list.splits if_splits)
  obtain f s3 where f: "lex_frac s2 = (f, s3)" by fastforce
  obtain e s4 where e: "lex_exp s3 = (e, s4)" by fastforce
  note app = lex_int_append [OF i assms(2)] lex_frac_append [OF f assms(2)] lex_exp_append [OF e assms(2)]
  show ?thesis
    using assms(1) unfolding lex_number_def neg neg' by (auto simp: i f e app)
qed

lemma lex_frac_val_end: "val_end r \<Longrightarrow> lex_frac r = ([], r)"
  using lex_frac_append [of "[]" "[]" "[]" r] by simp

lemma lex_exp_val_end: "val_end r \<Longrightarrow> lex_exp r = ([], r)"
  using lex_exp_append [of "[]" "[]" "[]" r] by simp

lemma lex_int_show_nat: "val_end r \<Longrightarrow> lex_int (show_nat n @ r) = Some (show_nat n, r)"
proof -
  assume r: "val_end r"
  obtain c t where ct: "show_nat n = c # t" by (cases "show_nat n") (simp add: show_nat_nonempty)
  have dig: "is_digit c" "\<forall>d \<in> set t. is_digit d" using show_nat_digits [of n] ct by auto
  have tw: "takeWhile is_digit t = t" "dropWhile is_digit t = []"
    using dig(2) by (simp_all add: takeWhile_eq_all_conv dropWhile_eq_Nil_conv)
  show ?thesis
  proof (cases "n = 0")
    case True
    then show ?thesis by (simp only: show_nat_0) simp
  next
    case False
    then have "c \<noteq> CHR ''0''" using show_nat_hd [of n] ct by simp
    then show ?thesis by (simp add: ct dig takeWhile_digits_append [OF r] tw)
  qed
qed

lemma not_minus_digit: "is_digit c \<Longrightarrow> c \<noteq> CHR ''-''"
  by (auto simp: is_digit_def less_eq_char_def)

lemma parse_number_show_int: "val_end r \<Longrightarrow> parse_number io (show_int i @ r) = Some (JInt i, r)"
proof -
  assume r: "val_end r"
  note tail = lex_int_show_nat [OF r] lex_frac_val_end [OF r] lex_exp_val_end [OF r]
  show ?thesis
  proof (cases "i < 0")
    case True
    then show ?thesis
      by (simp add: parse_number_def show_int_def lex_number_def tail read_int_def read_nat_show_nat)
  next
    case False
    obtain c t where ct: "show_nat (nat i) = c # t" by (cases "show_nat (nat i)") (simp add: show_nat_nonempty)
    have "c \<noteq> CHR ''-''" using show_nat_digits [of "nat i"] ct not_minus_digit by auto
    moreover have "lex_int (c # t @ r) = Some (c # t, r)" using tail(1) [of "nat i"] ct by simp
    moreover have "read_nat (c # t) = nat i" using read_nat_show_nat [of "nat i"] ct by simp
    ultimately show ?thesis using False
      by (simp add: parse_number_def show_int_def lex_number_def ct tail read_int_def del: lex_int.simps)
  qed
qed

lemma lex_number_tok: "lex_number s = Some (i, fe, tok, r) \<Longrightarrow> s = tok @ r"
proof -
  have f: "lex_frac x = (a, b) \<Longrightarrow> x = a @ b" for x a b
    by (cases x rule: lex_frac.cases) (auto split: if_splits)
  have e: "lex_exp x = (a, b) \<Longrightarrow> x = a @ b" for x a b
    by (cases x rule: lex_exp.cases) (auto split: if_splits)
  have i: "lex_int x = Some (a, b) \<Longrightarrow> x = a @ b" for x a b
    by (cases x) (auto simp: takeWhile_dropWhile_id split: if_splits)
  assume "lex_number s = Some (i, fe, tok, r)"
  then show ?thesis
    by (auto simp: lex_number_def split: option.splits prod.splits list.splits if_splits
        dest!: f e i simp del: lex_int.simps)
qed

lemma parse_number_show_float:
  assumes "float_ok io x" "val_end r"
  shows "parse_number io (show_float io x @ r) = Some (JFloat x, r)"
proof -
  from assms(1) obtain i fe tok where l: "lex_number (show_float io x) = Some (i, fe, tok, [])" "fe \<noteq> []"
    and rd: "read_float io (show_float io x) = Some x"
    by (auto simp: float_ok_def split: option.splits)
  from lex_number_tok [OF l(1)] have "tok = show_float io x" by simp
  with lex_number_append [OF l(1) assms(2)] l(2) rd show ?thesis
    by (simp add: parse_number_def)
qed

section \<open>Values\<close>

text \<open>A comma or a colon followed by white space: the compact and the default separators.\<close>

definition sep_ok :: "char \<Rightarrow> string \<Rightarrow> bool" where
  "sep_ok c sep = (sep \<noteq> [] \<and> hd sep = c \<and> (\<forall>w \<in> set (tl sep). is_ws w))"

lemma sep_okE:
  assumes "sep_ok c sep"
  obtains w where "sep = c # w" "\<forall>x \<in> set w. is_ws x"
  using assms by (cases sep) (auto simp: sep_ok_def)

definition val_start :: "char \<Rightarrow> bool" where
  "val_start c = (\<not> is_ws c \<and> c \<noteq> CHR '']'' \<and> c \<noteq> CHR ''}'')"

lemma val_start_digit: "is_digit c \<Longrightarrow> val_start c"
  by (auto simp: val_start_def is_digit_def is_ws_def less_eq_char_def)

lemma skip_ws_append: "\<forall>x \<in> set w. is_ws x \<Longrightarrow> skip_ws (w @ s) = skip_ws s"
  by (simp add: skip_ws_def dropWhile_append2)

lemma skip_ws_start: "val_start c \<Longrightarrow> skip_ws (c # s) = c # s"
  by (simp add: skip_ws_def val_start_def)

lemma skip_ws_punct [simp]:
  "skip_ws (CHR '','' # s) = CHR '','' # s" "skip_ws (CHR '']'' # s) = CHR '']'' # s"
  "skip_ws (CHR ''}'' # s) = CHR ''}'' # s" "skip_ws (CHR '':'' # s) = CHR '':'' # s"
  "skip_ws (CHR 0x22 # s) = CHR 0x22 # s" "skip_ws [] = []"
  by (simp_all add: skip_ws_def is_ws_def)

lemma float_first:
  assumes "float_ok io x"
  obtains c t where "show_float io x = c # t" "is_digit c \<or> c = CHR ''-''"
proof (cases "show_float io x")
  case Nil
  with assms show ?thesis by (auto simp: float_ok_def lex_number_def)
next
  case (Cons c t)
  with assms have "is_digit c \<or> c = CHR ''-''"
    by (auto simp: float_ok_def lex_number_def is_digit_def less_eq_char_def split: option.splits if_splits)
  with Cons that show ?thesis by blast
qed

lemma int_first:
  obtains c t where "show_int i = c # t" "is_digit c \<or> c = CHR ''-''"
proof (cases "i < 0")
  case True
  then show ?thesis using that by (simp add: show_int_def)
next
  case False
  obtain c t where "show_nat (nat i) = c # t" by (cases "show_nat (nat i)") (simp add: show_nat_nonempty)
  with show_nat_digits [of "nat i"] False that show ?thesis by (auto simp: show_int_def)
qed

lemma digit_not_special:
  assumes "is_digit c \<or> c = CHR ''-''"
  shows "c \<noteq> CHR 0x22" "c \<noteq> CHR ''{''" "c \<noteq> CHR ''[''" "c \<noteq> CHR ''n''" "c \<noteq> CHR ''t''" "c \<noteq> CHR ''f''"
    "val_start c"
  using assms by (auto simp: is_digit_def less_eq_char_def val_start_def is_ws_def)

lemma dumps_first:
  assumes "wf_json io j"
  obtains c t where "dumps_with isep ksep io j = c # t" "val_start c"
proof (cases j)
  case (JInt i)
  obtain c t where "show_int i = c # t" "is_digit c \<or> c = CHR ''-''" by (rule int_first)
  with JInt show ?thesis by (intro that [of c t]) (simp_all add: digit_not_special(7))
next
  case (JFloat x)
  with assms have "float_ok io x" by simp
  then obtain c t where "show_float io x = c # t" "is_digit c \<or> c = CHR ''-''" by (rule float_first)
  with JFloat show ?thesis by (intro that [of c t]) (simp_all add: digit_not_special(7))
next
  case (JBool b)
  then show ?thesis by (cases b) (auto simp: val_start_def is_ws_def intro: that)
qed (auto simp: show_string_def dquote_def val_start_def is_ws_def intro: that)

lemma parse_value_number:
  assumes "is_digit c \<or> c = CHR ''-''"
  shows "parse_value (Suc n) io (c # t) = parse_number io (c # t)"
  using digit_not_special [OF assms] by (simp add: parse_value.simps)

lemma dict_of_pairs_distinct: "dwf ps \<Longrightarrow> dict_of_pairs ps = ps"
proof -
  have new: "k \<notin> fst ` set d \<Longrightarrow> dset k v d = d @ [(k, v)]" for k :: string and v :: json and d
    by (induction d) auto
  have "distinct (map fst (d @ ps)) \<Longrightarrow> foldl (\<lambda>d p. dset (fst p) (snd p) d) d ps = d @ ps" for d
  proof (induction ps arbitrary: d)
    case (Cons p ps)
    then have "dset (fst p) (snd p) d = d @ [p]" by (subst new) auto
    with Cons show ?case by simp
  qed simp
  from this [of "[]"] show "dwf ps \<Longrightarrow> dict_of_pairs ps = ps" by (simp add: dict_of_pairs_def)
qed

lemma join_with_Cons2: "join_with sep (x # y # ys) = x @ sep @ join_with sep (y # ys)"
  by (simp add: join_with_def)

lemma join_with_single [simp]: "join_with sep [x] = x"
  by (simp add: join_with_def)

lemma join_with_Nil [simp]: "join_with sep [] = []"
  by (simp add: join_with_def)

text \<open>One value inside a text; the statement the induction carries.\<close>

definition reads_back :: "string \<Rightarrow> string \<Rightarrow> float_io \<Rightarrow> json \<Rightarrow> bool" where
  "reads_back isep ksep io j = (\<forall>n rest. length (dumps_with isep ksep io j) \<le> n \<longrightarrow> val_end rest \<longrightarrow>
     parse_value n io (dumps_with isep ksep io j @ rest) = Some (j, rest))"

lemma reads_backI:
  assumes "length (dumps_with isep ksep io j) = Suc l"
    and "\<And>m rest. l \<le> m \<Longrightarrow> parse_value (Suc m) io (dumps_with isep ksep io j @ rest) = Some (j, rest)"
  shows "reads_back isep ksep io j"
  unfolding reads_back_def
proof (intro allI impI)
  fix n rest assume "length (dumps_with isep ksep io j) \<le> n"
  with assms(1) obtain m where "n = Suc m" "l \<le> m" by (cases n) auto
  with assms(2) show "parse_value n io (dumps_with isep ksep io j @ rest) = Some (j, rest)" by simp
qed

lemma parse_items_show:
  assumes sep: "sep_ok (CHR '','') isep"
  shows "xs \<noteq> [] \<Longrightarrow> \<forall>x \<in> set xs. wf_json io x \<and> reads_back isep ksep io x \<Longrightarrow>
    Suc (length (join_with isep (map (dumps_with isep ksep io) xs))) \<le> n \<Longrightarrow>
    parse_items n io (join_with isep (map (dumps_with isep ksep io) xs) @ CHR '']'' # rest) = Some (xs, rest)"
proof (induction xs arbitrary: n)
  case (Cons x xs)
  then obtain m where m: "n = Suc m" by (cases n) auto
  from sep obtain w where w: "isep = CHR '','' # w" "\<forall>c \<in> set w. is_ws c" by (rule sep_okE)
  show ?case
  proof (cases xs)
    case Nil
    with Cons.prems have "parse_value m io (dumps_with isep ksep io x @ CHR '']'' # rest) = Some (x, CHR '']'' # rest)"
      by (simp add: reads_back_def m)
    with Nil show ?thesis by (simp add: m parse_items.simps)
  next
    case (Cons y ys)
    let ?more = "join_with isep (map (dumps_with isep ksep io) xs) @ CHR '']'' # rest"
    from Cons have jw: "join_with isep (map (dumps_with isep ksep io) (x # xs)) @ CHR '']'' # rest
      = dumps_with isep ksep io x @ CHR '','' # w @ ?more"
      by (simp add: join_with_Cons2 w)
    have len: "length (dumps_with isep ksep io x) \<le> m"
        "Suc (length (join_with isep (map (dumps_with isep ksep io) xs))) \<le> m"
      using Cons.prems(3) Cons by (simp_all add: join_with_Cons2 m w)
    have v: "parse_value m io (dumps_with isep ksep io x @ CHR '','' # w @ ?more) = Some (x, CHR '','' # w @ ?more)"
      using Cons.prems(2) len(1) by (simp add: reads_back_def)
    obtain c t where ct: "dumps_with isep ksep io y = c # t" "val_start c"
      using Cons.prems(2) Cons by (meson dumps_first list.set_intros)
    have start: "skip_ws (w @ ?more) = ?more"
      using Cons ct by (cases ys) (simp_all add: skip_ws_append w(2) join_with_Cons2 skip_ws_start)
    have "parse_items m io ?more = Some (xs, rest)"
      using Cons.IH [OF _ _ len(2)] Cons.prems(2) Cons by simp
    with v start show ?thesis unfolding jw m by (simp add: parse_items.simps)
  qed
qed simp

abbreviation show_member :: "string \<Rightarrow> string \<Rightarrow> float_io \<Rightarrow> string \<times> json \<Rightarrow> string" where
  "show_member isep ksep io kv \<equiv> show_string (fst kv) @ ksep @ dumps_with isep ksep io (snd kv)"

lemma parse_members_show:
  assumes sep: "sep_ok (CHR '','') isep" "sep_ok (CHR '':'') ksep"
  shows "kvs \<noteq> [] \<Longrightarrow> \<forall>kv \<in> set kvs. wf_json io (snd kv) \<and> reads_back isep ksep io (snd kv) \<Longrightarrow>
    Suc (length (join_with isep (map (show_member isep ksep io) kvs))) \<le> n \<Longrightarrow>
    parse_members n io (join_with isep (map (show_member isep ksep io) kvs) @ CHR ''}'' # rest) = Some (kvs, rest)"
proof (induction kvs arbitrary: n)
  case (Cons kv kvs)
  then obtain m where m: "n = Suc m" by (cases n) auto
  from sep(1) obtain w where w: "isep = CHR '','' # w" "\<forall>c \<in> set w. is_ws c" by (rule sep_okE)
  from sep(2) obtain u where u: "ksep = CHR '':'' # u" "\<forall>c \<in> set u. is_ws c" by (rule sep_okE)
  obtain k v where kv: "kv = (k, v)" by fastforce
  obtain c t where ct: "dumps_with isep ksep io v = c # t" "val_start c"
    using Cons.prems(2) kv by (metis dumps_first list.set_intros(1) snd_conv)
  have str: "parse_chars (concat (map esc_char k) @ CHR 0x22 # r) = Some (k, r)" for r
    by (rule parse_chars_show)
  have key: "parse_members (Suc m) io (show_member isep ksep io kv @ r) =
      (case parse_value m io (dumps_with isep ksep io v @ r) of
         None \<Rightarrow> None
       | Some (v', r') \<Rightarrow>
           (case skip_ws r' of
              [] \<Rightarrow> None
            | c # t \<Rightarrow> if c = CHR ''}'' then Some ([(k, v')], t)
                else if c = CHR '','' then map_option (apfst ((#) (k, v'))) (parse_members m io (skip_ws t))
                else None))" for r
    using ct by (simp add: parse_members.simps kv show_string_def dquote_def str u skip_ws_append skip_ws_start)
  show ?case
  proof (cases kvs)
    case Nil
    with Cons.prems kv have "parse_value m io (dumps_with isep ksep io v @ CHR ''}'' # rest) = Some (v, CHR ''}'' # rest)"
      by (simp add: reads_back_def m)
    with Nil kv show ?thesis using key [of "CHR ''}'' # rest"] by (simp add: m)
  next
    case (Cons y ys)
    let ?more = "join_with isep (map (show_member isep ksep io) kvs) @ CHR ''}'' # rest"
    from Cons have jw: "join_with isep (map (show_member isep ksep io) (kv # kvs)) @ CHR ''}'' # rest
      = show_member isep ksep io kv @ CHR '','' # w @ ?more"
      by (simp add: join_with_Cons2 w)
    have len: "length (dumps_with isep ksep io v) \<le> m"
        "Suc (length (join_with isep (map (show_member isep ksep io) kvs))) \<le> m"
      using Cons.prems(3) Cons by (simp_all add: join_with_Cons2 m w kv)
    have v: "parse_value m io (dumps_with isep ksep io v @ CHR '','' # w @ ?more) = Some (v, CHR '','' # w @ ?more)"
      using Cons.prems(2) len(1) kv by (simp add: reads_back_def)
    have start: "skip_ws (w @ ?more) = ?more"
      using Cons by (cases ys) (simp_all add: skip_ws_append w(2) join_with_Cons2 show_string_def dquote_def)
    have "parse_members m io ?more = Some (kvs, rest)"
      using Cons.IH [OF _ _ len(2)] Cons.prems(2) Cons by simp
    with v start kv key show ?thesis unfolding jw m by simp
  qed
qed simp

lemma reads_back_wf:
  assumes sep: "sep_ok (CHR '','') isep" "sep_ok (CHR '':'') ksep"
  shows "wf_json io j \<Longrightarrow> reads_back isep ksep io j"
proof (induction j)
  case (JInt i)
  show ?case unfolding reads_back_def
  proof (intro allI impI)
    fix n rest assume n: "length (dumps_with isep ksep io (JInt i)) \<le> n" and r: "val_end rest"
    obtain c t where ct: "show_int i = c # t" "is_digit c \<or> c = CHR ''-''" by (rule int_first)
    with n obtain m where "n = Suc m" by (cases n) auto
    with ct parse_number_show_int [OF r, of io i] parse_value_number [OF ct(2), of m io "t @ rest"]
    show "parse_value n io (dumps_with isep ksep io (JInt i) @ rest) = Some (JInt i, rest)" by simp
  qed
next
  case (JFloat x)
  then have ok: "float_ok io x" by simp
  show ?case unfolding reads_back_def
  proof (intro allI impI)
    fix n rest assume n: "length (dumps_with isep ksep io (JFloat x)) \<le> n" and r: "val_end rest"
    from ok obtain c t where ct: "show_float io x = c # t" "is_digit c \<or> c = CHR ''-''" by (rule float_first)
    with n obtain m where "n = Suc m" by (cases n) auto
    with ct parse_number_show_float [OF ok r] parse_value_number [OF ct(2), of m io "t @ rest"]
    show "parse_value n io (dumps_with isep ksep io (JFloat x) @ rest) = Some (JFloat x, rest)" by simp
  qed
next
  case (JStr s)
  have "parse_value (Suc m) io (show_string s @ rest) = Some (JStr s, rest)" for m rest
    by (simp add: parse_value.simps show_string_def dquote_def parse_chars_show)
  then show ?case by (simp add: reads_back_def show_string_def) (metis Suc_le_D)
next
  case (JArr xs)
  have "parse_value (Suc m) io (dumps_with isep ksep io (JArr xs) @ rest) = Some (JArr xs, rest)"
    if m: "Suc (length (join_with isep (map (dumps_with isep ksep io) xs))) \<le> m" for m rest
  proof (cases xs)
    case Nil
    then show ?thesis by (simp add: parse_value.simps)
  next
    case (Cons y ys)
    let ?body = "join_with isep (map (dumps_with isep ksep io) xs) @ CHR '']'' # rest"
    obtain c t where ct: "dumps_with isep ksep io y = c # t" "val_start c"
      using JArr.prems Cons by (meson dumps_first list.set_intros(1) wf_json.simps(2))
    then obtain t' where b: "?body = c # t'" using Cons by (cases ys) (simp_all add: join_with_Cons2)
    have "parse_items m io ?body = Some (xs, rest)"
      using JArr Cons m by (intro parse_items_show [OF sep(1)]) simp_all
    with b ct(2) show ?thesis
      by (simp add: parse_value.simps skip_ws_start) (simp add: val_start_def)
  qed
  then show ?case by (intro reads_backI) simp_all
next
  case (JObj kvs)
  have "parse_value (Suc m) io (dumps_with isep ksep io (JObj kvs) @ rest) = Some (JObj kvs, rest)"
    if m: "Suc (length (join_with isep (map (show_member isep ksep io) kvs))) \<le> m" for m rest
  proof (cases kvs)
    case Nil
    then show ?thesis by (simp add: parse_value.simps)
  next
    case (Cons y ys)
    let ?body = "join_with isep (map (show_member isep ksep io) kvs) @ CHR ''}'' # rest"
    obtain t' where b: "?body = CHR 0x22 # t'"
      using Cons by (cases ys) (simp_all add: join_with_Cons2 show_string_def dquote_def)
    have "\<forall>kv \<in> set kvs. wf_json io (snd kv) \<and> reads_back isep ksep io (snd kv)"
      using JObj.prems JObj.IH by (metis snds.intros surjective_pairing wf_json.simps(3))
    then have "parse_members m io ?body = Some (kvs, rest)"
      using Cons m by (intro parse_members_show [OF sep]) simp_all
    moreover have "dict_of_pairs kvs = kvs" using JObj.prems by (simp add: dict_of_pairs_distinct)
    ultimately show ?thesis using b by (simp add: parse_value.simps)
  qed
  then show ?case by (intro reads_backI) simp_all
qed (auto simp: reads_back_def parse_value.simps dest!: Suc_le_D)

lemma loads_dumps_with:
  assumes "sep_ok (CHR '','') isep" "sep_ok (CHR '':'') ksep" "wf_json io j"
  shows "loads io (dumps_with isep ksep io j) = Some j"
proof -
  obtain c t where ct: "dumps_with isep ksep io j = c # t" "val_start c"
    using assms(3) by (rule dumps_first)
  have "parse_value (Suc (length (dumps_with isep ksep io j))) io (dumps_with isep ksep io j @ []) = Some (j, [])"
    using reads_back_wf [OF assms] unfolding reads_back_def by (meson le_SucI order_refl val_end_simps(1))
  with ct show ?thesis by (simp add: loads_def skip_ws_start)
qed

lemma sep_ok_consts: "sep_ok (CHR '','') '',''" "sep_ok (CHR '':'') '':''"
    "sep_ok (CHR '','') '', ''" "sep_ok (CHR '':'') '': ''"
  by (simp_all add: sep_ok_def is_ws_def)

lemma loads_dumps_compact [codec_simps]: "wf_json io j \<Longrightarrow> loads io (dumps_compact io j) = Some j"
  by (rule loads_dumps_with [OF sep_ok_consts(1,2)])

lemma loads_dumps_default [codec_simps]: "wf_json io j \<Longrightarrow> loads io (dumps_default io j) = Some j"
  by (rule loads_dumps_with [OF sep_ok_consts(3,4)])

lemma dumps_compact_inject:
  "wf_json io j \<Longrightarrow> wf_json io k \<Longrightarrow> dumps_compact io j = dumps_compact io k \<longleftrightarrow> j = k"
  by (metis loads_dumps_compact option.inject)

lemma loads_bytes_utf8 [codec_simps]: "wf_json io j \<Longrightarrow> loads_bytes io (utf8 (dumps_compact io j)) = Some j"
  by (simp add: loads_bytes_def utf8_decode_utf8 loads_dumps_compact)

lemma safe_json_loads_dumps [codec_simps]:
  "wf_json io j \<Longrightarrow> json_depth j \<le> d \<Longrightarrow> safe_json_loads io (utf8 (dumps_compact io j)) d = Some j"
  by (simp add: safe_json_loads_def loads_bytes_utf8 validate_json_depth_iff)

lemma safe_json_loads_depth: "safe_json_loads io raw d = Some j \<Longrightarrow> json_depth j \<le> d"
  by (auto simp: safe_json_loads_def validate_json_depth_iff split: option.splits if_splits)

section \<open>Sorted keys\<close>

text \<open>
  \<open>sort_keys\<close> permutes the members of every object, so a printed body determines each
  member of the object it was printed from.
\<close>

lemma map_of_sort_key: "dwf d \<Longrightarrow> map_of (sort_key f d) = map_of d"
  by (rule map_of_inject_set [THEN iffD2]) (simp_all add: distinct_map inj_on_subset)

lemma dkeys_map_snd: "dkeys (map (\<lambda>kv. (fst kv, g (snd kv))) d) = dkeys d"
  by (simp add: comp_def)

lemma map_of_map_snd: "map_of (map (\<lambda>kv. (fst kv, g (snd kv))) d) k = map_option g (map_of d k)"
  by (induction d) auto

lemma dwf_sort_key [simp]: "dwf (sort_key f d) \<longleftrightarrow> dwf d"
  by (metis card_distinct distinct_card length_map length_sort set_map set_sort)

lemma wf_json_sort: "wf_json io j \<Longrightarrow> wf_json io (sort_json j)"
proof (induction j)
  case (JObj kvs)
  have "dwf (map (\<lambda>kv. (fst kv, sort_json (snd kv))) kvs)"
    using JObj.prems by (simp add: comp_def)
  moreover have "\<forall>kv \<in> set kvs. wf_json io (sort_json (snd kv))"
    using JObj.prems JObj.IH by (metis snds.intros surjective_pairing wf_json.simps(3))
  ultimately show ?case by simp
qed auto

lemma sort_json_get:
  assumes "sort_json (JObj a) = sort_json (JObj b)" "dwf a" "dwf b"
  shows "map_option sort_json (dget a k) = map_option sort_json (dget b k)"
proof -
  let ?g = "map (\<lambda>kv. (fst kv, sort_json (snd kv)))"
  have "map_of (sort_key fst (?g a)) = map_of (sort_key fst (?g b))" using assms(1) by simp
  moreover have "dwf (?g a)" "dwf (?g b)" using assms(2,3) by (simp_all add: comp_def)
  ultimately have "map_of (?g a) k = map_of (?g b) k" by (simp add: map_of_sort_key)
  then show ?thesis by (simp only: map_of_map_snd)
qed

lemma dumps_sorted_get:
  assumes "dumps_sorted io (JObj a) = dumps_sorted io (JObj b)"
    and "wf_json io (JObj a)" "wf_json io (JObj b)"
  shows "map_option sort_json (dget a k) = map_option sort_json (dget b k)"
proof -
  have "sort_json (JObj a) = sort_json (JObj b)"
    using assms wf_json_sort dumps_compact_inject by blast
  with assms(2,3) show ?thesis by (intro sort_json_get) simp_all
qed

lemma sort_json_scalar [simp]:
  "sort_json j = JStr s \<longleftrightarrow> j = JStr s" "sort_json j = JInt i \<longleftrightarrow> j = JInt i"
  "sort_json j = JBool b \<longleftrightarrow> j = JBool b" "sort_json j = JFloat r \<longleftrightarrow> j = JFloat r"
  by (cases j; auto)+

text \<open>The object a sorted text reads back as: the same members, each sorted inside.\<close>

lemma sort_json_obj:
  assumes "dwf a"
  shows "\<exists>b. sort_json (JObj a) = JObj b \<and> dwf b \<and> (\<forall>k. dget b k = map_option sort_json (dget a k))"
proof -
  let ?g = "map (\<lambda>kv. (fst kv, sort_json (snd kv)))"
  have d: "dwf (?g a)" using assms by (simp add: comp_def)
  have "dget (sort_key fst (?g a)) k = map_option sort_json (dget a k)" for k
    using d by (simp only: map_of_sort_key map_of_map_snd)
  with d show ?thesis by simp
qed

lemma loads_dumps_sorted [codec_simps]: "wf_json io j \<Longrightarrow> loads io (dumps_sorted io j) = Some (sort_json j)"
  by (simp add: loads_dumps_compact wf_json_sort)

end
