(* ===== verification/Base64.thy ===== *)
theory Base64
  imports Prelude
begin

text \<open>
  \<open>base64.b64encode\<close> and \<open>base64.b64decode\<close> (non-strict: characters outside the
  alphabet are skipped, a padding sequence after at least two characters of a quad ends
  the input), and the URL-safe pair used by invite tokens. Bytes and sextets are
  naturals inside, so that the bit shuffling is arithmetic.
\<close>

definition b64_char :: "nat \<Rightarrow> char" where
  "b64_char n =
     (if n < 26 then char_of (65 + n) else if n < 52 then char_of (71 + n)
      else if n < 62 then char_of (n - 4) else if n = 62 then CHR ''+'' else CHR ''/'')"

definition b64_val :: "char \<Rightarrow> nat option" where
  "b64_val c = (let n = of_char c :: nat in
     if 65 \<le> n \<and> n \<le> 90 then Some (n - 65)
     else if 97 \<le> n \<and> n \<le> 122 then Some (n - 71)
     else if 48 \<le> n \<and> n \<le> 57 then Some (n + 4)
     else if n = 43 then Some 62 else if n = 47 then Some 63 else None)"

fun b64_sextets :: "nat list \<Rightarrow> string" where
  "b64_sextets (a # b # c # bs) =
     b64_char (a div 4) # b64_char (a mod 4 * 16 + b div 16) #
     b64_char (b mod 16 * 4 + c div 64) # b64_char (c mod 64) # b64_sextets bs"
| "b64_sextets [a, b] =
     [b64_char (a div 4), b64_char (a mod 4 * 16 + b div 16), b64_char (b mod 16 * 4), CHR ''='']"
| "b64_sextets [a] = [b64_char (a div 4), b64_char (a mod 4 * 16), CHR ''='', CHR ''='']"
| "b64_sextets [] = []"

definition b64encode :: "bytes \<Rightarrow> string" where
  "b64encode bs = b64_sextets (map unat bs)"

text \<open>
  The scanner: position in the quad, the bits left over from the last character, the
  padding characters seen in a row. \<open>None\<close> is \<open>binascii.Error\<close>, a \<open>ValueError\<close>.
\<close>

fun b64_scan :: "string \<Rightarrow> nat \<Rightarrow> nat \<Rightarrow> nat \<Rightarrow> nat list option" where
  "b64_scan [] quad left pads = (if quad = 0 then Some [] else None)"
| "b64_scan (c # s) quad left pads =
     (if c = CHR ''='' then
        (if 2 \<le> quad \<and> 4 \<le> quad + Suc pads then Some [] else b64_scan s quad left (Suc pads))
      else case b64_val c of
        None \<Rightarrow> b64_scan s quad left pads
      | Some v \<Rightarrow>
          (if quad = 0 then b64_scan s 1 v 0
           else if quad = 1 then map_option ((#) (left * 4 + v div 16)) (b64_scan s 2 (v mod 16) 0)
           else if quad = 2 then map_option ((#) (left * 16 + v div 4)) (b64_scan s 3 (v mod 4) 0)
           else map_option ((#) (left * 64 + v)) (b64_scan s 0 0 0)))"

text \<open>A \<open>str\<close> argument with a non-ASCII character raises \<open>ValueError\<close>.\<close>

definition b64decode :: "string \<Rightarrow> bytes option" where
  "b64decode s = (if \<forall>c \<in> set s. (of_char c :: nat) < 128
     then map_option (map word_of_nat) (b64_scan s 0 0 0) else None)"

definition urlsafe_b64encode :: "bytes \<Rightarrow> string" where
  "urlsafe_b64encode bs = map (\<lambda>c. if c = CHR ''+'' then CHR ''-'' else if c = CHR ''/'' then CHR ''_'' else c)
     (b64encode bs)"

definition urlsafe_b64decode :: "string \<Rightarrow> bytes option" where
  "urlsafe_b64decode s = b64decode
     (map (\<lambda>c. if c = CHR ''-'' then CHR ''+'' else if c = CHR ''_'' then CHR ''/'' else c) s)"

lemma of_char_b64_char:
  "n < 64 \<Longrightarrow> (of_char (b64_char n) :: nat) =
     (if n < 26 then 65 + n else if n < 52 then 71 + n else if n < 62 then n - 4 else if n = 62 then 43 else 47)"
  by (simp add: b64_char_def)

lemma b64_char_facts:
  assumes "n < 64"
  shows "b64_val (b64_char n) = Some n" "b64_char n \<noteq> CHR ''=''" "(of_char (b64_char n) :: nat) < 128"
    "b64_char n \<noteq> CHR ''-''" "b64_char n \<noteq> CHR ''_''"
proof -
  note v = of_char_b64_char [OF assms]
  show "b64_val (b64_char n) = Some n" using assms by (auto simp: b64_val_def Let_def v)
  show "(of_char (b64_char n) :: nat) < 128" using assms by (auto simp: v)
  have ne: "c \<noteq> d" if "(of_char c :: nat) \<noteq> of_char d" for c d :: char using that by blast
  show "b64_char n \<noteq> CHR ''=''" "b64_char n \<noteq> CHR ''-''" "b64_char n \<noteq> CHR ''_''"
    using assms by (intro ne; auto simp: v)+
qed

lemma split_radix: "y < k \<Longrightarrow> (x * k + y) div k = x" "y < k \<Longrightarrow> (x * k + y) mod k = (y::nat)"
  by simp_all

lemma sextets_join:
  fixes a b c :: nat
  assumes "b < 256" "c < 256"
  shows "a div 4 * 4 + (a mod 4 * 16 + b div 16) div 16 = a"
    "(a mod 4 * 16 + b div 16) mod 16 * 16 + (b mod 16 * 4 + c div 64) div 4 = b"
    "(b mod 16 * 4 + c div 64) mod 4 * 64 + c mod 64 = c"
proof -
  have small: "b div 16 < 16" "c div 64 < 4" using assms by (simp_all add: less_mult_imp_div_less)
  show "a div 4 * 4 + (a mod 4 * 16 + b div 16) div 16 = a"
    by (simp only: split_radix(1) [OF small(1)] div_mult_mod_eq)
  show "(a mod 4 * 16 + b div 16) mod 16 * 16 + (b mod 16 * 4 + c div 64) div 4 = b"
    by (simp only: split_radix [OF small(1)] split_radix [OF small(2)] div_mult_mod_eq)
  show "(b mod 16 * 4 + c div 64) mod 4 * 64 + c mod 64 = c"
    by (simp only: split_radix [OF small(2)] div_mult_mod_eq)
qed

lemma sextet_bounds:
  fixes a b c :: nat
  assumes "a < 256" "b < 256" "c < 256"
  shows "a div 4 < 64" "a mod 4 * 16 + b div 16 < 64" "b mod 16 * 4 + c div 64 < 64" "c mod 64 < 64"
    "b mod 16 * 4 < 64" "a mod 4 * 16 < 64"
proof -
  have d: "a div 4 < 64" "b div 16 < 16" "c div 64 < 4" using assms by (simp_all add: less_mult_imp_div_less)
  have m: "a mod 4 < 4" "b mod 16 < 16" by simp_all
  show "a div 4 < 64" "c mod 64 < 64" using d by simp_all
  show "a mod 4 * 16 + b div 16 < 64" "b mod 16 * 4 + c div 64 < 64" "b mod 16 * 4 < 64" "a mod 4 * 16 < 64"
    using d m by linarith+
qed

lemma b64_scan_quad:
  assumes "w < 64" "x < 64"
  shows "b64_scan (b64_char w # b64_char x # s) 0 left pads =
      map_option ((#) (w * 4 + x div 16)) (b64_scan s 2 (x mod 16) 0)"
    and "b64_scan (b64_char w # s) 2 left pads = map_option ((#) (left * 16 + w div 4)) (b64_scan s 3 (w mod 4) 0)"
    and "b64_scan (b64_char w # s) 3 left pads = map_option ((#) (left * 64 + w)) (b64_scan s 0 0 0)"
  using assms by (simp_all add: b64_char_facts)

lemma b64_scan_pad: "b64_scan ''='' 3 left 0 = Some []" "b64_scan ''=='' 2 left 0 = Some []"
  by simp_all

declare b64_scan.simps [simp del]

lemma b64_scan_sextets: "\<forall>n \<in> set ns. n < 256 \<Longrightarrow> b64_scan (b64_sextets ns) 0 left pads = Some ns"
proof (induction ns arbitrary: left pads rule: b64_sextets.induct)
  case (1 a b c bs)
  then have abc: "a < 256" "b < 256" "c < 256" by simp_all
  note bnd = sextet_bounds [OF abc] and joins = sextets_join [OF abc(2,3)]
  have "b64_scan (b64_sextets bs) 0 0 0 = Some bs" using 1 by simp
  then show ?case
    by (simp only: b64_sextets.simps b64_scan_quad(1) [OF bnd(1,2)] b64_scan_quad(2) [OF bnd(3) bnd(3)]
        b64_scan_quad(3) [OF bnd(4) bnd(4)] joins option.map)
next
  case (2 a b)
  then have ab: "a < 256" "b < 256" by simp_all
  have bnd: "a div 4 < 64" "a mod 4 * 16 + b div 16 < 64" "b mod 16 * 4 < 64"
    using sextet_bounds [OF ab, of 0] by simp_all
  have joins: "a div 4 * 4 + (a mod 4 * 16 + b div 16) div 16 = a"
    "(a mod 4 * 16 + b div 16) mod 16 * 16 + b mod 16 * 4 div 4 = b"
    using sextets_join(1,2) [OF ab(2), of 0 a] by simp_all
  show ?case
    by (simp only: b64_sextets.simps b64_scan_quad(1) [OF bnd(1,2)] b64_scan_quad(2) [OF bnd(3,3)]
        b64_scan_pad joins option.map)
next
  case (3 a)
  then have a: "a < 256" by simp
  have bnd: "a div 4 < 64" "a mod 4 * 16 < 64" using sextet_bounds [OF a, of 0 0] by simp_all
  have joins: "a div 4 * 4 + a mod 4 * 16 div 16 = a" using sextets_join(1) [of 0 0 a] by simp
  show ?case
    by (simp only: b64_sextets.simps b64_scan_quad(1) [OF bnd] b64_scan_pad joins option.map)
qed (simp add: b64_scan.simps)

lemma b64_sextets_chars:
  "\<forall>n \<in> set ns. n < 256 \<Longrightarrow> c \<in> set (b64_sextets ns) \<Longrightarrow> c = CHR ''='' \<or> c \<in> b64_char ` {n. n < 64}"
proof (induction ns rule: b64_sextets.induct)
  case (1 a b d bs)
  then have abd: "a < 256" "b < 256" "d < 256" by simp_all
  note sx = sextet_bounds [OF abd]
  have "c \<in> b64_char ` {n. n < 64} \<or> c \<in> set (b64_sextets bs)"
    using 1(3) sx by auto
  with 1 show ?case by auto
next
  case (2 a b)
  then have ab: "a < 256" "b < 256" by simp_all
  with 2(2) sextet_bounds [OF ab, of 0] show ?case by auto
next
  case (3 a)
  then have a: "a < 256" by simp
  with 3(2) sextet_bounds [OF a, of 0 0] show ?case by auto
qed simp

lemma unat_list_bound: "\<forall>n \<in> set (map unat (bs :: bytes)). n < 256"
  using unat_lt2p_b by auto

lemma map_unat_back: "map word_of_nat (map unat (bs :: bytes)) = bs"
  by (simp add: comp_def)

lemma b64_encode_char: "c \<in> set (b64encode bs) \<Longrightarrow> c = CHR ''='' \<or> (\<exists>n < 64. c = b64_char n)"
  unfolding b64encode_def using b64_sextets_chars [OF unat_list_bound, of c bs] by auto

lemma b64decode_b64encode [codec_simps]: "b64decode (b64encode bs) = Some bs"
proof -
  have "\<forall>c \<in> set (b64encode bs). (of_char c :: nat) < 128"
    using b64_encode_char b64_char_facts(3) by fastforce
  moreover have "b64_scan (b64encode bs) 0 0 0 = Some (map unat bs)"
    unfolding b64encode_def using unat_list_bound by (rule b64_scan_sextets)
  ultimately show ?thesis by (simp add: b64decode_def comp_def)
qed

lemma urlsafe_roundtrip [codec_simps]: "urlsafe_b64decode (urlsafe_b64encode bs) = Some bs"
proof -
  have "c \<noteq> CHR ''-'' \<and> c \<noteq> CHR ''_''" if "c \<in> set (b64encode bs)" for c
    using b64_encode_char [OF that] b64_char_facts(4,5) by auto
  then have "map (\<lambda>c. if c = CHR ''-'' then CHR ''+'' else if c = CHR ''_'' then CHR ''/'' else c)
      (urlsafe_b64encode bs) = b64encode bs"
    by (auto simp: urlsafe_b64encode_def intro!: map_idI)
  then show ?thesis by (simp add: urlsafe_b64decode_def b64decode_b64encode)
qed

lemma b64encode_inject: "b64encode a = b64encode b \<longleftrightarrow> a = b"
  by (metis b64decode_b64encode option.inject)

lemma b64encode_Nil_iff [simp]: "b64encode bs = [] \<longleftrightarrow> bs = []"
  by (cases "map unat bs" rule: b64_sextets.cases) (auto simp: b64encode_def)

end
