(* ===== verification/Wire.thy ===== *)
theory Wire
  imports Json_Codec Base64
begin

text \<open>
  protocol.py, the declarative part: known protocol versions, the message types, priorities
  and error codes, the schema check of control payloads, and the canonical byte strings
  that the Ed25519 signatures of the protocol cover (capability announcement, inner source,
  HELLO, invite). Each canonical form is proved injective: two different bodies are never
  signed as the same bytes.

  Arguments that come unchecked from the wire are \<^typ>\<open>json\<close> values, so that the
  \<open>isinstance\<close> tests of the source are branches of the model.
\<close>

section \<open>Protocol versions\<close>

definition VALID_PROTOCOL_VERSIONS :: "string list" where
  "VALID_PROTOCOL_VERSIONS =
    [''ironmesh/0.3'', ''ironmesh/0.4'', ''ironmesh/0.5'', ''ironmesh/0.5.1'', ''ironmesh/0.5.2'',
     ''ironmesh/0.6'', ''ironmesh/0.7'', ''ironmesh/0.8'', ''ironmesh/0.9'']"

definition is_known_protocol_version :: "string \<Rightarrow> bool" where
  "is_known_protocol_version v = (v \<in> set VALID_PROTOCOL_VERSIONS)"

definition MAX_FRAME_BYTES :: nat where
  "MAX_FRAME_BYTES = 1 * 1024 * 1024"

section \<open>Signed canonical bodies\<close>

definition CAPABILITY_ANNOUNCE_SIGNED_VERSION :: int where
  "CAPABILITY_ANNOUNCE_SIGNED_VERSION = 1"

definition CAPABILITY_ANNOUNCE_MAX_AGE_DEFAULT :: real where
  "CAPABILITY_ANNOUNCE_MAX_AGE_DEFAULT = 300"

text \<open>\<open>isinstance(x, str) and x\<close>.\<close>

definition nonempty_str :: "json \<Rightarrow> bool" where
  "nonempty_str j = (case j of JStr s \<Rightarrow> s \<noteq> [] | _ \<Rightarrow> False)"

definition is_str :: "json \<Rightarrow> bool" where
  "is_str j = (case j of JStr s \<Rightarrow> True | _ \<Rightarrow> False)"

definition canonical_json :: "float_io \<Rightarrow> (string \<times> json) list \<Rightarrow> bytes" where
  "canonical_json io body = utf8 (dumps_sorted io (JObj body))"

definition capability_announce_body :: "json \<Rightarrow> json list \<Rightarrow> real \<Rightarrow> json \<Rightarrow> (string \<times> json) list" where
  "capability_announce_body origin caps t version =
     [(''origin'', origin), (''capabilities'', JArr caps), (''announced_at'', JFloat t),
      (''version'', version)]"

definition canonical_capability_announce_bytes ::
  "float_io \<Rightarrow> json \<Rightarrow> json \<Rightarrow> json \<Rightarrow> json \<Rightarrow> bytes py" where
  "canonical_capability_announce_bytes io origin capabilities announced_at version =
    (if \<not> nonempty_str origin then Inl (ValueError ''origin must be non-empty string'')
     else case capabilities of
       JArr caps \<Rightarrow>
         if \<not> (\<forall>c \<in> set caps. nonempty_str c)
         then Inl (ValueError ''capabilities entries must be non-empty strings'')
         else (case py_number announced_at of
           None \<Rightarrow> Inl (ValueError ''announced_at must be a numeric timestamp'')
         | Some t \<Rightarrow>
             (case py_int version of
               None \<Rightarrow> Inl (ValueError ''version must be a positive int'')
             | Some v \<Rightarrow>
                 if v < 1 then Inl (ValueError ''version must be a positive int'')
                 else Inr (canonical_json io (capability_announce_body origin caps t version))))
     | _ \<Rightarrow> Inl (ValueError ''capabilities must be list''))"

text \<open>
  The inner source body: length-prefixed fields. \<open>len(b).to_bytes(4, "big")\<close> raises
  \<open>OverflowError\<close> from 4 GiB on.
\<close>

definition lp :: "bytes \<Rightarrow> bytes py" where
  "lp b = (case to_bytes 4 (int (length b)) of None \<Rightarrow> Inl OverflowError | Some p \<Rightarrow> Inr (p @ b))"

definition canonical_inner_source_bytes :: "string \<Rightarrow> string \<Rightarrow> string \<Rightarrow> bytes \<Rightarrow> bytes py" where
  "canonical_inner_source_bytes source destination msg_id payload =
     py_bind (lp (utf8 source)) (\<lambda>a. py_bind (lp (utf8 destination)) (\<lambda>b.
     py_bind (lp (utf8 msg_id)) (\<lambda>c. py_bind (lp payload) (\<lambda>d. Inr (a @ b @ c @ d)))))"

text \<open>HELLO. The link binding is the sixth key, left out when it is \<open>None\<close>.\<close>

definition hello_body :: "json \<Rightarrow> json \<Rightarrow> json \<Rightarrow> json \<Rightarrow> json \<Rightarrow> json \<Rightarrow> (string \<times> json) list" where
  "hello_body channel_binding ephemeral_public identity_public name protocol_version rns_link_id =
     [(''channel_binding'', channel_binding), (''ephemeral_public'', ephemeral_public),
      (''identity_public'', identity_public), (''name'', name), (''protocol_version'', protocol_version)]
     @ (if rns_link_id = JNull then [] else [(''rns_link_id'', rns_link_id)])"

definition canonical_hello_bytes ::
  "float_io \<Rightarrow> json \<Rightarrow> json \<Rightarrow> json \<Rightarrow> json \<Rightarrow> json \<Rightarrow> json \<Rightarrow> bytes py" where
  "canonical_hello_bytes io channel_binding ephemeral_public identity_public name protocol_version rns_link_id =
    (if \<not> nonempty_str ephemeral_public then Inl (ValueError ''ephemeral_public must be non-empty string'')
     else if \<not> nonempty_str identity_public then Inl (ValueError ''identity_public must be non-empty string'')
     else if \<not> is_str channel_binding then Inl (ValueError ''channel_binding must be a string'')
     else if \<not> is_str name then Inl (ValueError ''name must be a string'')
     else if \<not> is_str protocol_version then Inl (ValueError ''protocol_version must be a string'')
     else if rns_link_id \<noteq> JNull \<and> \<not> nonempty_str rns_link_id
       then Inl (ValueError ''rns_link_id must be a non-empty string when provided'')
     else Inr (canonical_json io
       (hello_body channel_binding ephemeral_public identity_public name protocol_version rns_link_id)))"

section \<open>Invite tokens: lifetime and canonical body\<close>

definition INVITE_SIGNED_VERSION :: int where
  "INVITE_SIGNED_VERSION = 1"

definition INVITE_MAX_AGE_BY_PROFILE :: "(string, real) dict" where
  "INVITE_MAX_AGE_BY_PROFILE =
     [(''lan'', 900), (''homelab'', 900), (''lora'', 1800), (''offline'', 1800), (''tactical'', 300)]"

definition INVITE_MAX_AGE_DEFAULT :: real where
  "INVITE_MAX_AGE_DEFAULT = 900"

definition invite_max_age_for_profile :: "string option \<Rightarrow> real" where
  "invite_max_age_for_profile profile = (case profile of
     None \<Rightarrow> INVITE_MAX_AGE_DEFAULT
   | Some p \<Rightarrow> if p = [] then INVITE_MAX_AGE_DEFAULT
       else dget_default INVITE_MAX_AGE_DEFAULT INVITE_MAX_AGE_BY_PROFILE p)"

definition invite_body ::
  "string \<Rightarrow> string \<Rightarrow> string \<Rightarrow> string \<Rightarrow> real \<Rightarrow> real \<Rightarrow> string \<Rightarrow> string \<Rightarrow> int \<Rightarrow> (string \<times> json) list" where
  "invite_body nonce inviter_id inviter_key endpoint issued_at expires_at allowed_peers profile version =
     [(''version'', JInt version), (''nonce'', JStr nonce), (''inviter_id'', JStr inviter_id),
      (''inviter_key'', JStr inviter_key), (''endpoint'', JStr endpoint), (''issued_at'', JFloat issued_at),
      (''expires_at'', JFloat expires_at), (''allowed_peers'', JStr allowed_peers), (''profile'', JStr profile)]"

text \<open>
  The callers pass an \<open>InviteToken\<close>, whose fields \<open>parse_invite\<close> has already
  converted, so the arguments are typed and the remaining checks are emptiness and sign.
\<close>

definition canonical_invite_bytes ::
  "float_io \<Rightarrow> string \<Rightarrow> string \<Rightarrow> string \<Rightarrow> string \<Rightarrow> real \<Rightarrow> real \<Rightarrow> string \<Rightarrow> string \<Rightarrow> int \<Rightarrow> bytes py" where
  "canonical_invite_bytes io nonce inviter_id inviter_key endpoint issued_at expires_at allowed_peers profile version =
    (if nonce = [] then Inl (ValueError ''nonce must be non-empty string'')
     else if inviter_id = [] then Inl (ValueError ''inviter_id must be non-empty string'')
     else if inviter_key = [] then Inl (ValueError ''inviter_key must be non-empty string'')
     else if endpoint = [] then Inl (ValueError ''endpoint must be non-empty string'')
     else if version < 1 then Inl (ValueError ''version must be a positive int'')
     else Inr (canonical_json io (invite_body nonce inviter_id inviter_key endpoint issued_at expires_at
       allowed_peers profile version)))"

section \<open>Message types, priorities, error codes\<close>

datatype message_type =
    HELLO | GOODBYE | MSG | ACK | PING | PONG | ERROR
  | PASSPHRASE_CHALLENGE | PASSPHRASE_VERIFIED | PASSPHRASE_REJECTED | SKIP_OFFER
  | KEY_ROTATE | REKEY_REQUEST | REKEY_RESPONSE | REVOCATION
  | REQ | RESP | HEARTBEAT | HEALTH | DISCOVER | DISCOVER_RESP | SYS | RATE_LIMITED | PEER_INFO
  | ROUTE_ANNOUNCE | ROUTE_UNREACHABLE | CAPABILITY_ANNOUNCE | CAPABILITY_QUERY | CONV | GROUP_BROADCAST

text \<open>A \<open>MessageType\<close> is a \<open>str\<close>; on the wire and as a dictionary key it is this value.\<close>

fun mt_value :: "message_type \<Rightarrow> string" where
  "mt_value HELLO = ''HELLO''"
| "mt_value GOODBYE = ''GOODBYE''"
| "mt_value MSG = ''MSG''"
| "mt_value ACK = ''ACK''"
| "mt_value PING = ''PING''"
| "mt_value PONG = ''PONG''"
| "mt_value ERROR = ''ERROR''"
| "mt_value PASSPHRASE_CHALLENGE = ''PASSPHRASE_CHALLENGE''"
| "mt_value PASSPHRASE_VERIFIED = ''PASSPHRASE_VERIFIED''"
| "mt_value PASSPHRASE_REJECTED = ''PASSPHRASE_REJECTED''"
| "mt_value SKIP_OFFER = ''SKIP_OFFER''"
| "mt_value KEY_ROTATE = ''KEY_ROTATE''"
| "mt_value REKEY_REQUEST = ''REKEY_REQUEST''"
| "mt_value REKEY_RESPONSE = ''REKEY_RESPONSE''"
| "mt_value REVOCATION = ''REVOCATION''"
| "mt_value REQ = ''REQ''"
| "mt_value RESP = ''RESP''"
| "mt_value HEARTBEAT = ''HEARTBEAT''"
| "mt_value HEALTH = ''HEALTH''"
| "mt_value DISCOVER = ''DISCOVER''"
| "mt_value DISCOVER_RESP = ''DISCOVER_RESP''"
| "mt_value SYS = ''SYS''"
| "mt_value RATE_LIMITED = ''RATE_LIMITED''"
| "mt_value PEER_INFO = ''PEER_INFO''"
| "mt_value ROUTE_ANNOUNCE = ''ROUTE_ANNOUNCE''"
| "mt_value ROUTE_UNREACHABLE = ''ROUTE_UNREACHABLE''"
| "mt_value CAPABILITY_ANNOUNCE = ''CAPABILITY_ANNOUNCE''"
| "mt_value CAPABILITY_QUERY = ''CAPABILITY_QUERY''"
| "mt_value CONV = ''CONV''"
| "mt_value GROUP_BROADCAST = ''GROUP_BROADCAST''"

datatype message_priority = LOW | NORMAL | HIGH | CRITICAL

fun mp_value :: "message_priority \<Rightarrow> string" where
  "mp_value LOW = ''LOW''"
| "mp_value NORMAL = ''NORMAL''"
| "mp_value HIGH = ''HIGH''"
| "mp_value CRITICAL = ''CRITICAL''"

datatype error_code =
    UNKNOWN | AUTH_FAILED | REPLAY_DETECTED | INVALID_FRAME | SCHEMA_VIOLATION | EC_RATE_LIMITED
  | DECRYPTION_FAILED | INVALID_SIGNATURE | PEER_NOT_FOUND | INTERNAL

fun ec_value :: "error_code \<Rightarrow> string" where
  "ec_value UNKNOWN = ''UNKNOWN''"
| "ec_value AUTH_FAILED = ''AUTH_FAILED''"
| "ec_value REPLAY_DETECTED = ''REPLAY_DETECTED''"
| "ec_value INVALID_FRAME = ''INVALID_FRAME''"
| "ec_value SCHEMA_VIOLATION = ''SCHEMA_VIOLATION''"
| "ec_value EC_RATE_LIMITED = ''RATE_LIMITED''"
| "ec_value DECRYPTION_FAILED = ''DECRYPTION_FAILED''"
| "ec_value INVALID_SIGNATURE = ''INVALID_SIGNATURE''"
| "ec_value PEER_NOT_FOUND = ''PEER_NOT_FOUND''"
| "ec_value INTERNAL = ''INTERNAL''"

text \<open>The \<open>required\<close> lists of \<open>MESSAGE_SCHEMAS\<close>; the \<open>optional\<close> ones are never read.\<close>

definition MESSAGE_SCHEMAS :: "(string, string list) dict" where
  "MESSAGE_SCHEMAS =
    [(mt_value HELLO, [''ephemeral_public'', ''name'']), (mt_value GOODBYE, []), (mt_value MSG, []),
     (mt_value ACK, [''ack_msg_id'']), (mt_value PASSPHRASE_CHALLENGE, [''proof'']),
     (mt_value PASSPHRASE_VERIFIED, [''status'']), (mt_value SKIP_OFFER, [''channel_binding'']),
     (mt_value PASSPHRASE_REJECTED, [''error'']), (mt_value KEY_ROTATE, [''new_public_key'']),
     (mt_value ERROR, [''error'', ''code'']), (mt_value PEER_INFO, [''protocol_version'']),
     (mt_value ROUTE_ANNOUNCE, [''origin'', ''routes'', ''sequence_number'']),
     (mt_value ROUTE_UNREACHABLE, [''destination'', ''original_msg_id'']),
     (mt_value CAPABILITY_ANNOUNCE, [''origin'', ''capabilities'']), (mt_value CAPABILITY_QUERY, [''pattern''])]"

text \<open>\<open>None\<close>: valid. \<open>Some f\<close>: the message names \<open>f\<close> as the first missing required field.\<close>

definition validate_message_schema :: "string \<Rightarrow> (string, json) dict \<Rightarrow> string option" where
  "validate_message_schema msg_type payload_dict = (case dget MESSAGE_SCHEMAS msg_type of
     None \<Rightarrow> None
   | Some required \<Rightarrow> List.find (\<lambda>f. f \<notin> set (dkeys payload_dict)) required)"

section \<open>Injectivity\<close>

lemma lp_unique:
  assumes "lp a = Inr x" "lp b = Inr y" "x @ s = y @ t"
  shows "a = b \<and> s = t"
proof -
  from assms(1,2) have la: "length a < 256 ^ 4" and lb: "length b < 256 ^ 4"
    and x: "x = be_bytes 4 (length a) @ a" and y: "y = be_bytes 4 (length b) @ b"
    by (auto simp: lp_def to_bytes_def split: option.splits if_splits)
  from assms(3) x y have "be_bytes 4 (length a) @ (a @ s) = be_bytes 4 (length b) @ (b @ t)" by simp
  then have "be_bytes 4 (length a) = be_bytes 4 (length b)" "a @ s = b @ t" by (simp_all add: append_eq_append_conv)
  with be_bytes_inject [OF la lb] have "length a = length b" "a @ s = b @ t" by simp_all
  then show ?thesis by simp
qed

lemma lp_Inr: "lp a = Inr x \<longleftrightarrow> length a < 256 ^ 4 \<and> x = be_bytes 4 (length a) @ a"
  by (auto simp: lp_def to_bytes_def)

lemma inner_source_bytes_inject:
  assumes "canonical_inner_source_bytes s d m p = Inr bs" "canonical_inner_source_bytes s' d' m' p' = Inr bs"
  shows "s = s' \<and> d = d' \<and> m = m' \<and> p = p'"
proof -
  from assms obtain a b c e a' b' c' e' where
    l: "lp (utf8 s) = Inr a" "lp (utf8 d) = Inr b" "lp (utf8 m) = Inr c" "lp p = Inr e"
    and l': "lp (utf8 s') = Inr a'" "lp (utf8 d') = Inr b'" "lp (utf8 m') = Inr c'" "lp p' = Inr e'"
    and eq: "a @ b @ c @ e = a' @ b' @ c' @ e'"
    by (auto simp: canonical_inner_source_bytes_def py_bind_Inr_iff)
  from lp_unique [OF l(1) l'(1) eq] have 1: "utf8 s = utf8 s'" "b @ c @ e = b' @ c' @ e'" by simp_all
  from lp_unique [OF l(2) l'(2) 1(2)] have 2: "utf8 d = utf8 d'" "c @ e = c' @ e'" by simp_all
  from lp_unique [OF l(3) l'(3) 2(2)] have 3: "utf8 m = utf8 m'" "e @ [] = e' @ []" by simp_all
  from lp_unique [OF l(4) l'(4) 3(2)] 1 2 3 show ?thesis by simp
qed

lemma canonical_json_get:
  assumes "canonical_json io a = canonical_json io b" "wf_json io (JObj a)" "wf_json io (JObj b)"
  shows "map_option sort_json (dget a k) = map_option sort_json (dget b k)"
  using assms by (intro dumps_sorted_get [of io]) (simp_all add: canonical_json_def)

lemma string_forms:
  "nonempty_str j \<longleftrightarrow> (\<exists>s. j = JStr s \<and> s \<noteq> [])" "is_str j \<longleftrightarrow> (\<exists>s. j = JStr s)"
  by (auto simp: nonempty_str_def is_str_def split: json.splits)

lemma hello_bytes_inject:
  assumes "canonical_hello_bytes io c e i n v l = Inr bs" "canonical_hello_bytes io c' e' i' n' v' l' = Inr bs"
  shows "c = c' \<and> e = e' \<and> i = i' \<and> n = n' \<and> v = v' \<and> l = l'"
proof -
  let ?b = "hello_body c e i n v l" and ?b' = "hello_body c' e' i' n' v' l'"
  from assms have eq: "canonical_json io ?b = canonical_json io ?b'"
    and str: "is_str c" "nonempty_str e" "nonempty_str i" "is_str n" "is_str v" "l = JNull \<or> nonempty_str l"
      "is_str c'" "nonempty_str e'" "nonempty_str i'" "is_str n'" "is_str v'" "l' = JNull \<or> nonempty_str l'"
    by (auto simp: canonical_hello_bytes_def split: if_splits)
  have "wf_json io (JObj ?b)" "wf_json io (JObj ?b')"
    using str by (auto simp: hello_body_def string_forms)
  note get = canonical_json_get [OF eq this]
  show ?thesis
    using get [of "''channel_binding''"] get [of "''ephemeral_public''"] get [of "''identity_public''"]
      get [of "''name''"] get [of "''protocol_version''"] get [of "''rns_link_id''"] str
    by (auto simp: hello_body_def string_forms split: if_splits)
qed

lemma sort_json_str_list:
  "\<forall>x \<in> set xs. nonempty_str x \<Longrightarrow> map sort_json xs = xs"
  by (auto simp: string_forms intro!: map_idI)

lemma announce_bytes_inject:
  assumes "canonical_capability_announce_bytes io o1 (JArr c1) t1 v1 = Inr bs"
    and "canonical_capability_announce_bytes io o2 (JArr c2) t2 v2 = Inr bs"
    and "\<forall>r. py_number t1 = Some r \<longrightarrow> float_ok io r" "\<forall>r. py_number t2 = Some r \<longrightarrow> float_ok io r"
  shows "o1 = o2 \<and> c1 = c2 \<and> py_number t1 = py_number t2 \<and> v1 = v2"
proof -
  from assms(1,2) obtain r1 r2 where r: "py_number t1 = Some r1" "py_number t2 = Some r2"
    and eq: "canonical_json io (capability_announce_body o1 c1 r1 v1)
           = canonical_json io (capability_announce_body o2 c2 r2 v2)"
    and s: "nonempty_str o1" "nonempty_str o2" "\<forall>c \<in> set c1. nonempty_str c" "\<forall>c \<in> set c2. nonempty_str c"
    and v: "py_int v1 \<noteq> None" "py_int v2 \<noteq> None"
    by (auto simp: canonical_capability_announce_bytes_def split: if_splits option.splits)
  have wv: "sort_json v1 = v1" "sort_json v2 = v2" "wf_json io v1" "wf_json io v2"
    using v by (cases v1; simp; cases v2; simp)+
  have "wf_json io (JObj (capability_announce_body o1 c1 r1 v1))"
       "wf_json io (JObj (capability_announce_body o2 c2 r2 v2))"
    using s wv assms(3,4) r by (auto simp: capability_announce_body_def string_forms)
  note get = canonical_json_get [OF eq this]
  show ?thesis
    using get [of "''origin''"] get [of "''capabilities''"] get [of "''announced_at''"] get [of "''version''"] s r wv
    by (auto simp: capability_announce_body_def string_forms sort_json_str_list)
qed

lemma invite_bytes_inject:
  assumes "canonical_invite_bytes io n1 i1 k1 e1 a1 x1 p1 f1 v1 = Inr bs"
    and "canonical_invite_bytes io n2 i2 k2 e2 a2 x2 p2 f2 v2 = Inr bs"
    and "float_ok io a1" "float_ok io x1" "float_ok io a2" "float_ok io x2"
  shows "n1 = n2 \<and> i1 = i2 \<and> k1 = k2 \<and> e1 = e2 \<and> a1 = a2 \<and> x1 = x2 \<and> p1 = p2 \<and> f1 = f2 \<and> v1 = v2"
proof -
  let ?b = "invite_body n1 i1 k1 e1 a1 x1 p1 f1 v1" and ?b' = "invite_body n2 i2 k2 e2 a2 x2 p2 f2 v2"
  from assms(1,2) have eq: "canonical_json io ?b = canonical_json io ?b'"
    by (auto simp: canonical_invite_bytes_def split: if_splits)
  have "wf_json io (JObj ?b)" "wf_json io (JObj ?b')"
    using assms(3-6) by (auto simp: invite_body_def)
  note get = canonical_json_get [OF eq this]
  show ?thesis
    using get [of "''nonce''"] get [of "''inviter_id''"] get [of "''inviter_key''"] get [of "''endpoint''"]
      get [of "''issued_at''"] get [of "''expires_at''"] get [of "''allowed_peers''"] get [of "''profile''"]
      get [of "''version''"]
    by (simp add: invite_body_def)
qed

section \<open>Tables\<close>

lemma mt_value_inject: "mt_value a = mt_value b \<longleftrightarrow> a = b"
  by (cases a; cases b) simp_all

lemma invite_max_age_positive: "0 < invite_max_age_for_profile p"
  by (auto simp: invite_max_age_for_profile_def INVITE_MAX_AGE_BY_PROFILE_def INVITE_MAX_AGE_DEFAULT_def
      split: option.split)

lemma find_None_iff_all: "List.find P xs = None \<longleftrightarrow> (\<forall>x \<in> set xs. \<not> P x)"
  by (auto simp: find_None_iff)

lemma schema_violation_names_missing_field:
  "validate_message_schema t d = Some f \<Longrightarrow> f \<notin> set (dkeys d)"
  by (auto simp: validate_message_schema_def find_Some_iff split: option.splits)

lemma schema_ok_has_required:
  assumes "validate_message_schema t d = None" "dget MESSAGE_SCHEMAS t = Some req" "f \<in> set req"
  shows "f \<in> set (dkeys d)"
  using assms by (auto simp: validate_message_schema_def find_None_iff simp del: set_map)

end
