(* ===== verification/Crypto.thy ===== *)
theory Crypto
  imports Wire
begin

text \<open>
  crypto.py and mesh_crypto.py over the primitives of libsodium, \<open>hashlib\<close> and \<open>hmac\<close>.
  The primitives are third-party code: they are the fields of a \<^theory_text>\<open>crypto\<close> record
  that every definition using them takes as its first argument. What the development
  relies on is stated as predicates on that record: \<open>secretbox_ok\<close> (decryption inverts
  encryption and a ciphertext carries its 24-byte nonce and 16-byte tag), \<open>ed25519_ok\<close>
  (a signature is 64 bytes and verifies under the matching public key), \<open>sha256_ok\<close> and
  \<open>hmac_ok\<close> (a digest is 32 bytes) and \<open>sealedbox_ok\<close>. No unforgeability is assumed anywhere.

  Randomness (nonces, ephemeral keys) is an explicit argument.
\<close>

record crypto =
  sha256 :: "bytes \<Rightarrow> bytes"
  hmac_sha256 :: "bytes \<Rightarrow> bytes \<Rightarrow> bytes"
  ed_public :: "bytes \<Rightarrow> bytes"
  ed_sign :: "bytes \<Rightarrow> bytes \<Rightarrow> bytes"
  ed_verify :: "bytes \<Rightarrow> bytes \<Rightarrow> bytes \<Rightarrow> bool"
  box_encrypt :: "bytes \<Rightarrow> bytes \<Rightarrow> bytes \<Rightarrow> bytes"
  box_decrypt :: "bytes \<Rightarrow> bytes \<Rightarrow> bytes option"
  dh_shared :: "bytes \<Rightarrow> bytes \<Rightarrow> bytes"
  ed_to_curve_public :: "bytes \<Rightarrow> bytes"
  ed_to_curve_secret :: "bytes \<Rightarrow> bytes"
  seal_encrypt :: "bytes \<Rightarrow> bytes \<Rightarrow> bytes \<Rightarrow> bytes"
  seal_decrypt :: "bytes \<Rightarrow> bytes \<Rightarrow> bytes option"

definition secretbox_ok :: "crypto \<Rightarrow> bool" where
  "secretbox_ok C = (\<forall>k n m. box_decrypt C k (box_encrypt C k n m) = Some m \<and>
     length (box_encrypt C k n m) = length m + 40)"

definition ed25519_ok :: "crypto \<Rightarrow> bool" where
  "ed25519_ok C = (\<forall>sk m. length (ed_sign C sk m) = 64 \<and> ed_verify C (ed_public C sk) m (ed_sign C sk m))"

definition sha256_ok :: "crypto \<Rightarrow> bool" where
  "sha256_ok C = (\<forall>m. length (sha256 C m) = 32)"

definition hmac_ok :: "crypto \<Rightarrow> bool" where
  "hmac_ok C = (\<forall>k m. length (hmac_sha256 C k m) = 32)"

definition sealedbox_ok :: "crypto \<Rightarrow> bytes \<Rightarrow> bytes \<Rightarrow> bool" where
  "sealedbox_ok C pk sk = (\<forall>r m. seal_decrypt C sk (seal_encrypt C pk r m) = Some m)"

section \<open>Hex and digests\<close>

definition hex_nibble :: "nat \<Rightarrow> char" where
  "hex_nibble n = hex_char n"

definition hex_of :: "bytes \<Rightarrow> string" where
  "hex_of bs = concat (map (\<lambda>b. [hex_nibble (unat b div 16), hex_nibble (unat b mod 16)]) bs)"

text \<open>\<open>bytes.fromhex\<close> skips ASCII white space before a pair.\<close>

definition is_ascii_space :: "char \<Rightarrow> bool" where
  "is_ascii_space c = (let n = of_char c :: nat in n = 32 \<or> 9 \<le> n \<and> n \<le> 13)"

fun bytes_fromhex :: "string \<Rightarrow> bytes option" where
  "bytes_fromhex [] = Some []"
| "bytes_fromhex [c] = (if is_ascii_space c then Some [] else None)"
| "bytes_fromhex (a # b # s) =
     (if is_ascii_space a then bytes_fromhex (b # s)
      else case (hex_val a, hex_val b) of
        (Some h, Some l) \<Rightarrow> map_option ((#) (word_of_nat (16 * h + l))) (bytes_fromhex s)
      | _ \<Rightarrow> None)"

lemma hex_char_not_space: "n < 16 \<Longrightarrow> \<not> is_ascii_space (hex_char n)"
  by (simp add: is_ascii_space_def hex_char_def Let_def)

lemma hex_of_nonempty: "hex_of bs = [] \<longleftrightarrow> bs = []"
  by (cases bs) (auto simp: hex_of_def)

lemma length_hex_of [simp]: "length (hex_of bs) = 2 * length bs"
  by (induction bs) (auto simp: hex_of_def)

lemma bytes_fromhex_hex_of [codec_simps]: "bytes_fromhex (hex_of bs) = Some bs"
proof (induction bs)
  case (Cons b bs)
  have "unat b div 16 < 16" using unat_lt2p_b [of b] by (simp add: less_mult_imp_div_less)
  with Cons show ?case
    by (simp add: hex_of_def hex_nibble_def hex_val_hex_char hex_char_not_space)
qed (simp add: hex_of_def)

lemma hex_of_inject: "hex_of a = hex_of b \<longleftrightarrow> a = b"
  by (metis bytes_fromhex_hex_of option.inject)

section \<open>crypto.py: SecretBox\<close>

definition encrypt_message :: "crypto \<Rightarrow> bytes \<Rightarrow> bytes \<Rightarrow> bytes \<Rightarrow> bytes" where
  "encrypt_message C shared_key nonce plaintext = box_encrypt C shared_key nonce plaintext"

definition decrypt_message :: "crypto \<Rightarrow> bytes \<Rightarrow> bytes \<Rightarrow> bytes py" where
  "decrypt_message C shared_key ciphertext =
     (if length ciphertext < 40 then Inl (ValueError ''Ciphertext too short'')
      else case box_decrypt C shared_key ciphertext of None \<Rightarrow> Inl CryptoError | Some m \<Rightarrow> Inr m)"

definition ecdh_exchange :: "crypto \<Rightarrow> bytes \<Rightarrow> bytes \<Rightarrow> bytes" where
  "ecdh_exchange C my_private their_public = dh_shared C my_private their_public"

section \<open>crypto.py: Ed25519\<close>

definition sign_message :: "crypto \<Rightarrow> bytes \<Rightarrow> bytes \<Rightarrow> bytes" where
  "sign_message C sk message = ed_sign C sk message @ message"

text \<open>
  \<open>VerifyKey.verify(signed)\<close> splits off the first 64 bytes. With a separate signature it
  requires exactly 64 of them (\<open>ValueError\<close>).
\<close>

definition verify_signature :: "crypto \<Rightarrow> bytes \<Rightarrow> bytes \<Rightarrow> bytes py" where
  "verify_signature C vk smessage =
     (if ed_verify C vk (drop 64 smessage) (take 64 smessage) then Inr (drop 64 smessage) else Inl BadSignatureError)"

definition nacl_verify :: "crypto \<Rightarrow> bytes \<Rightarrow> bytes \<Rightarrow> bytes \<Rightarrow> bool py" where
  "nacl_verify C vk message signature =
     (if length signature \<noteq> 64 then Inl (ValueError ''signature must be 64 bytes'')
      else if ed_verify C vk message signature then Inr True else Inl BadSignatureError)"

definition sign_detached :: "crypto \<Rightarrow> bytes \<Rightarrow> bytes \<Rightarrow> bytes" where
  "sign_detached C sk message = ed_sign C sk message"

definition verify_detached :: "crypto \<Rightarrow> bytes \<Rightarrow> bytes \<Rightarrow> bytes \<Rightarrow> bool py" where
  "verify_detached C vk message signature = nacl_verify C vk message signature"

text \<open>Context labels: an ASCII label and a NUL byte.\<close>

definition SIG_CTX_CAPABILITY_ANNOUNCE :: bytes where
  "SIG_CTX_CAPABILITY_ANNOUNCE = utf8 ''ironmesh-sig-v1/capability-announce'' @ [0]"
definition SIG_CTX_TRUST_PIN_EXPORT :: bytes where
  "SIG_CTX_TRUST_PIN_EXPORT = utf8 ''ironmesh-sig-v1/trust-pin-export'' @ [0]"
definition SIG_CTX_X25519_BINDING :: bytes where
  "SIG_CTX_X25519_BINDING = utf8 ''ironmesh-sig-v1/x25519-identity-binding'' @ [0]"
definition SIG_CTX_FUTURE_FRAME_OUTER :: bytes where
  "SIG_CTX_FUTURE_FRAME_OUTER = utf8 ''ironmesh-sig-v1/frame-outer'' @ [0]"
definition SIG_CTX_FRAME_INNER_SOURCE :: bytes where
  "SIG_CTX_FRAME_INNER_SOURCE = utf8 ''ironmesh-sig-v1/frame-inner-source'' @ [0]"
definition SIG_CTX_HELLO :: bytes where
  "SIG_CTX_HELLO = utf8 ''ironmesh-sig-v1/hello'' @ [0]"
definition SIG_CTX_FUTURE_REVOCATION :: bytes where
  "SIG_CTX_FUTURE_REVOCATION = utf8 ''ironmesh-sig-v1/revocation'' @ [0]"
definition SIG_CTX_INVITE :: bytes where
  "SIG_CTX_INVITE = utf8 ''ironmesh-sig-v1/invite'' @ [0]"

lemmas sig_ctx_defs = SIG_CTX_CAPABILITY_ANNOUNCE_def SIG_CTX_TRUST_PIN_EXPORT_def
  SIG_CTX_X25519_BINDING_def SIG_CTX_FUTURE_FRAME_OUTER_def SIG_CTX_FRAME_INNER_SOURCE_def
  SIG_CTX_HELLO_def SIG_CTX_FUTURE_REVOCATION_def SIG_CTX_INVITE_def

definition sig_contexts :: "bytes list" where
  "sig_contexts = [SIG_CTX_CAPABILITY_ANNOUNCE, SIG_CTX_TRUST_PIN_EXPORT, SIG_CTX_X25519_BINDING,
     SIG_CTX_FUTURE_FRAME_OUTER, SIG_CTX_FRAME_INNER_SOURCE, SIG_CTX_HELLO,
     SIG_CTX_FUTURE_REVOCATION, SIG_CTX_INVITE]"

definition sign_detached_with_context :: "crypto \<Rightarrow> bytes \<Rightarrow> bytes \<Rightarrow> bytes \<Rightarrow> bytes py" where
  "sign_detached_with_context C sk context message =
     (if context = [] then Inl (ValueError ''context must be non-empty bytes'')
      else Inr (ed_sign C sk (context @ message)))"

definition verify_detached_with_context :: "crypto \<Rightarrow> bytes \<Rightarrow> bytes \<Rightarrow> bytes \<Rightarrow> bytes \<Rightarrow> bool py" where
  "verify_detached_with_context C vk context message signature =
     (if context = [] then Inl (ValueError ''context must be non-empty bytes'')
      else nacl_verify C vk (context @ message) signature)"

lemma sign_verify_context:
  "ed25519_ok C \<Longrightarrow> sign_detached_with_context C sk ctx m = Inr sig \<Longrightarrow>
   verify_detached_with_context C (ed_public C sk) ctx m sig = Inr True"
  by (auto simp: sign_detached_with_context_def verify_detached_with_context_def nacl_verify_def
      ed25519_ok_def split: if_splits)

lemma nacl_verify_Inr: "nacl_verify C vk m s = Inr b \<longleftrightarrow> b \<and> length s = 64 \<and> ed_verify C vk m s"
  by (auto simp: nacl_verify_def)

text \<open>A NUL-terminated label is never a prefix of another one.\<close>

lemma nul_terminated_unique:
  assumes "0 \<notin> set a" "0 \<notin> set b" "a @ 0 # m = b @ 0 # (n :: bytes)"
  shows "a = b \<and> m = n"
  using assms
proof (induction a arbitrary: b)
  case Nil
  then show ?case by (cases b) auto
next
  case (Cons x a)
  then show ?case by (cases b) auto
qed

definition nul_label :: "bytes \<Rightarrow> bool" where
  "nul_label c = (c \<noteq> [] \<and> last c = 0 \<and> 0 \<notin> set (butlast c))"

lemma sig_contexts_nul: "c \<in> set sig_contexts \<Longrightarrow> nul_label c"
proof -
  have "\<forall>c \<in> set sig_contexts. nul_label c"
    unfolding sig_contexts_def sig_ctx_defs by code_simp
  then show "c \<in> set sig_contexts \<Longrightarrow> nul_label c" by blast
qed

lemma nul_label_unique:
  assumes "nul_label c" "nul_label d" "c @ m = d @ n"
  shows "c = d \<and> m = n"
proof -
  have c: "c = butlast c @ [0]" and d: "d = butlast d @ [0]"
    using assms(1,2) by (simp_all add: nul_label_def) (metis append_butlast_last_id)+
  have "butlast c @ 0 # m = butlast d @ 0 # n"
    using assms(3) c d by (metis append.assoc append_Cons append_Nil)
  then have "butlast c = butlast d \<and> m = n"
    using assms(1,2) by (intro nul_terminated_unique) (simp_all add: nul_label_def)
  then show ?thesis using c d by metis
qed

section \<open>crypto.py: JSON helpers\<close>

definition encrypt_json :: "crypto \<Rightarrow> float_io \<Rightarrow> bytes \<Rightarrow> json \<Rightarrow> bytes \<Rightarrow> string" where
  "encrypt_json C io nonce obj shared_key =
     b64encode (encrypt_message C shared_key nonce (utf8 (dumps_compact io obj)))"

definition decrypt_json :: "crypto \<Rightarrow> float_io \<Rightarrow> string \<Rightarrow> bytes \<Rightarrow> json py" where
  "decrypt_json C io cipherb64 shared_key = (case b64decode cipherb64 of
     None \<Rightarrow> Inl (ValueError ''base64'')
   | Some raw \<Rightarrow> py_bind (decrypt_message C shared_key raw) (\<lambda>plaintext.
       case loads_bytes io plaintext of None \<Rightarrow> Inl (ValueError ''json'') | Some j \<Rightarrow> Inr j))"

lemma decrypt_encrypt_message [codec_simps]:
  "secretbox_ok C \<Longrightarrow> decrypt_message C k (encrypt_message C k n m) = Inr m"
  by (simp add: decrypt_message_def encrypt_message_def secretbox_ok_def)

lemma decrypt_json_encrypt_json:
  "secretbox_ok C \<Longrightarrow> wf_json io j \<Longrightarrow> decrypt_json C io (encrypt_json C io n j k) k = Inr j"
  by (simp add: decrypt_json_def encrypt_json_def codec_simps)

section \<open>mesh\_crypto.py: the end-to-end sealed box\<close>

definition seal_to_destination :: "crypto \<Rightarrow> bytes \<Rightarrow> bytes \<Rightarrow> bytes \<Rightarrow> bytes option \<Rightarrow> bytes py" where
  "seal_to_destination C rand plaintext dest_ed25519_pub dest_x25519_pub =
    (if length dest_ed25519_pub \<noteq> 32 then Inl (ValueError ''dest_ed25519_pub must be 32 bytes'')
     else case dest_x25519_pub of
       Some x \<Rightarrow> if length x \<noteq> 32 then Inl (ValueError ''dest_x25519_pub must be 32 bytes'')
         else Inr (seal_encrypt C x rand plaintext)
     | None \<Rightarrow> Inr (seal_encrypt C (ed_to_curve_public C dest_ed25519_pub) rand plaintext))"

definition unseal_from_source :: "crypto \<Rightarrow> bytes \<Rightarrow> bytes \<Rightarrow> bytes option \<Rightarrow> bytes py" where
  "unseal_from_source C sealed my_ed25519_secret my_x25519_secret =
    (case my_x25519_secret of
       Some x \<Rightarrow> if length x \<noteq> 32 then Inl (ValueError ''my_x25519_secret must be 32 bytes'')
         else (case seal_decrypt C x sealed of
           None \<Rightarrow> Inl (ValueError ''E2E decryption failed'') | Some m \<Rightarrow> Inr m)
     | None \<Rightarrow> (case seal_decrypt C (ed_to_curve_secret C my_ed25519_secret) sealed of
           None \<Rightarrow> Inl (ValueError ''E2E decryption failed'') | Some m \<Rightarrow> Inr m))"

definition can_seal_to :: "bytes option \<Rightarrow> bool" where
  "can_seal_to dest_ed25519_pub = (case dest_ed25519_pub of None \<Rightarrow> False | Some k \<Rightarrow> length k = 32)"

lemma unseal_seal_legacy:
  assumes "sealedbox_ok C (ed_to_curve_public C pk) (ed_to_curve_secret C sk)"
    and "seal_to_destination C r m pk None = Inr ct"
  shows "unseal_from_source C ct sk None = Inr m"
  using assms by (auto simp: seal_to_destination_def unseal_from_source_def sealedbox_ok_def split: if_splits)

lemma unseal_seal_x25519:
  assumes "sealedbox_ok C xpk xsk" "length xsk = 32" "seal_to_destination C r m pk (Some xpk) = Inr ct"
  shows "unseal_from_source C ct sk (Some xsk) = Inr m"
  using assms by (auto simp: seal_to_destination_def unseal_from_source_def sealedbox_ok_def split: if_splits)

lemma can_seal_to_seals: "can_seal_to (Some pk) \<Longrightarrow> \<exists>ct. seal_to_destination C r m pk None = Inr ct"
  by (simp add: can_seal_to_def seal_to_destination_def)

section \<open>What a signature means\<close>

text \<open>Signatures of different protocols never mix. A message signed under one of the code's
  context labels is never the message signed under another one, whatever the bodies are, and
  under one label the signed bytes determine the body.\<close>

lemma signing_contexts_separate:
  assumes "c \<in> set sig_contexts" "d \<in> set sig_contexts"
  shows "(c @ m = d @ n \<longleftrightarrow> c = d \<and> m = n) \<and> distinct sig_contexts"
proof -
  have "distinct sig_contexts" unfolding sig_contexts_def sig_ctx_defs by code_simp
  with nul_label_unique sig_contexts_nul assms show ?thesis by blast
qed

text \<open>C29: a signed body says exactly one thing. Two HELLO bodies, two invite bodies, two capability
  announcements or two inner-source bodies with the same canonical bytes agree in every signed
  field; no field can be moved into another or left out.\<close>

theorem signed_bodies_injective:
  "(canonical_hello_bytes io c e i n v l = Inr bs \<longrightarrow> canonical_hello_bytes io c' e' i' n' v' l' = Inr bs \<longrightarrow>
      c = c' \<and> e = e' \<and> i = i' \<and> n = n' \<and> v = v' \<and> l = l')
   \<and> (canonical_inner_source_bytes s d m p = Inr bs \<longrightarrow> canonical_inner_source_bytes s' d' m' p' = Inr bs \<longrightarrow>
      s = s' \<and> d = d' \<and> m = m' \<and> p = p')
   \<and> (canonical_invite_bytes io n1 i1 k1 e1 a1 x1 p1 f1 v1 = Inr bs \<longrightarrow>
      canonical_invite_bytes io n2 i2 k2 e2 a2 x2 p2 f2 v2 = Inr bs \<longrightarrow>
      float_ok io a1 \<and> float_ok io x1 \<and> float_ok io a2 \<and> float_ok io x2 \<longrightarrow>
      n1 = n2 \<and> i1 = i2 \<and> k1 = k2 \<and> e1 = e2 \<and> a1 = a2 \<and> x1 = x2 \<and> p1 = p2 \<and> f1 = f2 \<and> v1 = v2)
   \<and> (canonical_capability_announce_bytes io o1 (JArr cs1) t1 w1 = Inr bs \<longrightarrow>
      canonical_capability_announce_bytes io o2 (JArr cs2) t2 w2 = Inr bs \<longrightarrow>
      (\<forall>r. py_number t1 = Some r \<or> py_number t2 = Some r \<longrightarrow> float_ok io r) \<longrightarrow>
      o1 = o2 \<and> cs1 = cs2 \<and> py_number t1 = py_number t2 \<and> w1 = w2)"
  using hello_bytes_inject [of io c e i n v l bs c' e' i' n' v' l'] inner_source_bytes_inject [of s d m p bs s' d' m' p']
    invite_bytes_inject [of io n1 i1 k1 e1 a1 x1 p1 f1 v1 bs n2 i2 k2 e2 a2 x2 p2 f2 v2]
    announce_bytes_inject [of io o1 cs1 t1 w1 bs o2 cs2 t2 w2]
  by blast

theorem signed_bodies_injective_witness:
  "\<exists>bs. canonical_inner_source_bytes ''a'' ''b'' ''m'' [1] = Inr bs \<and> canonical_inner_source_bytes ''ab'' '''' ''m'' [1] \<noteq> Inr bs"
proof -
  have "lp (utf8 ''a'') = Inr (be_bytes 4 1 @ utf8 ''a'')" "lp (utf8 ''b'') = Inr (be_bytes 4 1 @ utf8 ''b'')"
    "lp (utf8 ''m'') = Inr (be_bytes 4 1 @ utf8 ''m'')" "lp [1] = Inr (be_bytes 4 1 @ [1])"
    by (simp_all add: lp_Inr utf8_def utf8_char_def Let_def)
  then obtain bs where bs: "canonical_inner_source_bytes ''a'' ''b'' ''m'' [1] = Inr bs"
    by (simp add: canonical_inner_source_bytes_def)
  have "canonical_inner_source_bytes ''ab'' '''' ''m'' [1] \<noteq> Inr bs"
    using signed_bodies_injective [of _ _ _ _ _ _ _ bs _ _ _ _ _ _ "''a''" "''b''" "''m''" "[1]" "''ab''" "''''" "''m''" "[1]"] bs
    by auto
  with bs show ?thesis by blast
qed

end
