(* ===== verification/Sample.thy ===== *)
theory Sample
  imports Crypto
begin

text \<open>
  Concrete primitives that satisfy every law the development assumes of libsodium and
  \<open>float\<close>. They have no cryptographic strength; they show that the hypotheses can hold
  and make the witnesses computable.
\<close>

definition pad :: "nat \<Rightarrow> bytes \<Rightarrow> bytes" where
  "pad n bs = take n (bs @ replicate n 0)"

lemma length_pad [simp]: "length (pad n bs) = n"
  by (simp add: pad_def)

definition sample_crypto :: crypto where
  "sample_crypto = \<lparr>
     sha256 = (\<lambda>m. pad 32 (rev m)),
     hmac_sha256 = (\<lambda>k m. pad 32 (k @ m)),
     ed_public = (\<lambda>sk. pad 32 sk),
     ed_sign = (\<lambda>sk m. pad 64 (pad 32 sk @ rev m)),
     ed_verify = (\<lambda>pk m s. s = pad 64 (pk @ rev m)),
     box_encrypt = (\<lambda>k n m. pad 24 n @ pad 16 k @ m),
     box_decrypt = (\<lambda>k c. if take 16 (drop 24 c) = pad 16 k then Some (drop 40 c) else None),
     dh_shared = (\<lambda>a b. pad 32 (map2 (+) a b)),
     ed_to_curve_public = (\<lambda>pk. pad 32 pk),
     ed_to_curve_secret = (\<lambda>sk. pad 32 sk),
     seal_encrypt = (\<lambda>pk r m. pad 32 pk @ pad 16 r @ m),
     seal_decrypt = (\<lambda>sk c. if take 32 c = pad 32 sk then Some (drop 48 c) else None) \<rparr>"

lemma sample_crypto_ok [simp]:
  "secretbox_ok sample_crypto" "ed25519_ok sample_crypto" "sha256_ok sample_crypto"
  "sealedbox_ok sample_crypto k k"
  by (simp_all add: sample_crypto_def secretbox_ok_def ed25519_ok_def sha256_ok_def sealedbox_ok_def)

lemma sample_public [simp]: "ed_public sample_crypto k = pad 32 k"
  by (simp add: sample_crypto_def)

text \<open>Printing and reading of the single float 0.0.\<close>

definition sample_io :: float_io where
  "sample_io = \<lparr> show_float = (\<lambda>_. ''0.0''), read_float = (\<lambda>s. if s = ''0.0'' then Some 0 else None) \<rparr>"

lemma sample_float_ok [simp]: "float_ok sample_io 0"
  by (simp add: float_ok_def sample_io_def lex_number_def is_digit_def)

end
