(* ===== verification/Nat_Relay.thy ===== *)
theory Nat_Relay
  imports Sample
begin

text \<open>
  nat_relay.py: the rendezvous relay. \<open>RelayRegistry\<close> is the record \<open>relay_registry\<close> and
  its operations; one iteration of the loop of \<open>RelayServer._handle\<close> is \<open>handle_raw\<close>;
  the server with its concurrent connections is the step relation \<open>relay_step\<close>.

  \<^item> A WebSocket is a connection number. What the server sends on a socket is a
    \<open>relay_reply\<close>; \<open>reply_json\<close> is the object it prints.
  \<^item> A handler runs without interruption from one \<open>await\<close> to the next, and after each
    \<open>await\<close> it only continues the loop, returns or unwinds. So one step handles one frame,
    a rejected connection stays registered until a later \<open>Finish\<close> step runs the
    \<open>finally\<close> block, and a failing \<open>send\<close> is an \<open>Abort\<close> step.
  \<^item> Which frames arrive, in which order, and the two clocks are the environment's.
\<close>

definition MAX_FORWARDS_PER_MINUTE :: nat where "MAX_FORWARDS_PER_MINUTE = 6000"

definition MAX_REGISTERED_PEERS :: nat where "MAX_REGISTERED_PEERS = 10000"

type_synonym conn = nat

record relay_registry =
  rg_sockets :: "(node_id, conn) dict"
  rg_registered_at :: "(node_id, time) dict"
  rg_forward_counts :: "(node_id, nat) dict"
  rg_window_started :: time

definition new_registry :: "time \<Rightarrow> relay_registry" where
  "new_registry tick = \<lparr> rg_sockets = [], rg_registered_at = [], rg_forward_counts = [], rg_window_started = tick \<rparr>"

definition rg_register :: "time \<Rightarrow> node_id \<Rightarrow> conn \<Rightarrow> relay_registry \<Rightarrow> bool \<times> relay_registry" where
  "rg_register wall node_id ws rg =
    (if length (rg_sockets rg) \<ge> MAX_REGISTERED_PEERS \<and> node_id \<notin> set (dkeys (rg_sockets rg)) then (False, rg)
     else (True, rg\<lparr>rg_sockets := dset node_id ws (rg_sockets rg),
                    rg_registered_at := dset node_id wall (rg_registered_at rg)\<rparr>))"

definition rg_lookup :: "node_id \<Rightarrow> relay_registry \<Rightarrow> conn option" where
  "rg_lookup node_id rg = dget (rg_sockets rg) node_id"

definition rg_deregister :: "node_id \<Rightarrow> relay_registry \<Rightarrow> relay_registry" where
  "rg_deregister node_id rg = rg\<lparr>rg_sockets := dpop node_id (rg_sockets rg),
     rg_registered_at := dpop node_id (rg_registered_at rg),
     rg_forward_counts := dpop node_id (rg_forward_counts rg)\<rparr>"

definition rg_note_forward :: "time \<Rightarrow> node_id \<Rightarrow> relay_registry \<Rightarrow> bool \<times> relay_registry" where
  "rg_note_forward tick node_id rg =
    (let rg1 = (if tick - rg_window_started rg > 60 then rg\<lparr>rg_forward_counts := [], rg_window_started := tick\<rparr> else rg);
         current = dget_default 0 (rg_forward_counts rg1) node_id + 1 in
     if current > MAX_FORWARDS_PER_MINUTE then (False, rg1)
     else (True, rg1\<lparr>rg_forward_counts := dset node_id current (rg_forward_counts rg1)\<rparr>))"

definition rg_snapshot :: "relay_registry \<Rightarrow> json" where
  "rg_snapshot rg = JObj [(''peers'', JInt (int (length (rg_sockets rg)))),
     (''node_ids'', JArr (map JStr (sort (dkeys (rg_sockets rg))))),
     (''forward_counts'', JObj (map (\<lambda>(k, n). (k, JInt (int n))) (rg_forward_counts rg)))]"

section \<open>One frame on one connection\<close>

datatype reject_reason =
    FrameTooLarge nat
  | InvalidEncoding
  | NotAnObject
  | RegisterNeedsNodeId
  | RegistryFull
  | MustRegister
  | ForwardNeedsTo
  | ForwardNeedsPayload
  | UnknownFrameType "json option"

datatype relay_reply =
    RegisterAck node_id time
  | RateLimited
  | ForwardUnreachable node_id
  | Forwarded node_id string
  | Pong time
  | Rejected reject_reason

text \<open>The texts; \<open>repr\<close> of an unknown type field is the parameter.\<close>

fun reject_text :: "(json option \<Rightarrow> string) \<Rightarrow> reject_reason \<Rightarrow> string" where
  "reject_text repr (FrameTooLarge n) =
     ''frame too large ('' @ show_nat n @ '' > '' @ show_nat MAX_FRAME_BYTES @ '' bytes)''"
| "reject_text repr InvalidEncoding = ''invalid frame encoding''"
| "reject_text repr NotAnObject = ''frame must be a JSON object''"
| "reject_text repr RegisterNeedsNodeId = ''REGISTER requires node_id''"
| "reject_text repr RegistryFull = ''registry full''"
| "reject_text repr MustRegister = ''must REGISTER before FORWARD''"
| "reject_text repr ForwardNeedsTo = ''FORWARD requires non-empty '' @ [CHR 0x27] @ ''to'' @ [CHR 0x27]"
| "reject_text repr ForwardNeedsPayload = ''FORWARD requires string '' @ [CHR 0x27] @ ''payload'' @ [CHR 0x27]"
| "reject_text repr (UnknownFrameType t) = ''unknown frame type: '' @ repr t"

fun reply_json :: "(json option \<Rightarrow> string) \<Rightarrow> relay_reply \<Rightarrow> json" where
  "reply_json repr (RegisterAck n t) =
     JObj [(''type'', JStr ''REGISTER_ACK''), (''node_id'', JStr n), (''registered_at'', JFloat t)]"
| "reply_json repr RateLimited = JObj [(''type'', JStr ''RATE_LIMITED''), (''retry_after'', JFloat 60)]"
| "reply_json repr (ForwardUnreachable n) = JObj [(''type'', JStr ''FORWARD_UNREACHABLE''), (''to'', JStr n)]"
| "reply_json repr (Forwarded n p) = JObj [(''type'', JStr ''FORWARD''), (''from'', JStr n), (''payload'', JStr p)]"
| "reply_json repr (Pong t) = JObj [(''type'', JStr ''PONG''), (''t'', JFloat t)]"
| "reply_json repr (Rejected r) = JObj [(''type'', JStr ''REJECTED''), (''reason'', JStr (reject_text repr r))]"

datatype raw_frame = RawBytes bytes | RawText string

definition read_raw :: "float_io \<Rightarrow> raw_frame \<Rightarrow> reject_reason + (string, json) dict" where
  "read_raw io raw =
    (let n = (case raw of RawBytes b \<Rightarrow> length b | RawText s \<Rightarrow> length s) in
     if n > MAX_FRAME_BYTES then Inl (FrameTooLarge n)
     else case (case raw of RawBytes b \<Rightarrow> loads_bytes io b | RawText s \<Rightarrow> loads io s) of
       None \<Rightarrow> Inl InvalidEncoding
     | Some (JObj d) \<Rightarrow> Inr d
     | Some _ \<Rightarrow> Inl NotAnObject)"

text \<open>What handling one frame does: the registry, the local \<open>registered_node\<close>, the replies with
  the socket each goes to, and whether the loop goes on.\<close>

record handled =
  hd_registry :: relay_registry
  hd_registered :: "node_id option"
  hd_out :: "(conn \<times> relay_reply) list"
  hd_continue :: bool

definition nonempty_str :: "json option \<Rightarrow> string option" where
  "nonempty_str j = (case j of Some (JStr s) \<Rightarrow> if s = [] then None else Some s | _ \<Rightarrow> None)"

definition any_str :: "json option \<Rightarrow> string option" where
  "any_str j = (case j of Some (JStr s) \<Rightarrow> Some s | _ \<Rightarrow> None)"

lemma nonempty_str_Some: "nonempty_str j = Some s \<longleftrightarrow> j = Some (JStr s) \<and> s \<noteq> []"
  by (auto simp: nonempty_str_def split: option.splits json.splits)

lemma any_str_Some: "any_str j = Some s \<longleftrightarrow> j = Some (JStr s)"
  by (auto simp: any_str_def split: option.splits json.splits)

definition handle_register :: "time \<Rightarrow> conn \<Rightarrow> (string, json) dict \<Rightarrow> node_id option \<Rightarrow> relay_registry \<Rightarrow> handled" where
  "handle_register wall ws d reg rg =
    (case nonempty_str (dget d ''node_id'') of
       None \<Rightarrow> \<lparr> hd_registry = rg, hd_registered = reg, hd_out = [(ws, Rejected RegisterNeedsNodeId)], hd_continue = False \<rparr>
     | Some node_id \<Rightarrow>
         (case rg_register wall node_id ws rg of
            (False, rg1) \<Rightarrow> \<lparr> hd_registry = rg1, hd_registered = reg, hd_out = [(ws, Rejected RegistryFull)], hd_continue = False \<rparr>
          | (True, rg1) \<Rightarrow> \<lparr> hd_registry = rg1, hd_registered = Some node_id, hd_out = [(ws, RegisterAck node_id wall)], hd_continue = True \<rparr>))"

definition handle_forward :: "time \<Rightarrow> conn \<Rightarrow> (string, json) dict \<Rightarrow> node_id option \<Rightarrow> relay_registry \<Rightarrow> handled" where
  "handle_forward tick ws d reg rg =
    (let reject = (\<lambda>rg1 r. \<lparr> hd_registry = rg1, hd_registered = reg, hd_out = [(ws, Rejected r)], hd_continue = False \<rparr>);
         reply = (\<lambda>rg1 w r. \<lparr> hd_registry = rg1, hd_registered = reg, hd_out = [(w, r)], hd_continue = True \<rparr>) in
     case reg of
       None \<Rightarrow> reject rg MustRegister
     | Some me \<Rightarrow>
         (case rg_note_forward tick me rg of
            (False, rg1) \<Rightarrow> reply rg1 ws RateLimited
          | (True, rg1) \<Rightarrow>
              (case nonempty_str (dget d ''to'') of
                 None \<Rightarrow> reject rg1 ForwardNeedsTo
               | Some dst \<Rightarrow>
                   (case any_str (dget d ''payload'') of
                      None \<Rightarrow> reject rg1 ForwardNeedsPayload
                    | Some payload \<Rightarrow>
                        (case rg_lookup dst rg1 of
                           None \<Rightarrow> reply rg1 ws (ForwardUnreachable dst)
                         | Some target \<Rightarrow> reply rg1 target (Forwarded me payload))))))"

definition handle_raw :: "float_io \<Rightarrow> time \<Rightarrow> time \<Rightarrow> conn \<Rightarrow> raw_frame \<Rightarrow> node_id option \<Rightarrow> relay_registry \<Rightarrow> handled" where
  "handle_raw io tick wall ws raw reg rg =
    (let stop = (\<lambda>r. \<lparr> hd_registry = rg, hd_registered = reg, hd_out = [(ws, Rejected r)], hd_continue = False \<rparr>) in
     case read_raw io raw of
       Inl r \<Rightarrow> stop r
     | Inr d \<Rightarrow>
         if dget d ''type'' = Some (JStr ''REGISTER'') then handle_register wall ws d reg rg
         else if dget d ''type'' = Some (JStr ''FORWARD'') then handle_forward tick ws d reg rg
         else if dget d ''type'' = Some (JStr ''PING'')
         then \<lparr> hd_registry = rg, hd_registered = reg, hd_out = [(ws, Pong wall)], hd_continue = True \<rparr>
         else stop (UnknownFrameType (dget d ''type'')))"

section \<open>The server and its connections\<close>

datatype relay_event =
    Connect conn
  | Receive conn raw_frame time time "(conn \<times> relay_reply) list"
  | Abort conn
  | Finish conn

record relay_conn =
  rc_registered :: "node_id option"
  rc_open :: bool

record relay_server =
  rsv_registry :: relay_registry
  rsv_conns :: "(conn, relay_conn) dict"

definition new_server :: "time \<Rightarrow> relay_server" where
  "new_server tick = \<lparr> rsv_registry = new_registry tick, rsv_conns = [] \<rparr>"

text \<open>A connection number is never reused: \<open>Connect\<close> takes a number the table has no entry for,
  and finished connections keep theirs.\<close>

inductive relay_step :: "float_io \<Rightarrow> relay_server \<Rightarrow> relay_event \<Rightarrow> relay_server \<Rightarrow> bool" for io where
  connect: "dget (rsv_conns s) c = None \<Longrightarrow>
    relay_step io s (Connect c) (s\<lparr>rsv_conns := dset c \<lparr> rc_registered = None, rc_open = True \<rparr> (rsv_conns s)\<rparr>)"
| receive: "dget (rsv_conns s) c = Some cs \<Longrightarrow> rc_open cs \<Longrightarrow>
    h = handle_raw io tick wall c raw (rc_registered cs) (rsv_registry s) \<Longrightarrow>
    relay_step io s (Receive c raw tick wall (hd_out h))
      \<lparr> rsv_registry = hd_registry h,
        rsv_conns = dset c \<lparr> rc_registered = hd_registered h, rc_open = hd_continue h \<rparr> (rsv_conns s) \<rparr>"
| abort: "dget (rsv_conns s) c = Some cs \<Longrightarrow>
    relay_step io s (Abort c) (s\<lparr>rsv_conns := dset c (cs\<lparr>rc_open := False\<rparr>) (rsv_conns s)\<rparr>)"
| finish: "dget (rsv_conns s) c = Some cs \<Longrightarrow> \<not> rc_open cs \<Longrightarrow>
    relay_step io s (Finish c)
      \<lparr> rsv_registry = (case rc_registered cs of None \<Rightarrow> rsv_registry s | Some n \<Rightarrow> rg_deregister n (rsv_registry s)),
        rsv_conns = dset c \<lparr> rc_registered = None, rc_open = False \<rparr> (rsv_conns s) \<rparr>"

inductive_cases relay_receiveE: "relay_step io s (Receive c raw tick wall out) s'"
inductive_cases relay_connectE: "relay_step io s (Connect c) s'"
inductive_cases relay_abortE: "relay_step io s (Abort c) s'"
inductive_cases relay_finishE: "relay_step io s (Finish c) s'"

text \<open>A run, its events newest first.\<close>

inductive relay_run :: "float_io \<Rightarrow> relay_server \<Rightarrow> relay_event list \<Rightarrow> relay_server \<Rightarrow> bool" for io s0 where
  start: "relay_run io s0 [] s0"
| step: "relay_run io s0 es s \<Longrightarrow> relay_step io s e s' \<Longrightarrow> relay_run io s0 (e # es) s'"

section \<open>What the history says\<close>

text \<open>The id a connection last registered and still answers for, and the connection that a node id
  leads to, read off the acknowledgements and the closings alone.\<close>

fun acked :: "(conn \<times> relay_reply) list \<Rightarrow> node_id option" where
  "acked [(_, RegisterAck n _)] = Some n"
| "acked _ = None"

fun own_id :: "conn \<Rightarrow> relay_event list \<Rightarrow> node_id option" where
  "own_id c [] = None"
| "own_id c (Receive c' _ _ _ out # es) = (if c' = c \<and> acked out \<noteq> None then acked out else own_id c es)"
| "own_id c (Finish c' # es) = (if c' = c then None else own_id c es)"
| "own_id c (_ # es) = own_id c es"

fun holder :: "node_id \<Rightarrow> relay_event list \<Rightarrow> conn option" where
  "holder n [] = None"
| "holder n (Receive c _ _ _ out # es) = (if acked out = Some n then Some c else holder n es)"
| "holder n (Finish c # es) = (if own_id c es = Some n then None else holder n es)"
| "holder n (_ # es) = holder n es"

lemma register_lookup:
  "rg_register wall n c rg = (True, rg1) \<Longrightarrow> rg_lookup m rg1 = (if m = n then Some c else rg_lookup m rg)"
  by (auto simp: rg_register_def rg_lookup_def split: if_splits)

lemma note_forward_lookup: "rg_note_forward tick n rg = (b, rg1) \<Longrightarrow> rg_lookup m rg1 = rg_lookup m rg"
  by (auto simp: rg_note_forward_def rg_lookup_def Let_def split: if_splits)

lemma deregister_lookup: "rg_lookup m (rg_deregister n rg) = (if m = n then None else rg_lookup m rg)"
  by (simp add: rg_deregister_def rg_lookup_def)

text \<open>The two outcomes of a frame: a registration, or no change to who is registered.\<close>

definition frame_outcome :: "time \<Rightarrow> conn \<Rightarrow> node_id option \<Rightarrow> relay_registry \<Rightarrow> handled \<Rightarrow> bool" where
  "frame_outcome wall c reg rg h =
    ((\<exists>n. hd_out h = [(c, RegisterAck n wall)] \<and> hd_registered h = Some n \<and> hd_continue h
        \<and> rg_register wall n c rg = (True, hd_registry h))
    \<or> (\<exists>w r. hd_out h = [(w, r)] \<and> (\<forall>n t. r \<noteq> RegisterAck n t) \<and> hd_registered h = reg
        \<and> (w \<noteq> c \<longrightarrow> (\<exists>f p. r = Forwarded f p))
        \<and> (\<forall>m. rg_lookup m (hd_registry h) = rg_lookup m rg)))"

lemma handle_register_outcome: "frame_outcome wall c reg rg (handle_register wall c d reg rg)"
  unfolding handle_register_def frame_outcome_def
  by (auto simp: rg_register_def split: option.split)

lemma handle_forward_outcome: "frame_outcome wall c reg rg (handle_forward tick c d reg rg)"
proof (cases reg)
  case (Some me)
  obtain b rg1 where n: "rg_note_forward tick me rg = (b, rg1)" by (cases "rg_note_forward tick me rg")
  show ?thesis
    unfolding handle_forward_def frame_outcome_def Let_def Some option.case n prod.case note_forward_lookup [OF n]
    by (simp add: note_forward_lookup [OF n] split: bool.split option.split)
qed (simp add: handle_forward_def frame_outcome_def)

lemma handle_raw_outcome: "frame_outcome wall c reg rg (handle_raw io tick wall c raw reg rg)"
proof -
  have "frame_outcome wall c reg rg \<lparr> hd_registry = rg, hd_registered = reg, hd_out = [(c, r)], hd_continue = b \<rparr>"
    if "\<forall>n t. r \<noteq> RegisterAck n t" for r b
    using that by (simp add: frame_outcome_def)
  then show ?thesis
    unfolding handle_raw_def Let_def
    by (simp add: handle_register_outcome handle_forward_outcome split: sum.split)
qed

lemma acked_single: "acked [(w, r)] = (case r of RegisterAck n t \<Rightarrow> Some n | _ \<Rightarrow> None)"
  by (cases r) auto

lemma frame_outcome_acked:
  assumes "frame_outcome wall c reg rg h"
  shows "hd_registered h = (if acked (hd_out h) = None then reg else acked (hd_out h))"
    and "rg_lookup m (hd_registry h) = (if acked (hd_out h) = Some m then Some c else rg_lookup m rg)"
  using assms unfolding frame_outcome_def
  by (auto simp: acked_single register_lookup split: relay_reply.splits)

lemma run_history:
  assumes "relay_run io (new_server m) es s"
  shows "(\<forall>c. own_id c es = Option.bind (dget (rsv_conns s) c) rc_registered)
    \<and> (\<forall>n. holder n es = rg_lookup n (rsv_registry s))"
  using assms
proof (induction rule: relay_run.induct)
  case start
  then show ?case by (simp add: new_server_def new_registry_def rg_lookup_def)
next
  case (step es s e s')
  from step.hyps(2) show ?case
  proof cases
    case (receive c cs h tick wall raw)
    have "frame_outcome wall c (rc_registered cs) (rsv_registry s) h"
      using receive by (simp add: handle_raw_outcome)
    from frame_outcome_acked [OF this] show ?thesis
      using step.IH receive(1-4) by simp
  qed (use step.IH in \<open>auto simp: deregister_lookup split: option.splits\<close>)
qed

lemma handle_raw_forwarded:
  assumes "h = handle_raw io tick wall c raw reg rg" "(w, Forwarded f p) \<in> set (hd_out h)"
  shows "reg = Some f \<and> (\<exists>d dst. read_raw io raw = Inr d \<and> dst \<noteq> []
    \<and> dget d ''type'' = Some (JStr ''FORWARD'') \<and> dget d ''to'' = Some (JStr dst)
    \<and> dget d ''payload'' = Some (JStr p) \<and> rg_lookup dst rg = Some w)"
proof -
  obtain d where d: "read_raw io raw = Inr d" "dget d ''type'' = Some (JStr ''FORWARD'')"
      "h = handle_forward tick c d reg rg"
    using assms by (auto simp: handle_raw_def handle_register_def Let_def split: sum.splits if_splits option.splits prod.splits bool.splits)
  then have f: "(w, Forwarded f p) \<in> set (hd_out (handle_forward tick c d reg rg))" using assms by simp
  then obtain me where me: "reg = Some me" by (cases reg) (simp_all add: handle_forward_def)
  obtain b rg1 where n: "rg_note_forward tick me rg = (b, rg1)" by (cases "rg_note_forward tick me rg")
  from f d me n show ?thesis
    unfolding handle_forward_def Let_def me option.case n prod.case
    by (auto simp: nonempty_str_Some any_str_Some note_forward_lookup [OF n] simp del: map_of_eq_Some_iff
        split: bool.splits option.splits)
qed

section \<open>Safety of forwarding\<close>

text \<open>C25: the relay attributes and routes correctly. In every reachable state, whatever connections
  open, register, crash and close in between, a payload is delivered only in answer to a
  well-formed FORWARD frame of a registered connection: unchanged, under the id that connection
  itself registered last, to the connection that last registered the destination id and has not
  closed. Every other reply goes to the sender of the frame.\<close>

theorem relay_forward_authentic:
  assumes "relay_run io (new_server t0) es s" "relay_step io s (Receive c raw tick wall out) s'" "(w, r) \<in> set out"
  shows "(case r of
      Forwarded f p \<Rightarrow> own_id c es = Some f \<and> (\<exists>d dst. read_raw io raw = Inr d
         \<and> dget d ''type'' = Some (JStr ''FORWARD'') \<and> dget d ''to'' = Some (JStr dst)
         \<and> dget d ''payload'' = Some (JStr p) \<and> holder dst es = Some w)
    | _ \<Rightarrow> w = c)"
proof -
  from assms(2) obtain cs where cs: "dget (rsv_conns s) c = Some cs" 
    and out: "out = hd_out (handle_raw io tick wall c raw (rc_registered cs) (rsv_registry s))"
    by (rule relay_receiveE) simp
  have h: "own_id c es = rc_registered cs" "\<And>n. holder n es = rg_lookup n (rsv_registry s)"
    using run_history [OF assms(1)] cs by (simp_all del: map_of_eq_Some_iff)
  have "w = c" if "\<forall>f p. r \<noteq> Forwarded f p"
    using handle_raw_outcome [of wall c "rc_registered cs" "rsv_registry s" io tick raw] assms(3) out that
    by (auto simp: frame_outcome_def)
  then show ?thesis
    using handle_raw_forwarded [OF refl, of w _ _ io tick wall c raw "rc_registered cs" "rsv_registry s"] assms(3) h
    unfolding out by (fastforce split: relay_reply.split simp del: map_of_eq_Some_iff)
qed

definition sample_forward :: raw_frame where
  "sample_forward = RawText (dumps_default sample_io (JObj [(''type'', JStr ''FORWARD''), (''to'', JStr ''a''), (''payload'', JStr ''x'')]))"

definition sample_register :: raw_frame where
  "sample_register = RawText (dumps_default sample_io (JObj [(''type'', JStr ''REGISTER''), (''node_id'', JStr ''a'')]))"

lemma read_sample_frames:
  "read_raw sample_io sample_forward = Inr [(''type'', JStr ''FORWARD''), (''to'', JStr ''a''), (''payload'', JStr ''x'')]"
  "read_raw sample_io sample_register = Inr [(''type'', JStr ''REGISTER''), (''node_id'', JStr ''a'')]"
proof -
  have "length (dumps_default sample_io (JObj [(''type'', JStr ''FORWARD''), (''to'', JStr ''a''), (''payload'', JStr ''x'')])) \<le> 60"
    "length (dumps_default sample_io (JObj [(''type'', JStr ''REGISTER''), (''node_id'', JStr ''a'')])) \<le> 60"
    by code_simp+
  moreover have "60 \<le> MAX_FRAME_BYTES" by (simp add: MAX_FRAME_BYTES_def)
  ultimately have "length (dumps_default sample_io (JObj [(''type'', JStr ''FORWARD''), (''to'', JStr ''a''), (''payload'', JStr ''x'')])) \<le> MAX_FRAME_BYTES"
    "length (dumps_default sample_io (JObj [(''type'', JStr ''REGISTER''), (''node_id'', JStr ''a'')])) \<le> MAX_FRAME_BYTES"
    by linarith+
  then show "read_raw sample_io sample_forward = Inr [(''type'', JStr ''FORWARD''), (''to'', JStr ''a''), (''payload'', JStr ''x'')]"
    "read_raw sample_io sample_register = Inr [(''type'', JStr ''REGISTER''), (''node_id'', JStr ''a'')]"
    by (simp_all add: read_raw_def sample_forward_def sample_register_def loads_dumps_default del: dumps_with.simps)
qed

definition sample_server :: relay_server where
  "sample_server = \<lparr> rsv_registry = \<lparr> rg_sockets = [(''a'', 1)], rg_registered_at = [(''a'', 5)],
       rg_forward_counts = [], rg_window_started = 0 \<rparr>,
     rsv_conns = [(1, \<lparr> rc_registered = Some ''a'', rc_open = True \<rparr>)] \<rparr>"

definition sample_history :: "relay_event list" where
  "sample_history = [Receive 1 sample_register 3 5 [(1, RegisterAck ''a'' 5)], Connect 1]"

lemma sample_server_run: "relay_run sample_io (new_server 0) sample_history sample_server"
proof -
  have h: "handle_raw sample_io 3 5 1 sample_register None (new_registry 0)
      = \<lparr> hd_registry = rsv_registry sample_server, hd_registered = Some ''a'', hd_out = [(1, RegisterAck ''a'' 5)], hd_continue = True \<rparr>"
    by (simp add: handle_raw_def read_sample_frames handle_register_def nonempty_str_def rg_register_def
        new_registry_def sample_server_def MAX_REGISTERED_PEERS_def)
  have "relay_run sample_io (new_server 0) [Connect 1]
      (new_server 0\<lparr>rsv_conns := [(1, \<lparr> rc_registered = None, rc_open = True \<rparr>)]\<rparr>)" (is "relay_run _ _ _ ?s1")
    using relay_run.step [OF relay_run.start relay_step.connect [of "new_server 0" 1]] by (simp add: new_server_def)
  moreover have "relay_step sample_io ?s1 (Receive 1 sample_register 3 5 [(1, RegisterAck ''a'' 5)]) sample_server"
    using relay_step.receive [of ?s1 1 "\<lparr> rc_registered = None, rc_open = True \<rparr>" _ sample_io 3 5 sample_register, OF _ _ refl] h
    by (simp add: new_server_def sample_server_def)
  ultimately show ?thesis unfolding sample_history_def by (rule relay_run.step)
qed

lemma sample_forward_step:
  "\<exists>s'. relay_step sample_io sample_server (Receive 1 sample_forward 4 6 [(1, Forwarded ''a'' ''x'')]) s'"
proof -
  have "hd_out (handle_raw sample_io 4 6 1 sample_forward (Some ''a'') (rsv_registry sample_server)) = [(1, Forwarded ''a'' ''x'')]"
    by (simp add: handle_raw_def read_sample_frames handle_forward_def nonempty_str_def any_str_def rg_note_forward_def
        rg_lookup_def sample_server_def MAX_FORWARDS_PER_MINUTE_def)
  then show ?thesis
    using relay_step.receive [of sample_server 1 "\<lparr> rc_registered = Some ''a'', rc_open = True \<rparr>" _ sample_io 4 6 sample_forward, OF _ _ refl]
    by (auto simp: sample_server_def)
qed

theorem relay_forward_authentic_witness: "own_id 1 sample_history = Some ''a'' \<and> holder ''a'' sample_history = Some 1"
proof -
  obtain s' where "relay_step sample_io sample_server (Receive 1 sample_forward 4 6 [(1, Forwarded ''a'' ''x'')]) s'"
    using sample_forward_step by blast
  from relay_forward_authentic [OF sample_server_run this, of 1 "Forwarded ''a'' ''x''"] show ?thesis
    by (auto simp: read_sample_frames)
qed

section \<open>Bounds\<close>

definition registry_ok :: "relay_registry \<Rightarrow> bool" where
  "registry_ok rg = (length (rg_sockets rg) \<le> MAX_REGISTERED_PEERS \<and> dwf (rg_sockets rg)
     \<and> dkeys (rg_registered_at rg) = dkeys (rg_sockets rg)
     \<and> dwf (rg_forward_counts rg) \<and> (\<forall>n k. dget (rg_forward_counts rg) n = Some k \<longrightarrow> k \<le> MAX_FORWARDS_PER_MINUTE))"

lemma dkeys_dset_cong: "dkeys d = dkeys e \<Longrightarrow> dkeys (dset k v d) = dkeys (dset k w e)"
  by (simp add: update_keys)

lemma dkeys_dpop_cong: "dkeys d = dkeys e \<Longrightarrow> dkeys (dpop k d) = dkeys (dpop k e)"
  by (simp add: delete_keys)

lemma registry_ok_register: "registry_ok rg \<Longrightarrow> registry_ok (snd (rg_register wall n c rg))"
  by (auto simp: registry_ok_def rg_register_def length_dset not_le dkeys_dset_cong simp del: map_of_eq_Some_iff update_keys)

lemma registry_ok_deregister: "registry_ok rg \<Longrightarrow> registry_ok (rg_deregister n rg)"
proof -
  assume ok: "registry_ok rg"
  then have "dkeys (dpop n (rg_registered_at rg)) = dkeys (dpop n (rg_sockets rg))"
    by (intro dkeys_dpop_cong) (simp add: registry_ok_def)
  moreover have "length (dpop n (rg_sockets rg)) \<le> MAX_REGISTERED_PEERS"
    using ok length_dpop_le [of n "rg_sockets rg"] by (simp add: registry_ok_def)
  ultimately show ?thesis
    using ok by (simp add: registry_ok_def rg_deregister_def del: map_of_eq_Some_iff delete_keys)
qed

lemma registry_ok_note_forward: "registry_ok rg \<Longrightarrow> registry_ok (snd (rg_note_forward t n rg))"
  unfolding registry_ok_def rg_note_forward_def Let_def
  by (auto simp: not_less simp del: map_of_eq_Some_iff split: if_splits option.splits)

lemma registry_ok_handle:
  assumes "registry_ok rg"
  shows "registry_ok (hd_registry (handle_raw io tick wall c raw reg rg))"
proof -
  have r: "registry_ok (hd_registry (handle_register wall c d reg rg))" for d
    using registry_ok_register [OF assms, of wall _ c] assms
    by (auto simp: handle_register_def split: option.split bool.split prod.split) (metis snd_conv)+
  have "registry_ok (hd_registry (handle_forward tick c d reg rg))" for d
  proof (cases reg)
    case (Some me)
    obtain b rg1 where n: "rg_note_forward tick me rg = (b, rg1)" by (cases "rg_note_forward tick me rg")
    then have "registry_ok rg1" using registry_ok_note_forward [OF assms, of tick me] by simp
    then show ?thesis by (simp add: handle_forward_def Some n split: bool.split option.split)
  qed (simp add: handle_forward_def assms)
  with r show ?thesis by (simp add: handle_raw_def assms split: sum.split)
qed

lemma relay_step_ok:
  "relay_step io s e s' \<Longrightarrow> registry_ok (rsv_registry s) \<Longrightarrow> registry_ok (rsv_registry s')"
  by (induction rule: relay_step.induct) (auto simp: registry_ok_handle registry_ok_deregister split: option.split)

lemma relay_run_ok: "relay_run io (new_server t0) es s \<Longrightarrow> registry_ok (rsv_registry s)"
  by (induction rule: relay_run.induct)
     (simp add: new_server_def new_registry_def registry_ok_def, blast intro: relay_step_ok)

text \<open>The \<open>finally\<close> block removes the id, not its own registration: after a node reconnected, the
  end of its old connection leaves the live one unreachable.\<close>

lemma stale_close_drops_live_registration:
  assumes "relay_run io (new_server t0) es s" "own_id c es = Some n" "holder n es = Some c'" "c' \<noteq> c"
    and "relay_step io s (Finish c) s'"
  shows "own_id c' (Finish c # es) = own_id c' es \<and> rg_lookup n (rsv_registry s') = None"
  using run_history [OF relay_run.step [OF assms(1,5)], THEN conjunct2, rule_format, of n] assms(2,4) by simp

text \<open>An id's forward counter is forgotten with its registration, so the per-minute cap does not
  bind a client that reconnects: refused, it deregisters, registers again and is served.\<close>

lemma reconnect_escapes_forward_cap:
  assumes "rg_note_forward t n rg = (False, rg1)"
  shows "fst (rg_note_forward t n (snd (rg_register wall n c (rg_deregister n rg1))))"
  by (simp add: rg_note_forward_def rg_register_def rg_deregister_def MAX_FORWARDS_PER_MINUTE_def Let_def)

end
