(* ===== verification/Hooks.thy ===== *)
theory Hooks
  imports Prelude
begin

text \<open>
  hooks.py, \<open>HookManager\<close>: callbacks per hook point, with the per-callback circuit breaker.

  \<^item> A callback is a number, its \<open>id\<close>; equality of callables is identity. What a callback
    does is the environment's: the argument \<open>raises\<close> of \<open>fire\<close> says which calls
    raise, by the callback and its place in the round, so one callback may fail once and
    succeed once in the same round.
  \<^item> The context reaches the callbacks as a read-only view, so \<open>fire\<close> returns it as it was;
    the model keeps the manager's state and the list of calls made.
\<close>

datatype hook_point =
    PRE_SEND | POST_RECEIVE | ON_PEER_CONNECT | ON_PEER_DISCONNECT | ON_HANDSHAKE_COMPLETE | ON_ERROR

fun hook_value :: "hook_point \<Rightarrow> string" where
  "hook_value PRE_SEND = ''pre_send''"
| "hook_value POST_RECEIVE = ''post_receive''"
| "hook_value ON_PEER_CONNECT = ''on_peer_connect''"
| "hook_value ON_PEER_DISCONNECT = ''on_peer_disconnect''"
| "hook_value ON_HANDSHAKE_COMPLETE = ''on_handshake_complete''"
| "hook_value ON_ERROR = ''on_error''"

definition CIRCUIT_BREAKER_THRESHOLD :: nat where "CIRCUIT_BREAKER_THRESHOLD = 3"

type_synonym callback = nat

record hook_manager =
  hm_hooks :: "(string, callback list) dict"
  hm_failures :: "(string \<times> callback, nat) dict"

definition new_hook_manager :: hook_manager where
  "new_hook_manager = \<lparr> hm_hooks = [], hm_failures = [] \<rparr>"

abbreviation hooks_at :: "hook_manager \<Rightarrow> string \<Rightarrow> callback list" where
  "hooks_at m p \<equiv> dget_default [] (hm_hooks m) p"

definition register_hook :: "string \<Rightarrow> callback \<Rightarrow> hook_manager \<Rightarrow> hook_manager" where
  "register_hook p cb m = \<lparr> hm_hooks = dset p (hooks_at m p @ [cb]) (hm_hooks m),
     hm_failures = dset (p, cb) 0 (hm_failures m) \<rparr>"

text \<open>\<open>self._hooks[p].remove(cb)\<close>: the first occurrence; a \<open>ValueError\<close> is caught. A
  missing hook point is a \<open>KeyError\<close>, which is not.\<close>

definition remove_hook :: "string \<Rightarrow> callback \<Rightarrow> hook_manager \<Rightarrow> hook_manager py" where
  "remove_hook p cb m = (case dget (hm_hooks m) p of
     None \<Rightarrow> Inl (KeyError p)
   | Some cbs \<Rightarrow> Inr (m\<lparr>hm_hooks := dset p (remove1 cb cbs) (hm_hooks m)\<rparr>))"

definition forget_failures :: "string \<Rightarrow> callback \<Rightarrow> hook_manager \<Rightarrow> hook_manager" where
  "forget_failures p cb m = m\<lparr>hm_failures := dpop (p, cb) (hm_failures m)\<rparr>"

text \<open>The closure \<open>register\<close> returns.\<close>

definition unregister_hook :: "string \<Rightarrow> callback \<Rightarrow> hook_manager \<Rightarrow> hook_manager py" where
  "unregister_hook p cb m = py_bind (remove_hook p cb m) (\<lambda>m1. Inr (forget_failures p cb m1))"

text \<open>After one call of \<open>cb\<close>.\<close>

definition hook_outcome :: "string \<Rightarrow> callback \<Rightarrow> bool \<Rightarrow> hook_manager \<Rightarrow> hook_manager py" where
  "hook_outcome p cb raised m =
    (if \<not> raised then Inr (m\<lparr>hm_failures := dset (p, cb) 0 (hm_failures m)\<rparr>)
     else let count = dget_default 0 (hm_failures m) (p, cb) + 1;
              m1 = m\<lparr>hm_failures := dset (p, cb) count (hm_failures m)\<rparr> in
       if count \<ge> CIRCUIT_BREAKER_THRESHOLD
       then py_bind (remove_hook p cb m1) (\<lambda>m2. Inr (forget_failures p cb m2))
       else Inr m1)"

fun fire_loop :: "string \<Rightarrow> (nat \<Rightarrow> callback \<Rightarrow> bool) \<Rightarrow> nat \<Rightarrow> callback list \<Rightarrow> hook_manager \<Rightarrow> hook_manager py" where
  "fire_loop p raises i [] m = Inr m"
| "fire_loop p raises i (cb # cbs) m =
     py_bind (hook_outcome p cb (raises i cb) m) (fire_loop p raises (Suc i) cbs)"

text \<open>\<open>fire\<close> walks a copy of the list: every callback registered when it starts is called once.\<close>

definition fire :: "string \<Rightarrow> (nat \<Rightarrow> callback \<Rightarrow> bool) \<Rightarrow> hook_manager \<Rightarrow> hook_manager py" where
  "fire p raises m = fire_loop p raises 0 (hooks_at m p) m"

definition fire_calls :: "string \<Rightarrow> hook_manager \<Rightarrow> callback list" where
  "fire_calls p m = hooks_at m p"

definition clear_hooks :: "string option \<Rightarrow> hook_manager \<Rightarrow> hook_manager" where
  "clear_hooks p m = (case p of
     None \<Rightarrow> m\<lparr>hm_hooks := []\<rparr>
   | Some q \<Rightarrow> if q = [] then m\<lparr>hm_hooks := []\<rparr> else m\<lparr>hm_hooks := dpop q (hm_hooks m)\<rparr>)"

definition list_hooks :: "hook_manager \<Rightarrow> (string \<times> nat) list" where
  "list_hooks m = map (\<lambda>(k, v). (k, length v)) (hm_hooks m)"

section \<open>The breaker counts consecutive failures\<close>

lemma remove_hook_Inr:
  "dget (hm_hooks m) p = Some cbs \<Longrightarrow> remove_hook p cb m = Inr (m\<lparr>hm_hooks := dset p (remove1 cb cbs) (hm_hooks m)\<rparr>)"
  by (simp add: remove_hook_def del: map_of_eq_Some_iff)

text \<open>The history of a callback at a point, newest first: the number of failures since the last
  success.\<close>

fun streak :: "bool list \<Rightarrow> nat" where
  "streak [] = 0"
| "streak (r # rs) = (if r then Suc (streak rs) else 0)"

definition breaker_ok :: "hook_manager \<Rightarrow> bool" where
  "breaker_ok m = (\<forall>p cb. dget_default 0 (hm_failures m) (p, cb) < CIRCUIT_BREAKER_THRESHOLD)"

lemma hook_outcome_failures:
  assumes "hook_outcome p cb raised m = Inr m'"
  shows "dget_default 0 (hm_failures m') k =
    (if k = (p, cb) then
       (if raised then let c = dget_default 0 (hm_failures m) k + 1 in if c \<ge> CIRCUIT_BREAKER_THRESHOLD then 0 else c else 0)
     else dget_default 0 (hm_failures m) k)"
  using assms
  by (auto simp: hook_outcome_def remove_hook_def forget_failures_def Let_def py_bind_Inr_iff
      simp del: map_of_eq_Some_iff split: if_splits option.splits)

lemma hook_outcome_hooks:
  assumes "hook_outcome p cb raised m = Inr m'"
  shows "hooks_at m' q =
    (if q = p \<and> raised \<and> dget_default 0 (hm_failures m) (p, cb) + 1 \<ge> CIRCUIT_BREAKER_THRESHOLD
     then remove1 cb (hooks_at m p) else hooks_at m q)"
  using assms
  by (auto simp: hook_outcome_def remove_hook_def forget_failures_def Let_def py_bind_Inr_iff
      simp del: map_of_eq_Some_iff split: if_splits option.splits)

lemma breaker_ok_outcome: "breaker_ok m \<Longrightarrow> hook_outcome p cb raised m = Inr m' \<Longrightarrow> breaker_ok m'"
  unfolding breaker_ok_def using hook_outcome_failures [of p cb raised m m']
  by (auto simp: Let_def CIRCUIT_BREAKER_THRESHOLD_def)

section \<open>A round of calls\<close>

abbreviation fail_count :: "hook_manager \<Rightarrow> string \<Rightarrow> callback \<Rightarrow> nat" where
  "fail_count m p cb \<equiv> dget_default 0 (hm_failures m) (p, cb)"

definition after_call :: "bool \<Rightarrow> nat \<Rightarrow> nat" where
  "after_call raised c = (if \<not> raised \<or> c + 1 \<ge> CIRCUIT_BREAKER_THRESHOLD then 0 else c + 1)"

definition trips_now :: "bool \<Rightarrow> nat \<Rightarrow> bool" where
  "trips_now raised c = (raised \<and> c + 1 \<ge> CIRCUIT_BREAKER_THRESHOLD)"

lemma hook_outcome_runs:
  assumes "dget (hm_hooks m) p \<noteq> None" "distinct (hooks_at m p)"
  shows "\<exists>m'. hook_outcome p cb raised m = Inr m' \<and> dget (hm_hooks m') p \<noteq> None \<and> distinct (hooks_at m' p)
    \<and> hooks_at m' p = filter (\<lambda>x. \<not> (x = cb \<and> trips_now raised (fail_count m p cb))) (hooks_at m p)
    \<and> (\<forall>q. q \<noteq> p \<longrightarrow> hooks_at m' q = hooks_at m q)
    \<and> (\<forall>q x. fail_count m' q x = (if q = p \<and> x = cb then after_call raised (fail_count m p cb) else fail_count m q x))"
proof -
  obtain cbs where cbs: "dget (hm_hooks m) p = Some cbs" using assms(1) by (auto simp del: map_of_eq_Some_iff)
  have "\<exists>m'. hook_outcome p cb raised m = Inr m' \<and> dget (hm_hooks m') p \<noteq> None"
    using cbs by (auto simp: hook_outcome_def remove_hook_def forget_failures_def Let_def py_bind_Inr_iff simp del: map_of_eq_Some_iff)
  then obtain m' where m': "hook_outcome p cb raised m = Inr m'" "dget (hm_hooks m') p \<noteq> None" by blast
  have h: "hooks_at m' p = filter (\<lambda>x. \<not> (x = cb \<and> trips_now raised (fail_count m p cb))) (hooks_at m p)"
    using hook_outcome_hooks [OF m'(1), of p] assms(2) by (auto simp: trips_now_def distinct_remove1_removeAll removeAll_filter_not_eq intro!: filter_cong)
  show ?thesis
    using m' h assms(2) hook_outcome_hooks [OF m'(1)] hook_outcome_failures [OF m'(1)]
    by (intro exI [of _ m']) (auto simp: after_call_def Let_def)
qed

lemma fire_loop_spec:
  assumes "dget (hm_hooks m) p \<noteq> None" "distinct (hooks_at m p)" "distinct cbs"
  shows "\<exists>m'. fire_loop p (\<lambda>_. w) i cbs m = Inr m' \<and> dget (hm_hooks m') p \<noteq> None \<and> distinct (hooks_at m' p)
    \<and> hooks_at m' p = filter (\<lambda>x. \<not> (x \<in> set cbs \<and> trips_now (w x) (fail_count m p x))) (hooks_at m p)
    \<and> (\<forall>q. q \<noteq> p \<longrightarrow> hooks_at m' q = hooks_at m q)
    \<and> (\<forall>q x. fail_count m' q x = (if q = p \<and> x \<in> set cbs then after_call (w x) (fail_count m p x) else fail_count m q x))"
  using assms
proof (induction cbs arbitrary: m i)
  case Nil
  then show ?case by (simp del: map_of_eq_Some_iff)
next
  case (Cons cb cbs)
  obtain m1 where m1: "hook_outcome p cb (w cb) m = Inr m1" "dget (hm_hooks m1) p \<noteq> None" "distinct (hooks_at m1 p)"
    "hooks_at m1 p = filter (\<lambda>x. \<not> (x = cb \<and> trips_now (w cb) (fail_count m p cb))) (hooks_at m p)"
    "\<And>q. q \<noteq> p \<Longrightarrow> hooks_at m1 q = hooks_at m q"
    "\<And>q x. fail_count m1 q x = (if q = p \<and> x = cb then after_call (w cb) (fail_count m p cb) else fail_count m q x)"
    using hook_outcome_runs [OF Cons.prems(1,2), of cb "w cb"] by blast
  have d: "distinct cbs" "cb \<notin> set cbs" using Cons.prems(3) by simp_all
  from Cons.IH [OF m1(2,3) d(1), of "Suc i"] obtain m' where
    m': "fire_loop p (\<lambda>_. w) (Suc i) cbs m1 = Inr m'" "dget (hm_hooks m') p \<noteq> None" "distinct (hooks_at m' p)"
      "hooks_at m' p = filter (\<lambda>x. \<not> (x \<in> set cbs \<and> trips_now (w x) (fail_count m1 p x))) (hooks_at m1 p)"
      "\<forall>q. q \<noteq> p \<longrightarrow> hooks_at m' q = hooks_at m1 q"
      "\<forall>q x. fail_count m' q x = (if q = p \<and> x \<in> set cbs then after_call (w x) (fail_count m1 p x) else fail_count m1 q x)"
    by blast
  show ?case
  proof (intro exI [of _ m'] conjI)
    show "hooks_at m' p = filter (\<lambda>x. \<not> (x \<in> set (cb # cbs) \<and> trips_now (w x) (fail_count m p x))) (hooks_at m p)"
      unfolding m'(4) m1(4) filter_filter by (rule filter_cong [OF refl]) (use d(2) m1(6) in auto)
    show "\<forall>q. q \<noteq> p \<longrightarrow> hooks_at m' q = hooks_at m q" using m'(5) m1(5) by simp
    show "\<forall>q x. fail_count m' q x = (if q = p \<and> x \<in> set (cb # cbs) then after_call (w x) (fail_count m p x) else fail_count m q x)"
      using m'(6) m1(6) d(2) by auto
  qed (use m1(1) m'(1,2,3) in simp_all)
qed

text \<open>Rounds of \<open>fire\<close> at one point, one behaviour of the callbacks per round.\<close>

fun fire_rounds :: "string \<Rightarrow> (callback \<Rightarrow> bool) list \<Rightarrow> hook_manager \<Rightarrow> hook_manager py" where
  "fire_rounds p [] m = Inr m"
| "fire_rounds p (w # ws) m = py_bind (fire p (\<lambda>_. w) m) (fire_rounds p ws)"

lemma fire_spec:
  assumes "dget (hm_hooks m) p \<noteq> None" "distinct (hooks_at m p)"
  shows "\<exists>m'. fire p (\<lambda>_. w) m = Inr m' \<and> dget (hm_hooks m') p \<noteq> None \<and> distinct (hooks_at m' p)
    \<and> hooks_at m' p = filter (\<lambda>x. \<not> trips_now (w x) (fail_count m p x)) (hooks_at m p)
    \<and> (\<forall>q. q \<noteq> p \<longrightarrow> hooks_at m' q = hooks_at m q)
    \<and> (\<forall>x. x \<in> set (hooks_at m p) \<longrightarrow> fail_count m' p x = after_call (w x) (fail_count m p x))"
proof -
  have "filter (\<lambda>x. \<not> (x \<in> set (hooks_at m p) \<and> trips_now (w x) (fail_count m p x))) (hooks_at m p)
      = filter (\<lambda>x. \<not> trips_now (w x) (fail_count m p x)) (hooks_at m p)"
    by (rule filter_cong) auto
  with fire_loop_spec [OF assms assms(2), of w 0] show ?thesis
    unfolding fire_def by fastforce
qed

fun trips :: "nat \<Rightarrow> bool list \<Rightarrow> bool" where
  "trips c [] = False"
| "trips c (r # rs) = (trips_now r c \<or> trips (after_call r c) rs)"

lemma trips_iff: "c < 3 \<Longrightarrow> trips c rs \<longleftrightarrow> (\<exists>ys. rs = replicate (3 - c) True @ ys)
    \<or> (\<exists>xs ys. rs = xs @ [True, True, True] @ ys)"
proof (induction rs arbitrary: c)
  case (Cons r rs)
  have three: "replicate 3 True = [True, True, True]" by (simp add: numeral_3_eq_3)
  have inner: "(\<exists>xs ys. r # rs = xs @ [True, True, True] @ ys)
      \<longleftrightarrow> (\<exists>ys. r # rs = [True, True, True] @ ys) \<or> (\<exists>xs ys. rs = xs @ [True, True, True] @ ys)"
    by (metis append_Cons append_Nil list.sel(3) list.exhaust_sel tl_append2)
  consider "\<not> r" | "r" "c = 2" | "r" "c < 2" using Cons.prems by linarith
  then show ?case
  proof cases
    case 1
    then have "trips c (r # rs) \<longleftrightarrow> trips 0 rs" by (simp add: trips_now_def after_call_def)
    also have "\<dots> \<longleftrightarrow> (\<exists>xs ys. rs = xs @ [True, True, True] @ ys)"
      using Cons.IH [of 0] three by (metis append_Nil diff_zero zero_less_numeral)
    finally show ?thesis using 1 inner Cons.prems by (cases "3 - c") auto
  next
    case 2
    then show ?thesis by (simp add: trips_now_def CIRCUIT_BREAKER_THRESHOLD_def)
  next
    case 3
    then have "trips c (r # rs) \<longleftrightarrow> trips (Suc c) rs"
      by (simp add: trips_now_def after_call_def CIRCUIT_BREAKER_THRESHOLD_def)
    also have "\<dots> \<longleftrightarrow> (\<exists>ys. rs = replicate (3 - Suc c) True @ ys) \<or> (\<exists>xs ys. rs = xs @ [True, True, True] @ ys)"
      using Cons.IH 3 by simp
    moreover have "3 - c = Suc (3 - Suc c)" using 3 by arith
    then have "replicate (3 - c) True = True # replicate (3 - Suc c) True" by (simp only: replicate_Suc)
    moreover have "(\<exists>ys. r # rs = [True, True, True] @ ys) \<longrightarrow> (\<exists>ys. rs = replicate (3 - Suc c) True @ ys)"
      using 3 by (cases c) (auto simp: numeral_3_eq_3 numeral_2_eq_2)
    ultimately show ?thesis using 3(1) inner by simp blast
  qed
qed simp

lemma fire_rounds_spec:
  assumes "dget (hm_hooks m) p \<noteq> None" "distinct (hooks_at m p)"
  shows "\<exists>m'. fire_rounds p ws m = Inr m' \<and> (\<forall>q. q \<noteq> p \<longrightarrow> hooks_at m' q = hooks_at m q)
    \<and> (\<forall>cb. cb \<in> set (hooks_at m' p) \<longleftrightarrow> cb \<in> set (hooks_at m p) \<and> \<not> trips (fail_count m p cb) (map (\<lambda>w. w cb) ws))"
  using assms
proof (induction ws arbitrary: m)
  case Nil
  then show ?case by simp
next
  case (Cons w ws)
  obtain m1 where m1: "fire p (\<lambda>_. w) m = Inr m1" "dget (hm_hooks m1) p \<noteq> None" "distinct (hooks_at m1 p)"
    "hooks_at m1 p = filter (\<lambda>x. \<not> trips_now (w x) (fail_count m p x)) (hooks_at m p)"
    "\<forall>q. q \<noteq> p \<longrightarrow> hooks_at m1 q = hooks_at m q"
    "\<forall>x. x \<in> set (hooks_at m p) \<longrightarrow> fail_count m1 p x = after_call (w x) (fail_count m p x)"
    using fire_spec [OF Cons.prems, of w] by blast
  from Cons.IH [OF m1(2,3)] obtain m' where m': "fire_rounds p ws m1 = Inr m'"
    "\<forall>q. q \<noteq> p \<longrightarrow> hooks_at m' q = hooks_at m1 q"
    "\<forall>cb. cb \<in> set (hooks_at m' p) \<longleftrightarrow> cb \<in> set (hooks_at m1 p) \<and> \<not> trips (fail_count m1 p cb) (map (\<lambda>w. w cb) ws)"
    by blast
  show ?case
  proof (intro exI [of _ m'] conjI)
    show "fire_rounds p (w # ws) m = Inr m'" using m1(1) m'(1) by simp
    show "\<forall>q. q \<noteq> p \<longrightarrow> hooks_at m' q = hooks_at m q" using m1(5) m'(2) by simp
    show "\<forall>cb. cb \<in> set (hooks_at m' p) \<longleftrightarrow> cb \<in> set (hooks_at m p) \<and> \<not> trips (fail_count m p cb) (map (\<lambda>w. w cb) (w # ws))"
      using m'(3) m1(4,6) by auto
  qed
qed

text \<open>C28: the hook circuit breaker is exact. A callback registered once at a point is still registered
  after any number of rounds of \<open>fire\<close> exactly when it never failed in three consecutive
  rounds; the other callbacks, the other points and the caller never see its exceptions.\<close>

theorem hook_breaker_exact:
  assumes "distinct (hooks_at m p)" "cb \<notin> set (hooks_at m p)"
  shows "\<exists>m'. fire_rounds p ws (register_hook p cb m) = Inr m'
    \<and> (cb \<in> set (hooks_at m' p) \<longleftrightarrow> \<not> (\<exists>xs ys. map (\<lambda>w. w cb) ws = xs @ [True, True, True] @ ys))
    \<and> (\<forall>q. q \<noteq> p \<longrightarrow> hooks_at m' q = hooks_at m q)"
proof -
  let ?m = "register_hook p cb m"
  have a: "hooks_at ?m p = hooks_at m p @ [cb]" "dget (hm_hooks ?m) p \<noteq> None" "fail_count ?m p cb = 0"
    "\<And>q. q \<noteq> p \<Longrightarrow> hooks_at ?m q = hooks_at m q"
    by (simp_all add: register_hook_def del: map_of_eq_Some_iff)
  have "distinct (hooks_at ?m p)" using assms a(1) by simp
  from fire_rounds_spec [OF a(2) this, of ws] obtain m' where m': "fire_rounds p ws ?m = Inr m'"
    "\<forall>q. q \<noteq> p \<longrightarrow> hooks_at m' q = hooks_at ?m q"
    "\<forall>x. x \<in> set (hooks_at m' p) \<longleftrightarrow> x \<in> set (hooks_at ?m p) \<and> \<not> trips (fail_count ?m p x) (map (\<lambda>w. w x) ws)"
    by blast
  have "trips 0 rs \<longleftrightarrow> (\<exists>xs ys. rs = xs @ [True, True, True] @ ys)" for rs
    using trips_iff [of 0 rs] by (auto simp: numeral_3_eq_3)
  then show ?thesis using m' a by (intro exI [of _ m']) simp
qed

theorem hook_breaker_exact_witness:
  "\<exists>m'. fire_rounds ''on_error'' [\<lambda>_. True, \<lambda>_. True, \<lambda>_. False, \<lambda>_. True] (register_hook ''on_error'' 7 new_hook_manager) = Inr m'
    \<and> 7 \<in> set (hooks_at m' ''on_error'')"
proof -
  have "\<not> (\<exists>xs ys. [True, True, False, True] = xs @ [True, True, True] @ ys)"
    by (auto simp: Cons_eq_append_conv)
  then show ?thesis
    using hook_breaker_exact [of new_hook_manager "''on_error''" 7 "[\<lambda>_. True, \<lambda>_. True, \<lambda>_. False, \<lambda>_. True]"]
    by (auto simp: new_hook_manager_def)
qed

end
