(* ===== verification/Globs.thy ===== *)
theory Globs
  imports Prelude
begin

text \<open>
  \<open>fnmatch.fnmatchcase\<close> of the standard library, which the capability registry and the
  federation policy match their patterns with: \<open>*\<close>, \<open>?\<close>, \<open>[...]\<close> and \<open>[!...]\<close>,
  every other character literal. (\<open>fnmatch.fnmatch\<close> is the same function on POSIX, where
  \<open>os.path.normcase\<close> changes nothing.) \<open>parse_glob\<close> reads a pattern, \<open>glob_match\<close>
  runs it, and \<open>glob_language\<close> is its declarative meaning.
\<close>

datatype glob_tok =
    AnyString
  | AnyChar
  | Literal char
  | CharClass bool "(char \<times> char) list"

text \<open>The ranges between the brackets: \<open>a-z\<close>, or a single character.\<close>

fun parse_ranges :: "string \<Rightarrow> (char \<times> char) list" where
  "parse_ranges (a # d # b # s) =
     (if d = CHR ''-'' then (a, b) # parse_ranges s else (a, a) # parse_ranges (d # b # s))"
| "parse_ranges (a # s) = (a, a) # parse_ranges s"
| "parse_ranges [] = []"

text \<open>After a \<open>[\<close>: negated or not, the text of the class, the rest of the pattern; \<open>None\<close> when no
  \<open>]\<close> closes it. A \<open>]\<close> in the first place belongs to the class.\<close>

definition split_class :: "string \<Rightarrow> (bool \<times> string \<times> string) option" where
  "split_class s =
    (let neg = (s \<noteq> [] \<and> hd s = CHR ''!'');
         s1 = (if neg then tl s else s);
         first = (if s1 \<noteq> [] \<and> hd s1 = CHR '']'' then '']'' else []);
         s2 = drop (length first) s1;
         close = dropWhile (\<lambda>c. c \<noteq> CHR '']'') s2 in
     if close = [] then None
     else Some (neg, first @ takeWhile (\<lambda>c. c \<noteq> CHR '']'') s2, tl close))"

lemma split_class_shorter: "split_class s = Some (neg, body, rest) \<Longrightarrow> length rest < length s"
proof -
  assume a: "split_class s = Some (neg, body, rest)"
  define s1 where "s1 = (if s \<noteq> [] \<and> hd s = CHR ''!'' then tl s else s)"
  define s2 where "s2 = drop (length (if s1 \<noteq> [] \<and> hd s1 = CHR '']'' then '']'' else [])) s1"
  define close where "close = dropWhile (\<lambda>c. c \<noteq> CHR '']'') s2"
  have "length close \<le> length s2" unfolding close_def by (rule length_dropWhile_le)
  moreover have "length s2 \<le> length s" by (simp add: s2_def s1_def)
  moreover have "close \<noteq> [] \<and> rest = tl close"
    using a unfolding split_class_def Let_def s1_def [symmetric] s2_def [symmetric] close_def [symmetric]
    by (cases "close = []") simp_all
  ultimately show ?thesis by (cases close) auto
qed

function (sequential) parse_glob :: "string \<Rightarrow> glob_tok list" where
  "parse_glob [] = []"
| "parse_glob (c # s) =
     (if c = CHR ''*'' then AnyString # parse_glob s
      else if c = CHR ''?'' then AnyChar # parse_glob s
      else if c = CHR ''['' then
        (case split_class s of
           None \<Rightarrow> Literal c # parse_glob s
         | Some (neg, body, rest) \<Rightarrow> CharClass neg (parse_ranges body) # parse_glob rest)
      else Literal c # parse_glob s)"
  by pat_completeness auto

termination
  by (relation "measure length") (auto dest: split_class_shorter)

fun tok_accepts :: "glob_tok \<Rightarrow> char \<Rightarrow> bool" where
  "tok_accepts AnyString c = True"
| "tok_accepts AnyChar c = True"
| "tok_accepts (Literal a) c = (a = c)"
| "tok_accepts (CharClass neg rs) c = (neg \<noteq> (\<exists>r \<in> set rs. fst r \<le> c \<and> c \<le> snd r))"

fun glob_match :: "glob_tok list \<Rightarrow> string \<Rightarrow> bool" where
  "glob_match [] s = (s = [])"
| "glob_match (AnyString # ps) [] = glob_match ps []"
| "glob_match (AnyString # ps) (c # s) = (glob_match ps (c # s) \<or> glob_match (AnyString # ps) s)"
| "glob_match (p # ps) [] = False"
| "glob_match (p # ps) (c # s) = (tok_accepts p c \<and> glob_match ps s)"

definition fnmatchcase :: "string \<Rightarrow> string \<Rightarrow> bool" where
  "fnmatchcase name pattern = glob_match (parse_glob pattern) name"

text \<open>The texts a token stands for, and a pattern as their concatenation.\<close>

definition tok_language :: "glob_tok \<Rightarrow> string set" where
  "tok_language t = (if t = AnyString then UNIV else {[c] | c. tok_accepts t c})"

fun glob_language :: "glob_tok list \<Rightarrow> string set" where
  "glob_language [] = {[]}"
| "glob_language (t # ts) = {u @ v | u v. u \<in> tok_language t \<and> v \<in> glob_language ts}"

lemma glob_language_char:
  assumes "t \<noteq> AnyString"
  shows "c # s \<in> glob_language (t # ts) \<longleftrightarrow> tok_accepts t c \<and> s \<in> glob_language ts"
    and "[] \<notin> glob_language (t # ts)"
proof -
  have split: "(c # s = u @ v \<and> u \<in> tok_language t) \<longleftrightarrow> u = [c] \<and> v = s \<and> tok_accepts t c" for u v
    using assms by (cases u) (auto simp: tok_language_def)
  have "c # s \<in> glob_language (t # ts) \<longleftrightarrow> (\<exists>u v. (c # s = u @ v \<and> u \<in> tok_language t) \<and> v \<in> glob_language ts)"
    unfolding glob_language.simps mem_Collect_eq conj_assoc ..
  then show "c # s \<in> glob_language (t # ts) \<longleftrightarrow> tok_accepts t c \<and> s \<in> glob_language ts"
    unfolding split by simp
  show "[] \<notin> glob_language (t # ts)" using assms by (auto simp: tok_language_def)
qed

lemma glob_match_language: "glob_match ps s \<longleftrightarrow> s \<in> glob_language ps"
proof (induction ps s rule: glob_match.induct)
  case (3 ps c s)
  have "c # s \<in> glob_language (AnyString # ps) \<longleftrightarrow> c # s \<in> glob_language ps \<or> s \<in> glob_language (AnyString # ps)"
  proof
    assume "c # s \<in> glob_language (AnyString # ps)"
    then obtain u v where uv: "c # s = u @ v" "v \<in> glob_language ps" by (auto simp: tok_language_def)
    then show "c # s \<in> glob_language ps \<or> s \<in> glob_language (AnyString # ps)"
      by (cases u) (auto simp: tok_language_def)
  next
    assume "c # s \<in> glob_language ps \<or> s \<in> glob_language (AnyString # ps)"
    then show "c # s \<in> glob_language (AnyString # ps)"
    proof
      assume "c # s \<in> glob_language ps"
      then have "c # s = [] @ (c # s) \<and> [] \<in> tok_language AnyString \<and> c # s \<in> glob_language ps" by (simp add: tok_language_def)
      then show ?thesis unfolding glob_language.simps by blast
    next
      assume "s \<in> glob_language (AnyString # ps)"
      then obtain u v where "s = u @ v" "v \<in> glob_language ps" by (auto simp: tok_language_def)
      then have "c # s = (c # u) @ v \<and> c # u \<in> tok_language AnyString \<and> v \<in> glob_language ps" by (simp add: tok_language_def)
      then show ?thesis unfolding glob_language.simps by blast
    qed
  qed
  with 3 show ?case by simp
next
  case (2 ps)
  then show ?case by (auto simp: tok_language_def)
qed (simp_all add: glob_language_char del: glob_language.simps(2))

text \<open>A pattern without special characters matches itself only; \<open>*\<close> matches everything.\<close>

lemma parse_glob_plain:
  "\<forall>c \<in> set s. c \<noteq> CHR ''*'' \<and> c \<noteq> CHR ''?'' \<and> c \<noteq> CHR ''['' \<Longrightarrow> parse_glob s = map Literal s"
  by (induction s) auto

lemma fnmatchcase_plain:
  assumes "\<forall>c \<in> set p. c \<noteq> CHR ''*'' \<and> c \<noteq> CHR ''?'' \<and> c \<noteq> CHR ''[''"
  shows "fnmatchcase s p \<longleftrightarrow> s = p"
proof -
  have "glob_match (map Literal p) s \<longleftrightarrow> s = p"
    by (induction p arbitrary: s) (case_tac s; auto)+
  then show ?thesis using parse_glob_plain [OF assms] by (simp add: fnmatchcase_def)
qed

lemma fnmatchcase_star [simp]: "fnmatchcase s ''*''"
proof -
  have "glob_match [AnyString] s" by (induction s) auto
  then show ?thesis by (simp add: fnmatchcase_def)
qed

end
