(* ===== verification/Federation.thy ===== *)
theory Federation
  imports Globs Json
begin

text \<open>
  federation.py: the policy that says which capabilities may be reached from the other mesh, and
  the handler that forwards a message. Starting and stopping the two agents is not modelled; what
  \<open>discover\<close> returns and which \<open>reply\<close> calls raise are arguments of the handler.
\<close>

definition FORWARD_PREFIX :: bytes where
  "FORWARD_PREFIX = utf8 ''[FED] ''"

record source_rule =
  sr_source :: string
  sr_allow :: "string list"
  sr_deny :: "string list"

record federation_policy =
  fp_allow :: "string list"
  fp_deny :: "string list"
  fp_per_source :: "source_rule list"

text \<open>\<open>list(x)\<close> of a configured value: a list of patterns, the characters of a string, the keys of
  an object; anything else is a \<open>TypeError\<close>. (An element that is not a string raises only when
  it is matched; here it raises at once.)\<close>

definition pattern_list :: "json \<Rightarrow> string list py" where
  "pattern_list j = (case j of
     JArr xs \<Rightarrow> (case all_some (map py_str xs) of Some ps \<Rightarrow> Inr ps | None \<Rightarrow> Inl (TypeError ''pattern''))
   | JStr s \<Rightarrow> Inr (map (\<lambda>c. [c]) s)
   | JObj d \<Rightarrow> Inr (dkeys d)
   | _ \<Rightarrow> Inl (TypeError ''not iterable''))"

text \<open>One entry of \<open>per_source\<close>: \<open>None\<close> when it is skipped.\<close>

definition read_rule :: "json \<Rightarrow> source_rule option py" where
  "read_rule entry = (case entry of
     JObj d \<Rightarrow>
       (case dget d ''source'' of
          Some (JStr src) \<Rightarrow>
            if src = [] then Inr None
            else py_bind (pattern_list (dget_default (JArr [JStr ''*'']) d ''allow'')) (\<lambda>allow.
                 py_bind (pattern_list (dget_default (JArr []) d ''deny'')) (\<lambda>deny.
                 Inr (Some \<lparr> sr_source = src, sr_allow = allow, sr_deny = deny \<rparr>)))
        | _ \<Rightarrow> Inr None)
   | _ \<Rightarrow> Inr None)"

fun read_rules :: "json list \<Rightarrow> source_rule list py" where
  "read_rules [] = Inr []"
| "read_rules (e # es) = py_bind (read_rule e) (\<lambda>r. py_bind (read_rules es) (\<lambda>rs.
     Inr (case r of None \<Rightarrow> rs | Some x \<Rightarrow> x # rs)))"

text \<open>\<open>x or default\<close> on an optional list.\<close>

definition or_list :: "'a list option \<Rightarrow> 'a list \<Rightarrow> 'a list" where
  "or_list x d = (case x of None \<Rightarrow> d | Some xs \<Rightarrow> if xs = [] then d else xs)"

definition new_policy :: "string list option \<Rightarrow> string list option \<Rightarrow> json list option \<Rightarrow> federation_policy py" where
  "new_policy allow deny per_source =
     py_bind (read_rules (or_list per_source [])) (\<lambda>rules.
       Inr \<lparr> fp_allow = or_list allow [''*''], fp_deny = or_list deny [], fp_per_source = rules \<rparr>)"

definition any_match :: "string \<Rightarrow> string list \<Rightarrow> bool" where
  "any_match name ps = (\<exists>p \<in> set ps. fnmatchcase name p)"

fun first_rule :: "string \<Rightarrow> source_rule list \<Rightarrow> source_rule option" where
  "first_rule src [] = None"
| "first_rule src (r # rs) = (if fnmatchcase src (sr_source r) then Some r else first_rule src rs)"

definition should_forward :: "federation_policy \<Rightarrow> string \<Rightarrow> string option \<Rightarrow> bool" where
  "should_forward P capability source =
    (case (if source = None \<or> source = Some [] then None else first_rule (the source) (fp_per_source P)) of
       Some r \<Rightarrow> if any_match capability (sr_deny r) then False else any_match capability (sr_allow r)
     | None \<Rightarrow> if any_match capability (fp_deny P) then False else any_match capability (fp_allow P))"

definition policy_to_dict :: "federation_policy \<Rightarrow> json" where
  "policy_to_dict P = JObj ([(''allow'', JArr (map JStr (fp_allow P))), (''deny'', JArr (map JStr (fp_deny P)))] @
     (if fp_per_source P = [] then [] else
       [(''per_source'', JArr (map (\<lambda>r. JObj [(''source'', JStr (sr_source r)), (''allow'', JArr (map JStr (sr_allow r))),
          (''deny'', JArr (map JStr (sr_deny r)))]) (fp_per_source P)))]))"

section \<open>Forwarding\<close>

record fed_stats =
  fs_forwarded :: nat
  fs_denied :: nat
  fs_errors :: nat

text \<open>\<open>peer_caps.setdefault(nid, []).append(cap)\<close> over what \<open>discover("*")\<close> returned.\<close>

definition group_caps :: "(node_id \<times> string) list \<Rightarrow> (node_id, string list) dict" where
  "group_caps found = foldl (\<lambda>d (nid, cap). dset nid (dget_default [] d nid @ [cap]) d) [] found"

text \<open>The replies made, whether one succeeded, the counters. The argument \<open>sends\<close> says whether the
  \<open>reply\<close> call to a node returns.\<close>

fun forward_loop :: "federation_policy \<Rightarrow> node_id \<Rightarrow> bytes \<Rightarrow> (node_id \<Rightarrow> bool) \<Rightarrow> (node_id, string list) dict
    \<Rightarrow> fed_stats \<Rightarrow> (node_id \<times> bytes) list \<times> bool \<times> fed_stats" where
  "forward_loop P peer payload sends [] st = ([], False, st)"
| "forward_loop P peer payload sends ((nid, caps) # rest) st =
    (if find (\<lambda>c. should_forward P c (Some peer)) caps = None then forward_loop P peer payload sends rest st
     else if sends nid then
       (case forward_loop P peer payload sends rest (st\<lparr>fs_forwarded := fs_forwarded st + 1\<rparr>) of
          (out, ok, st') \<Rightarrow> ((nid, FORWARD_PREFIX @ payload) # out, True, st'))
     else
       (case forward_loop P peer payload sends rest (st\<lparr>fs_errors := fs_errors st + 1\<rparr>) of
          (out, ok, st') \<Rightarrow> (out, ok, st')))"

definition starts_with :: "bytes \<Rightarrow> bytes \<Rightarrow> bool" where
  "starts_with pre b = (take (length pre) b = pre)"

definition forward_handler :: "federation_policy \<Rightarrow> (node_id \<times> string) list \<Rightarrow> (node_id \<Rightarrow> bool) \<Rightarrow> node_id \<Rightarrow> bytes
    \<Rightarrow> fed_stats \<Rightarrow> (node_id \<times> bytes) list \<times> fed_stats" where
  "forward_handler P found sends peer payload st =
    (if starts_with FORWARD_PREFIX payload then ([], st)
     else case forward_loop P peer payload sends (group_caps found) st of
       (out, forwarded_any, st') \<Rightarrow> (out, if forwarded_any then st' else st'\<lparr>fs_denied := fs_denied st' + 1\<rparr>))"

lemma group_caps_get: "cap \<in> set (dget_default [] (group_caps found) nid) \<longleftrightarrow> (nid, cap) \<in> set found"
proof -
  have "cap \<in> set (dget_default [] (foldl (\<lambda>d (nid, cap). dset nid (dget_default [] d nid @ [cap]) d) d found) nid)
      \<longleftrightarrow> cap \<in> set (dget_default [] d nid) \<or> (nid, cap) \<in> set found" for d
  proof (induction found arbitrary: d)
    case (Cons x found)
    obtain a b where "x = (a, b)" by (cases x)
    then show ?case
      by (simp only: foldl_Cons prod.case Cons.IH) (auto simp del: map_of_eq_Some_iff)
  qed simp
  from this [of "[]"] show ?thesis by (simp add: group_caps_def)
qed

lemma dwf_group_caps: "dwf (group_caps found)"
proof -
  have "dwf d \<Longrightarrow> dwf (foldl (\<lambda>d (nid, cap). dset nid (dget_default [] d nid @ [cap]) d) d found)" for d
    by (induction found arbitrary: d) (auto simp del: map_of_eq_Some_iff)
  from this [of "[]"] show ?thesis by (simp add: group_caps_def)
qed

lemma forward_loop_spec:
  "forward_loop P peer payload sends d st = (out, ok, st') \<Longrightarrow>
    out = map (\<lambda>(nid, caps). (nid, FORWARD_PREFIX @ payload))
      (filter (\<lambda>(nid, caps). sends nid \<and> (\<exists>c \<in> set caps. should_forward P c (Some peer))) d)
    \<and> ok = (out \<noteq> []) \<and> fs_forwarded st' = fs_forwarded st + length out \<and> fs_denied st' = fs_denied st
    \<and> fs_errors st' = fs_errors st + length (filter (\<lambda>(nid, caps). \<not> sends nid \<and> (\<exists>c \<in> set caps. should_forward P c (Some peer))) d)"
proof (induction P peer payload sends d st arbitrary: out ok st' rule: forward_loop.induct)
  case (2 P peer payload sends nid caps rest st)
  show ?case
  proof (cases "\<exists>c \<in> set caps. should_forward P c (Some peer)")
    case True
    then have f: "find (\<lambda>c. should_forward P c (Some peer)) caps \<noteq> None" by (auto simp: find_None_iff)
    show ?thesis
      using 2(2,3)[OF f] 2(4) f True by (cases "sends nid") (auto split: prod.splits)
  next
    case False
    then have f: "find (\<lambda>c. should_forward P c (Some peer)) caps = None" by (auto simp: find_None_iff)
    with 2(1) [OF f] 2(4) False show ?thesis by auto
  qed
qed simp

text \<open>C27: forwarding obeys the policy and cannot loop. A message from the other mesh is sent, marked
  and otherwise unchanged, to exactly the nodes that advertise some capability the policy lets this
  source reach and that accept it, once each; and a forwarded message is never forwarded again,
  whatever the second gateway's policy and peers are.\<close>

theorem federation_forwarding:
  assumes "\<not> starts_with FORWARD_PREFIX payload" "forward_handler P found sends peer payload st = (out, st')"
  shows "(\<forall>nid p. (nid, p) \<in> set out \<longleftrightarrow> p = FORWARD_PREFIX @ payload \<and> sends nid
        \<and> (\<exists>c. (nid, c) \<in> set found \<and> should_forward P c (Some peer)))
    \<and> distinct (map fst out) \<and> fs_forwarded st' = fs_forwarded st + length out
    \<and> (\<forall>nid p. (nid, p) \<in> set out \<longrightarrow> (\<forall>P' found' sends' peer' st2. forward_handler P' found' sends' peer' p st2 = ([], st2)))"
proof -
  obtain ok st1 where l: "forward_loop P peer payload sends (group_caps found) st = (out, ok, st1)"
    and st': "st' = (if ok then st1 else st1\<lparr>fs_denied := fs_denied st1 + 1\<rparr>)"
    using assms by (auto simp: forward_handler_def split: prod.splits)
  note s = forward_loop_spec [OF l]
  let ?sel = "filter (\<lambda>(nid, caps). sends nid \<and> (\<exists>c \<in> set caps. should_forward P c (Some peer))) (group_caps found)"
  have out: "out = map (\<lambda>(nid, caps). (nid, FORWARD_PREFIX @ payload)) ?sel" using s by blast
  have mem: "(nid, p) \<in> set out \<longleftrightarrow> p = FORWARD_PREFIX @ payload \<and> sends nid
        \<and> (\<exists>c. (nid, c) \<in> set found \<and> should_forward P c (Some peer))" for nid p
  proof -
    have "(nid, p) \<in> set out \<longleftrightarrow> p = FORWARD_PREFIX @ payload \<and> sends nid
        \<and> (\<exists>caps. dget (group_caps found) nid = Some caps \<and> (\<exists>c \<in> set caps. should_forward P c (Some peer)))"
      using dwf_group_caps by (auto simp: out map_of_eq_Some_iff)
    also have "(\<exists>caps. dget (group_caps found) nid = Some caps \<and> (\<exists>c \<in> set caps. should_forward P c (Some peer)))
        \<longleftrightarrow> (\<exists>c \<in> set (dget_default [] (group_caps found) nid). should_forward P c (Some peer))"
      by (cases "dget (group_caps found) nid") (simp_all del: map_of_eq_Some_iff)
    also have "\<dots> \<longleftrightarrow> (\<exists>c. (nid, c) \<in> set found \<and> should_forward P c (Some peer))"
      by (simp only: Bex_def group_caps_get)
    finally show ?thesis .
  qed
  have "map fst out = dkeys ?sel" unfolding out by (induction "?sel") auto
  moreover have "distinct (dkeys ?sel)" by (rule distinct_map_filter [OF dwf_group_caps])
  moreover have "fs_forwarded st' = fs_forwarded st + length out" using s st' by simp
  moreover have "forward_handler P' found' sends' peer' (FORWARD_PREFIX @ payload) st2 = ([], st2)" for P' found' sends' peer' st2
    by (simp add: forward_handler_def starts_with_def)
  ultimately show ?thesis using mem by auto
qed

definition sample_policy :: federation_policy where
  "sample_policy = \<lparr> fp_allow = [''llm:*''], fp_deny = [], fp_per_source = [] \<rparr>"

theorem federation_forwarding_witness:
  "fst (forward_handler sample_policy [(''b'', ''llm:x''), (''c'', ''tool:y'')] (\<lambda>_. True) ''a'' [1] \<lparr> fs_forwarded = 0, fs_denied = 0, fs_errors = 0 \<rparr>)
     = [(''b'', FORWARD_PREFIX @ [1])]
   \<and> forward_handler sample_policy [(''b'', ''llm:x'')] (\<lambda>_. True) ''a'' (FORWARD_PREFIX @ [1]) \<lparr> fs_forwarded = 0, fs_denied = 0, fs_errors = 0 \<rparr>
     = ([], \<lparr> fs_forwarded = 0, fs_denied = 0, fs_errors = 0 \<rparr>)"
proof -
  have h: "forward_handler sample_policy [(''b'', ''llm:x''), (''c'', ''tool:y'')] (\<lambda>_. True) ''a'' [1] \<lparr> fs_forwarded = 0, fs_denied = 0, fs_errors = 0 \<rparr>
     = ([(''b'', FORWARD_PREFIX @ [1])], \<lparr> fs_forwarded = 1, fs_denied = 0, fs_errors = 0 \<rparr>)"
    by code_simp
  have "\<not> starts_with FORWARD_PREFIX [1]" by code_simp
  from federation_forwarding [OF this h] h show ?thesis by simp
qed

text \<open>An empty allow list is the same as no allow list: \<open>allow or ["*"]\<close> turns it into "everything".\<close>

lemma empty_allow_list_allows_all:
  "new_policy (Some []) None None = Inr P \<Longrightarrow> should_forward P c src"
  by (auto simp: new_policy_def or_list_def should_forward_def any_match_def split: option.split)

end
