(* ===== verification/Sealed_File.thy ===== *)
theory Sealed_File
  imports Sample
begin

text \<open>
  The HMAC-protected files the daemon keeps (routes, capabilities): a JSON object with the
  fields \<open>body\<close>, the compact sorted JSON of the state, and \<open>hmac\<close>, its keyed digest. Every
  loader opens them the same way, up to what it does with the body; \<open>open_sealed\<close> is that
  common part. The locale \<open>sealed_store\<close> is the contract of a component that persists itself, in
  whatever kind of file.
\<close>

definition mac_hex :: "crypto \<Rightarrow> bytes \<Rightarrow> string \<Rightarrow> string" where
  "mac_hex C hmac_key body = hex_of (hmac_sha256 C hmac_key (utf8 body))"

definition is_ascii :: "string \<Rightarrow> bool" where
  "is_ascii s = (\<forall>c \<in> set s. (of_char c :: nat) < 128)"

text \<open>\<open>hmac.compare_digest\<close> of two strings: a \<open>TypeError\<close> unless both are ASCII.\<close>

definition compare_digest_str :: "json \<Rightarrow> string \<Rightarrow> bool py" where
  "compare_digest_str stored expected = (case stored of
     JStr s \<Rightarrow> if is_ascii s \<and> is_ascii expected then Inr (s = expected) else Inl (TypeError ''compare_digest'')
   | _ \<Rightarrow> Inl (TypeError ''compare_digest''))"

lemma hex_of_ascii: "is_ascii (hex_of bs)"
proof -
  have b: "\<forall>n < 16. (of_char (hex_char n) :: nat) < 128"
    by (simp add: hex_char_def Let_def of_char_char_of)
  have "c \<in> set (hex_of bs) \<Longrightarrow> (of_char c :: nat) < 128" for c
  proof -
    assume "c \<in> set (hex_of bs)"
    then obtain x :: byte where "c = hex_char (unat x div 16) \<or> c = hex_char (unat x mod 16)"
      by (auto simp: hex_of_def hex_nibble_def)
    moreover have "unat x div 16 < 16" using unat_lt2p_b [of x] by (simp add: less_mult_imp_div_less)
    moreover have "unat x mod 16 < 16" by simp
    ultimately show ?thesis using b by metis
  qed
  then show ?thesis by (simp add: is_ascii_def)
qed

definition seal_body :: "crypto \<Rightarrow> float_io \<Rightarrow> bytes \<Rightarrow> json \<Rightarrow> string" where
  "seal_body C io key j =
    (let body = dumps_sorted io j in
     dumps_default io (JObj [(''hmac'', JStr (mac_hex C key body)), (''body'', JStr body)]))"

text \<open>\<open>Broken\<close>: an exception on the way, the file cannot be read as such; \<open>Tampered\<close>: the digest
  differs; \<open>Genuine\<close>: it matches. A digest field that is not an ASCII string makes
  \<open>hmac.compare_digest\<close> raise.\<close>

datatype opened = Broken | Tampered string | Genuine string

definition open_sealed :: "crypto \<Rightarrow> float_io \<Rightarrow> bytes \<Rightarrow> string \<Rightarrow> opened" where
  "open_sealed C io key content = (case loads io content of
     Some (JObj data) \<Rightarrow>
       (case dget_default (JStr []) data ''body'' of
          JStr body \<Rightarrow>
            (case dget_default (JStr []) data ''hmac'' of
               JStr stored \<Rightarrow>
                 if \<not> is_ascii stored then Broken
                 else if stored = mac_hex C key body then Genuine body else Tampered body
             | _ \<Rightarrow> Broken)
        | _ \<Rightarrow> Broken)
   | _ \<Rightarrow> Broken)"

text \<open>\<open>d.get(k)\<close>: a stored \<open>null\<close> reads as \<open>None\<close>.\<close>

definition get_or_none :: "(string, json) dict \<Rightarrow> string \<Rightarrow> json option" where
  "get_or_none d k = (case dget d k of Some JNull \<Rightarrow> None | v \<Rightarrow> v)"

text \<open>The body of another node: the silent reset after a key rotation.\<close>

definition is_rotated_body :: "float_io \<Rightarrow> node_id \<Rightarrow> string \<Rightarrow> bool" where
  "is_rotated_body io me body = (body \<noteq> [] \<and> (case loads io body of
     Some (JObj d) \<Rightarrow> (case dget d ''my_node_id'' of Some (JStr i) \<Rightarrow> i \<noteq> [] \<and> i \<noteq> me | _ \<Rightarrow> False)
   | _ \<Rightarrow> False))"

lemma open_sealed_content:
  assumes "loads io content = Some (JObj data)" "dget data ''body'' = Some (JStr body)" "dget data ''hmac'' = Some (JStr stored)"
    and "is_ascii stored"
  shows "open_sealed C io key content = (if stored = mac_hex C key body then Genuine body else Tampered body)"
  using assms by (simp add: open_sealed_def del: map_of_eq_Some_iff)

lemma open_seal_body:
  "open_sealed C io key (seal_body C io key' j) =
    (if mac_hex C key' (dumps_sorted io j) = mac_hex C key (dumps_sorted io j)
     then Genuine (dumps_sorted io j) else Tampered (dumps_sorted io j))"
proof -
  let ?body = "dumps_sorted io j"
  have "loads io (seal_body C io key' j) = Some (JObj [(''hmac'', JStr (mac_hex C key' ?body)), (''body'', JStr ?body)])"
    unfolding seal_body_def Let_def by (rule loads_dumps_default) simp
  then show ?thesis
    by (rule open_sealed_content) (simp_all add: mac_hex_def hex_of_ascii)
qed

lemma open_seal_body_same: "open_sealed C io key (seal_body C io key j) = Genuine (dumps_sorted io j)"
  by (simp add: open_seal_body)

text \<open>
  A component that persists itself: \<open>save\<close> prints a state, \<open>load\<close> reads a file into a fresh
  state, and \<open>view\<close> is what a restart must not lose. The contract: the view survives, and
  what was loaded can be saved again. Then it survives any number of restarts.
\<close>

locale sealed_store =
  fixes save :: "'s \<Rightarrow> 'f" and load :: "'f \<Rightarrow> 's \<Rightarrow> bool \<times> 's"
    and fresh :: "'s \<Rightarrow> 's" and ok :: "'s \<Rightarrow> bool" and view :: "'s \<Rightarrow> 'v"
  assumes load_save: "ok s \<Longrightarrow> \<exists>s'. load (save s) (fresh s) = (True, s') \<and> ok s' \<and> view s' = view s"
begin

definition restart :: "'s \<Rightarrow> 's" where
  "restart s = snd (load (save s) (fresh s))"

lemma restart_ok: "ok s \<Longrightarrow> ok (restart s) \<and> view (restart s) = view s"
  using load_save [of s] by (auto simp: restart_def)

lemma restarts_keep_view: "ok s \<Longrightarrow> ok ((restart ^^ n) s) \<and> view ((restart ^^ n) s) = view s"
  by (induction n) (use restart_ok in auto)

lemma restarts_succeed: "ok s \<Longrightarrow> fst (load (save ((restart ^^ n) s)) (fresh ((restart ^^ n) s)))"
  using restarts_keep_view [of s n] load_save by fastforce

end

end
