(* ===== verification/Conversation.thy ===== *)
theory Conversation
  imports Sealed_File
begin

text \<open>
  conversation.py: the envelope of a CONV frame, its encoding and its strict decoding, replies.

  \<^item> \<open>decode\<close> checks the types of \<open>conv_id\<close>, \<open>kind\<close>, \<open>turn\<close>, \<open>max_turns\<close> and \<open>body\<close> and
    takes the other fields as they come, so these are JSON values in the record. A
    \<open>turn\<close> may be a JSON boolean, which Python counts as an \<open>int\<close>.
  \<^item> A missing budget figure and \<open>null\<close> are both \<open>None\<close>.
\<close>

definition CONV_ENVELOPE_VERSION :: int where "CONV_ENVELOPE_VERSION = 1"

definition KIND_PROMPT :: string where "KIND_PROMPT = ''prompt''"
definition KIND_RESPONSE :: string where "KIND_RESPONSE = ''response''"
definition KIND_END :: string where "KIND_END = ''end''"
definition KIND_ERROR :: string where "KIND_ERROR = ''error''"

definition conv_kinds :: "string list" where
  "conv_kinds = [KIND_PROMPT, KIND_RESPONSE, KIND_END, KIND_ERROR]"

record budget =
  bg_max_seconds :: "json option"
  bg_max_tokens :: "json option"
  bg_max_bytes :: "json option"

definition opt_field :: "string \<Rightarrow> json option \<Rightarrow> (string \<times> json) list" where
  "opt_field k v = (case v of None \<Rightarrow> [] | Some j \<Rightarrow> [(k, j)])"

definition budget_to_dict :: "budget \<Rightarrow> (string, json) dict" where
  "budget_to_dict b = opt_field ''max_seconds'' (bg_max_seconds b) @ opt_field ''max_tokens'' (bg_max_tokens b)
     @ opt_field ''max_bytes'' (bg_max_bytes b)"

definition budget_from_dict :: "json option \<Rightarrow> budget option" where
  "budget_from_dict j = (case j of
     Some (JObj d) \<Rightarrow> if d = [] then None
       else Some \<lparr> bg_max_seconds = get_or_none d ''max_seconds'', bg_max_tokens = get_or_none d ''max_tokens'',
                   bg_max_bytes = get_or_none d ''max_bytes'' \<rparr>
   | _ \<Rightarrow> None)"

record conv_envelope =
  cv_conv_id :: string
  cv_turn :: json
  cv_max_turns :: json
  cv_kind :: string
  cv_body :: string
  cv_reply_to :: json
  cv_from_role :: json
  cv_to_role :: json
  cv_budget :: "budget option"
  cv_end_reason :: json
  cv_extra :: "(string, json) dict"

definition emit_if :: "string \<Rightarrow> json \<Rightarrow> (string \<times> json) list" where
  "emit_if k v = (if truthy v then [(k, v)] else [])"

definition emit_budget :: "budget option \<Rightarrow> (string \<times> json) list" where
  "emit_budget b = (case b of None \<Rightarrow> []
     | Some x \<Rightarrow> if budget_to_dict x = [] then [] else [(''budget'', JObj (budget_to_dict x))])"

definition conv_to_dict :: "conv_envelope \<Rightarrow> (string, json) dict" where
  "conv_to_dict e = fold (\<lambda>(k, v) d. dset k v d) (cv_extra e)
     ([(''v'', JInt CONV_ENVELOPE_VERSION), (''conv_id'', JStr (cv_conv_id e)), (''turn'', cv_turn e),
       (''max_turns'', cv_max_turns e), (''kind'', JStr (cv_kind e)), (''body'', JStr (cv_body e))]
      @ emit_if ''reply_to'' (cv_reply_to e) @ emit_if ''from_role'' (cv_from_role e) @ emit_if ''to_role'' (cv_to_role e)
      @ emit_budget (cv_budget e) @ emit_if ''end_reason'' (cv_end_reason e))"

definition conv_encode :: "float_io \<Rightarrow> conv_envelope \<Rightarrow> bytes" where
  "conv_encode io e = utf8 (dumps_compact io (JObj (conv_to_dict e)))"

definition conv_known :: "string list" where
  "conv_known = [''v'', ''conv_id'', ''turn'', ''max_turns'', ''kind'', ''body'',
     ''reply_to'', ''from_role'', ''to_role'', ''budget'', ''end_reason'']"

text \<open>\<open>isinstance(x, int) and x >= 0\<close>.\<close>

definition nonneg_int :: "json \<Rightarrow> bool" where
  "nonneg_int j = (case py_int j of Some i \<Rightarrow> 0 \<le> i | None \<Rightarrow> False)"

text \<open>\<open>d.get(k, "") or ""\<close>.\<close>

definition get_or_empty :: "(string, json) dict \<Rightarrow> string \<Rightarrow> json" where
  "get_or_empty d k = (let v = dget_default (JStr []) d k in if truthy v then v else JStr [])"

definition conv_error :: "string \<Rightarrow> 'a py" where
  "conv_error m = Inl (ValueError (''CONV envelope: '' @ m))"

definition conv_decode_dict :: "(string, json) dict \<Rightarrow> conv_envelope py" where
  "conv_decode_dict d =
    (let turn = dget_default (JInt 0) d ''turn''; max_turns = dget_default (JInt 0) d ''max_turns'' in
     if dget d ''conv_id'' = None then conv_error ''missing conv_id''
     else case py_str (dget_default JNull d ''conv_id'') of
       None \<Rightarrow> conv_error ''conv_id must be a non-empty string''
     | Some cid \<Rightarrow>
         if cid = [] then conv_error ''conv_id must be a non-empty string''
         else (case py_str (dget_default (JStr KIND_PROMPT) d ''kind'') of
           None \<Rightarrow> conv_error ''invalid kind''
         | Some kind \<Rightarrow>
             if kind \<notin> set conv_kinds then conv_error ''invalid kind''
             else if \<not> nonneg_int turn then conv_error ''turn must be a non-negative int''
             else if \<not> nonneg_int max_turns then conv_error ''max_turns must be a non-negative int''
             else (case py_str (dget_default (JStr []) d ''body'') of
               None \<Rightarrow> conv_error ''body must be a string''
             | Some body \<Rightarrow>
                 Inr \<lparr> cv_conv_id = cid, cv_turn = turn, cv_max_turns = max_turns, cv_kind = kind, cv_body = body,
                   cv_reply_to = get_or_empty d ''reply_to'', cv_from_role = get_or_empty d ''from_role'',
                   cv_to_role = get_or_empty d ''to_role'', cv_budget = budget_from_dict (dget d ''budget''),
                   cv_end_reason = get_or_empty d ''end_reason'',
                   cv_extra = filter (\<lambda>(k, v). k \<notin> set conv_known) d \<rparr>)))"

definition conv_decode :: "float_io \<Rightarrow> bytes \<Rightarrow> conv_envelope py" where
  "conv_decode io raw = (case loads_bytes io raw of
     None \<Rightarrow> conv_error ''not valid UTF-8 JSON''
   | Some (JObj d) \<Rightarrow> conv_decode_dict d
   | Some _ \<Rightarrow> conv_error ''top-level must be a JSON object'')"

text \<open>\<open>from_role or parent.to_role\<close> keeps the first operand when it is not empty.\<close>

definition make_reply :: "conv_envelope \<Rightarrow> string \<Rightarrow> string \<Rightarrow> string \<Rightarrow> string \<Rightarrow> string \<Rightarrow> conv_envelope" where
  "make_reply parent body kind from_role reply_to end_reason =
     \<lparr> cv_conv_id = cv_conv_id parent, cv_turn = JInt (the (py_int (cv_turn parent)) + 1), cv_max_turns = cv_max_turns parent,
       cv_kind = kind, cv_body = body, cv_reply_to = JStr reply_to,
       cv_from_role = (if from_role \<noteq> [] then JStr from_role else cv_to_role parent), cv_to_role = cv_from_role parent,
       cv_budget = cv_budget parent, cv_end_reason = JStr end_reason, cv_extra = [] \<rparr>"

definition is_terminal :: "conv_envelope \<Rightarrow> bool" where
  "is_terminal e = (cv_kind e = KIND_END \<or> cv_kind e = KIND_ERROR)"

section \<open>What decoding guarantees\<close>

definition or_empty_ok :: "json \<Rightarrow> bool" where
  "or_empty_ok j = (truthy j \<or> j = JStr [])"

definition budget_ok :: "budget option \<Rightarrow> bool" where
  "budget_ok b = (case b of None \<Rightarrow> True | Some x \<Rightarrow>
     (bg_max_seconds x \<noteq> Some JNull \<and> bg_max_tokens x \<noteq> Some JNull \<and> bg_max_bytes x \<noteq> Some JNull))"

definition conv_typed :: "conv_envelope \<Rightarrow> bool" where
  "conv_typed e = (cv_conv_id e \<noteq> [] \<and> nonneg_int (cv_turn e) \<and> nonneg_int (cv_max_turns e)
     \<and> cv_kind e \<in> set conv_kinds \<and> or_empty_ok (cv_reply_to e) \<and> or_empty_ok (cv_from_role e)
     \<and> or_empty_ok (cv_to_role e) \<and> or_empty_ok (cv_end_reason e) \<and> budget_ok (cv_budget e)
     \<and> set (dkeys (cv_extra e)) \<inter> set conv_known = {})"

lemma get_or_empty_ok [simp]: "or_empty_ok (get_or_empty d k)"
  by (simp add: or_empty_ok_def get_or_empty_def Let_def)

lemma budget_from_dict_ok [simp]: "budget_ok (budget_from_dict j)"
proof -
  have "get_or_none d k \<noteq> Some JNull" for d k
    by (auto simp: get_or_none_def simp del: map_of_eq_Some_iff split: option.splits json.splits)
  then show ?thesis by (simp add: budget_from_dict_def budget_ok_def split: option.split json.split)
qed

lemma extra_unknown: "set (dkeys (filter (\<lambda>(k, v). k \<notin> set conv_known) d)) \<inter> set conv_known = {}"
  by auto

lemma conv_decode_dict_typed: "conv_decode_dict d = Inr e \<Longrightarrow> conv_typed e"
proof -
  assume a: "conv_decode_dict d = Inr e"
  define turn max_turns cid kind body where
    "turn = dget_default (JInt 0) d ''turn''" "max_turns = dget_default (JInt 0) d ''max_turns''"
    "cid = py_str (dget_default JNull d ''conv_id'')" "kind = py_str (dget_default (JStr KIND_PROMPT) d ''kind'')"
    "body = py_str (dget_default (JStr []) d ''body'')"
  note defs = this
  from a have "\<exists>c k b. cid = Some c \<and> kind = Some k \<and> body = Some b \<and> c \<noteq> [] \<and> k \<in> set conv_kinds
      \<and> nonneg_int turn \<and> nonneg_int max_turns \<and> e = \<lparr> cv_conv_id = c, cv_turn = turn, cv_max_turns = max_turns, cv_kind = k, cv_body = b,
                   cv_reply_to = get_or_empty d ''reply_to'', cv_from_role = get_or_empty d ''from_role'',
                   cv_to_role = get_or_empty d ''to_role'', cv_budget = budget_from_dict (dget d ''budget''),
                   cv_end_reason = get_or_empty d ''end_reason'',
                   cv_extra = filter (\<lambda>(k, v). k \<notin> set conv_known) d \<rparr>"
    unfolding conv_decode_dict_def Let_def conv_error_def defs [symmetric]
    by (simp split: option.split_asm if_split_asm)
  then show ?thesis
    using extra_unknown [of d] by (auto simp: conv_typed_def simp del: set_map)
qed

section \<open>Encoding and decoding back\<close>

lemma dget_emit: "dget (emit_if k v @ d) k' = (if truthy v \<and> k' = k then Some v else dget d k')"
  by (simp add: emit_if_def)

lemma dget_emit_budget: "dget (emit_budget b @ d) k =
    (if k = ''budget'' \<and> b \<noteq> None \<and> budget_to_dict (the b) \<noteq> [] then Some (JObj (budget_to_dict (the b))) else dget d k)"
  by (simp add: emit_budget_def split: option.split)

lemma fold_dset_new:
  "dwf ex \<Longrightarrow> set (dkeys ex) \<inter> set (dkeys d) = {} \<Longrightarrow> fold (\<lambda>(k, v) d. dset k v d) ex d = d @ ex"
proof (induction ex arbitrary: d)
  case (Cons p ex)
  obtain k v where p: "p = (k, v)" by (cases p)
  have "k \<notin> set (dkeys d) \<Longrightarrow> dset k v d = d @ [(k, v)]"
    by (induction d) auto
  then show ?case using Cons.IH [of "d @ [(k, v)]"] Cons.prems p by auto
qed simp

definition conv_base :: "conv_envelope \<Rightarrow> (string, json) dict" where
  "conv_base e = [(''v'', JInt CONV_ENVELOPE_VERSION), (''conv_id'', JStr (cv_conv_id e)), (''turn'', cv_turn e),
       (''max_turns'', cv_max_turns e), (''kind'', JStr (cv_kind e)), (''body'', JStr (cv_body e))]
      @ emit_if ''reply_to'' (cv_reply_to e) @ emit_if ''from_role'' (cv_from_role e) @ emit_if ''to_role'' (cv_to_role e)
      @ emit_budget (cv_budget e) @ emit_if ''end_reason'' (cv_end_reason e)"

lemma conv_base_keys: "set (dkeys (conv_base e)) \<subseteq> set conv_known" "dwf (conv_base e)"
proof -
  have k: "dkeys (emit_if k v) = (if truthy v then [k] else [])" for k v by (simp add: emit_if_def)
  have b: "dkeys (emit_budget b) = (if b \<noteq> None \<and> budget_to_dict (the b) \<noteq> [] then [''budget''] else [])" for b
    by (simp add: emit_budget_def split: option.split)
  define p where "p = (\<lambda>s. s = ''reply_to'' \<and> \<not> truthy (cv_reply_to e) \<or> s = ''from_role'' \<and> \<not> truthy (cv_from_role e)
    \<or> s = ''to_role'' \<and> \<not> truthy (cv_to_role e) \<or> s = ''end_reason'' \<and> \<not> truthy (cv_end_reason e)
    \<or> s = ''budget'' \<and> \<not> (cv_budget e \<noteq> None \<and> budget_to_dict (the (cv_budget e)) \<noteq> []))"
  have "dkeys (conv_base e) = filter (\<lambda>s. \<not> p s) conv_known"
    unfolding conv_base_def map_append k b by (simp add: conv_known_def p_def)
  note k = this
  show "set (dkeys (conv_base e)) \<subseteq> set conv_known" unfolding k by (rule filter_is_subset)
  show "dwf (conv_base e)" unfolding k by (rule distinct_filter) (simp add: conv_known_def)
qed

lemma conv_to_dict_split:
  assumes "conv_typed e" "dwf (cv_extra e)"
  shows "conv_to_dict e = conv_base e @ cv_extra e"
  unfolding conv_to_dict_def conv_base_def [symmetric]
  using assms conv_base_keys [of e] by (intro fold_dset_new) (auto simp: conv_typed_def)

lemma filter_extra:
  assumes "conv_typed e" shows "filter (\<lambda>(k, v). k \<notin> set conv_known) (conv_base e @ cv_extra e) = cv_extra e"
proof -
  have "filter (\<lambda>(k, v). k \<notin> set conv_known) (conv_base e) = []"
    using conv_base_keys(1) [of e] by (auto simp: filter_empty_conv)
  moreover have "filter (\<lambda>(k, v). k \<notin> set conv_known) (cv_extra e) = cv_extra e"
    using assms by (auto simp: conv_typed_def filter_id_conv)
  ultimately show ?thesis by simp
qed

lemma extra_get_None: "conv_typed e \<Longrightarrow> k \<in> set conv_known \<Longrightarrow> dget (cv_extra e) k = None"
  by (auto simp: conv_typed_def dget_None_iff)

definition budget_eq :: "budget option \<Rightarrow> budget option \<Rightarrow> bool" where
  "budget_eq a b = (a = b \<or> b = None \<and> (\<exists>x. a = Some x \<and> budget_to_dict x = []))"

lemma budget_back:
  assumes "budget_ok b"
  shows "budget_from_dict (if b \<noteq> None \<and> budget_to_dict (the b) \<noteq> [] then Some (JObj (budget_to_dict (the b))) else None)
    = (if b \<noteq> None \<and> budget_to_dict (the b) \<noteq> [] then b else None)"
  using assms
  by (cases b) (auto simp: budget_from_dict_def budget_ok_def get_or_none_def budget_to_dict_def opt_field_def
      split: option.split json.split)

lemma conv_decode_base:
  assumes t: "conv_typed e"
  shows "conv_decode_dict (conv_base e @ cv_extra e) =
    Inr (e\<lparr>cv_budget := (if cv_budget e \<noteq> None \<and> budget_to_dict (the (cv_budget e)) \<noteq> [] then cv_budget e else None)\<rparr>)"
proof -
  let ?d = "conv_base e @ cv_extra e"
  have x: "k \<in> set conv_known \<Longrightarrow> dget (cv_extra e) k = None" for k using extra_get_None [OF t] .
  note known = x [of "''reply_to''"] x [of "''from_role''"] x [of "''to_role''"] x [of "''budget''"] x [of "''end_reason''"]
  have g: "dget ?d ''conv_id'' = Some (JStr (cv_conv_id e))" "dget ?d ''turn'' = Some (cv_turn e)"
    "dget ?d ''max_turns'' = Some (cv_max_turns e)" "dget ?d ''kind'' = Some (JStr (cv_kind e))"
    "dget ?d ''body'' = Some (JStr (cv_body e))"
    by (simp_all add: conv_base_def)
  have o: "dget ?d ''reply_to'' = (if truthy (cv_reply_to e) then Some (cv_reply_to e) else None)"
    "dget ?d ''from_role'' = (if truthy (cv_from_role e) then Some (cv_from_role e) else None)"
    "dget ?d ''to_role'' = (if truthy (cv_to_role e) then Some (cv_to_role e) else None)"
    "dget ?d ''end_reason'' = (if truthy (cv_end_reason e) then Some (cv_end_reason e) else None)"
    "dget ?d ''budget'' = (if cv_budget e \<noteq> None \<and> budget_to_dict (the (cv_budget e)) \<noteq> []
       then Some (JObj (budget_to_dict (the (cv_budget e)))) else None)"
    using known by (simp_all add: conv_base_def dget_emit dget_emit_budget conv_known_def del: map_of_eq_Some_iff map_of_append)
  have emp: "get_or_empty ?d k = v" if "dget ?d k = (if truthy v then Some v else None)" "or_empty_ok v" for k v
    using that by (auto simp: get_or_empty_def or_empty_ok_def simp del: map_of_append)
  have c: "cv_conv_id e \<noteq> []" "cv_kind e \<in> set conv_kinds" "nonneg_int (cv_turn e)" "nonneg_int (cv_max_turns e)"
    "budget_ok (cv_budget e)" "or_empty_ok (cv_reply_to e)" "or_empty_ok (cv_from_role e)" "or_empty_ok (cv_to_role e)"
    "or_empty_ok (cv_end_reason e)"
    using t by (simp_all add: conv_typed_def)
  have "conv_decode_dict ?d = Inr \<lparr> cv_conv_id = cv_conv_id e, cv_turn = cv_turn e, cv_max_turns = cv_max_turns e,
      cv_kind = cv_kind e, cv_body = cv_body e, cv_reply_to = cv_reply_to e, cv_from_role = cv_from_role e,
      cv_to_role = cv_to_role e, cv_budget = (if cv_budget e \<noteq> None \<and> budget_to_dict (the (cv_budget e)) \<noteq> [] then cv_budget e else None),
      cv_end_reason = cv_end_reason e, cv_extra = cv_extra e \<rparr>"
    unfolding conv_decode_dict_def Let_def g option.case o(5) budget_back [OF c(5)] filter_extra [OF t]
      emp [OF o(1) c(6)] emp [OF o(2) c(7)] emp [OF o(3) c(8)] emp [OF o(4) c(9)]
    using c by simp
  then show ?thesis by (cases e) simp
qed

definition only_value_error :: "'a py \<Rightarrow> bool" where
  "only_value_error r = (case r of Inl e \<Rightarrow> \<exists>m. e = ValueError m | Inr x \<Rightarrow> True)"

lemma only_value_error_simps [simp]: "only_value_error (conv_error m)" "only_value_error (Inr x)"
  by (simp_all add: only_value_error_def conv_error_def)

lemma conv_decode_only_value_error: "only_value_error (conv_decode io raw)"
  unfolding conv_decode_def conv_decode_dict_def Let_def
  by (simp split: option.split json.split)

lemma make_reply_typed:
  assumes "conv_typed e" "kind \<in> set conv_kinds"
  shows "conv_typed (make_reply e body kind from_role reply_to end_reason)"
  using assms
  by (auto simp: conv_typed_def make_reply_def or_empty_ok_def nonneg_int_def split: option.splits)


text \<open>An envelope survives the wire. A well-typed envelope whose numbers print is decoded from its
  encoding as it was, unknown fields of a newer peer included (a budget without any figure is not
  sent, so it is dropped).\<close>

lemma conv_roundtrip:
  assumes "conv_typed e" "dwf (cv_extra e)" "wf_json io (JObj (conv_to_dict e))"
  shows "conv_decode io (conv_encode io e) =
    Inr (e\<lparr>cv_budget := (if cv_budget e \<noteq> None \<and> budget_to_dict (the (cv_budget e)) \<noteq> [] then cv_budget e else None)\<rparr>)"
proof -
  have "conv_decode io (conv_encode io e) = conv_decode_dict (conv_to_dict e)"
    unfolding conv_decode_def conv_encode_def loads_bytes_utf8 [OF assms(3)] by simp
  then show ?thesis using conv_decode_base [OF assms(1)] conv_to_dict_split [OF assms(1,2)] by simp
qed

end
