(* ===== verification/Capabilities.thy ===== *)
theory Capabilities
  imports Globs Sealed_File
begin

text \<open>
  capabilities.py, \<open>CapabilityRegistry\<close>: what this node advertises, what it learned from others,
  glob lookup, and the HMAC-protected file.

  \<^item> A Python \<open>set\<close> is a list without duplicates, in its (unspecified) iteration order; the
    theorems only speak of membership where the code exposes that order.
  \<^item> \<open>persist\<close> is the HMAC key when both a path and a key are configured; the file is its
    text, written atomically (a temporary file, then a rename), or \<open>None\<close> when it is absent.
\<close>

record cap_registry =
  cr_my_node_id :: node_id
  cr_local :: "string list"
  cr_remote :: "(node_id, string list) dict"
  cr_updated :: "(node_id, time) dict"

definition new_cap_registry :: "node_id \<Rightarrow> cap_registry" where
  "new_cap_registry me = \<lparr> cr_my_node_id = me, cr_local = [], cr_remote = [], cr_updated = [] \<rparr>"

definition touch_local :: "time \<Rightarrow> cap_registry \<Rightarrow> cap_registry" where
  "touch_local now r = r\<lparr>cr_updated := dset (cr_my_node_id r) now (cr_updated r)\<rparr>"

definition advertise_local :: "time \<Rightarrow> string \<Rightarrow> cap_registry \<Rightarrow> cap_registry" where
  "advertise_local now c r = (if c = [] then r else touch_local now (r\<lparr>cr_local := List.insert c (cr_local r)\<rparr>))"

definition remove_local :: "time \<Rightarrow> string \<Rightarrow> cap_registry \<Rightarrow> cap_registry" where
  "remove_local now c r = touch_local now (r\<lparr>cr_local := removeAll c (cr_local r)\<rparr>)"

text \<open>\<open>str.strip()\<close>.\<close>

definition py_space :: "char \<Rightarrow> bool" where
  "py_space c = (let n = of_char c :: nat in 9 \<le> n \<and> n \<le> 13 \<or> 28 \<le> n \<and> n \<le> 32 \<or> n = 133 \<or> n = 160)"

definition py_strip :: "string \<Rightarrow> string" where
  "py_strip s = rev (dropWhile py_space (rev (dropWhile py_space s)))"

definition set_local :: "time \<Rightarrow> string list \<Rightarrow> cap_registry \<Rightarrow> cap_registry" where
  "set_local now cs r = touch_local now (r\<lparr>cr_local := remdups (filter (\<lambda>s. s \<noteq> []) (map py_strip cs))\<rparr>)"

definition local_capabilities :: "cap_registry \<Rightarrow> string list" where
  "local_capabilities r = sort (cr_local r)"

text \<open>Entries of an announcement that are not non-empty strings are dropped.\<close>

fun cap_string :: "json \<Rightarrow> string option" where
  "cap_string (JStr s) = (if s = [] then None else Some s)"
| "cap_string _ = None"

definition sym_diff_size :: "string list \<Rightarrow> string list \<Rightarrow> nat" where
  "sym_diff_size xs ys = length (filter (\<lambda>x. x \<notin> set ys) xs) + length (filter (\<lambda>y. y \<notin> set xs) ys)"

definition learn_remote :: "time \<Rightarrow> node_id \<Rightarrow> json list \<Rightarrow> cap_registry \<Rightarrow> nat \<times> cap_registry" where
  "learn_remote now n caps r =
    (if n = [] \<or> n = cr_my_node_id r then (0, r)
     else let new_set = remdups (List.map_filter cap_string caps);
              old_set = dget_default [] (cr_remote r) n in
       (sym_diff_size new_set old_set,
        r\<lparr>cr_remote := dset n new_set (cr_remote r), cr_updated := dset n now (cr_updated r)\<rparr>))"

definition forget_remote :: "node_id \<Rightarrow> cap_registry \<Rightarrow> cap_registry" where
  "forget_remote n r = r\<lparr>cr_remote := dpop n (cr_remote r), cr_updated := dpop n (cr_updated r)\<rparr>"

definition find_caps :: "string \<Rightarrow> cap_registry \<Rightarrow> (node_id \<times> string) list" where
  "find_caps pattern r =
     map (\<lambda>c. (cr_my_node_id r, c)) (filter (\<lambda>c. fnmatchcase c pattern) (cr_local r)) @
     concat (map (\<lambda>(n, caps). map (\<lambda>c. (n, c)) (filter (\<lambda>c. fnmatchcase c pattern) caps)) (cr_remote r))"

definition all_caps :: "cap_registry \<Rightarrow> (node_id, string list) dict" where
  "all_caps r = fold (\<lambda>(n, caps) out. dset n (sort caps) out) (cr_remote r) [(cr_my_node_id r, sort (cr_local r))]"

definition remote_nodes :: "cap_registry \<Rightarrow> node_id list" where
  "remote_nodes r = dkeys (cr_remote r)"

definition cap_count :: "cap_registry \<Rightarrow> nat" where
  "cap_count r = length (cr_local r) + sum_list (map (\<lambda>(n, caps). length caps) (cr_remote r))"

definition cap_announcement :: "cap_registry \<Rightarrow> json" where
  "cap_announcement r = JObj [(''origin'', JStr (cr_my_node_id r)), (''capabilities'', JArr (map JStr (sort (cr_local r))))]"

section \<open>The file\<close>

definition strings_json :: "string list \<Rightarrow> json" where
  "strings_json xs = JArr (map JStr (sort xs))"

definition cap_body :: "cap_registry \<Rightarrow> json" where
  "cap_body r = JObj [(''my_node_id'', JStr (cr_my_node_id r)), (''local'', strings_json (cr_local r)),
     (''remote'', JObj (map (\<lambda>(n, caps). (n, strings_json caps)) (cr_remote r)))]"

definition caps_save :: "crypto \<Rightarrow> float_io \<Rightarrow> bytes option \<Rightarrow> cap_registry \<Rightarrow> string option" where
  "caps_save C io persist r = map_option (\<lambda>key. seal_body C io key (cap_body r)) persist"

text \<open>\<open>set(xs)\<close> of a loaded list. A genuine body has lists of strings; any other element counts as
  a failed load here (the code would keep it if it is hashable).\<close>

definition load_set :: "json \<Rightarrow> string list option" where
  "load_set j = (case j of JArr xs \<Rightarrow> map_option remdups (all_some (map py_str xs)) | _ \<Rightarrow> None)"

fun load_remote :: "(string \<times> json) list \<Rightarrow> (node_id, string list) dict option" where
  "load_remote [] = Some []"
| "load_remote ((n, j) # kvs) = (case (load_set j, load_remote kvs) of
     (Some s, Some d) \<Rightarrow> Some ((n, s) # d) | _ \<Rightarrow> None)"

definition install_caps :: "(string, json) dict \<Rightarrow> cap_registry \<Rightarrow> bool \<times> cap_registry" where
  "install_caps obj r =
    (if dget obj ''my_node_id'' \<noteq> Some (JStr (cr_my_node_id r)) then (False, r)
     else case load_set (dget_default (JArr []) obj ''local'') of
       None \<Rightarrow> (False, r)
     | Some l \<Rightarrow>
         (case dget_default (JObj []) obj ''remote'' of
            JObj kvs \<Rightarrow>
              (case load_remote kvs of
                 None \<Rightarrow> (False, r\<lparr>cr_local := l\<rparr>)
               | Some d \<Rightarrow> (True, r\<lparr>cr_local := l, cr_remote := d\<rparr>))
          | _ \<Rightarrow> (False, r\<lparr>cr_local := l\<rparr>)))"

text \<open>The result, whether the file was removed, and the registry.\<close>

definition caps_load :: "crypto \<Rightarrow> float_io \<Rightarrow> bytes option \<Rightarrow> string option \<Rightarrow> cap_registry \<Rightarrow> bool \<times> bool \<times> cap_registry" where
  "caps_load C io persist file r = (case (persist, file) of
     (Some key, Some content) \<Rightarrow>
       (case open_sealed C io key content of
          Broken \<Rightarrow> (False, False, r)
        | Tampered body \<Rightarrow> (False, is_rotated_body io (cr_my_node_id r) body, r)
        | Genuine body \<Rightarrow>
            (case loads io body of
               Some (JObj obj) \<Rightarrow> (case install_caps obj r of (ok, r') \<Rightarrow> (ok, False, r'))
             | _ \<Rightarrow> (False, False, r)))
   | _ \<Rightarrow> (False, False, r))"

section \<open>Invariant\<close>

text \<open>Every set is a set, every key once, and nothing is learned under the node's own id.\<close>

definition caps_ok :: "cap_registry \<Rightarrow> bool" where
  "caps_ok r = (distinct (cr_local r) \<and> dwf (cr_remote r) \<and> cr_my_node_id r \<notin> set (dkeys (cr_remote r))
     \<and> (\<forall>n s. dget (cr_remote r) n = Some s \<longrightarrow> distinct s))"

abbreviation caps_of :: "cap_registry \<Rightarrow> node_id \<Rightarrow> string set" where
  "caps_of r n \<equiv> (if n = cr_my_node_id r then set (cr_local r) else set (dget_default [] (cr_remote r) n))"

lemma caps_ok_new [simp]: "caps_ok (new_cap_registry me)"
  by (simp add: caps_ok_def new_cap_registry_def)

lemma caps_ok_local:
  "caps_ok r \<Longrightarrow> caps_ok (advertise_local now c r)" "caps_ok r \<Longrightarrow> caps_ok (remove_local now c r)"
  "caps_ok r \<Longrightarrow> caps_ok (set_local now cs r)"
  by (simp_all add: caps_ok_def advertise_local_def remove_local_def set_local_def touch_local_def distinct_removeAll
      del: map_of_eq_Some_iff)

lemma caps_ok_remote:
  assumes "caps_ok r"
  shows "caps_ok (snd (learn_remote now n caps r))" "caps_ok (forget_remote n r)"
proof -
  have "dwf (dset n s (cr_remote r))" "dwf (dpop n (cr_remote r))" for s using assms by (simp_all add: caps_ok_def)
  then show "caps_ok (snd (learn_remote now n caps r))" "caps_ok (forget_remote n r)"
    using assms by (auto simp: caps_ok_def learn_remote_def forget_remote_def Let_def
        simp del: map_of_eq_Some_iff update_keys delete_keys split: if_splits)
qed

lemma find_caps_iff:
  assumes "caps_ok r"
  shows "(n, c) \<in> set (find_caps p r) \<longleftrightarrow> c \<in> caps_of r n \<and> fnmatchcase c p"
proof -
  have w: "dwf (cr_remote r)" "cr_my_node_id r \<notin> set (dkeys (cr_remote r))" using assms by (simp_all add: caps_ok_def)
  have "(\<exists>s. (n, s) \<in> set (cr_remote r) \<and> c \<in> set s \<and> fnmatchcase c p)
      \<longleftrightarrow> (\<exists>s. dget (cr_remote r) n = Some s \<and> c \<in> set s \<and> fnmatchcase c p)"
    using w(1) by (simp add: map_of_eq_Some_iff)
  moreover have "(n, c) \<in> set (find_caps p r) \<longleftrightarrow>
      (n = cr_my_node_id r \<and> c \<in> set (cr_local r) \<and> fnmatchcase c p)
      \<or> (\<exists>s. (n, s) \<in> set (cr_remote r) \<and> c \<in> set s \<and> fnmatchcase c p)"
  proof -
    have "(n, c) \<in> set (concat (map (\<lambda>(n, caps). map (\<lambda>c. (n, c)) (filter (\<lambda>c. fnmatchcase c p) caps)) d))
        \<longleftrightarrow> (\<exists>s. (n, s) \<in> set d \<and> c \<in> set s \<and> fnmatchcase c p)" for d
      by (induction d) auto
    then show ?thesis unfolding find_caps_def set_append Un_iff by auto
  qed
  ultimately show ?thesis
    using w(2) dget_None_iff [of "cr_remote r" "cr_my_node_id r"]
    by (auto simp del: map_of_eq_Some_iff split: option.splits)
qed

text \<open>The count of changes \<open>learn_remote\<close> returns is the size of the symmetric difference.\<close>

lemma sym_diff_size: "distinct xs \<Longrightarrow> distinct ys \<Longrightarrow> sym_diff_size xs ys = card ((set xs - set ys) \<union> (set ys - set xs))"
proof -
  assume d: "distinct xs" "distinct ys"
  have "card ((set xs - set ys) \<union> (set ys - set xs)) = card (set xs - set ys) + card (set ys - set xs)"
    by (rule card_Un_disjoint) auto
  moreover have "card (set xs - set ys) = length (filter (\<lambda>x. x \<notin> set ys) xs)"
    using distinct_card [OF distinct_filter [OF d(1)]] by (metis set_filter set_diff_eq)
  moreover have "card (set ys - set xs) = length (filter (\<lambda>y. y \<notin> set xs) ys)"
    using distinct_card [OF distinct_filter [OF d(2)]] by (metis set_filter set_diff_eq)
  ultimately show ?thesis by (simp add: sym_diff_size_def)
qed

section \<open>Restarts\<close>

lemma load_set_strings: "distinct xs \<Longrightarrow> load_set (sort_json (strings_json xs)) = Some (sort xs)"
proof -
  assume "distinct xs"
  moreover have "map py_str (map sort_json (map JStr ys)) = map Some ys" for ys by simp
  moreover have "all_some (map Some ys) = Some ys" for ys :: "string list"
    using all_some_map_Some [of id ys] by simp
  ultimately show ?thesis by (simp add: load_set_def strings_json_def distinct_remdups_id comp_def)
qed

lemma load_remote_get:
  "\<forall>(n, j) \<in> set kvs. load_set j \<noteq> None \<Longrightarrow>
   \<exists>d. load_remote kvs = Some d \<and> dkeys d = dkeys kvs \<and> (\<forall>n. dget d n = Option.bind (dget kvs n) load_set)"
  by (induction kvs) (auto split: option.splits simp del: map_of_eq_Some_iff)

lemma cap_body_sorted:
  assumes "caps_ok r"
  shows "\<exists>b kvs. sort_json (cap_body r) = JObj b \<and> dget b ''my_node_id'' = Some (JStr (cr_my_node_id r))
    \<and> dget b ''local'' = Some (sort_json (strings_json (cr_local r))) \<and> dget b ''remote'' = Some (JObj kvs) \<and> dwf kvs
    \<and> (\<forall>n. dget kvs n = map_option (\<lambda>s. sort_json (strings_json s)) (dget (cr_remote r) n))"
proof -
  let ?rs = "map (\<lambda>(n, caps). (n, strings_json caps)) (cr_remote r)"
  let ?a = "[(''my_node_id'', JStr (cr_my_node_id r)), (''local'', strings_json (cr_local r)), (''remote'', JObj ?rs)]"
  have w: "dwf ?rs" using assms by (simp only: dkeys_map_val caps_ok_def)
  from sort_json_obj [OF w] obtain kvs where kvs: "sort_json (JObj ?rs) = JObj kvs" "dwf kvs"
    "\<forall>k. dget kvs k = map_option sort_json (dget ?rs k)" by blast
  have "dwf ?a" by simp
  from sort_json_obj [OF this] obtain b where b: "sort_json (JObj ?a) = JObj b"
    "\<forall>k. dget b k = map_option sort_json (dget ?a k)" by blast
  show ?thesis
    using b kvs by (intro exI [of _ b] exI [of _ kvs])
      (simp add: cap_body_def dget_map_val option.map_comp comp_def del: sort_json.simps)
qed

lemma wf_strings_json [simp]: "wf_json io (strings_json xs)"
  by (simp add: strings_json_def)

lemma wf_cap_body: "caps_ok r \<Longrightarrow> wf_json io (cap_body r)"
proof -
  assume "caps_ok r"
  then have "dwf (map (\<lambda>(n, caps). (n, strings_json caps)) (cr_remote r))" by (simp only: dkeys_map_val caps_ok_def)
  moreover have "\<forall>kv \<in> set (map (\<lambda>(n, caps). (n, strings_json caps)) (cr_remote r)). wf_json io (snd kv)" by auto
  ultimately show ?thesis by (simp only: cap_body_def wf_json.simps) simp
qed

lemma install_cap_body:
  assumes "caps_ok r" "cr_my_node_id r' = cr_my_node_id r"
  shows "\<exists>b l d. sort_json (cap_body r) = JObj b \<and> install_caps b r' = (True, r'\<lparr>cr_local := l, cr_remote := d\<rparr>)
    \<and> l = sort (cr_local r) \<and> dwf d \<and> set (dkeys d) = set (dkeys (cr_remote r))
    \<and> (\<forall>n. dget d n = map_option sort (dget (cr_remote r) n))"
proof -
  obtain b kvs where b: "sort_json (cap_body r) = JObj b" "dget b ''my_node_id'' = Some (JStr (cr_my_node_id r))"
    "dget b ''local'' = Some (sort_json (strings_json (cr_local r)))" "dget b ''remote'' = Some (JObj kvs)" "dwf kvs"
    "\<forall>n. dget kvs n = map_option (\<lambda>s. sort_json (strings_json s)) (dget (cr_remote r) n)"
    using cap_body_sorted [OF assms(1)] by blast
  have d: "distinct (cr_local r)" "dget (cr_remote r) n = Some s \<Longrightarrow> distinct s" for n s
    using assms(1) by (simp_all add: caps_ok_def del: map_of_eq_Some_iff)
  have got: "dget kvs n = Some j \<Longrightarrow> \<exists>s. dget (cr_remote r) n = Some s \<and> load_set j = Some (sort s)" for n j
    using b(6) d(2) [of n] load_set_strings by (cases "dget (cr_remote r) n") (auto simp del: map_of_eq_Some_iff)
  have "\<forall>(n, j) \<in> set kvs. load_set j \<noteq> None"
  proof -
    have "load_set j \<noteq> None" if "(n, j) \<in> set kvs" for n j
    proof -
      from that b(5) have "dget kvs n = Some j" by simp
      then show ?thesis using got by fastforce
    qed
    then show ?thesis by auto
  qed
  from load_remote_get [OF this] obtain e where e: "load_remote kvs = Some e" "dkeys e = dkeys kvs"
    "\<forall>n. dget e n = Option.bind (dget kvs n) load_set" by blast
  have "dget e n = map_option sort (dget (cr_remote r) n)" for n
    using e(3) b(6) d(2) [of n] by (cases "dget (cr_remote r) n") (auto simp: load_set_strings simp del: map_of_eq_Some_iff)
  moreover have "set (dkeys kvs) = set (dkeys (cr_remote r))"
  proof (rule set_eqI)
    fix n show "n \<in> set (dkeys kvs) \<longleftrightarrow> n \<in> set (dkeys (cr_remote r))"
      using b(6) dget_None_iff [of kvs n] dget_None_iff [of "cr_remote r" n] by auto
  qed
  moreover have "install_caps b r' = (True, r'\<lparr>cr_local := sort (cr_local r), cr_remote := e\<rparr>)"
    using b e(1) assms(2) d(1) by (simp add: install_caps_def load_set_strings del: map_of_eq_Some_iff)
  ultimately show ?thesis using b(1,5) e(2) by (metis)
qed

text \<open>The registry as a persistent component: its file is \<open>caps_save\<close>, a restart builds an empty
  registry of the same id and loads it, and the view is who can do what.\<close>

abbreviation caps_file :: "crypto \<Rightarrow> float_io \<Rightarrow> bytes \<Rightarrow> cap_registry \<Rightarrow> string" where
  "caps_file C io key r \<equiv> the (caps_save C io (Some key) r)"

abbreviation caps_reload :: "crypto \<Rightarrow> float_io \<Rightarrow> bytes \<Rightarrow> string \<Rightarrow> cap_registry \<Rightarrow> bool \<times> cap_registry" where
  "caps_reload C io key file r \<equiv> (case caps_load C io (Some key) (Some file) r of (ok, _, r') \<Rightarrow> (ok, r'))"

definition caps_view :: "cap_registry \<Rightarrow> node_id \<times> string set \<times> (node_id \<rightharpoonup> string set)" where
  "caps_view r = (cr_my_node_id r, set (cr_local r), \<lambda>n. map_option set (dget (cr_remote r) n))"

lemma caps_reload_saved:
  assumes "caps_ok r"
  shows "\<exists>r'. caps_reload C io key (caps_file C io key r) (new_cap_registry (cr_my_node_id r)) = (True, r')
    \<and> caps_ok r' \<and> caps_view r' = caps_view r"
proof -
  let ?new = "new_cap_registry (cr_my_node_id r)"
  have me: "cr_my_node_id ?new = cr_my_node_id r" by (simp add: new_cap_registry_def)
  obtain b l d where b: "sort_json (cap_body r) = JObj b" "install_caps b ?new = (True, ?new\<lparr>cr_local := l, cr_remote := d\<rparr>)"
    "l = sort (cr_local r)" "dwf d" "set (dkeys d) = set (dkeys (cr_remote r))"
    "\<forall>n. dget d n = map_option sort (dget (cr_remote r) n)"
    using install_cap_body [OF assms me] by blast
  have "loads io (dumps_sorted io (cap_body r)) = Some (JObj b)"
    using loads_dumps_sorted [OF wf_cap_body [OF assms]] b(1) by simp
  then have "caps_reload C io key (caps_file C io key r) ?new = (True, ?new\<lparr>cr_local := l, cr_remote := d\<rparr>)"
    using b(2) by (simp add: caps_load_def caps_save_def open_seal_body_same)
  moreover have "caps_ok (?new\<lparr>cr_local := l, cr_remote := d\<rparr>)"
  proof -
    have "distinct s" if "dget d n = Some s" for n s
    proof -
      from that b(6) obtain t where "dget (cr_remote r) n = Some t" "s = sort t" by (metis map_option_eq_Some)
      then show ?thesis using assms by (simp add: caps_ok_def del: map_of_eq_Some_iff)
    qed
    moreover have "cr_my_node_id r \<notin> set (dkeys d)" using b(5) assms by (simp add: caps_ok_def)
    moreover have "distinct l" using b(3) assms by (simp add: caps_ok_def)
    moreover have "cr_local (?new\<lparr>cr_local := l, cr_remote := d\<rparr>) = l" "cr_remote (?new\<lparr>cr_local := l, cr_remote := d\<rparr>) = d"
      "cr_my_node_id (?new\<lparr>cr_local := l, cr_remote := d\<rparr>) = cr_my_node_id r"
      by (simp_all add: me)
    ultimately show ?thesis using b(4) unfolding caps_ok_def by metis
  qed
  moreover have "caps_view (?new\<lparr>cr_local := l, cr_remote := d\<rparr>) = caps_view r"
    using b by (simp add: caps_view_def me fun_eq_iff option.map_comp comp_def del: map_of_eq_Some_iff)
  ultimately show ?thesis by blast
qed

interpretation caps: sealed_store "caps_file C io key" "caps_reload C io key"
    "\<lambda>r. new_cap_registry (cr_my_node_id r)" caps_ok caps_view for C io key
  by unfold_locales (rule caps_reload_saved)

text \<open>The registry survives restarts. Saving and loading any number of times under the same key
  always succeeds and keeps who advertises what; a file whose digest does not match, or a node
  without a key, loads nothing.\<close>

lemma capabilities_survive_restarts:
  assumes "caps_ok r"
  shows "caps_view (snd (caps_reload C io key (caps_file C io key ((caps.restart C io key ^^ n) r))
            (new_cap_registry (cr_my_node_id r)))) = caps_view r
    \<and> fst (caps_reload C io key (caps_file C io key ((caps.restart C io key ^^ n) r)) (new_cap_registry (cr_my_node_id r)))
    \<and> (\<forall>file body. open_sealed C io key file = Tampered body \<longrightarrow> caps_reload C io key file r = (False, r))
    \<and> caps_load C io None file r = (False, False, r)"
proof -
  have k: "caps_ok ((caps.restart C io key ^^ n) r)" "caps_view ((caps.restart C io key ^^ n) r) = caps_view r"
    using caps.restarts_keep_view [OF assms] by blast+
  then have "cr_my_node_id ((caps.restart C io key ^^ n) r) = cr_my_node_id r" by (simp add: caps_view_def)
  then show ?thesis
    using caps_reload_saved [OF k(1), of C io key] k(2) by (auto simp: caps_load_def)
qed

section \<open>The registry as a map from nodes to capability sets\<close>

text \<open>C32: the registry implements the map from node ids to capability sets. Lookup by pattern returns
  exactly the pairs of a node and one of its capabilities that lies in the pattern's language;
  every operation changes the set of its own node only, an announcement replaces the announcer's
  set and cannot touch the local one, and the count it returns is the number of differences.\<close>

theorem capability_registry_is_a_map:
  assumes "caps_ok r"
  shows "set (find_caps p r) = {(n, c). c \<in> caps_of r n \<and> c \<in> glob_language (parse_glob p)}
    \<and> caps_of (advertise_local now c r) n = caps_of r n \<union> (if n = cr_my_node_id r \<and> c \<noteq> [] then {c} else {})
    \<and> caps_of (remove_local now c r) n = caps_of r n - (if n = cr_my_node_id r then {c} else {})
    \<and> caps_of (set_local now cs r) n = (if n = cr_my_node_id r then py_strip ` set cs - {[]} else caps_of r n)
    \<and> caps_of (snd (learn_remote now m caps r)) n =
        (if n = m \<and> m \<noteq> [] \<and> m \<noteq> cr_my_node_id r then {c. c \<noteq> [] \<and> JStr c \<in> set caps} else caps_of r n)
    \<and> (if m \<noteq> [] \<and> m \<noteq> cr_my_node_id r
        then fst (learn_remote now m caps r) = card (sym_diff {c. c \<noteq> [] \<and> JStr c \<in> set caps} (caps_of r m)) else True)
    \<and> caps_of (forget_remote m r) n = (if n = m \<and> m \<noteq> cr_my_node_id r then {} else caps_of r n)"
proof -
  have strs: "set (List.map_filter cap_string caps) = {c. c \<noteq> [] \<and> JStr c \<in> set caps}"
  proof -
    have "cap_string j = Some c \<longleftrightarrow> j = JStr c \<and> c \<noteq> []" for j c by (cases j) auto
    then show ?thesis by (auto simp: List.map_filter_def image_iff) (metis option.sel)+
  qed
  have old: "distinct (dget_default [] (cr_remote r) m)"
    using assms by (auto simp: caps_ok_def simp del: map_of_eq_Some_iff split: option.split)
  have "fst (learn_remote now m caps r) = card (sym_diff {c. c \<noteq> [] \<and> JStr c \<in> set caps} (caps_of r m))"
    if "m \<noteq> []" "m \<noteq> cr_my_node_id r"
    using that sym_diff_size [OF distinct_remdups old, of "List.map_filter cap_string caps"]
    by (simp add: learn_remote_def Let_def strs del: map_of_eq_Some_iff)
  then show ?thesis
    using find_caps_iff [OF assms, of _ _ p]
    by (auto simp: fnmatchcase_def glob_match_language advertise_local_def remove_local_def set_local_def touch_local_def
        learn_remote_def forget_remote_def Let_def strs simp del: map_of_eq_Some_iff)
qed

theorem capability_registry_is_a_map_witness:
  "(''me'', ''llm:x'') \<in> set (find_caps ''llm:*'' (advertise_local 3 ''llm:x'' (new_cap_registry ''me'')))"
proof -
  have "''llm:x'' \<in> glob_language (parse_glob ''llm:*'')"
    unfolding glob_match_language [symmetric] by code_simp
  then show ?thesis
    using capability_registry_is_a_map [OF caps_ok_local(1) [OF caps_ok_new [of "''me''"], of 3 "''llm:x''"], of "''llm:*''"]
    by (simp add: advertise_local_def new_cap_registry_def touch_local_def)
qed

end
