(* ===== verification/Trust.thy ===== *)
theory Trust
  imports Capabilities
begin

text \<open>
  trust.py, \<open>TrustStore\<close>: the pinned identity keys, trust states and capability baselines, and
  the encrypted, authenticated file they live in.

  \<^item> A peer record is the dictionary the code keeps, so that an absent field (a record of an
    older version) stays distinguishable. Capability tokens are strings.
  \<^item> The file is what \<open>json.load\<close> makes of it: \<open>NoFile\<close>, \<open>NotJson\<close> (unreadable or not
    JSON) or \<open>Holds j\<close>. Writing is atomic (temporary file, then rename), under the file lock:
    one operation is one step. Whether a write succeeds, its nonce and the clock are the
    environment's (\<open>trust_env\<close>).
  \<^item> A file whose peers are not an object of objects would be kept as it is and raise at its
    first use; the model raises at the load. The text of log lines is not modelled.
\<close>

datatype trust_file = NoFile | NotJson | Holds json

type_synonym peer_rec = "(string, json) dict"

record trust_keys =
  tk_mac :: bytes
  tk_box :: bytes

record trust_store =
  ts_keys :: trust_keys
  ts_peers :: "(node_id, peer_rec) dict"
  ts_revoked :: "(node_id, peer_rec) dict"
  ts_readonly :: bool

record trust_env =
  te_now :: time
  te_nonce :: bytes
  te_writes :: bool

datatype trust_error = InvalidTrustState string | InvalidKey | NotPersisted node_id

definition derive_key :: "crypto \<Rightarrow> string \<Rightarrow> bytes \<Rightarrow> bytes py" where
  "derive_key C label agent_key =
    (if length agent_key < 16 then Inl (ValueError ''TrustStore requires an agent_key of at least 16 bytes'')
     else Inr (sha256 C (agent_key @ utf8 label)))"

definition derive_mac_key :: "crypto \<Rightarrow> bytes \<Rightarrow> bytes py" where
  "derive_mac_key C = derive_key C ''ironmesh-trust-store-v1''"

definition derive_box_key :: "crypto \<Rightarrow> bytes \<Rightarrow> bytes py" where
  "derive_box_key C = derive_key C ''ironmesh-trust-store-encryption-v1''"

definition TRUST_ENVELOPE_VERSION :: int where "TRUST_ENVELOPE_VERSION = 2"

text \<open>The tokens as the code cleans them: stripped, without repetition, sorted.\<close>

definition clean_caps :: "string list \<Rightarrow> string list" where
  "clean_caps caps = sort (remdups (filter (\<lambda>s. s \<noteq> []) (map py_strip caps)))"

definition canonical_capability_hash :: "crypto \<Rightarrow> string list \<Rightarrow> string" where
  "canonical_capability_hash C caps =
     hex_of (sha256 C (utf8 ''ironmesh-cap-hash-v1:'' @ utf8 (join_with [CHR 0x0A] (clean_caps caps))))"

section \<open>The envelope\<close>

definition encrypt_inner :: "crypto \<Rightarrow> trust_keys \<Rightarrow> bytes \<Rightarrow> string \<Rightarrow> string" where
  "encrypt_inner C K nonce inner = b64encode (box_encrypt C (tk_box K) nonce (utf8 inner))"

definition decrypt_inner :: "crypto \<Rightarrow> trust_keys \<Rightarrow> string \<Rightarrow> string option" where
  "decrypt_inner C K ct = Option.bind (b64decode ct) (\<lambda>raw. Option.bind (box_decrypt C (tk_box K) raw) utf8_decode)"

definition v2_mac_input :: "string \<Rightarrow> string" where
  "v2_mac_input ct = ''v='' @ show_int TRUST_ENVELOPE_VERSION @ ''|c='' @ ct"

definition records_json :: "(node_id, peer_rec) dict \<Rightarrow> json" where
  "records_json d = JObj (map (\<lambda>(n, r). (n, JObj r)) d)"

fun records_of :: "(string \<times> json) list \<Rightarrow> (node_id, peer_rec) dict option" where
  "records_of [] = Some []"
| "records_of ((n, JObj r) # kvs) = map_option ((#) (n, r)) (records_of kvs)"
| "records_of _ = None"

definition read_records :: "json \<Rightarrow> (node_id, peer_rec) dict option" where
  "read_records j = (case j of JObj d \<Rightarrow> records_of d | _ \<Rightarrow> None)"

definition inner_json :: "trust_store \<Rightarrow> json" where
  "inner_json st = JObj [(''peers'', records_json (ts_peers st)), (''revoked'', records_json (ts_revoked st))]"

definition serialize_envelope :: "crypto \<Rightarrow> float_io \<Rightarrow> bytes \<Rightarrow> trust_store \<Rightarrow> json" where
  "serialize_envelope C io nonce st =
    (let ct = encrypt_inner C (ts_keys st) nonce (dumps_sorted io (inner_json st)) in
     JObj [(''version'', JInt TRUST_ENVELOPE_VERSION), (''ciphertext'', JStr ct),
           (''_mac'', JStr (mac_hex C (tk_mac (ts_keys st)) (v2_mac_input ct)))])"

text \<open>The version-2 branch of \<open>_deserialize_envelope\<close>: \<open>None\<close> on any failure; the inner objects
  otherwise. \<open>compare_digest\<close> raises on a digest that is not ASCII.\<close>

definition open_v2 :: "crypto \<Rightarrow> float_io \<Rightarrow> trust_keys \<Rightarrow> (string, json) dict \<Rightarrow> (json \<times> json) option py" where
  "open_v2 C io K raw =
    (case (dget raw ''ciphertext'', dget raw ''_mac'') of
       (Some (JStr ct), Some (JStr stored)) \<Rightarrow>
         py_bind (compare_digest_str (JStr stored) (mac_hex C (tk_mac K) (v2_mac_input ct))) (\<lambda>same.
           if \<not> same then Inr None
           else case decrypt_inner C K ct of
             None \<Rightarrow> Inr None
           | Some inner \<Rightarrow>
               (case loads io inner of
                  None \<Rightarrow> Inr None
                | Some j \<Rightarrow> Inr (Some
                    (case jget j ''peers'' of Some p \<Rightarrow> p | None \<Rightarrow> JObj [],
                     case jget j ''revoked'' of Some r \<Rightarrow> r | None \<Rightarrow> JObj []))))
     | _ \<Rightarrow> Inr None)"

section \<open>Saving and loading\<close>

definition trust_save :: "crypto \<Rightarrow> float_io \<Rightarrow> trust_env \<Rightarrow> trust_store \<Rightarrow> trust_file \<Rightarrow> bool \<times> trust_file" where
  "trust_save C io E st disk =
    (if ts_readonly st then (False, disk)
     else if te_writes E then (True, Holds (serialize_envelope C io (te_nonce E) st))
     else (False, disk))"

text \<open>Install what was read; records that are not objects are a \<open>TypeError\<close>.\<close>

definition install_records :: "json \<Rightarrow> json \<Rightarrow> trust_store \<Rightarrow> trust_store py" where
  "install_records p r st = (case (read_records p, read_records r) of
     (Some ps, Some rs) \<Rightarrow> Inr (st\<lparr>ts_peers := ps, ts_revoked := rs\<rparr>)
   | _ \<Rightarrow> Inl (TypeError ''trust records''))"

definition lock_store :: "trust_store \<Rightarrow> trust_store" where
  "lock_store st = st\<lparr>ts_peers := [], ts_readonly := True\<rparr>"

text \<open>The legacy plaintext file with a MAC: the agent's key, then the home-directory key
  (\<open>legacy_key\<close>), which is migrated at once; no match locks the store.\<close>

definition load_v1 :: "crypto \<Rightarrow> float_io \<Rightarrow> bytes \<Rightarrow> trust_env \<Rightarrow> (string, json) dict \<Rightarrow> json \<Rightarrow> trust_store
    \<Rightarrow> trust_file \<Rightarrow> (trust_store \<times> trust_file) py" where
  "load_v1 C io legacy_key E raw stored st disk =
    (let data_str = dumps_sorted io (JObj raw);
         peers = dget_default (JObj raw) raw ''peers'' in
     py_bind (compare_digest_str stored (mac_hex C (tk_mac (ts_keys st)) data_str)) (\<lambda>same.
       if same then
         py_bind (install_records peers (dget_default (JObj []) raw ''revoked'') st) (\<lambda>st1. Inr (st1, disk))
       else py_bind (compare_digest_str stored (mac_hex C legacy_key data_str)) (\<lambda>old.
         if old then
           (case read_records peers of
              None \<Rightarrow> Inl (TypeError ''trust records'')
            | Some ps \<Rightarrow> Inr (st\<lparr>ts_peers := ps\<rparr>, snd (trust_save C io E (st\<lparr>ts_peers := ps\<rparr>) disk)))
         else Inr (lock_store st, disk))))"

definition trust_load :: "crypto \<Rightarrow> float_io \<Rightarrow> bytes \<Rightarrow> trust_env \<Rightarrow> trust_store \<Rightarrow> trust_file \<Rightarrow> (trust_store \<times> trust_file) py" where
  "trust_load C io legacy_key E st disk = (case disk of
     NoFile \<Rightarrow> Inr (st, disk)
   | NotJson \<Rightarrow> Inr (st\<lparr>ts_peers := []\<rparr>, disk)
   | Holds (JObj raw) \<Rightarrow>
       if Option.bind (dget raw ''version'') py_number = Some (of_int TRUST_ENVELOPE_VERSION) then
         py_bind (open_v2 C io (ts_keys st) raw) (\<lambda>decoded.
           case decoded of
             None \<Rightarrow> Inr (lock_store st, disk)
           | Some (p, r) \<Rightarrow> py_bind (install_records p r st) (\<lambda>st1. Inr (st1, disk)))
       else (case dget raw ''_mac'' of
         Some stored \<Rightarrow> load_v1 C io legacy_key E (dpop ''_mac'' raw) stored st disk
       | None \<Rightarrow>
           py_bind (install_records (dget_default (JObj raw) raw ''peers'') (dget_default (JObj []) raw ''revoked'') st)
             (\<lambda>st1. Inr (st1, disk)))
   | Holds _ \<Rightarrow> Inr (st\<lparr>ts_peers := []\<rparr>, disk))"

text \<open>The constructor: keys from the agent's secret, then the load.\<close>

definition trust_open :: "crypto \<Rightarrow> float_io \<Rightarrow> bytes \<Rightarrow> trust_env \<Rightarrow> bytes \<Rightarrow> trust_file \<Rightarrow> (trust_store \<times> trust_file) py" where
  "trust_open C io legacy_key E agent_key disk =
     py_bind (derive_mac_key C agent_key) (\<lambda>mk. py_bind (derive_box_key C agent_key) (\<lambda>bk.
       trust_load C io legacy_key E \<lparr> ts_keys = \<lparr> tk_mac = mk, tk_box = bk \<rparr>, ts_peers = [], ts_revoked = [], ts_readonly = False \<rparr> disk))"

section \<open>Peers\<close>

definition trust_fingerprint :: "crypto \<Rightarrow> string \<Rightarrow> string option" where
  "trust_fingerprint C pubkey = map_option (\<lambda>raw. take 32 (hex_of (sha256 C raw))) (b64decode pubkey)"

abbreviation put_peer :: "node_id \<Rightarrow> peer_rec \<Rightarrow> trust_store \<Rightarrow> trust_store" where
  "put_peer n r st \<equiv> st\<lparr>ts_peers := dset n r (ts_peers st)\<rparr>"

abbreviation drop_peer :: "node_id \<Rightarrow> trust_store \<Rightarrow> trust_store" where
  "drop_peer n st \<equiv> st\<lparr>ts_peers := dpop n (ts_peers st)\<rparr>"

datatype verdict = NewPeer | TrustedPeer | KeyMismatch

definition verify_peer :: "crypto \<Rightarrow> float_io \<Rightarrow> trust_env \<Rightarrow> node_id \<Rightarrow> string \<Rightarrow> trust_store \<Rightarrow> trust_file
    \<Rightarrow> verdict \<times> trust_store \<times> trust_file" where
  "verify_peer C io E n key st disk = (case dget (ts_peers st) n of
     None \<Rightarrow> (NewPeer, st, disk)
   | Some r \<Rightarrow>
       if get_or_none r ''pubkey'' = Some (JStr key) then
         (let st1 = put_peer n (dset ''last_seen'' (JFloat (te_now E)) r) st in
          (TrustedPeer, st1, snd (trust_save C io E st1 disk)))
       else (KeyMismatch, st, disk))"

definition trust_states :: "string list" where
  "trust_states = [''pending'', ''trusted'', ''blocked'', ''pending-cap-change'']"

definition pin_record :: "time \<Rightarrow> string \<Rightarrow> string \<Rightarrow> string \<Rightarrow> string option \<Rightarrow> peer_rec" where
  "pin_record now key fp state via = [(''pubkey'', JStr key), (''fingerprint'', JStr fp), (''first_seen'', JFloat now),
     (''last_seen'', JFloat now), (''trust_state'', JStr state)] @
     (case via of None \<Rightarrow> [] | Some v \<Rightarrow> [(''pinned_via'', JStr v)])"

text \<open>The error raised, if any, the store and the file afterwards.\<close>

definition pin_peer :: "crypto \<Rightarrow> float_io \<Rightarrow> trust_env \<Rightarrow> node_id \<Rightarrow> string \<Rightarrow> string \<Rightarrow> string option \<Rightarrow> trust_store \<Rightarrow> trust_file
    \<Rightarrow> trust_error option \<times> trust_store \<times> trust_file" where
  "pin_peer C io E n key state via st disk =
    (if state \<notin> set trust_states then (Some (InvalidTrustState state), st, disk)
     else case trust_fingerprint C key of
       None \<Rightarrow> (Some InvalidKey, st, disk)
     | Some fp \<Rightarrow>
         (let st1 = put_peer n (pin_record (te_now E) key fp state via) st in
          case trust_save C io E st1 disk of
            (True, disk1) \<Rightarrow> (None, st1, disk1)
          | (False, disk1) \<Rightarrow> (Some (NotPersisted n), drop_peer n st1, disk1)))"

definition revoke_peer :: "crypto \<Rightarrow> float_io \<Rightarrow> trust_env \<Rightarrow> node_id \<Rightarrow> trust_store \<Rightarrow> trust_file \<Rightarrow> bool \<times> trust_store \<times> trust_file" where
  "revoke_peer C io E n st disk =
    (if n \<in> set (dkeys (ts_peers st)) then (True, drop_peer n st, snd (trust_save C io E (drop_peer n st) disk))
     else (False, st, disk))"

definition mark_revoked :: "crypto \<Rightarrow> float_io \<Rightarrow> trust_env \<Rightarrow> node_id \<Rightarrow> node_id \<Rightarrow> real \<Rightarrow> json \<Rightarrow> trust_store \<Rightarrow> trust_file
    \<Rightarrow> trust_store \<times> trust_file" where
  "mark_revoked C io E target revoker timestamp reason st disk =
    (let st1 = st\<lparr>ts_revoked := dset target
            [(''revoker'', JStr revoker), (''timestamp'', JFloat timestamp), (''reason'', reason)] (ts_revoked st)\<rparr>;
         st2 = drop_peer target st1 in
     (st2, snd (trust_save C io E st2 disk)))"

definition is_revoked :: "node_id \<Rightarrow> trust_store \<Rightarrow> bool" where
  "is_revoked n st = (n \<in> set (dkeys (ts_revoked st)))"

definition list_revoked :: "trust_store \<Rightarrow> peer_rec list" where
  "list_revoked st = map (\<lambda>(n, r). fold (\<lambda>(k, v) d. dset k v d) r [(''node_id'', JStr n)]) (ts_revoked st)"

definition clear_revocation :: "crypto \<Rightarrow> float_io \<Rightarrow> trust_env \<Rightarrow> node_id \<Rightarrow> trust_store \<Rightarrow> trust_file \<Rightarrow> bool \<times> trust_store \<times> trust_file" where
  "clear_revocation C io E n st disk =
    (if is_revoked n st then
       (let st1 = st\<lparr>ts_revoked := dpop n (ts_revoked st)\<rparr> in (True, st1, snd (trust_save C io E st1 disk)))
     else (False, st, disk))"

definition rec_or :: "peer_rec \<Rightarrow> string \<Rightarrow> json \<Rightarrow> json" where
  "rec_or r k x = dget_default x r k"

definition list_peers :: "trust_store \<Rightarrow> peer_rec list" where
  "list_peers st = map (\<lambda>(n, r). [(''node_id'', JStr n), (''fingerprint'', rec_or r ''fingerprint'' (JStr [])),
     (''first_seen'', rec_or r ''first_seen'' JNull), (''last_seen'', rec_or r ''last_seen'' JNull),
     (''trust_state'', rec_or r ''trust_state'' (JStr ''trusted''))]) (ts_peers st)"

definition get_peer :: "node_id \<Rightarrow> trust_store \<Rightarrow> peer_rec option" where
  "get_peer n st = dget (ts_peers st) n"

section \<open>Trust states\<close>

definition get_trust_state :: "node_id \<Rightarrow> trust_store \<Rightarrow> json" where
  "get_trust_state n st =
    (if is_revoked n st then JStr ''blocked''
     else case dget (ts_peers st) n of None \<Rightarrow> JStr ''pending'' | Some r \<Rightarrow> rec_or r ''trust_state'' (JStr ''trusted''))"

definition set_trust_state :: "crypto \<Rightarrow> float_io \<Rightarrow> trust_env \<Rightarrow> node_id \<Rightarrow> string \<Rightarrow> trust_store \<Rightarrow> trust_file
    \<Rightarrow> (trust_error + bool) \<times> trust_store \<times> trust_file" where
  "set_trust_state C io E n state st disk =
    (if state \<notin> set trust_states then (Inl (InvalidTrustState state), st, disk)
     else case dget (ts_peers st) n of
       None \<Rightarrow> (Inr False, st, disk)
     | Some r \<Rightarrow>
         (let old_state = rec_or r ''trust_state'' JNull;
              r1 = dset ''trust_state'' (JStr state) r in
          case trust_save C io E (put_peer n r1 st) disk of
            (True, disk1) \<Rightarrow> (Inr True, put_peer n r1 st, disk1)
          | (False, disk1) \<Rightarrow> (Inr False, put_peer n (dset ''trust_state'' old_state r1) st, disk1)))"

definition list_or_empty :: "peer_rec \<Rightarrow> string \<Rightarrow> json" where
  "list_or_empty r k = (let v = rec_or r k JNull in if truthy v then v else JArr [])"

definition list_by_trust_state :: "string \<Rightarrow> trust_store \<Rightarrow> peer_rec list" where
  "list_by_trust_state state st =
     map (\<lambda>(n, r). [(''node_id'', JStr n), (''fingerprint'', rec_or r ''fingerprint'' (JStr [])),
        (''first_seen'', rec_or r ''first_seen'' JNull), (''last_seen'', rec_or r ''last_seen'' JNull),
        (''trust_state'', rec_or r ''trust_state'' (JStr ''trusted'')), (''capability_hash'', rec_or r ''capability_hash'' JNull),
        (''capability_set'', list_or_empty r ''capability_set'')])
       (filter (\<lambda>(n, r). rec_or r ''trust_state'' (JStr ''trusted'') = JStr state) (ts_peers st))"

section \<open>Capability baselines\<close>

datatype cap_verdict =
    UnknownPeer
  | FirstObservation string "string list"
  | CapMatch string "string list"
  | PendingMatch string "string list"
  | Reverted string "string list" json
  | CapChanged json string "string list" "string list" "string list" "string list"

text \<open>\<open>list(x or [])\<close> of a stored token list.\<close>

definition str_items :: "json option \<Rightarrow> string list" where
  "str_items j = (case j of Some (JArr xs) \<Rightarrow> List.map_filter py_str xs | _ \<Rightarrow> [])"

definition observe_capabilities :: "crypto \<Rightarrow> float_io \<Rightarrow> trust_env \<Rightarrow> node_id \<Rightarrow> string list \<Rightarrow> trust_store \<Rightarrow> trust_file
    \<Rightarrow> cap_verdict \<times> trust_store \<times> trust_file" where
  "observe_capabilities C io E n capabilities st disk = (case dget (ts_peers st) n of
     None \<Rightarrow> (UnknownPeer, st, disk)
   | Some r \<Rightarrow>
       (let observed = clean_caps capabilities;
            h = canonical_capability_hash C observed;
            stored = get_or_none r ''capability_hash'';
            stored_set = str_items (dget r ''capability_set'');
            pending = get_or_none r ''capability_hash_pending'';
            r1 = dset ''last_seen'' (JFloat (te_now E)) r;
            st1 = put_peer n r1 st in
        if stored = None then
          (let st2 = put_peer n (dset ''cap_first_observed'' (JFloat (te_now E)) (dset ''capability_set'' (JArr (map JStr observed))
                       (dset ''capability_hash'' (JStr h) r1))) st in
           (FirstObservation h observed, st2, snd (trust_save C io E st2 disk)))
        else if stored = Some (JStr h) then
          (case pending of
             None \<Rightarrow> (CapMatch h observed, st1, disk)
           | Some p \<Rightarrow>
               (let st2 = put_peer n (dpop ''capability_set_pending'' (dpop ''capability_hash_pending'' r1)) st in
                (Reverted h observed p, st2, snd (trust_save C io E st2 disk))))
        else if pending = Some (JStr h) then (PendingMatch h observed, st1, disk)
        else (CapChanged (the stored) h stored_set observed (filter (\<lambda>c. c \<notin> set stored_set) observed)
                (sort (remdups (filter (\<lambda>c. c \<notin> set observed) stored_set))), st1, snd (trust_save C io E st1 disk))))"

text \<open>Re-reads the file under the lock, then moves the pending set into the baseline.\<close>

definition accept_capability_change :: "crypto \<Rightarrow> float_io \<Rightarrow> bytes \<Rightarrow> trust_env \<Rightarrow> node_id \<Rightarrow> trust_store \<Rightarrow> trust_file
    \<Rightarrow> (bool \<times> trust_store \<times> trust_file) py" where
  "accept_capability_change C io legacy_key E n st disk =
     py_bind (trust_load C io legacy_key E st disk) (\<lambda>(st1, disk1). Inr
       (case dget (ts_peers st1) n of
          None \<Rightarrow> (False, st1, disk1)
        | Some r \<Rightarrow>
            (case get_or_none r ''capability_hash_pending'' of
               None \<Rightarrow> (False, st1, disk1)
             | Some pending \<Rightarrow>
                 (let r1 = dset ''capability_hash'' pending r;
                      r2 = dset ''capability_set'' (list_or_empty r ''capability_set_pending'') r1;
                      r3 = dpop ''capability_set_pending'' (dpop ''capability_hash_pending'' r2);
                      st2 = put_peer n (dset ''cap_accepted_at'' (JFloat (te_now E)) r3) st1;
                      (ok, disk2) = trust_save C io E st2 disk1 in
                  (ok, st2, disk2)))))"

definition cap_status_matches :: "string \<Rightarrow> peer_rec \<Rightarrow> bool" where
  "cap_status_matches status r =
    (let has_hash = get_or_none r ''capability_hash'' \<noteq> None; pending = get_or_none r ''capability_hash_pending'' \<noteq> None in
     if status = ''pending-cap-change'' then pending
     else if status = ''cap-baseline'' then has_hash \<and> \<not> pending
     else if status = ''cap-unknown'' then \<not> has_hash
     else False)"

definition list_by_capability_status :: "string \<Rightarrow> trust_store \<Rightarrow> peer_rec list" where
  "list_by_capability_status status st =
     map (\<lambda>(n, r). [(''node_id'', JStr n), (''fingerprint'', rec_or r ''fingerprint'' (JStr [])),
        (''trust_state'', rec_or r ''trust_state'' (JStr ''trusted'')), (''capability_hash'', rec_or r ''capability_hash'' JNull),
        (''capability_set'', list_or_empty r ''capability_set''), (''pending_hash'', rec_or r ''capability_hash_pending'' JNull),
        (''pending_set'', list_or_empty r ''capability_set_pending'')])
       (filter (\<lambda>(n, r). cap_status_matches status r) (ts_peers st))"

definition restore_field :: "string \<Rightarrow> json option \<Rightarrow> peer_rec \<Rightarrow> peer_rec" where
  "restore_field k old r = (case old of None \<Rightarrow> dpop k r | Some v \<Rightarrow> dset k v r)"

definition stash_pending_change :: "crypto \<Rightarrow> float_io \<Rightarrow> trust_env \<Rightarrow> node_id \<Rightarrow> string list \<Rightarrow> trust_store \<Rightarrow> trust_file
    \<Rightarrow> bool \<times> trust_store \<times> trust_file" where
  "stash_pending_change C io E n caps st disk = (case dget (ts_peers st) n of
     None \<Rightarrow> (False, st, disk)
   | Some r \<Rightarrow>
       (let observed = clean_caps caps;
            r1 = dset ''capability_set_pending'' (JArr (map JStr observed))
                   (dset ''capability_hash_pending'' (JStr (canonical_capability_hash C observed)) r) in
        case trust_save C io E (put_peer n r1 st) disk of
          (True, disk1) \<Rightarrow> (True, put_peer n r1 st, disk1)
        | (False, disk1) \<Rightarrow>
            (False, put_peer n (restore_field ''capability_set_pending'' (get_or_none r ''capability_set_pending'')
                       (restore_field ''capability_hash_pending'' (get_or_none r ''capability_hash_pending'') r1)) st, disk1)))"

section \<open>What the file brings back\<close>

text \<open>Records that print: keys once, scalars and lists of scalars (sorting changes nothing in them).\<close>

definition records_ok :: "float_io \<Rightarrow> (node_id, peer_rec) dict \<Rightarrow> bool" where
  "records_ok io d = (dwf d \<and> (\<forall>(n, r) \<in> set d. dwf r \<and> (\<forall>(k, v) \<in> set r. sort_json v = v \<and> wf_json io v)))"

definition store_ok :: "float_io \<Rightarrow> trust_store \<Rightarrow> bool" where
  "store_ok io st = (records_ok io (ts_peers st) \<and> records_ok io (ts_revoked st))"

text \<open>What a store says, field by field.\<close>

definition records_view :: "(node_id, peer_rec) dict \<Rightarrow> node_id \<Rightarrow> (string \<rightharpoonup> json) option" where
  "records_view d n = map_option dget (dget d n)"

definition store_view :: "trust_store \<Rightarrow> (node_id \<Rightarrow> (string \<rightharpoonup> json) option) \<times> (node_id \<Rightarrow> (string \<rightharpoonup> json) option)" where
  "store_view st = (records_view (ts_peers st), records_view (ts_revoked st))"

lemma records_of_get:
  "\<forall>(n, j) \<in> set kvs. \<exists>r. j = JObj r \<Longrightarrow>
   \<exists>d. records_of kvs = Some d \<and> dkeys d = dkeys kvs \<and> (\<forall>n. dget kvs n = map_option JObj (dget d n))"
proof (induction kvs)
  case (Cons kv kvs)
  obtain n r where "kv = (n, JObj r)" using Cons.prems by (cases kv) auto
  with Cons show ?case by (auto simp del: map_of_eq_Some_iff)
qed simp

lemma sort_json_record:
  assumes "\<forall>(k, v) \<in> set r. sort_json v = v"
  shows "sort_json (JObj r) = JObj (sort_key fst r)"
proof -
  have "map (\<lambda>kv. (fst kv, sort_json (snd kv))) r = r"
    using assms by (intro map_idI) auto
  then show ?thesis by simp
qed

lemma records_back:
  assumes "records_ok io d"
  shows "\<exists>d'. read_records (sort_json (records_json d)) = Some d' \<and> records_ok io d' \<and> records_view d' = records_view d"
proof -
  let ?rs = "map (\<lambda>(n, r). (n, JObj r)) d"
  have w: "dwf d" "dwf ?rs" using assms by (simp_all only: records_ok_def dkeys_map_val)
  from sort_json_obj [OF w(2)] obtain kvs where kvs: "sort_json (JObj ?rs) = JObj kvs" "dwf kvs"
    "\<forall>n. dget kvs n = map_option sort_json (dget ?rs n)" by blast
  have plain: "dwf r \<and> (\<forall>(k, v) \<in> set r. sort_json v = v \<and> wf_json io v)" if "dget d n = Some r" for n r
    using assms map_of_SomeD [OF that] by (auto simp: records_ok_def)
  have got: "dget kvs n = map_option (\<lambda>r. JObj (sort_key fst r)) (dget d n)" for n
  proof (cases "dget d n")
    case (Some r)
    have "sort_json (JObj r) = JObj (sort_key fst r)" using plain [OF Some] by (intro sort_json_record) auto
    then show ?thesis using kvs(3) Some by (simp add: dget_map_val del: map_of_eq_Some_iff sort_json.simps)
  qed (use kvs(3) in \<open>simp add: dget_map_val del: map_of_eq_Some_iff\<close>)
  have "\<forall>(n, j) \<in> set kvs. \<exists>r. j = JObj r"
  proof -
    have "\<exists>r. j = JObj r" if "(n, j) \<in> set kvs" for n j
      using map_of_is_SomeI [OF kvs(2) that] got by (cases "dget d n") (auto simp del: map_of_eq_Some_iff)
    then show ?thesis by auto
  qed
  from records_of_get [OF this] obtain d' where d': "records_of kvs = Some d'" "dkeys d' = dkeys kvs"
    "\<forall>n. dget kvs n = map_option JObj (dget d' n)" by blast
  have get: "dget d' n = map_option (sort_key fst) (dget d n)" for n
    using got [of n] d'(3) by (cases "dget d n"; cases "dget d' n") (auto simp del: map_of_eq_Some_iff)
  have "dget (sort_key fst r) = dget r" if "dget d n = Some r" for n r
    using plain [OF that] by (intro map_of_sort_key) simp
  then have "records_view d' = records_view d"
    by (auto simp: records_view_def fun_eq_iff get option.map_comp simp del: map_of_eq_Some_iff intro!: option.map_cong)
  moreover have "records_ok io d'"
  proof -
    have "dwf r \<and> (\<forall>(k, v) \<in> set r. sort_json v = v \<and> wf_json io v)" if "(n, r) \<in> set d'" for n r
    proof -
      have "dwf d'" using d'(2) kvs(2) by simp
      with that have "dget d' n = Some r" by (rule map_of_is_SomeI [rotated])
      then obtain r0 where "dget d n = Some r0" "r = sort_key fst r0" using get by (metis map_option_eq_Some)
      with plain [of n r0] show ?thesis by simp
    qed
    then show ?thesis using d'(2) kvs(2) unfolding records_ok_def by (simp add: Ball_def split_paired_all)
  qed
  moreover have "read_records (sort_json (records_json d)) = Some d'"
    using kvs(1) d'(1) by (simp add: read_records_def records_json_def)
  ultimately show ?thesis by blast
qed

lemma wf_inner_json:
  assumes "store_ok io st" shows "wf_json io (inner_json st)"
proof -
  have "wf_json io (records_json d)" if "records_ok io d" for d
  proof -
    have "dwf (map (\<lambda>(n, r). (n, JObj r)) d)" using that by (simp only: records_ok_def dkeys_map_val)
    moreover have "\<forall>kv \<in> set (map (\<lambda>(n, r). (n, JObj r)) d). wf_json io (snd kv)"
      using that by (fastforce simp: records_ok_def)
    ultimately show ?thesis by (simp only: records_json_def wf_json.simps)
  qed
  then show ?thesis using assms by (simp add: inner_json_def store_ok_def)
qed

lemma decrypt_encrypt_inner: "secretbox_ok C \<Longrightarrow> decrypt_inner C K (encrypt_inner C K nonce inner) = Some inner"
  by (simp add: decrypt_inner_def encrypt_inner_def b64decode_b64encode secretbox_ok_def utf8_decode_utf8)

lemma trust_load_saved:
  assumes C: "secretbox_ok C" and st: "store_ok io st" and K: "ts_keys st' = ts_keys st"
  shows "\<exists>st1. trust_load C io legacy E st' (Holds (serialize_envelope C io nonce st)) =
      Inr (st1, Holds (serialize_envelope C io nonce st))
    \<and> store_ok io st1 \<and> store_view st1 = store_view st \<and> ts_keys st1 = ts_keys st \<and> ts_readonly st1 = ts_readonly st'"
proof -
  let ?a = "[(''peers'', records_json (ts_peers st)), (''revoked'', records_json (ts_revoked st))]"
  have "dwf ?a" by simp
  from sort_json_obj [OF this] obtain b where b: "sort_json (inner_json st) = JObj b"
    "\<forall>k. dget b k = map_option sort_json (dget ?a k)" unfolding inner_json_def by blast
  have inner: "loads io (dumps_sorted io (inner_json st)) = Some (JObj b)"
    using loads_dumps_sorted [OF wf_inner_json [OF st]] b(1) by simp
  obtain ps rs where ps: "read_records (sort_json (records_json (ts_peers st))) = Some ps" "records_ok io ps"
      "records_view ps = records_view (ts_peers st)"
    and rs: "read_records (sort_json (records_json (ts_revoked st))) = Some rs" "records_ok io rs"
      "records_view rs = records_view (ts_revoked st)"
    using st records_back unfolding store_ok_def by metis
  let ?ct = "encrypt_inner C (ts_keys st) nonce (dumps_sorted io (inner_json st))"
  let ?raw = "[(''version'', JInt TRUST_ENVELOPE_VERSION), (''ciphertext'', JStr ?ct),
           (''_mac'', JStr (mac_hex C (tk_mac (ts_keys st)) (v2_mac_input ?ct)))]"
  have ser: "serialize_envelope C io nonce st = JObj ?raw" by (simp add: serialize_envelope_def Let_def)
  have "open_v2 C io (ts_keys st) ?raw = Inr (Some (sort_json (records_json (ts_peers st)), sort_json (records_json (ts_revoked st))))"
    using inner b(2) decrypt_encrypt_inner [OF C]
    by (simp add: open_v2_def compare_digest_str_def mac_hex_def hex_of_ascii)
  then have "trust_load C io legacy E st' (Holds (JObj ?raw)) = Inr (st'\<lparr>ts_peers := ps, ts_revoked := rs\<rparr>, Holds (JObj ?raw))"
    using ps(1) rs(1) K by (simp add: trust_load_def install_records_def)
  then show ?thesis
    unfolding ser using ps rs K by (simp add: store_ok_def store_view_def)
qed

text \<open>C17: the trust store is durable. When a save succeeds, whoever opens the file with the same agent
  secret sees the same peers and the same revocations, field by field, so every trust state, pinned
  key and baseline survives a restart; and the store it opens is not locked.\<close>

theorem trust_store_durable:
  assumes "secretbox_ok C" "store_ok io st" "trust_save C io E st disk = (True, disk')"
    and "derive_mac_key C secret = Inr (tk_mac (ts_keys st))" "derive_box_key C secret = Inr (tk_box (ts_keys st))"
  shows "\<exists>st'. trust_open C io legacy E' secret disk' = Inr (st', disk') \<and> store_view st' = store_view st
    \<and> \<not> ts_readonly st' \<and> (\<forall>n. get_trust_state n st' = get_trust_state n st) \<and> (\<forall>n. is_revoked n st' \<longleftrightarrow> is_revoked n st)"
proof -
  have disk': "disk' = Holds (serialize_envelope C io (te_nonce E) st)"
    using assms(3) by (simp add: trust_save_def split: if_splits)
  let ?st0 = "\<lparr> ts_keys = ts_keys st, ts_peers = [], ts_revoked = [], ts_readonly = False \<rparr>"
  have "ts_keys ?st0 = ts_keys st" by simp
  from trust_load_saved [OF assms(1,2) this, of legacy E' "te_nonce E"] obtain st1 where
    st1: "trust_load C io legacy E' ?st0 disk' = Inr (st1, disk')" "store_view st1 = store_view st" "\<not> ts_readonly st1"
    unfolding disk' by auto
  have "trust_open C io legacy E' secret disk' = Inr (st1, disk')"
    using st1(1) assms(4,5) by (cases "ts_keys st") (simp add: trust_open_def)
  moreover have v: "records_view (ts_peers st1) n = records_view (ts_peers st) n" "records_view (ts_revoked st1) n = records_view (ts_revoked st) n" for n
    using st1(2) by (simp_all add: store_view_def)
  have r: "is_revoked n st1 \<longleftrightarrow> is_revoked n st" for n
    using v(2) [of n] dget_None_iff [of "ts_revoked st1" n] dget_None_iff [of "ts_revoked st" n]
    by (auto simp: is_revoked_def records_view_def simp del: map_of_eq_Some_iff)
  moreover have "get_trust_state n st1 = get_trust_state n st" for n
    using v(1) [of n] r [of n]
    by (auto simp: get_trust_state_def records_view_def rec_or_def simp del: map_of_eq_Some_iff split: option.splits)
  ultimately show ?thesis using st1 by blast
qed

section \<open>A file of another identity is never overwritten\<close>

text \<open>The operations on an open store; each may write the file.\<close>

datatype trust_op =
    OpVerify node_id string
  | OpPin node_id string string "string option"
  | OpRevokePeer node_id
  | OpMarkRevoked node_id node_id real json
  | OpClearRevocation node_id
  | OpSetState node_id string
  | OpObserve node_id "string list"
  | OpStash node_id "string list"
  | OpAccept node_id

text \<open>The third component says whether the operation reports success.\<close>

fun trust_step :: "crypto \<Rightarrow> float_io \<Rightarrow> bytes \<Rightarrow> trust_env \<Rightarrow> trust_op \<Rightarrow> trust_store \<Rightarrow> trust_file \<Rightarrow> trust_store \<times> trust_file \<times> bool" where
  "trust_step C io legacy E (OpVerify n key) st disk =
     (case verify_peer C io E n key st disk of (v, st', disk') \<Rightarrow> (st', disk', v = TrustedPeer))"
| "trust_step C io legacy E (OpPin n key state via) st disk =
     (case pin_peer C io E n key state via st disk of (err, st', disk') \<Rightarrow> (st', disk', err = None))"
| "trust_step C io legacy E (OpRevokePeer n) st disk =
     (case revoke_peer C io E n st disk of (b, st', disk') \<Rightarrow> (st', disk', b))"
| "trust_step C io legacy E (OpMarkRevoked t r ts reason) st disk =
     (case mark_revoked C io E t r ts reason st disk of (st', disk') \<Rightarrow> (st', disk', True))"
| "trust_step C io legacy E (OpClearRevocation n) st disk =
     (case clear_revocation C io E n st disk of (b, st', disk') \<Rightarrow> (st', disk', b))"
| "trust_step C io legacy E (OpSetState n state) st disk =
     (case set_trust_state C io E n state st disk of (b, st', disk') \<Rightarrow> (st', disk', b = Inr True))"
| "trust_step C io legacy E (OpObserve n caps) st disk =
     (case observe_capabilities C io E n caps st disk of (v, st', disk') \<Rightarrow> (st', disk', True))"
| "trust_step C io legacy E (OpStash n caps) st disk =
     (case stash_pending_change C io E n caps st disk of (b, st', disk') \<Rightarrow> (st', disk', b))"
| "trust_step C io legacy E (OpAccept n) st disk =
     (case accept_capability_change C io legacy E n st disk of
        Inl e \<Rightarrow> (st, disk, False) | Inr (b, st', disk') \<Rightarrow> (st', disk', b))"

text \<open>A file sealed under another key: version 2 with a digest that does not match ours.\<close>

definition foreign_file :: "crypto \<Rightarrow> trust_keys \<Rightarrow> trust_file \<Rightarrow> bool" where
  "foreign_file C K disk = (case disk of
     Holds (JObj raw) \<Rightarrow> Option.bind (dget raw ''version'') py_number = Some (of_int TRUST_ENVELOPE_VERSION) \<and>
       (case (dget raw ''ciphertext'', dget raw ''_mac'') of
          (Some (JStr ct), Some (JStr m)) \<Rightarrow> is_ascii m \<and> m \<noteq> mac_hex C (tk_mac K) (v2_mac_input ct)
        | _ \<Rightarrow> True)
   | _ \<Rightarrow> False)"

lemma foreign_file_locks:
  assumes "foreign_file C (ts_keys st) disk"
  shows "trust_load C io legacy E st disk = Inr (lock_store st, disk)"
proof -
  obtain raw where raw: "disk = Holds (JObj raw)" "Option.bind (dget raw ''version'') py_number = Some (of_int TRUST_ENVELOPE_VERSION)"
    using assms by (auto simp: foreign_file_def split: trust_file.splits json.splits)
  have "open_v2 C io (ts_keys st) raw = Inr None"
    using assms unfolding foreign_file_def raw(1) trust_file.case json.case open_v2_def
    by (auto simp: compare_digest_str_def mac_hex_def hex_of_ascii simp del: map_of_eq_Some_iff split: option.split json.split)
  then show ?thesis using raw by (simp add: trust_load_def)
qed

lemma locked_step:
  assumes "ts_readonly st" "foreign_file C (ts_keys st) disk"
  shows "case trust_step C io legacy E op st disk of (st', disk', ok) \<Rightarrow>
    ts_readonly st' \<and> ts_keys st' = ts_keys st \<and> disk' = disk
    \<and> (case op of OpPin _ _ _ _ \<Rightarrow> \<not> ok | OpSetState _ _ \<Rightarrow> \<not> ok | OpStash _ _ \<Rightarrow> \<not> ok | OpAccept _ \<Rightarrow> \<not> ok | _ \<Rightarrow> True)"
proof -
  have s: "ts_readonly st' \<Longrightarrow> trust_save C io E st' disk = (False, disk)" for st'
    by (simp add: trust_save_def)
  show ?thesis
    using assms(1)
    by (cases op)
      (simp_all add: s verify_peer_def pin_peer_def revoke_peer_def mark_revoked_def clear_revocation_def set_trust_state_def
        observe_capabilities_def stash_pending_change_def accept_capability_change_def foreign_file_locks [OF assms(2)] lock_store_def Let_def
        del: map_of_eq_Some_iff split: option.split)
qed

fun trust_run :: "crypto \<Rightarrow> float_io \<Rightarrow> bytes \<Rightarrow> (trust_env \<times> trust_op) list \<Rightarrow> trust_store \<Rightarrow> trust_file \<Rightarrow> trust_store \<times> trust_file \<times> bool list" where
  "trust_run C io legacy [] st disk = (st, disk, [])"
| "trust_run C io legacy ((E, op) # ops) st disk =
     (case trust_step C io legacy E op st disk of (st1, disk1, ok) \<Rightarrow>
        (case trust_run C io legacy ops st1 disk1 of (st2, disk2, oks) \<Rightarrow> (st2, disk2, ok # oks)))"

definition is_pin :: "trust_op \<Rightarrow> bool" where
  "is_pin op = (case op of OpPin _ _ _ _ \<Rightarrow> True | _ \<Rightarrow> False)"

text \<open>C24: a trust file written under another key is never overwritten. A store opened on it starts
  empty and locked; no sequence of operations changes the file, and none of its pins, state
  changes, stashes or accepted changes reports success.\<close>

theorem foreign_trust_file_preserved:
  assumes "foreign_file C (ts_keys st) disk" "trust_load C io legacy E0 st disk = Inr (st0, disk0)"
    and "trust_run C io legacy ops st0 disk0 = (st', disk', oks)"
  shows "disk' = disk \<and> length oks = length ops \<and> ts_readonly st'
    \<and> (\<forall>i < length ops. is_pin (snd (ops ! i)) \<longrightarrow> \<not> oks ! i)"
proof -
  have st0: "ts_readonly st0" "ts_keys st0 = ts_keys st" "disk0 = disk"
    using foreign_file_locks [OF assms(1)] assms(2) by (auto simp: lock_store_def)
  have "disk' = disk \<and> length oks = length ops \<and> ts_readonly st' \<and> (\<forall>i < length ops. is_pin (snd (ops ! i)) \<longrightarrow> \<not> oks ! i)"
    if "ts_readonly st0" "foreign_file C (ts_keys st0) disk" "trust_run C io legacy ops st0 disk = (st', disk', oks)" for st0 ops st' disk' oks
    using that
  proof (induction ops arbitrary: st0 st' disk' oks)
    case (Cons eo ops)
    obtain E op where eo: "eo = (E, op)" by (cases eo)
    obtain st1 disk1 ok where s: "trust_step C io legacy E op st0 disk = (st1, disk1, ok)"
      by (cases "trust_step C io legacy E op st0 disk")
    have l: "ts_readonly st1" "ts_keys st1 = ts_keys st0" "disk1 = disk" "is_pin op \<longrightarrow> \<not> ok"
      using locked_step [OF Cons.prems(1,2), where io = io and legacy = legacy and E = E and op = op] s by (auto simp: is_pin_def split: trust_op.splits)
    obtain st2 disk2 oks2 where r: "trust_run C io legacy ops st1 disk = (st2, disk2, oks2)"
      by (cases "trust_run C io legacy ops st1 disk")
    have "st' = st2" "disk' = disk2" "oks = ok # oks2" using Cons.prems(3) eo s r l(3) by auto
    moreover have "foreign_file C (ts_keys st1) disk" using Cons.prems(2) l(2) by simp
    from Cons.IH [OF l(1) this r] have "disk2 = disk" "length oks2 = length ops" "ts_readonly st2"
      "\<forall>i < length ops. is_pin (snd (ops ! i)) \<longrightarrow> \<not> oks2 ! i" by auto
    ultimately show ?case using l(4) eo by (auto simp: nth_Cons split: nat.split)
  qed simp
  from this [OF st0(1), of ops st' disk' oks] show ?thesis using assms st0 by simp
qed

section \<open>Concrete stores\<close>

definition sample_secret :: bytes where "sample_secret = replicate 16 1"

definition sample_keys :: trust_keys where
  "sample_keys = \<lparr> tk_mac = sha256 sample_crypto (sample_secret @ utf8 ''ironmesh-trust-store-v1''),
     tk_box = sha256 sample_crypto (sample_secret @ utf8 ''ironmesh-trust-store-encryption-v1'') \<rparr>"

lemma sample_keys_derived:
  "derive_mac_key sample_crypto sample_secret = Inr (tk_mac sample_keys)"
  "derive_box_key sample_crypto sample_secret = Inr (tk_box sample_keys)"
  by (simp_all add: derive_mac_key_def derive_box_key_def derive_key_def sample_keys_def sample_secret_def)

definition sample_store :: trust_store where
  "sample_store = \<lparr> ts_keys = sample_keys, ts_peers = [(''bob'', [(''pubkey'', JStr ''AAAA''), (''trust_state'', JStr ''pending'')])],
     ts_revoked = [(''eve'', [(''revoker'', JStr ''bob'')])], ts_readonly = False \<rparr>"

definition sample_trust_env :: trust_env where
  "sample_trust_env = \<lparr> te_now = 0, te_nonce = [], te_writes = True \<rparr>"

lemma sample_store_ok: "store_ok sample_io sample_store"
  by (simp add: store_ok_def records_ok_def sample_store_def)

theorem trust_store_durable_witness:
  "\<exists>st'. trust_open sample_crypto sample_io [] sample_trust_env sample_secret
      (Holds (serialize_envelope sample_crypto sample_io [] sample_store)) =
      Inr (st', Holds (serialize_envelope sample_crypto sample_io [] sample_store))
    \<and> get_trust_state ''bob'' st' = JStr ''pending'' \<and> is_revoked ''eve'' st'"
proof -
  have s: "trust_save sample_crypto sample_io sample_trust_env sample_store NoFile =
      (True, Holds (serialize_envelope sample_crypto sample_io [] sample_store))"
    by (simp add: trust_save_def sample_store_def sample_trust_env_def)
  have k: "ts_keys sample_store = sample_keys" by (simp add: sample_store_def)
  have "get_trust_state ''bob'' sample_store = JStr ''pending''" "is_revoked ''eve'' sample_store"
    by (simp_all add: get_trust_state_def is_revoked_def sample_store_def rec_or_def)
  with trust_store_durable [OF sample_crypto_ok(1) sample_store_ok s, of sample_secret "[]" sample_trust_env,
      unfolded k, OF sample_keys_derived]
  show ?thesis by metis
qed

theorem foreign_trust_file_preserved_witness:
  "case trust_run sample_crypto sample_io [] [(sample_trust_env, OpPin ''bob'' ''AAAA'' ''trusted'' None)] (lock_store sample_store)
      (Holds (JObj [(''version'', JInt 2)])) of (st', disk', oks) \<Rightarrow> disk' = Holds (JObj [(''version'', JInt 2)]) \<and> oks = [False]"
proof -
  let ?d = "Holds (JObj [(''version'', JInt 2)])"
  have f: "foreign_file sample_crypto (ts_keys sample_store) ?d" by (simp add: foreign_file_def TRUST_ENVELOPE_VERSION_def)
  obtain st' disk' oks where r: "trust_run sample_crypto sample_io [] [(sample_trust_env, OpPin ''bob'' ''AAAA'' ''trusted'' None)]
      (lock_store sample_store) ?d = (st', disk', oks)" by (metis prod_cases3)
  from foreign_trust_file_preserved [OF f foreign_file_locks [OF f, of sample_io "[]" sample_trust_env] r] show ?thesis
    unfolding r by (cases oks) (auto simp: is_pin_def)
qed

section \<open>Where the store's promises fail\<close>

text \<open>A file without a digest is taken as genuine: dropping the \<open>_mac\<close> and \<open>version\<close> fields defeats
  the integrity check, and the store is not locked.\<close>

lemma digestless_file_accepted:
  assumes "dwf ps"
  shows "trust_load C io legacy E st (Holds (JObj [(''peers'', records_json ps)])) =
    Inr (st\<lparr>ts_peers := ps, ts_revoked := []\<rparr>, Holds (JObj [(''peers'', records_json ps)]))"
proof -
  have "records_of (map (\<lambda>(n, r). (n, JObj r)) d) = Some d" for d by (induction d) auto
  then show ?thesis
    by (simp add: trust_load_def install_records_def read_records_def records_json_def)
qed

text \<open>A file that is not JSON is taken as an empty store and not locked: the next successful save
  replaces it.\<close>

lemma unreadable_file_is_overwritten:
  assumes "\<not> ts_readonly st" "te_writes E" "state \<in> set trust_states" "b64decode key \<noteq> None"
    and "trust_load C io legacy E0 st NotJson = Inr (st0, disk0)" "pin_peer C io E n key state via st0 disk0 = (err, st1, disk1)"
  shows "err = None \<and> dkeys (ts_peers st1) = [n] \<and> (\<exists>j. disk1 = Holds j)"
  using assms
  by (auto simp: trust_load_def pin_peer_def trust_save_def trust_fingerprint_def Let_def split: option.splits if_splits)

lemma save_fails [simp]: "\<not> te_writes E \<Longrightarrow> trust_save C io E st disk = (False, disk)"
  by (simp add: trust_save_def)

text \<open>A re-pin that cannot be written forgets the earlier pin in memory instead of restoring it.\<close>

lemma failed_repin_forgets_old_pin:
  assumes "state \<in> set trust_states" "b64decode key \<noteq> None" "\<not> te_writes E"
    and "pin_peer C io E n key state via st disk = (err, st1, disk1)"
  shows "err = Some (NotPersisted n) \<and> dget (ts_peers st1) n = None \<and> disk1 = disk"
  using assms by (auto simp: pin_peer_def trust_fingerprint_def Let_def split: option.splits if_splits)

text \<open>Rolling back a state change of a record that had no \<open>trust_state\<close> leaves a null state, which
  is no longer the default "trusted".\<close>

lemma state_rollback_changes_default:
  assumes "dget (ts_peers st) n = Some r" "dget r ''trust_state'' = None" "\<not> is_revoked n st" "\<not> te_writes E"
    and "state \<in> set trust_states" "set_trust_state C io E n state st disk = (res, st1, disk1)"
  shows "res = Inr False \<and> get_trust_state n st = JStr ''trusted'' \<and> get_trust_state n st1 = JNull"
  using assms
  by (simp add: set_trust_state_def get_trust_state_def rec_or_def is_revoked_def Let_def del: map_of_eq_Some_iff)
     (auto simp: is_revoked_def rec_or_def simp del: map_of_eq_Some_iff)

text \<open>A load keeps the keys.\<close>

lemma trust_load_keys:
  assumes "trust_load C io legacy E st disk = Inr (st', disk')" shows "ts_keys st' = ts_keys st"
proof -
  have i: "install_records p r st = Inr st' \<Longrightarrow> ts_keys st' = ts_keys st" for p r st'
    by (auto simp: install_records_def split: option.splits)
  have v1: "load_v1 C io legacy E raw stored st disk0 = Inr (st', disk') \<Longrightarrow> ts_keys st' = ts_keys st" for raw stored disk0
    by (auto simp: load_v1_def Let_def py_bind_Inr_iff lock_store_def dest: i split: if_splits option.splits)
  show ?thesis
  proof (cases disk)
    case (Holds j)
    show ?thesis
    proof (cases j)
      case (JObj raw)
      show ?thesis
      proof (cases "Option.bind (dget raw ''version'') py_number = Some (of_int TRUST_ENVELOPE_VERSION)")
        case True
        then show ?thesis using assms Holds JObj
          by (auto simp: trust_load_def py_bind_Inr_iff lock_store_def dest: i split: option.splits prod.splits)
      next
        case False
        then show ?thesis using assms Holds JObj
          by (cases "dget raw ''_mac''") (auto simp: trust_load_def py_bind_Inr_iff dest: i v1 simp del: map_of_eq_Some_iff)
      qed
    qed (use assms Holds in \<open>auto simp: trust_load_def\<close>)
  qed (use assms in \<open>auto simp: trust_load_def\<close>)
qed

end
