(* ===== verification/Frames.thy ===== *)
theory Frames
  imports Crypto
begin

text \<open>
  protocol.py, \<open>class Frame\<close>: construction, the JSON form of a frame (\<open>to_dict\<close>,
  \<open>from_dict\<close>, the legacy \<open>from_json_message\<close>), the 32-byte binary header, encryption and
  signing on the way out, the checks on the way in, and the inner source signature.

  \<open>time.time()\<close>, the random message id and the encryption nonce are arguments. The
  fields the source stores without looking at them (priority, routing, retries,
  source_display) are \<^typ>\<open>json\<close> values.
\<close>

unbundle bit_operations_syntax

record frame =
  f_msg_type :: string
  f_payload :: bytes
  f_msg_id :: string
  f_source :: string
  f_source_display :: json
  f_destination :: string
  f_timestamp :: time
  f_priority :: json
  f_sequence :: int
  f_flags :: byte
  f_retries :: json
  f_routing :: json
  f_ttl :: int
  f_hops :: "string list"
  f_source_signature :: "bytes option"
  f_e2e_payload :: "bytes option"
  f_source_sig_scheme :: "string option"
  f_source_authenticated :: bool

definition FRAME_MAGIC :: bytes where "FRAME_MAGIC = [0xe7, 0xf6]"
definition FRAME_VERSION :: nat where "FRAME_VERSION = 4"
definition FLAG_HIGH_PRIORITY :: byte where "FLAG_HIGH_PRIORITY = 0x01"
definition FLAG_CRITICAL_PRIORITY :: byte where "FLAG_CRITICAL_PRIORITY = 0x02"
definition FLAG_ENCRYPTED :: byte where "FLAG_ENCRYPTED = 0x04"
definition FLAG_SIGNED :: byte where "FLAG_SIGNED = 0x08"
definition HEADER_SIZE :: nat where "HEADER_SIZE = 2 + 1 + 1 + 8 + 8 + 8 + 4"
definition SIGNATURE_SIZE :: nat where "SIGNATURE_SIZE = 64"
definition SOURCE_SIG_SCHEME_V1 :: string where "SOURCE_SIG_SCHEME_V1 = ''v1''"
definition SOURCE_SIG_SCHEME_V2 :: string where "SOURCE_SIG_SCHEME_V2 = ''v2''"

definition priority_flags :: "json \<Rightarrow> byte" where
  "priority_flags p =
     (if p = JStr (mp_value HIGH) then 0x00 OR FLAG_HIGH_PRIORITY
      else if p = JStr (mp_value CRITICAL) then 0x00 OR FLAG_CRITICAL_PRIORITY else 0x00)"

text \<open>\<open>Frame.__init__\<close>; a missing or empty id is replaced by the random one.\<close>

definition new_frame ::
  "time \<Rightarrow> string \<Rightarrow> string \<Rightarrow> bytes \<Rightarrow> string option \<Rightarrow> string \<Rightarrow> string \<Rightarrow> json \<Rightarrow> int \<Rightarrow> frame" where
  "new_frame now rand_id msg_type payload msg_id source destination priority sequence =
     \<lparr> f_msg_type = msg_type, f_payload = payload,
       f_msg_id = (case msg_id of None \<Rightarrow> rand_id | Some i \<Rightarrow> if i = [] then rand_id else i),
       f_source = source, f_source_display = JStr source, f_destination = destination,
       f_timestamp = now, f_priority = priority, f_sequence = sequence,
       f_flags = priority_flags priority, f_retries = JInt 0, f_routing = JObj [], f_ttl = 3, f_hops = [],
       f_source_signature = None, f_e2e_payload = None, f_source_sig_scheme = None,
       f_source_authenticated = False \<rparr>"

definition frame_is_expired :: "frame \<Rightarrow> time \<Rightarrow> real \<Rightarrow> bool" where
  "frame_is_expired f now max_age = (now - f_timestamp f > max_age)"

section \<open>The JSON form\<close>

definition frame_to_dict :: "frame \<Rightarrow> json" where
  "frame_to_dict f = JObj (
     [(''type'', JStr (f_msg_type f)),
      (''payload'', JStr (if f_payload f = [] then [] else b64encode (f_payload f))),
      (''msg_id'', JStr (f_msg_id f)), (''source'', JStr (f_source f)),
      (''source_display'', f_source_display f), (''destination'', JStr (f_destination f)),
      (''timestamp'', JFloat (f_timestamp f)), (''priority'', f_priority f),
      (''sequence'', JInt (f_sequence f)), (''retries'', f_retries f), (''routing'', f_routing f),
      (''ttl'', JInt (f_ttl f)), (''hops'', JArr (map JStr (f_hops f)))]
     @ (case f_source_signature f of None \<Rightarrow> []
        | Some sig \<Rightarrow>
            [(''source_signature'', JStr (b64encode sig)),
             (''source_sig_scheme'', JStr (case f_source_sig_scheme f of
                 None \<Rightarrow> SOURCE_SIG_SCHEME_V1
               | Some s \<Rightarrow> if s = [] then SOURCE_SIG_SCHEME_V1 else s))])
     @ (case f_e2e_payload f of None \<Rightarrow> [] | Some e \<Rightarrow> [(''e2e_payload'', JStr (b64encode e))]))"

text \<open>\<open>base64.b64decode(v)\<close> for a JSON value; only strings decode.\<close>

definition b64_field :: "json \<Rightarrow> bytes py" where
  "b64_field j = (case j of
     JStr s \<Rightarrow> (case b64decode s of None \<Rightarrow> Inl (ValueError ''base64'') | Some b \<Rightarrow> Inr b)
   | _ \<Rightarrow> Inl (TypeError ''base64''))"

text \<open>\<open>b64decode(data[k]) if data.get(k) else default\<close>.\<close>

definition opt_b64 :: "json option \<Rightarrow> 'a \<Rightarrow> (bytes \<Rightarrow> 'a) \<Rightarrow> 'a py" where
  "opt_b64 v absent f = (case v of
     None \<Rightarrow> Inr absent
   | Some j \<Rightarrow> if truthy j then py_bind (b64_field j) (\<lambda>b. Inr (f b)) else Inr absent)"

text \<open>\<open>float(v)\<close>: numbers convert, strings are parsed, anything else is a \<open>TypeError\<close>.\<close>

definition float_of :: "float_io \<Rightarrow> json \<Rightarrow> real py" where
  "float_of io j = (case py_number j of
     Some r \<Rightarrow> Inr r
   | None \<Rightarrow> (case j of
       JStr s \<Rightarrow> (case read_float io s of None \<Rightarrow> Inl (ValueError ''float'') | Some r \<Rightarrow> Inr r)
     | _ \<Rightarrow> Inl (TypeError ''float'')))"

definition str_field :: "json \<Rightarrow> string \<Rightarrow> string py" where
  "str_field j msg = (case j of JStr s \<Rightarrow> Inr s | _ \<Rightarrow> Inl (ValueError msg))"

definition opt_str_field :: "json option \<Rightarrow> string \<Rightarrow> string option py" where
  "opt_str_field v msg = (case v of
     None \<Rightarrow> Inr None | Some JNull \<Rightarrow> Inr None | Some (JStr s) \<Rightarrow> Inr (Some s) | Some _ \<Rightarrow> Inl (ValueError msg))"

definition sequence_field :: "json \<Rightarrow> int py" where
  "sequence_field j = (case py_int j of
     None \<Rightarrow> Inl (ValueError ''sequence must be a non-negative integer'')
   | Some i \<Rightarrow> if i < 0 then Inl (ValueError ''sequence must be a non-negative integer'') else Inr i)"

definition ttl_field :: "json \<Rightarrow> int py" where
  "ttl_field j = (case py_int j of
     None \<Rightarrow> Inl (ValueError ''Invalid TTL'')
   | Some i \<Rightarrow> if i < 0 \<or> i > 255 then Inl (ValueError ''Invalid TTL'') else Inr i)"

definition hops_field :: "json \<Rightarrow> string list py" where
  "hops_field j = (case j of
     JArr xs \<Rightarrow> (case all_some (map py_str xs) of
       None \<Rightarrow> Inl (ValueError ''Invalid hops'') | Some hs \<Rightarrow> Inr hs)
   | _ \<Rightarrow> Inl (ValueError ''Invalid hops''))"

definition jget_default :: "(string, json) dict \<Rightarrow> string \<Rightarrow> json \<Rightarrow> json" where
  "jget_default d k x = (case dget d k of None \<Rightarrow> x | Some v \<Rightarrow> v)"

definition frame_from_dict :: "float_io \<Rightarrow> time \<Rightarrow> string \<Rightarrow> json \<Rightarrow> frame py" where
  "frame_from_dict io now rand_id data = (case data of
     JObj d \<Rightarrow>
       (case dget d ''type'' of
          Some (JStr msg_type) \<Rightarrow>
            if msg_type = [] then Inl (ValueError ''Invalid or missing type field'')
            else
              py_bind (opt_str_field (dget d ''msg_id'') ''msg_id must be a string'') (\<lambda>msg_id.
              py_bind (str_field (jget_default d ''source'' (JStr ''unknown'')) ''source must be a string'') (\<lambda>source.
              py_bind (str_field (jget_default d ''destination'' (JStr ''*'')) ''destination must be a string'') (\<lambda>destination.
              py_bind (sequence_field (jget_default d ''sequence'' (JInt 0))) (\<lambda>sequence.
              py_bind (opt_b64 (dget d ''payload'') [] (\<lambda>b. b)) (\<lambda>payload.
              let obj = new_frame now rand_id msg_type payload msg_id source destination
                          (jget_default d ''priority'' (JStr (mp_value NORMAL))) sequence in
              py_bind (float_of io (jget_default d ''timestamp'' (JFloat now))) (\<lambda>timestamp.
              py_bind (ttl_field (jget_default d ''ttl'' (JInt 3))) (\<lambda>ttl.
              py_bind (hops_field (jget_default d ''hops'' (JArr []))) (\<lambda>hops.
              py_bind (opt_b64 (dget d ''source_signature'') None Some) (\<lambda>sig.
              py_bind (opt_str_field (dget d ''source_sig_scheme'') ''source_sig_scheme must be a string'') (\<lambda>scheme.
              py_bind (opt_b64 (dget d ''e2e_payload'') None Some) (\<lambda>e2e.
              Inr (obj\<lparr> f_source_display := jget_default d ''source_display'' (JStr source),
                        f_timestamp := timestamp, f_routing := jget_default d ''routing'' (JObj []),
                        f_ttl := ttl, f_hops := hops, f_retries := jget_default d ''retries'' (JInt 0),
                        f_source_signature := sig, f_source_sig_scheme := scheme,
                        f_e2e_payload := e2e \<rparr>))))))))))))
        | _ \<Rightarrow> Inl (ValueError ''Invalid or missing type field''))
   | _ \<Rightarrow> Inl (ValueError ''Frame.from_dict requires a dict''))"

text \<open>The legacy JSON message: \<open>from\<close>/\<open>to\<close> before \<open>source\<close>/\<open>destination\<close>, payload given.\<close>

definition frame_from_json_message :: "float_io \<Rightarrow> time \<Rightarrow> string \<Rightarrow> json \<Rightarrow> bytes \<Rightarrow> frame py" where
  "frame_from_json_message io now rand_id msg_dict payload_bytes = (case msg_dict of
     JObj d \<Rightarrow>
       py_bind (str_field (jget_default d ''type'' (JStr [])) ''type must be a string'') (\<lambda>msg_type.
       py_bind (opt_str_field (dget d ''msg_id'') ''msg_id must be a string'') (\<lambda>msg_id.
       py_bind (str_field (jget_default d ''from'' (jget_default d ''source'' (JStr ''unknown'')))
                 ''source/from must be a string'') (\<lambda>source.
       py_bind (str_field (jget_default d ''to'' (jget_default d ''destination'' (JStr ''*'')))
                 ''destination/to must be a string'') (\<lambda>destination.
       py_bind (sequence_field (jget_default d ''sequence'' (JInt 0))) (\<lambda>sequence.
       py_bind (ttl_field (jget_default d ''ttl'' (JInt 3))) (\<lambda>ttl.
       py_bind (hops_field (jget_default d ''hops'' (JArr []))) (\<lambda>hops.
       let obj = new_frame now rand_id msg_type payload_bytes msg_id source destination
                   (jget_default d ''priority'' (JStr (mp_value NORMAL))) sequence in
       py_bind (float_of io (jget_default d ''timestamp'' (JFloat now))) (\<lambda>timestamp.
       py_bind (opt_b64 (dget d ''source_signature'') None Some) (\<lambda>sig.
       py_bind (opt_str_field (dget d ''source_sig_scheme'') ''source_sig_scheme must be a string'') (\<lambda>scheme.
       py_bind (opt_b64 (dget d ''e2e_payload'') None Some) (\<lambda>e2e.
       Inr (obj\<lparr> f_timestamp := timestamp, f_ttl := ttl, f_hops := hops,
                 f_source_signature := sig, f_source_sig_scheme := scheme, f_e2e_payload := e2e \<rparr>))))))))))))
   | _ \<Rightarrow> Inl (ValueError ''from_json_message requires a dict''))"

section \<open>The binary form\<close>

text \<open>\<open>int(x)\<close> of a float truncates towards zero.\<close>

definition trunc_int :: "real \<Rightarrow> int" where
  "trunc_int x = (if 0 \<le> x then \<lfloor>x\<rfloor> else \<lceil>x\<rceil>)"

definition frame_header :: "crypto \<Rightarrow> frame \<Rightarrow> nat \<Rightarrow> bytes py" where
  "frame_header C f len =
     (case (to_bytes 8 (f_sequence f), to_bytes 8 (trunc_int (f_timestamp f * 1000))) of
        (Some sq, Some ts) \<Rightarrow>
          Inr (FRAME_MAGIC @ be_bytes 1 FRAME_VERSION @ [f_flags f] @ sq @ ts
               @ take 8 (sha256 C (utf8 (f_msg_id f))) @ be_bytes 4 len)
      | _ \<Rightarrow> Inl OverflowError)"

text \<open>
  The inner signature is made once. \<open>CryptoError\<close>, \<open>TypeError\<close> and \<open>ValueError\<close> while
  making it are caught (the frame then goes out without it); an \<open>OverflowError\<close> is not.
\<close>

definition sign_inner_source :: "crypto \<Rightarrow> bytes option \<Rightarrow> frame \<Rightarrow> frame py" where
  "sign_inner_source C source_signing_key f =
     (case (source_signing_key, f_source_signature f) of
        (Some sk, None) \<Rightarrow>
          (case py_bind (canonical_inner_source_bytes (f_source f) (f_destination f) (f_msg_id f) (f_payload f))
                  (sign_detached_with_context C sk SIG_CTX_FRAME_INNER_SOURCE) of
             Inr sig \<Rightarrow> Inr (f\<lparr>f_source_signature := Some sig, f_source_sig_scheme := Some SOURCE_SIG_SCHEME_V2\<rparr>)
           | Inl OverflowError \<Rightarrow> Inl OverflowError
           | Inl _ \<Rightarrow> Inr f)
      | _ \<Rightarrow> Inr f)"

definition encrypt_and_serialize ::
  "crypto \<Rightarrow> float_io \<Rightarrow> bytes \<Rightarrow> bytes \<Rightarrow> bytes option \<Rightarrow> bytes option \<Rightarrow> frame \<Rightarrow> (frame \<times> bytes) py" where
  "encrypt_and_serialize C io nonce shared_key signing_key source_signing_key f0 =
     py_bind (sign_inner_source C source_signing_key f0) (\<lambda>f1.
       let payload_json = utf8 (dumps_compact io (frame_to_dict f1));
           encrypted = encrypt_message C shared_key nonce payload_json in
       if length encrypted > MAX_FRAME_BYTES
       then Inl (ValueError ''Encrypted frame payload exceeds MAX_FRAME_BYTES ceiling'')
       else
         let f2 = f1\<lparr>f_flags := f_flags f1 OR FLAG_ENCRYPTED\<rparr>;
             f3 = (case signing_key of None \<Rightarrow> f2 | Some _ \<Rightarrow> f2\<lparr>f_flags := f_flags f2 OR FLAG_SIGNED\<rparr>) in
         py_bind (frame_header C f3 (length encrypted)) (\<lambda>header.
           Inr (f3, header @ encrypted
             @ (case signing_key of None \<Rightarrow> [] | Some sk \<Rightarrow> sign_detached C sk encrypted))))"

definition serialize_plaintext :: "crypto \<Rightarrow> float_io \<Rightarrow> frame \<Rightarrow> bytes py" where
  "serialize_plaintext C io f =
     (let payload_json = utf8 (dumps_compact io (frame_to_dict f)) in
      if length payload_json > MAX_FRAME_BYTES
      then Inl (ValueError ''Plaintext frame payload exceeds MAX_FRAME_BYTES ceiling'')
      else py_bind (frame_header C f (length payload_json)) (\<lambda>header. Inr (header @ payload_json)))"

text \<open>
  \<open>Frame.verify_source_signature\<close>. Both helpers turn every verification failure into
  \<open>False\<close>; the \<open>OverflowError\<close> of an over-long field would escape, so the result is a
  \<^theory_text>\<open>py\<close> value.
\<close>

definition verify_v2 :: "crypto \<Rightarrow> bytes \<Rightarrow> frame \<Rightarrow> bytes \<Rightarrow> bool py" where
  "verify_v2 C verify_key f sig =
     (case canonical_inner_source_bytes (f_source f) (f_destination f) (f_msg_id f) (f_payload f) of
        Inl OverflowError \<Rightarrow> Inl OverflowError
      | Inl _ \<Rightarrow> Inr False
      | Inr canon \<Rightarrow>
          (case verify_detached_with_context C verify_key SIG_CTX_FRAME_INNER_SOURCE canon sig of
             Inr b \<Rightarrow> Inr b | Inl _ \<Rightarrow> Inr False))"

definition verify_v1 :: "crypto \<Rightarrow> bytes \<Rightarrow> frame \<Rightarrow> bytes \<Rightarrow> bool" where
  "verify_v1 C verify_key f sig =
     (case nacl_verify C verify_key (f_payload f) sig of Inr _ \<Rightarrow> True | Inl _ \<Rightarrow> False)"

definition verify_source_signature :: "crypto \<Rightarrow> bytes \<Rightarrow> bool \<Rightarrow> frame \<Rightarrow> bool py" where
  "verify_source_signature C verify_key allow_v1 f = (case f_source_signature f of
     None \<Rightarrow> Inr False
   | Some sig \<Rightarrow>
       (case f_source_sig_scheme f of
          Some scheme \<Rightarrow>
            if scheme = SOURCE_SIG_SCHEME_V2 then verify_v2 C verify_key f sig
            else if scheme = SOURCE_SIG_SCHEME_V1
            then Inr (if allow_v1 then verify_v1 C verify_key f sig else False)
            else Inr False
        | None \<Rightarrow>
            py_bind (verify_v2 C verify_key f sig) (\<lambda>ok.
              Inr (if ok then True else if allow_v1 then verify_v1 C verify_key f sig else False))))"

text \<open>
  \<open>Frame.deserialize_and_decrypt\<close>. The last argument is the optional lookup of a source's
  identity key, where \<open>None\<close> also stands for a lookup that raised.
\<close>

definition deserialize_and_decrypt ::
  "crypto \<Rightarrow> float_io \<Rightarrow> time \<Rightarrow> string \<Rightarrow> bytes \<Rightarrow> bytes \<Rightarrow> bytes option
    \<Rightarrow> (string \<Rightarrow> bytes option) option \<Rightarrow> frame py" where
  "deserialize_and_decrypt C io now rand_id data shared_key verify_key verify_source_key =
    (if length data < HEADER_SIZE then Inl (ValueError ''Frame too short'')
     else if take 2 data \<noteq> FRAME_MAGIC then Inl (ValueError ''Invalid magic'')
     else if unat (data ! 2) \<noteq> 3 \<and> unat (data ! 2) \<noteq> 4 then Inl (ValueError ''Unsupported version'')
     else
       let flags = data ! 3;
           sequence = int (be_val (take 8 (drop 4 data)));
           encrypted_length = be_val (take 4 (drop 28 data)) in
       if encrypted_length > MAX_FRAME_BYTES
       then Inl (ValueError ''Declared frame length exceeds MAX_FRAME_BYTES ceiling'')
       else
         let encrypted_data = take encrypted_length (drop 32 data) in
         if length encrypted_data < encrypted_length then Inl (ValueError ''Truncated frame'')
         else if flags AND FLAG_ENCRYPTED = 0
         then Inl (ValueError ''Received unencrypted binary frame'')
         else
           py_bind
             (if flags AND FLAG_SIGNED \<noteq> 0 then
                let sig_offset = 32 + encrypted_length in
                if length data < sig_offset + SIGNATURE_SIZE
                then Inl (ValueError ''Frame has FLAG_SIGNED but signature is missing/truncated'')
                else case verify_key of
                  None \<Rightarrow> Inl (ValueError ''Frame is signed but no verify_key provided'')
                | Some vk \<Rightarrow>
                    (case verify_detached C vk encrypted_data (take SIGNATURE_SIZE (drop sig_offset data)) of
                       Inr _ \<Rightarrow> Inr () | Inl _ \<Rightarrow> Inl (ValueError ''Signature verification failed''))
              else Inr ())
             (\<lambda>_. case decrypt_message C shared_key encrypted_data of
                Inl _ \<Rightarrow> Inl (ValueError ''Decryption failed'')
              | Inr payload_json \<Rightarrow>
                  (case safe_json_loads io payload_json MAX_JSON_DEPTH of
                     None \<Rightarrow> Inl (ValueError ''JSON'')
                   | Some payload_data \<Rightarrow>
                       py_bind (frame_from_dict io now rand_id payload_data) (\<lambda>obj0.
                         let obj = obj0\<lparr>f_sequence := sequence\<rparr> in
                         case (f_source_signature obj, verify_source_key) of
                           (Some _, Some lookup) \<Rightarrow>
                             (case lookup (f_source obj) of
                                None \<Rightarrow> Inr obj
                              | Some src_vk \<Rightarrow>
                                  py_bind (verify_source_signature C src_vk True obj) (\<lambda>ok.
                                    if ok then Inr obj
                                    else Inl (ValueError ''Inner source signature verification failed'')))
                         | _ \<Rightarrow> Inr obj))))"

end
