(* ===== verification/Frame_Codec.thy ===== *)
theory Frame_Codec
  imports Frames Sample
begin

text \<open>
  What the frame code promises: the JSON form loses nothing of a frame the constructor can
  make, a sealed frame is read back by the receiver with the matching keys, what the binary
  reader accepts has passed every check, and the version-2 inner signature covers source,
  destination, id and payload.
\<close>

lemma mp_value_neq: "mp_value HIGH \<noteq> mp_value CRITICAL"
  by simp

text \<open>
  The frames that survive their JSON form: what the constructor and the two loaders
  establish. Flags are not in the JSON form, they are recomputed from the priority; an
  empty signature or end-to-end blob reads back as absent.
\<close>

definition frame_ok :: "frame \<Rightarrow> bool" where
  "frame_ok f = (f_msg_type f \<noteq> [] \<and> f_msg_id f \<noteq> [] \<and> 0 \<le> f_sequence f \<and> 0 \<le> f_ttl f \<and> f_ttl f \<le> 255
     \<and> f_source_signature f \<noteq> Some [] \<and> f_e2e_payload f \<noteq> Some []
     \<and> (f_source_signature f = None \<longleftrightarrow> f_source_sig_scheme f = None) \<and> f_source_sig_scheme f \<noteq> Some []
     \<and> \<not> f_source_authenticated f)"

lemma b64_field_encode [codec_simps]: "b64_field (JStr (b64encode b)) = Inr b"
  by (simp add: b64_field_def codec_simps)

lemma opt_b64_simps [codec_simps]:
  "opt_b64 None a g = Inr a"
  "opt_b64 (Some (JStr [])) a g = Inr a"
  "b \<noteq> [] \<Longrightarrow> opt_b64 (Some (JStr (b64encode b))) a g = Inr (g b)"
  by (simp_all add: opt_b64_def b64_field_encode)

lemma hops_field_strs [codec_simps]: "hops_field (JArr (map JStr hs)) = Inr hs"
proof -
  have "all_some (map (py_str \<circ> JStr) hs) = Some hs"
    by (induction hs) auto
  then show ?thesis by (simp add: hops_field_def)
qed

lemma field_simps_ok [codec_simps]:
  "str_field (JStr s) m = Inr s" "opt_str_field None m = Inr None" "opt_str_field (Some (JStr s)) m = Inr (Some s)"
  "0 \<le> i \<Longrightarrow> sequence_field (JInt i) = Inr i"
  "0 \<le> i \<Longrightarrow> i \<le> 255 \<Longrightarrow> ttl_field (JInt i) = Inr i"
  "float_of io (JFloat r) = Inr r"
  by (simp_all add: str_field_def opt_str_field_def sequence_field_def ttl_field_def float_of_def)

text \<open>What the loader sees of each key of the JSON form.\<close>

lemma frame_to_dict_get:
  assumes "frame_to_dict f = JObj d"
  shows "dget d ''type'' = Some (JStr (f_msg_type f))"
    "dget d ''payload'' = Some (JStr (if f_payload f = [] then [] else b64encode (f_payload f)))"
    "dget d ''msg_id'' = Some (JStr (f_msg_id f))" "dget d ''source'' = Some (JStr (f_source f))"
    "dget d ''source_display'' = Some (f_source_display f)"
    "dget d ''destination'' = Some (JStr (f_destination f))"
    "dget d ''timestamp'' = Some (JFloat (f_timestamp f))" "dget d ''priority'' = Some (f_priority f)"
    "dget d ''sequence'' = Some (JInt (f_sequence f))" "dget d ''retries'' = Some (f_retries f)"
    "dget d ''routing'' = Some (f_routing f)" "dget d ''ttl'' = Some (JInt (f_ttl f))"
    "dget d ''hops'' = Some (JArr (map JStr (f_hops f)))"
    "dget d ''source_signature'' = map_option (\<lambda>s. JStr (b64encode s)) (f_source_signature f)"
    "dget d ''source_sig_scheme'' = (case f_source_signature f of None \<Rightarrow> None
       | Some _ \<Rightarrow> Some (JStr (case f_source_sig_scheme f of
           None \<Rightarrow> SOURCE_SIG_SCHEME_V1 | Some s \<Rightarrow> if s = [] then SOURCE_SIG_SCHEME_V1 else s)))"
    "dget d ''e2e_payload'' = map_option (\<lambda>s. JStr (b64encode s)) (f_e2e_payload f)"
  using assms by (auto simp: frame_to_dict_def split: option.splits)

text \<open>\<open>frame_view\<close> is what the loader rebuilds: the flags come from the priority.\<close>

definition frame_view :: "frame \<Rightarrow> frame" where
  "frame_view f = f\<lparr>f_flags := priority_flags (f_priority f)\<rparr>"

lemma payload_field:
  "opt_b64 (Some (JStr (if p = [] then [] else b64encode p))) [] (\<lambda>b. b) = Inr p"
  by (simp add: codec_simps)

lemma opt_b64_map:
  "v \<noteq> Some [] \<Longrightarrow> opt_b64 (map_option (\<lambda>s. JStr (b64encode s)) v) None Some = Inr v"
  by (cases v) (auto simp: codec_simps)

lemma frame_from_dict_to_dict:
  assumes "frame_ok f"
  shows "frame_from_dict io now rid (frame_to_dict f) = Inr (frame_view f)"
proof -
  obtain d where d: "frame_to_dict f = JObj d" by (simp add: frame_to_dict_def)
  have g: "jget_default d k x = v" if "dget d k = Some v" for k x v
    using that by (simp add: jget_default_def)
  have scheme: "opt_str_field (dget d ''source_sig_scheme'') m = Inr (f_source_sig_scheme f)" for m
    using assms frame_to_dict_get(15) [OF d] by (auto simp: frame_ok_def codec_simps split: option.splits)
  note get = frame_to_dict_get [OF d]
  note gs = get(4) [THEN g] get(5) [THEN g] get(6) [THEN g] get(7) [THEN g] get(8) [THEN g] get(9) [THEN g]
    get(10) [THEN g] get(11) [THEN g] get(12) [THEN g] get(13) [THEN g]
  have sig: "opt_b64 (dget d ''source_signature'') None Some = Inr (f_source_signature f)"
    unfolding get(14) by (rule opt_b64_map) (use assms in \<open>simp add: frame_ok_def\<close>)
  have e2e: "opt_b64 (dget d ''e2e_payload'') None Some = Inr (f_e2e_payload f)"
    unfolding get(16) by (rule opt_b64_map) (use assms in \<open>simp add: frame_ok_def\<close>)
  have pl: "opt_b64 (dget d ''payload'') [] (\<lambda>b. b) = Inr (f_payload f)"
    unfolding get(2) by (rule payload_field)
  show ?thesis
    using assms unfolding d frame_from_dict_def frame_ok_def
    by (simp add: get(1,3) gs scheme sig e2e pl codec_simps new_frame_def frame_view_def Let_def)
qed

definition frame_printable :: "float_io \<Rightarrow> frame \<Rightarrow> bool" where
  "frame_printable io f = (float_ok io (f_timestamp f) \<and>
     (\<forall>j \<in> {f_source_display f, f_priority f, f_retries f, f_routing f}. wf_json io j \<and> json_depth j < MAX_JSON_DEPTH))"

lemma wf_frame_to_dict: "frame_printable io f \<Longrightarrow> wf_json io (frame_to_dict f)"
  by (auto simp: frame_printable_def frame_to_dict_def split: option.splits)

lemma json_depth_strs: "json_depth (JArr (map JStr hs)) \<le> 1"
  by (simp add: foldr_max_le)

lemma depth_frame_to_dict: "frame_printable io f \<Longrightarrow> json_depth (frame_to_dict f) \<le> MAX_JSON_DEPTH"
proof -
  assume p: "frame_printable io f"
  have h: "Suc (json_depth (JArr (map JStr (f_hops f)))) \<le> 64"
    using json_depth_strs [of "f_hops f"] by linarith
  show ?thesis
    using p h unfolding frame_to_dict_def json_depth.simps(2) foldr_max_le frame_printable_def MAX_JSON_DEPTH_def
    by (auto split: option.splits)
qed

section \<open>The binary header\<close>

lemma frame_header_read:
  assumes "frame_header C f len = Inr h" "sha256_ok C" "len < 256 ^ 4"
  shows "length h = 32" "take 2 h = FRAME_MAGIC" "h ! 2 = 4" "h ! 3 = f_flags f"
    "int (be_val (take 8 (drop 4 h))) = f_sequence f" "be_val (take 4 (drop 28 h)) = len"
proof -
  have v: "be_bytes 1 FRAME_VERSION = [4]" unfolding FRAME_VERSION_def by code_simp
  obtain ts where sq: "0 \<le> f_sequence f" "f_sequence f < 256 ^ 8"
    and ts: "to_bytes 8 (trunc_int (f_timestamp f * 1000)) = Some ts"
    and h: "h = FRAME_MAGIC @ [4] @ [f_flags f] @ be_bytes 8 (nat (f_sequence f)) @ ts
              @ take 8 (sha256 C (utf8 (f_msg_id f))) @ be_bytes 4 len"
    using assms(1) by (auto simp only: frame_header_def to_bytes_Some_iff v sum.inject sum.distinct split: option.splits)
  have l: "length ts = 8" "length (take 8 (sha256 C (utf8 (f_msg_id f)))) = 8"
    using to_bytes_Some_length [OF ts] assms(2) by (simp_all add: sha256_ok_def)
  have m: "length FRAME_MAGIC = 2" by (simp add: FRAME_MAGIC_def)
  define d where "d = take 8 (sha256 C (utf8 (f_msg_id f)))"
  define pre where "pre = FRAME_MAGIC @ [4, f_flags f] @ be_bytes 8 (nat (f_sequence f)) @ ts @ d"
  have h': "h = pre @ be_bytes 4 len" by (simp add: h pre_def d_def)
  have lp: "length pre = 28" using l m by (simp add: pre_def d_def)
  show "length h = 32" using h' lp by simp
  show "take 2 h = FRAME_MAGIC" using m by (simp add: h)
  show "h ! 2 = 4" "h ! 3 = f_flags f" by (simp_all add: h FRAME_MAGIC_def)
  have "drop 4 h = be_bytes 8 (nat (f_sequence f)) @ ts @ d @ be_bytes 4 len"
    by (simp add: h d_def FRAME_MAGIC_def)
  then have "take 8 (drop 4 h) = be_bytes 8 (nat (f_sequence f))" by simp
  moreover have "nat (f_sequence f) < 256 ^ 8" using sq by simp
  ultimately show "int (be_val (take 8 (drop 4 h))) = f_sequence f"
    using sq by (simp add: be_val_be_bytes)
  show "be_val (take 4 (drop 28 h)) = len"
    using assms(3) h' lp by (simp add: be_val_be_bytes)
qed

lemma flag_absorb [simp]: "(x OR y) AND y = (y :: byte)" "((x OR y) OR z) AND y = (y :: byte)"
  by (rule bit_word_eqI; auto simp: bit_or_iff bit_and_iff)+

lemma flags_nonzero [simp]: "FLAG_ENCRYPTED \<noteq> 0" "FLAG_SIGNED \<noteq> 0"
  by (simp_all add: FLAG_ENCRYPTED_def FLAG_SIGNED_def)

lemma unsigned_flags [simp]: "(priority_flags p OR FLAG_ENCRYPTED) AND FLAG_SIGNED = 0"
  by (simp add: priority_flags_def FLAG_HIGH_PRIORITY_def FLAG_CRITICAL_PRIORITY_def FLAG_ENCRYPTED_def FLAG_SIGNED_def)

section \<open>A sealed frame is read back\<close>

lemma sign_inner_source_keeps:
  assumes "sign_inner_source C sk f = Inr f1"
  shows "f_source f1 = f_source f \<and> f_destination f1 = f_destination f \<and> f_msg_id f1 = f_msg_id f
    \<and> f_payload f1 = f_payload f \<and> f_sequence f1 = f_sequence f \<and> f_flags f1 = f_flags f
    \<and> f_priority f1 = f_priority f"
  using assms by (auto simp: sign_inner_source_def split: option.splits sum.splits py_error.splits)

lemma sign_inner_source_ok:
  assumes "sign_inner_source C sk f = Inr f1" "frame_ok f" "ed25519_ok C"
  shows "frame_ok f1"
proof -
  have "ed_sign C k m \<noteq> []" for k m
    using assms(3) unfolding ed25519_ok_def by (metis list.size(3) zero_neq_numeral)
  then show ?thesis
    using assms(1,2)
    by (auto simp: sign_inner_source_def frame_ok_def sign_detached_with_context_def py_bind_def
        SOURCE_SIG_SCHEME_V2_def split: option.splits sum.splits py_error.splits if_splits)
qed

lemma sign_inner_source_printable:
  "sign_inner_source C sk f = Inr f1 \<Longrightarrow> frame_printable io f \<Longrightarrow> frame_printable io f1"
  by (auto simp: sign_inner_source_def frame_printable_def split: option.splits sum.splits py_error.splits)

lemma sign_inner_source_verifies:
  assumes "sign_inner_source C (Some sk) f = Inr f1" "f_source_signature f = None" "ed25519_ok C"
    "f_source_signature f1 \<noteq> None"
  shows "verify_source_signature C (ed_public C sk) v1 f1 = Inr True"
proof -
  obtain canon sig where canon:
      "canonical_inner_source_bytes (f_source f) (f_destination f) (f_msg_id f) (f_payload f) = Inr canon"
    and sig: "sign_detached_with_context C sk SIG_CTX_FRAME_INNER_SOURCE canon = Inr sig"
    and f1: "f1 = f\<lparr>f_source_signature := Some sig, f_source_sig_scheme := Some SOURCE_SIG_SCHEME_V2\<rparr>"
    using assms(1,2,4)
    by (auto simp: sign_inner_source_def py_bind_def split: sum.splits py_error.splits)
  show ?thesis
    using canon sign_verify_context [OF assms(3) sig]
    by (simp add: f1 verify_source_signature_def verify_v2_def)
qed

text \<open>
  What the reader does after the header: the checks of lines 945 to 1002, for a byte string
  that is a header followed by the ciphertext and the signature.
\<close>

lemma deserialize_sealed:
  assumes h: "length h = 32" "take 2 h = FRAME_MAGIC" "h ! 2 = 4" "be_val (take 4 (drop 28 h)) = length enc"
    and enc: "length enc \<le> MAX_FRAME_BYTES" "(h ! 3) AND FLAG_ENCRYPTED \<noteq> 0"
    and sig: "if (h ! 3) AND FLAG_SIGNED \<noteq> 0
              then length sg = 64 \<and> (\<exists>k. vk = Some k \<and> ed_verify C k enc sg) else sg = []"
    and dec: "decrypt_message C key enc = Inr pj" "safe_json_loads io pj MAX_JSON_DEPTH = Some j"
      "frame_from_dict io now rid j = Inr f"
  shows "deserialize_and_decrypt C io now rid (h @ enc @ sg) key vk None
           = Inr (f\<lparr>f_sequence := int (be_val (take 8 (drop 4 h)))\<rparr>)"
proof -
  have n: "(h @ enc @ sg) ! 2 = 4" "(h @ enc @ sg) ! 3 = h ! 3"
    using h by (simp_all add: nth_append)
  have u: "unat (4 :: byte) = 4" by simp
  have s: "take 8 (drop 4 (h @ enc @ sg)) = take 8 (drop 4 h)" "take 4 (drop 28 (h @ enc @ sg)) = take 4 (drop 28 h)"
    "take (length enc) (drop 32 (h @ enc @ sg)) = enc"
    "drop (32 + length enc) (h @ enc @ sg) = sg" "take 2 (h @ enc @ sg) = FRAME_MAGIC"
    using h by simp_all
  show ?thesis
    using h enc sig dec unfolding deserialize_and_decrypt_def n s u
    by (auto simp: HEADER_SIZE_def SIGNATURE_SIZE_def Let_def verify_detached_def nacl_verify_def split: option.splits if_splits)
qed

lemma MAX_FRAME_BYTES_lt: "n \<le> MAX_FRAME_BYTES \<Longrightarrow> n < 256 ^ 4"
  by (simp add: MAX_FRAME_BYTES_def)

lemma sealed_frame_reads_back:
  assumes C: "secretbox_ok C" "ed25519_ok C" "sha256_ok C"
    and f: "frame_ok f" "frame_printable io f" "f_flags f = priority_flags (f_priority f)"
    and ser: "encrypt_and_serialize C io nonce key sk ssk f = Inr (f', data)"
  shows "\<exists>f1. sign_inner_source C ssk f = Inr f1 \<and>
    deserialize_and_decrypt C io now rid data key (map_option (ed_public C) sk) None = Inr f1"
proof -
  obtain f1 where f1: "sign_inner_source C ssk f = Inr f1"
    using ser by (auto simp: encrypt_and_serialize_def py_bind_Inr_iff)
  define pj where "pj = utf8 (dumps_compact io (frame_to_dict f1))"
  define enc where "enc = encrypt_message C key nonce pj"
  define sg where "sg = (case sk of None \<Rightarrow> [] | Some k \<Rightarrow> sign_detached C k enc)"
  define fl where "fl = (case sk of None \<Rightarrow> f_flags f1 OR FLAG_ENCRYPTED
      | Some _ \<Rightarrow> (f_flags f1 OR FLAG_ENCRYPTED) OR FLAG_SIGNED)"
  obtain h where h: "frame_header C (f1\<lparr>f_flags := fl\<rparr>) (length enc) = Inr h"
    and le: "length enc \<le> MAX_FRAME_BYTES" and data: "data = h @ enc @ sg"
    using ser f1 by (auto simp: encrypt_and_serialize_def py_bind_Inr_iff Let_def pj_def enc_def sg_def fl_def
        split: if_splits option.splits)
  note hr = frame_header_read [OF h C(3) MAX_FRAME_BYTES_lt [OF le]]
  have ok: "frame_ok f1" "frame_printable io f1"
    using sign_inner_source_ok [OF f1 f(1) C(2)] sign_inner_source_printable [OF f1 f(2)] by simp_all
  have fl1: "f_flags f1 = priority_flags (f_priority f1)" "f_sequence f1 = f_sequence f"
    using sign_inner_source_keeps [OF f1] f(3) by simp_all
  have sig: "if (h ! 3) AND FLAG_SIGNED \<noteq> 0
      then length sg = 64 \<and> (\<exists>k. map_option (ed_public C) sk = Some k \<and> ed_verify C k enc sg) else sg = []"
    using C(2) fl1 by (cases sk) (simp_all add: hr fl_def sg_def sign_detached_def ed25519_ok_def)
  have e: "(h ! 3) AND FLAG_ENCRYPTED \<noteq> 0"
    by (cases sk) (simp_all add: hr fl_def)
  have dec: "decrypt_message C key enc = Inr pj" "safe_json_loads io pj MAX_JSON_DEPTH = Some (frame_to_dict f1)"
    "frame_from_dict io now rid (frame_to_dict f1) = Inr (frame_view f1)"
    using C(1) ok by (simp_all add: enc_def pj_def codec_simps wf_frame_to_dict depth_frame_to_dict frame_from_dict_to_dict)
  have "deserialize_and_decrypt C io now rid data key (map_option (ed_public C) sk) None
      = Inr ((frame_view f1)\<lparr>f_sequence := int (be_val (take 8 (drop 4 h)))\<rparr>)"
    unfolding data by (rule deserialize_sealed [OF hr(1,2,3,6) le e sig dec])
  also have "(frame_view f1)\<lparr>f_sequence := int (be_val (take 8 (drop 4 h)))\<rparr> = f1"
    using fl1 by (simp add: hr(5) frame_view_def)
  finally show ?thesis using f1 by simp
qed

section \<open>What the reader accepts\<close>

lemma sequence_field_Inr: "sequence_field v = Inr i \<Longrightarrow> 0 \<le> i"
  by (auto simp: sequence_field_def split: option.splits if_splits)

lemma ttl_field_Inr: "ttl_field v = Inr i \<Longrightarrow> 0 \<le> i \<and> i \<le> 255"
  by (auto simp: ttl_field_def split: option.splits if_splits)

lemma frame_from_dict_Inr:
  assumes "frame_from_dict io now rid j = Inr f"
  shows "f_msg_type f \<noteq> [] \<and> 0 \<le> f_sequence f \<and> 0 \<le> f_ttl f \<and> f_ttl f \<le> 255 \<and> \<not> f_source_authenticated f"
proof -
  obtain d mt where d: "j = JObj d" "dget d ''type'' = Some (JStr mt)" "mt \<noteq> []"
    using assms by (auto simp: frame_from_dict_def split: json.splits option.splits if_splits)
  show ?thesis
    using assms d(3) unfolding d(1) frame_from_dict_def json.case d(2) option.case Let_def
    by (clarsimp simp: py_bind_Inr_iff new_frame_def dest!: sequence_field_Inr ttl_field_Inr)
qed

text \<open>The reader after the frame has been parsed out of its plaintext.\<close>

definition check_source_key ::
  "crypto \<Rightarrow> (string \<Rightarrow> bytes option) option \<Rightarrow> frame \<Rightarrow> frame py" where
  "check_source_key C verify_source_key obj = (case (f_source_signature obj, verify_source_key) of
     (Some _, Some lookup) \<Rightarrow>
       (case lookup (f_source obj) of
          None \<Rightarrow> Inr obj
        | Some src_vk \<Rightarrow> py_bind (verify_source_signature C src_vk True obj) (\<lambda>ok.
            if ok then Inr obj else Inl (ValueError ''Inner source signature verification failed'')))
   | _ \<Rightarrow> Inr obj)"

lemma check_source_key_Inr:
  "check_source_key C lk f = Inr g \<longleftrightarrow> g = f \<and> (\<forall>sig lookup k. f_source_signature f = Some sig \<longrightarrow> lk = Some lookup
      \<longrightarrow> lookup (f_source f) = Some k \<longrightarrow> verify_source_signature C k True f = Inr True)"
  by (auto simp: check_source_key_def py_bind_Inr_iff split: option.splits if_splits)

lemma safe_json_loads_Some:
  "safe_json_loads io raw d = Some j \<Longrightarrow> loads_bytes io raw = Some j \<and> json_depth j \<le> d"
  by (auto simp: safe_json_loads_def validate_json_depth_iff split: option.splits if_splits)

text \<open>The reader in one equation: the envelope checks, then the parsed frame.\<close>

definition open_envelope ::
  "crypto \<Rightarrow> bytes \<Rightarrow> bytes \<Rightarrow> bytes option \<Rightarrow> (nat \<times> bytes) option" where
  "open_envelope C data key vk =
    (let n = be_val (take 4 (drop 28 data)); enc = take n (drop 32 data) in
     if length data \<ge> 32 \<and> take 2 data = FRAME_MAGIC \<and> unat (data ! 2) \<in> {3, 4} \<and> n \<le> MAX_FRAME_BYTES
       \<and> length enc = n \<and> (data ! 3) AND FLAG_ENCRYPTED \<noteq> 0
       \<and> ((data ! 3) AND FLAG_SIGNED \<noteq> 0 \<longrightarrow> length data \<ge> 32 + n + 64 \<and>
            (\<exists>k. vk = Some k \<and> ed_verify C k enc (take 64 (drop (32 + n) data))))
     then (case decrypt_message C key enc of Inl _ \<Rightarrow> None | Inr pj \<Rightarrow> Some (be_val (take 8 (drop 4 data)), pj))
     else None)"

lemma deserialize_Inr:
  "deserialize_and_decrypt C io now rid data key vk lk = Inr g \<longleftrightarrow>
    (\<exists>sq pj j f. open_envelope C data key vk = Some (sq, pj) \<and> safe_json_loads io pj MAX_JSON_DEPTH = Some j
       \<and> frame_from_dict io now rid j = Inr f \<and> check_source_key C lk (f\<lparr>f_sequence := int sq\<rparr>) = Inr g)"
  (is "?L \<longleftrightarrow> ?R")
proof
  assume ?L
  then show ?R
    unfolding deserialize_and_decrypt_def Let_def check_source_key_def [symmetric]
    by (auto simp: open_envelope_def HEADER_SIZE_def SIGNATURE_SIZE_def Let_def py_bind_Inr_iff
        verify_detached_def nacl_verify_def split: if_splits option.splits sum.splits)
next
  assume ?R
  then show ?L
    unfolding deserialize_and_decrypt_def Let_def check_source_key_def [symmetric]
    by (auto simp: open_envelope_def HEADER_SIZE_def SIGNATURE_SIZE_def Let_def py_bind_Inr_iff
        verify_detached_def nacl_verify_def split: if_splits option.splits sum.splits)
qed

section \<open>A concrete frame\<close>

text \<open>A chat frame from alice to bob.\<close>

definition sample_frame :: frame where
  "sample_frame = new_frame 0 ''rid'' ''TEXT'' [104, 105] (Some ''m1'') ''alice'' ''bob'' (JStr (mp_value NORMAL)) 7"

lemma sample_frame_ok [simp]:
  "frame_ok sample_frame" "frame_printable sample_io sample_frame"
  "f_flags sample_frame = priority_flags (f_priority sample_frame)"
  by (simp_all add: sample_frame_def new_frame_def frame_ok_def frame_printable_def MAX_JSON_DEPTH_def)


text \<open>A frame survives its JSON form. Loading the dictionary a frame prints gives the frame
  back, with the flags its priority asks for; no field is lost or reordered.\<close>

lemma frame_dict_roundtrip:
  assumes "frame_ok f"
  shows "frame_from_dict io now rid (frame_to_dict f) = Inr (f\<lparr>f_flags := priority_flags (f_priority f)\<rparr>)"
  using frame_from_dict_to_dict [OF assms] by (simp add: frame_view_def)

text \<open>What a node seals, the receiver with the same session key and the sender's public key
  reads back exactly: every field, the header sequence and the inner source signature included.
  This covers the binary header, encryption, signing, JSON printing and parsing, the size
  ceiling and the depth guard.\<close>

lemma frame_wire_roundtrip:
  assumes "secretbox_ok C" "ed25519_ok C" "sha256_ok C"
    and "frame_ok f" "frame_printable io f" "f_flags f = priority_flags (f_priority f)"
    and "encrypt_and_serialize C io nonce key sk ssk f = Inr (f', data)"
  shows "\<exists>f1. sign_inner_source C ssk f = Inr f1 \<and>
    deserialize_and_decrypt C io now rid data key (map_option (ed_public C) sk) None = Inr f1"
  using assms by (rule sealed_frame_reads_back)

lemma sample_frame_seals:
  "\<exists>f' data. encrypt_and_serialize sample_crypto sample_io [] [1] (Some [2]) None sample_frame = Inr (f', data)"
proof -
  have "length (utf8 (dumps_compact sample_io (frame_to_dict sample_frame))) < 400" (is "?n < _")
    by code_simp
  then have "?n + 40 \<le> MAX_FRAME_BYTES" by (simp add: MAX_FRAME_BYTES_def)
  moreover have "length (encrypt_message sample_crypto [1] []
      (utf8 (dumps_compact sample_io (frame_to_dict sample_frame)))) = ?n + 40"
    using sample_crypto_ok(1) by (simp add: encrypt_message_def secretbox_ok_def)
  ultimately show ?thesis
    by (simp add: encrypt_and_serialize_def sign_inner_source_def Let_def frame_header_def to_bytes_def
        trunc_int_def sample_frame_def new_frame_def)
qed

text \<open>C7: a frame the binary reader returns has passed every check. The header is complete and of
  a supported version, the declared length is within the ceiling and present, the frame is
  encrypted, a signed frame carries an outer signature that verifies under the given key, the
  ciphertext opens under the session key, the JSON nests at most 64 deep, the type is non-empty
  and the TTL fits a byte. When the source's identity key is known and the frame carries an
  inner signature, that signature verifies under it.\<close>

theorem accepted_frame_checked:
  assumes "deserialize_and_decrypt C io now rid data key vk lk = Inr f"
  defines "n \<equiv> be_val (take 4 (drop 28 data))"
  defines "enc \<equiv> take n (drop 32 data)"
  shows "32 \<le> length data \<and> take 2 data = FRAME_MAGIC \<and> unat (data ! 2) \<in> {3, 4}
    \<and> n \<le> MAX_FRAME_BYTES \<and> length enc = n \<and> (data ! 3) AND FLAG_ENCRYPTED \<noteq> 0
    \<and> ((data ! 3) AND FLAG_SIGNED \<noteq> 0 \<longrightarrow>
         (\<exists>k. vk = Some k \<and> ed_verify C k enc (take 64 (drop (32 + n) data))))
    \<and> (\<exists>pj j. box_decrypt C key enc = Some pj \<and> loads_bytes io pj = Some j \<and> json_depth j \<le> 64)
    \<and> f_msg_type f \<noteq> [] \<and> 0 \<le> f_ttl f \<and> f_ttl f \<le> 255
    \<and> f_sequence f = int (be_val (take 8 (drop 4 data)))
    \<and> (\<forall>sig lookup k. f_source_signature f = Some sig \<longrightarrow> lk = Some lookup \<longrightarrow> lookup (f_source f) = Some k
         \<longrightarrow> verify_source_signature C k True f = Inr True)"
proof -
  obtain sq pj j f0 where o: "open_envelope C data key vk = Some (sq, pj)"
    and j: "safe_json_loads io pj MAX_JSON_DEPTH = Some j" and f0: "frame_from_dict io now rid j = Inr f0"
    and c: "check_source_key C lk (f0\<lparr>f_sequence := int sq\<rparr>) = Inr f"
    using assms(1) unfolding deserialize_Inr by blast
  show ?thesis
    using o safe_json_loads_Some [OF j] frame_from_dict_Inr [OF f0] c
    by (auto simp: open_envelope_def Let_def n_def enc_def check_source_key_Inr decrypt_message_def MAX_JSON_DEPTH_def
        split: if_splits option.splits sum.splits)
qed

theorem accepted_frame_checked_witness:
  "\<exists>data f. deserialize_and_decrypt sample_crypto sample_io 9 ''r'' data [1] (Some (pad 32 [2])) None = Inr f
     \<and> f_ttl f \<le> 255"
proof -
  obtain f' data where ser: "encrypt_and_serialize sample_crypto sample_io [] [1] (Some [2]) None sample_frame = Inr (f', data)"
    using sample_frame_seals by blast
  from sealed_frame_reads_back [OF sample_crypto_ok(1,2,3) sample_frame_ok this, of 9 "''r''"]
  obtain f1 where "deserialize_and_decrypt sample_crypto sample_io 9 ''r'' data [1] (Some (pad 32 [2])) None = Inr f1"
    by auto
  with accepted_frame_checked [OF this] show ?thesis by blast
qed

section \<open>What the signatures do not cover\<close>

text \<open>Replacing bytes 4 to 11, the sequence field of the header.\<close>

definition set_header_sequence :: "nat \<Rightarrow> bytes \<Rightarrow> bytes" where
  "set_header_sequence s data = take 4 data @ be_bytes 8 s @ drop 12 data"

lemma set_header_sequence_get:
  assumes "32 \<le> length data"
  shows "length (set_header_sequence s data) = length data"
    "take 2 (set_header_sequence s data) = take 2 data"
    "set_header_sequence s data ! 2 = data ! 2" "set_header_sequence s data ! 3 = data ! 3"
    "12 \<le> m \<Longrightarrow> drop m (set_header_sequence s data) = drop m data"
    "take 8 (drop 4 (set_header_sequence s data)) = be_bytes 8 s"
  using assms by (simp_all add: set_header_sequence_def nth_append min_def)

lemma verify_parts_sequence:
  "verify_v2 C k (f\<lparr>f_sequence := s\<rparr>) sig = verify_v2 C k f sig"
  "verify_v1 C k (f\<lparr>f_sequence := s\<rparr>) sig = verify_v1 C k f sig"
  by (simp_all add: verify_v2_def verify_v1_def)

lemma verify_source_sequence:
  "verify_source_signature C k v1 (f\<lparr>f_sequence := s\<rparr>) = verify_source_signature C k v1 f"
  by (simp add: verify_source_signature_def verify_parts_sequence cong: if_cong split: option.splits)

text \<open>The sequence number of the header is not covered by any signature. Whoever can rewrite
  bytes 4 to 11 of a frame on the wire makes the receiver read the same, still verified, frame
  under any sequence number of 64 bits. The receiver's replay guard is keyed on that number.\<close>

lemma header_sequence_malleable:
  assumes "deserialize_and_decrypt C io now rid data key vk lk = Inr f" "s < 256 ^ 8"
  shows "deserialize_and_decrypt C io now rid (set_header_sequence s data) key vk lk
           = Inr (f\<lparr>f_sequence := int s\<rparr>)"
proof -
  obtain sq pj j f0 where o: "open_envelope C data key vk = Some (sq, pj)"
    and j: "safe_json_loads io pj MAX_JSON_DEPTH = Some j" and f0: "frame_from_dict io now rid j = Inr f0"
    and c: "check_source_key C lk (f0\<lparr>f_sequence := int sq\<rparr>) = Inr f"
    using assms(1) unfolding deserialize_Inr by blast
  have l: "32 \<le> length data" using o by (auto simp: open_envelope_def Let_def split: if_splits)
  note g = set_header_sequence_get [OF l]
  have o': "open_envelope C (set_header_sequence s data) key vk = Some (s, pj)"
    using o unfolding open_envelope_def Let_def g(1,2,3,4,6) be_val_be_bytes [OF assms(2)]
    by (auto simp only: g(5) split: if_splits sum.splits)
  have c': "check_source_key C lk (f0\<lparr>f_sequence := int s\<rparr>) = Inr (f\<lparr>f_sequence := int s\<rparr>)"
    using c by (auto simp: check_source_key_Inr verify_source_sequence)
  show ?thesis
    unfolding deserialize_Inr using o' j f0 c' by blast
qed

section \<open>The inner source signature\<close>

lemma context_prefix_inject: "SIG_CTX_FRAME_INNER_SOURCE @ a = SIG_CTX_FRAME_INNER_SOURCE @ b \<longleftrightarrow> a = b"
  by simp

lemma sign_inner_source_Inr:
  assumes "sign_inner_source C (Some sk) f = Inr f1" "f_source_signature f = None" "f_source_signature f1 = Some sig"
  shows "\<exists>m. canonical_inner_source_bytes (f_source f) (f_destination f) (f_msg_id f) (f_payload f) = Inr m
    \<and> sig = ed_sign C sk (SIG_CTX_FRAME_INNER_SOURCE @ m)"
  using assms
  by (auto simp: sign_inner_source_def py_bind_def sign_detached_with_context_def split: sum.splits py_error.splits if_splits)

lemma verify_v2_Inr:
  assumes "verify_v2 C vk f sig = Inr True"
  shows "\<exists>m. canonical_inner_source_bytes (f_source f) (f_destination f) (f_msg_id f) (f_payload f) = Inr m
    \<and> ed_verify C vk (SIG_CTX_FRAME_INNER_SOURCE @ m) sig"
  using assms
  by (auto simp: verify_v2_def verify_detached_with_context_def nacl_verify_def split: sum.splits py_error.splits if_splits)

text \<open>C23: a version-2 inner signature binds the source, the destination, the message id and the
  payload. If a signature an honest source made for one frame is accepted on another frame,
  either the four fields are the same, or the signature scheme itself accepted the signature
  for a message it was not made for. The end-to-end blob and the sequence are not bound.\<close>

theorem inner_signature_binds:
  assumes "sign_inner_source C (Some sk) f = Inr f1" "f_source_signature f = None"
    and "f_source_signature f1 = Some sig"
    and "f_source_signature g = Some sig" "f_source_sig_scheme g = Some SOURCE_SIG_SCHEME_V2"
    and "verify_source_signature C vk v1 g = Inr True"
  shows "(f_source g = f_source f \<and> f_destination g = f_destination f \<and> f_msg_id g = f_msg_id f
      \<and> f_payload g = f_payload f)
    \<or> (\<exists>m m'. m \<noteq> m' \<and> sig = ed_sign C sk m \<and> ed_verify C vk m' sig)"
proof -
  obtain m where m: "canonical_inner_source_bytes (f_source f) (f_destination f) (f_msg_id f) (f_payload f) = Inr m"
    "sig = ed_sign C sk (SIG_CTX_FRAME_INNER_SOURCE @ m)"
    using sign_inner_source_Inr [OF assms(1,2,3)] by blast
  have "verify_v2 C vk g sig = Inr True"
    using assms(4,5,6) by (simp add: verify_source_signature_def)
  then obtain m' where m': "canonical_inner_source_bytes (f_source g) (f_destination g) (f_msg_id g) (f_payload g) = Inr m'"
    "ed_verify C vk (SIG_CTX_FRAME_INNER_SOURCE @ m') sig"
    using verify_v2_Inr by blast
  show ?thesis
  proof (cases "m = m'")
    case True
    then show ?thesis using inner_source_bytes_inject m(1) m'(1) by metis
  next
    case False
    then show ?thesis using m(2) m'(2) context_prefix_inject by metis
  qed
qed

lemma lp_short: "length a < 256 ^ 4 \<Longrightarrow> lp a = Inr (be_bytes 4 (length a) @ a)"
  by (simp add: lp_Inr)

lemma sample_signs:
  "\<exists>f1 sig. sign_inner_source sample_crypto (Some [2]) sample_frame = Inr f1 \<and> f_source_signature f1 = Some sig
     \<and> f_source_sig_scheme f1 = Some SOURCE_SIG_SCHEME_V2 \<and> f_payload f1 = f_payload sample_frame"
proof -
  have "length (utf8 ''alice'') < 256 ^ 4" "length (utf8 ''bob'') < 256 ^ 4" "length (utf8 ''m1'') < 256 ^ 4"
    by (simp_all add: utf8_def utf8_char_def Let_def)
  then show ?thesis
    by (simp add: sample_frame_def new_frame_def sign_inner_source_def canonical_inner_source_bytes_def lp_short
        sign_detached_with_context_def SIG_CTX_FRAME_INNER_SOURCE_def)
qed

theorem inner_signature_binds_witness:
  "\<exists>f1 sig. sign_inner_source sample_crypto (Some [2]) sample_frame = Inr f1 \<and> f_source_signature f1 = Some sig
     \<and> (f_payload f1 = f_payload sample_frame \<or>
        (\<exists>m m'. m \<noteq> m' \<and> sig = ed_sign sample_crypto [2] m \<and> ed_verify sample_crypto (pad 32 [2]) m' sig))"
proof -
  obtain f1 sig where f1: "sign_inner_source sample_crypto (Some [2]) sample_frame = Inr f1"
    "f_source_signature f1 = Some sig" "f_source_sig_scheme f1 = Some SOURCE_SIG_SCHEME_V2"
    using sample_signs by blast
  have n: "f_source_signature sample_frame = None" by (simp add: sample_frame_def new_frame_def)
  have "verify_source_signature sample_crypto (pad 32 [2]) False f1 = Inr True"
    using sign_inner_source_verifies [OF f1(1) n sample_crypto_ok(2), of False] f1(2) by simp
  from inner_signature_binds [OF f1(1) n f1(2) f1(2) f1(3) this] f1 show ?thesis by blast
qed

end
