(* ===== verification/Replay.thy ===== *)
theory Replay
  imports Prelude
begin

text \<open>
  protocol.py, \<open>class ReplayGuard\<close>: per-peer high-water mark, sliding window and freshness.
  \<open>ratchet\<close> is the interface of everything in the code that hands out or accepts numbers
  in increasing order; it is interpreted here for the guard and in \<open>Peers\<close> for the
  sender's counter.
\<close>

section \<open>An interface: numbers that only go up\<close>

text \<open>Running a step function over a list of events, collecting what it lets through.\<close>

fun run_collect :: "('e \<Rightarrow> 's \<Rightarrow> 'o option \<times> 's) \<Rightarrow> 'e list \<Rightarrow> 's \<Rightarrow> 'o list" where
  "run_collect step [] s = []"
| "run_collect step (e # es) s =
     (case step e s of (r, s') \<Rightarrow>
        (case r of None \<Rightarrow> run_collect step es s' | Some x \<Rightarrow> x # run_collect step es s'))"

locale ratchet =
  fixes step :: "'e \<Rightarrow> 's \<Rightarrow> int option \<times> 's"
    and level :: "'s \<Rightarrow> int"
    and inv :: "'s \<Rightarrow> bool"
    and allowed :: "'e \<Rightarrow> bool"
  assumes passes: "inv s \<Longrightarrow> allowed e \<Longrightarrow> step e s = (Some n, s') \<Longrightarrow> level s < n \<and> n \<le> level s'"
    and stays: "inv s \<Longrightarrow> allowed e \<Longrightarrow> step e s = (None, s') \<Longrightarrow> level s \<le> level s'"
    and keeps: "inv s \<Longrightarrow> allowed e \<Longrightarrow> step e s = (r, s') \<Longrightarrow> inv s'"
begin

lemma collected_above:
  "inv s \<Longrightarrow> \<forall>e \<in> set es. allowed e \<Longrightarrow> \<forall>n \<in> set (run_collect step es s). level s < n"
proof (induction es arbitrary: s)
  case (Cons e es)
  obtain r s' where st: "step e s = (r, s')" by (cases "step e s")
  have i: "inv s'" using keeps [OF Cons.prems(1) _ st] Cons.prems(2) by simp
  note ih = Cons.IH [OF i]
  show ?case
  proof (cases r)
    case None
    with stays [of s e s'] st Cons.prems ih show ?thesis by fastforce
  next
    case (Some n)
    with passes [of s e n s'] st Cons.prems ih show ?thesis by fastforce
  qed
qed simp

lemma collected_sorted:
  "inv s \<Longrightarrow> \<forall>e \<in> set es. allowed e \<Longrightarrow> sorted_wrt (<) (run_collect step es s)"
proof (induction es arbitrary: s)
  case (Cons e es)
  obtain r s' where st: "step e s = (r, s')" by (cases "step e s")
  have i: "inv s'" using keeps [OF Cons.prems(1) _ st] Cons.prems(2) by simp
  show ?case
  proof (cases r)
    case None
    with st Cons.IH [OF i] Cons.prems show ?thesis by simp
  next
    case (Some n)
    have "n \<le> level s'" using passes [of s e n s'] st Some Cons.prems by simp
    moreover have "\<forall>m \<in> set (run_collect step es s'). level s' < m"
      using collected_above [OF i, of es] Cons.prems(2) by simp
    ultimately have "\<forall>m \<in> set (run_collect step es s'). n < m" by fastforce
    with st Some Cons.IH [OF i] Cons.prems show ?thesis by simp
  qed
qed simp

lemma collected_distinct:
  "inv s \<Longrightarrow> \<forall>e \<in> set es. allowed e \<Longrightarrow> distinct (run_collect step es s)"
  using collected_sorted [of s es] strict_sorted_iff by blast

end

section \<open>The guard\<close>

record replay_peer =
  rp_last_seq :: int
  rp_window :: "(int, time) dict"

record replay_guard =
  rg_max_age :: real
  rg_window_size :: nat
  rg_peers :: "(node_id, replay_peer) dict"

definition new_replay_guard :: "real \<Rightarrow> nat \<Rightarrow> replay_guard" where
  "new_replay_guard max_age window_size = \<lparr> rg_max_age = max_age, rg_window_size = window_size, rg_peers = [] \<rparr>"

definition MAX_SEQUENCE :: int where "MAX_SEQUENCE = 2 ^ 48"

text \<open>The reasons \<open>check\<close> returns, with the numbers that go into the message.\<close>

datatype replay_rejection =
    TooOld real
  | FromFuture real
  | InvalidSequence int
  | SequenceTooLarge int
  | NotAboveLastSeen int
  | DuplicateSequence int

definition empty_replay_peer :: replay_peer where
  "empty_replay_peer = \<lparr> rp_last_seq = 0, rp_window = [] \<rparr>"

definition ensure_replay_peer :: "node_id \<Rightarrow> replay_guard \<Rightarrow> replay_guard" where
  "ensure_replay_peer p g = (if p \<in> set (dkeys (rg_peers g)) then g
     else g\<lparr>rg_peers := dset p empty_replay_peer (rg_peers g)\<rparr>)"

definition replay_state :: "replay_guard \<Rightarrow> node_id \<Rightarrow> replay_peer" where
  "replay_state g p = dget_default empty_replay_peer (rg_peers g) p"

text \<open>\<open>while len(window) > window_size: window.popitem(last=False)\<close>\<close>

fun trim_window :: "nat \<Rightarrow> (int, time) dict \<Rightarrow> (int, time) dict" where
  "trim_window n [] = []"
| "trim_window n (x # w) = (if length (x # w) > n then trim_window n w else x # w)"

definition replay_check ::
  "time \<Rightarrow> node_id \<Rightarrow> int \<Rightarrow> time \<Rightarrow> replay_guard \<Rightarrow> replay_rejection option \<times> replay_guard" where
  "replay_check now p sequence timestamp g0 =
    (let g = ensure_replay_peer p g0;
         state = replay_state g p;
         age = now - timestamp in
     if age > rg_max_age g then (Some (TooOld age), g)
     else if age < -5 then (Some (FromFuture age), g)
     else if sequence \<le> 0 then (Some (InvalidSequence sequence), g)
     else if sequence > MAX_SEQUENCE then (Some (SequenceTooLarge sequence), g)
     else if sequence \<le> rp_last_seq state then (Some (NotAboveLastSeen sequence), g)
     else if sequence \<in> set (dkeys (rp_window state)) then (Some (DuplicateSequence sequence), g)
     else (None, g\<lparr>rg_peers := dset p
             \<lparr> rp_last_seq = sequence,
               rp_window = trim_window (rg_window_size g) (dset sequence timestamp (rp_window state)) \<rparr>
             (rg_peers g)\<rparr>))"

definition reset_replay_peer :: "node_id \<Rightarrow> replay_guard \<Rightarrow> replay_guard" where
  "reset_replay_peer p g = g\<lparr>rg_peers := dpop p (rg_peers g)\<rparr>"

definition snapshot_replay_peer :: "node_id \<Rightarrow> string \<Rightarrow> replay_guard \<Rightarrow> replay_guard" where
  "snapshot_replay_peer p snapshot_id g0 =
    (let g = ensure_replay_peer p g0 in g\<lparr>rg_peers := dset snapshot_id (replay_state g p) (rg_peers g)\<rparr>)"

section \<open>Invariant\<close>

lemma ensure_replay_peer_state [simp]: "replay_state (ensure_replay_peer p g) q = replay_state g q"
  by (auto simp: ensure_replay_peer_def replay_state_def dest: dget_Some_key split: option.splits)

lemma ensure_replay_peer_params [simp]:
  "rg_max_age (ensure_replay_peer p g) = rg_max_age g" "rg_window_size (ensure_replay_peer p g) = rg_window_size g"
  by (simp_all add: ensure_replay_peer_def)

lemma set_trim_window: "set (trim_window n w) \<subseteq> set w"
  by (induction w) auto

lemma length_trim_window: "length (trim_window n w) \<le> n"
  by (induction w) auto

lemma replay_state_put [simp]:
  "replay_state (g\<lparr>rg_peers := dset p s (rg_peers g')\<rparr>) q =
     (if q = p then s else dget_default empty_replay_peer (rg_peers g') q)"
  by (simp add: replay_state_def)

lemma replay_state_default: "dget_default empty_replay_peer (rg_peers g) q = replay_state g q"
  by (simp add: replay_state_def)

text \<open>Everything in a window is at or below the high-water mark, and a window stays within its size.\<close>

definition replay_peer_ok :: "nat \<Rightarrow> replay_peer \<Rightarrow> bool" where
  "replay_peer_ok n s = (0 \<le> rp_last_seq s \<and> rp_last_seq s \<le> MAX_SEQUENCE
     \<and> (\<forall>q \<in> set (dkeys (rp_window s)). q \<le> rp_last_seq s) \<and> length (rp_window s) \<le> n)"

definition replay_ok :: "replay_guard \<Rightarrow> bool" where
  "replay_ok g = (\<forall>p. replay_peer_ok (rg_window_size g) (replay_state g p))"

lemma new_replay_guard_ok: "replay_ok (new_replay_guard a n)"
  by (simp add: replay_ok_def replay_peer_ok_def new_replay_guard_def replay_state_def empty_replay_peer_def MAX_SEQUENCE_def)

lemma keys_trim_dset: "q \<in> fst ` set (trim_window n (dset k v w)) \<Longrightarrow> q = k \<or> q \<in> fst ` set w"
proof -
  assume "q \<in> fst ` set (trim_window n (dset k v w))"
  then have "q \<in> fst ` set (dset k v w)" using set_trim_window by fastforce
  then show ?thesis by simp
qed

lemma replay_check_accept:
  assumes "replay_check now p sq ts g = (None, g')"
  shows "0 < sq \<and> sq \<le> MAX_SEQUENCE \<and> rp_last_seq (replay_state g p) < sq
    \<and> now - ts \<le> rg_max_age g \<and> ts - now \<le> 5
    \<and> rp_last_seq (replay_state g' p) = sq
    \<and> rp_window (replay_state g' p) = trim_window (rg_window_size g) (dset sq ts (rp_window (replay_state g p)))
    \<and> (\<forall>q. q \<noteq> p \<longrightarrow> replay_state g' q = replay_state g q)
    \<and> rg_window_size g' = rg_window_size g \<and> rg_max_age g' = rg_max_age g"
  using assms by (auto simp: replay_check_def Let_def replay_state_default split: if_splits)

lemma replay_check_reject:
  assumes "replay_check now p sq ts g = (Some r, g')"
  shows "replay_state g' q = replay_state g q \<and> rg_window_size g' = rg_window_size g \<and> rg_max_age g' = rg_max_age g"
  using assms by (auto simp: replay_check_def Let_def split: if_splits)

lemma replay_check_ok:
  assumes "replay_ok g" "replay_check now p sq ts g = (r, g')"
  shows "replay_ok g'"
proof (cases r)
  case (Some x)
  with assms replay_check_reject [of now p sq ts g x g'] show ?thesis by (simp add: replay_ok_def)
next
  case None
  have a: "replay_check now p sq ts g = (None, g')" using assms(2) None by simp
  note acc = replay_check_accept [OF a]
  show ?thesis
    unfolding replay_ok_def
  proof
    fix q
    show "replay_peer_ok (rg_window_size g') (replay_state g' q)"
    proof (cases "q = p")
      case True
      have ok: "replay_peer_ok (rg_window_size g) (replay_state g p)" using assms(1) by (simp add: replay_ok_def)
      have w: "k \<le> sq" if k: "k \<in> fst ` set (rp_window (replay_state g' p))" for k
      proof -
        have "rp_window (replay_state g' p) = trim_window (rg_window_size g) (dset sq ts (rp_window (replay_state g p)))"
          "rp_last_seq (replay_state g p) < sq" using acc by blast+
        with k keys_trim_dset have "k = sq \<or> k \<in> fst ` set (rp_window (replay_state g p))" by metis
        then show ?thesis using ok \<open>rp_last_seq (replay_state g p) < sq\<close> by (auto simp: replay_peer_ok_def)
      qed
      have l: "length (rp_window (replay_state g' p)) \<le> rg_window_size g'"
        using acc length_trim_window by metis
      have s: "rp_last_seq (replay_state g' p) = sq" "0 < sq" "sq \<le> MAX_SEQUENCE" using acc by blast+
      show ?thesis
        unfolding True replay_peer_ok_def set_map s(1) using w l s by simp
    next
      case False
      with acc assms(1) show ?thesis by (simp add: replay_ok_def)
    qed
  qed
qed

lemma reset_replay_peer_state: "replay_state (reset_replay_peer p g) q = (if q = p then empty_replay_peer else replay_state g q)"
  by (simp add: reset_replay_peer_def replay_state_def)

lemma snapshot_replay_peer_state:
  "replay_state (snapshot_replay_peer p sid g) q = (if q = sid then replay_state g p else replay_state g q)"
  by (simp add: snapshot_replay_peer_def Let_def replay_state_default)

lemma empty_replay_peer_ok [simp]: "replay_peer_ok n empty_replay_peer"
  by (simp add: replay_peer_ok_def empty_replay_peer_def MAX_SEQUENCE_def)

lemma reset_replay_ok: "replay_ok g \<Longrightarrow> replay_ok (reset_replay_peer p g)"
  unfolding replay_ok_def reset_replay_peer_state by (simp add: reset_replay_peer_def)

lemma snapshot_replay_ok: "replay_ok g \<Longrightarrow> replay_ok (snapshot_replay_peer p sid g)"
  unfolding replay_ok_def snapshot_replay_peer_state by (simp add: snapshot_replay_peer_def Let_def)

section \<open>At most once\<close>

datatype replay_event =
    CheckFrame time node_id int time
  | ResetPeer node_id
  | SnapshotPeer node_id string

text \<open>One event, reporting the sequence number when it is a frame accepted for \<open>p\<close>.\<close>

fun replay_event_step :: "node_id \<Rightarrow> replay_event \<Rightarrow> replay_guard \<Rightarrow> int option \<times> replay_guard" where
  "replay_event_step p (CheckFrame now q sq ts) g =
     (case replay_check now q sq ts g of (r, g') \<Rightarrow> (if r = None \<and> q = p then Some sq else None, g'))"
| "replay_event_step p (ResetPeer q) g = (None, reset_replay_peer q g)"
| "replay_event_step p (SnapshotPeer q sid) g = (None, snapshot_replay_peer q sid g)"

text \<open>The events that leave the session of \<open>p\<close> in place.\<close>

fun keeps_session :: "node_id \<Rightarrow> replay_event \<Rightarrow> bool" where
  "keeps_session p (CheckFrame now q sq ts) = True"
| "keeps_session p (ResetPeer q) = (q \<noteq> p)"
| "keeps_session p (SnapshotPeer q sid) = (sid \<noteq> p)"

lemma replay_event_ratchet:
  assumes "replay_ok g" "keeps_session p e" "replay_event_step p e g = (r, g')"
  shows "replay_ok g' \<and> rp_last_seq (replay_state g p) \<le> rp_last_seq (replay_state g' p)
    \<and> (\<forall>n. r = Some n \<longrightarrow> rp_last_seq (replay_state g p) < n \<and> n \<le> rp_last_seq (replay_state g' p))"
proof (cases e)
  case (CheckFrame now q sq ts)
  obtain x g1 where c: "replay_check now q sq ts g = (x, g1)" by (cases "replay_check now q sq ts g")
  have "replay_ok g1" using replay_check_ok [OF assms(1) c] .
  then show ?thesis
    using assms(3) c CheckFrame replay_check_accept [of now q sq ts g g1] replay_check_reject [of now q sq ts g _ g1 p]
    by (cases x; cases "q = p") (auto split: if_splits)
next
  case (ResetPeer q)
  with assms show ?thesis by (auto simp: reset_replay_ok reset_replay_peer_state)
next
  case (SnapshotPeer q sid)
  with assms show ?thesis by (auto simp: snapshot_replay_ok snapshot_replay_peer_state)
qed

interpretation guard: ratchet "replay_event_step p" "\<lambda>g. rp_last_seq (replay_state g p)" replay_ok "keeps_session p"
  for p
  by unfold_locales (use replay_event_ratchet in blast)+

text \<open>C6: within a session no sequence number is accepted twice, and accepted numbers go up. For
  any interleaving of frames of every peer, resets of other peers and rekey snapshots, the
  sequence numbers the guard accepts for a peer form a strictly increasing list.\<close>

theorem replay_accepts_at_most_once:
  assumes "replay_ok g" "\<forall>e \<in> set es. keeps_session p e"
  shows "sorted_wrt (<) (run_collect (replay_event_step p) es g)
    \<and> distinct (run_collect (replay_event_step p) es g)
    \<and> (\<forall>n \<in> set (run_collect (replay_event_step p) es g). rp_last_seq (replay_state g p) < n)"
  using guard.collected_sorted [OF assms] guard.collected_distinct [OF assms] guard.collected_above [OF assms] by blast

theorem replay_accepts_at_most_once_witness:
  "distinct (run_collect (replay_event_step ''a'')
     [CheckFrame 10 ''a'' 1 10, CheckFrame 10 ''a'' 1 10, SnapshotPeer ''a'' ''s'', CheckFrame 11 ''a'' 2 10]
     (new_replay_guard 30 1024))"
  using replay_accepts_at_most_once [OF new_replay_guard_ok [of 30 1024],
    of "[CheckFrame 10 ''a'' 1 10, CheckFrame 10 ''a'' 1 10, SnapshotPeer ''a'' ''s'', CheckFrame 11 ''a'' 2 10]" "''a''"]
  by simp

text \<open>The guard accepts exactly the fresh frames above the high-water mark. On a well-formed
  guard a frame passes if and only if its age is within \<open>max_age\<close>, it is at most five seconds
  ahead, and its sequence is positive, at most \<open>2^48\<close> and above the last one accepted; the
  duplicate check of the window never decides. A rejected frame changes no peer's state, an
  accepted one only its own peer's.\<close>

lemma replay_check_iff:
  assumes "replay_ok g"
  shows "(fst (replay_check now p sq ts g) = None \<longleftrightarrow>
      now - ts \<le> rg_max_age g \<and> ts - now \<le> 5 \<and> 0 < sq \<and> sq \<le> 2 ^ 48 \<and> rp_last_seq (replay_state g p) < sq)
    \<and> (\<forall>r. fst (replay_check now p sq ts g) \<noteq> Some (DuplicateSequence r))
    \<and> (\<forall>q. q \<noteq> p \<or> fst (replay_check now p sq ts g) \<noteq> None \<longrightarrow>
         replay_state (snd (replay_check now p sq ts g)) q = replay_state g q)"
proof -
  have w: "\<not> rp_last_seq (replay_state g p) < sq \<or> sq \<notin> fst ` set (rp_window (replay_state g p))"
    using assms by (fastforce simp: replay_ok_def replay_peer_ok_def)
  show ?thesis
    using w by (auto simp: replay_check_def Let_def MAX_SEQUENCE_def replay_state_default)
qed

text \<open>The guard's memory is bounded. Every operation keeps each peer's window within the
  configured size and at or below the high-water mark, which stays within \<open>2^48\<close>.\<close>

lemma replay_window_bounded:
  assumes "replay_ok g"
  shows "replay_ok (snd (replay_check now p sq ts g)) \<and> replay_ok (reset_replay_peer p g)
    \<and> replay_ok (snapshot_replay_peer p sid g)
    \<and> length (rp_window (replay_state (snd (replay_check now p sq ts g)) q)) \<le> rg_window_size g"
proof -
  obtain r g' where c: "replay_check now p sq ts g = (r, g')" by (cases "replay_check now p sq ts g")
  have "rg_window_size g' = rg_window_size g"
    using c replay_check_accept [of now p sq ts g g'] replay_check_reject [of now p sq ts g _ g'] by (cases r) auto
  with replay_check_ok [OF assms c] c show ?thesis
    by (simp add: reset_replay_ok snapshot_replay_ok assms) (simp add: replay_ok_def replay_peer_ok_def)
qed

end
