(* ===== verification/Peers.thy ===== *)
theory Peers
  imports Frame_Codec Replay
begin

text \<open>
  protocol.py from \<open>class MessageBus\<close> to the end: the in-process bus, the state of a
  connected peer, the handshake's message constructors and the token bucket.
\<close>

section \<open>MessageBus\<close>

text \<open>
  A callback is a name; publishing returns the calls it makes, in order. An exception of a
  callback is caught, so what a callback does never changes the calls after it. Callbacks
  that change the subscriptions while they are being called are outside the model.
\<close>

record bus_entry =
  be_type :: string
  be_data :: json
  be_timestamp :: time

record 'cb message_bus =
  mb_listeners :: "(string, 'cb list) dict"
  mb_catch_all :: "'cb list"
  mb_queue :: "bus_entry list"
  mb_max_history :: nat

definition new_message_bus :: "'cb message_bus" where
  "new_message_bus = \<lparr> mb_listeners = [], mb_catch_all = [], mb_queue = [], mb_max_history = 100 \<rparr>"

definition bus_subscribe :: "string \<Rightarrow> 'cb \<Rightarrow> 'cb message_bus \<Rightarrow> 'cb message_bus" where
  "bus_subscribe event_type cb b =
     b\<lparr>mb_listeners := dset event_type (dget_default [] (mb_listeners b) event_type @ [cb]) (mb_listeners b)\<rparr>"

text \<open>The function \<open>subscribe\<close> returns: \<open>list.remove\<close> raises \<open>ValueError\<close> the second time.\<close>

definition bus_unsubscribe :: "string \<Rightarrow> 'cb \<Rightarrow> 'cb message_bus \<Rightarrow> 'cb message_bus py" where
  "bus_unsubscribe event_type cb b = (case dget (mb_listeners b) event_type of
     None \<Rightarrow> Inl (KeyError event_type)
   | Some cbs \<Rightarrow> if cb \<in> set cbs then Inr (b\<lparr>mb_listeners := dset event_type (remove1 cb cbs) (mb_listeners b)\<rparr>)
       else Inl (ValueError ''list.remove(x): x not in list''))"

text \<open>A call to a typed listener, or to a catch-all one, which also gets the type.\<close>

datatype 'cb bus_call = Typed 'cb json | CatchAll 'cb string json

definition bus_publish :: "time \<Rightarrow> string \<Rightarrow> json \<Rightarrow> 'cb message_bus \<Rightarrow> 'cb bus_call list \<times> 'cb message_bus" where
  "bus_publish now event_type data b =
    (let calls = map (\<lambda>cb. Typed cb data) (dget_default [] (mb_listeners b) event_type)
               @ map (\<lambda>cb. CatchAll cb event_type data) (mb_catch_all b);
         q = mb_queue b @ [\<lparr> be_type = event_type, be_data = data, be_timestamp = now \<rparr>];
         q' = (if length q > mb_max_history b \<and> mb_max_history b \<noteq> 0
               then drop (length q - mb_max_history b) q else q) in
     (calls, b\<lparr>mb_queue := q'\<rparr>))"

definition bus_on_any :: "'cb \<Rightarrow> 'cb message_bus \<Rightarrow> 'cb message_bus" where
  "bus_on_any cb b = b\<lparr>mb_catch_all := mb_catch_all b @ [cb]\<rparr>"

text \<open>\<open>queue[-limit:]\<close>: all of it for 0, from \<open>-limit\<close> on for a negative limit.\<close>

definition bus_history :: "int \<Rightarrow> 'cb message_bus \<Rightarrow> bus_entry list" where
  "bus_history limit b =
     (if limit = 0 then mb_queue b
      else if limit > 0 then drop (length (mb_queue b) - nat limit) (mb_queue b)
      else drop (nat (- limit)) (mb_queue b))"

lemma bus_publish_bounded:
  "0 < mb_max_history b \<Longrightarrow> length (mb_queue b) \<le> mb_max_history b \<Longrightarrow>
   length (mb_queue (snd (bus_publish now t d b))) \<le> mb_max_history b"
  by (auto simp: bus_publish_def Let_def)

section \<open>PeerState\<close>

datatype peer_status = Offline | Connecting | Handshaking | Authenticating | Online | Degraded

fun ps_value :: "peer_status \<Rightarrow> string" where
  "ps_value Offline = ''offline''"
| "ps_value Connecting = ''connecting''"
| "ps_value Handshaking = ''handshaking''"
| "ps_value Authenticating = ''authenticating''"
| "ps_value Online = ''online''"
| "ps_value Degraded = ''degraded''"

record peer_state =
  ps_node_id :: string
  ps_agent_name :: "string option"
  ps_address :: string
  ps_status :: peer_status
  ps_connected_at :: "time option"
  ps_last_seen :: "time option"
  ps_messages_sent :: int
  ps_messages_received :: int
  ps_last_error :: "string option"
  ps_latency_ms :: "real option"
  ps_pending_messages :: "json list"
  ps_identity_public :: "bytes option"
  ps_session_key :: "bytes option"
  ps_ephemeral_public :: "bytes option"
  ps_verified :: bool
  ps_prev_session_key :: "bytes option"
  ps_prev_epoch_key :: "string option"
  ps_rekey_transition_until :: time
  ps_x25519_identity_public :: "bytes option"
  ps_next_send_seq :: int
  ps_last_recv_seq :: int
  ps_hello_sig_scheme :: string
  ps_protocol_version :: string
  ps_supports_mesh :: bool
  ps_is_relay_capable :: bool
  ps_last_route_announce :: "time option"
  ps_capabilities :: "json list"
  ps_transport_type :: string
  ps_rns_dest_hash :: "string option"
  ps_ws_address :: "string option"
  ps_rns_announced_at :: "time option"
  ps_rns_capabilities :: "json list"
  ps_rns_features :: "json list"
  ps_rns_announced_version :: "string option"
  ps_rns_hops :: "int option"
  ps_rns_estimated_rtt_ms :: "real option"
  ps_rns_estimated_bps :: "real option"
  ps_rns_link_mtu :: "int option"
  ps_rns_link_mdu :: "int option"
  ps_rns_rssi :: "real option"
  ps_rns_snr :: "real option"
  ps_rns_q :: "real option"
  ps_session_rekey_count :: int
  ps_last_rekey_at :: "time option"
  ps_pending_rekey_private :: "bytes option"
  ps_pending_rekey_id :: "string option"
  ps_retries_total :: int
  ps_retries_by_reason :: "(string, int) dict"
  ps_bytes_sent_total :: int
  ps_bytes_received_total :: int
  ps_offline_since :: "time option"
  ps_long_drop_alerted :: bool

definition new_peer_state :: "string \<Rightarrow> string \<Rightarrow> peer_state" where
  "new_peer_state node_id address =
     \<lparr> ps_node_id = node_id, ps_agent_name = None, ps_address = address, ps_status = Offline,
       ps_connected_at = None, ps_last_seen = None, ps_messages_sent = 0, ps_messages_received = 0,
       ps_last_error = None, ps_latency_ms = None, ps_pending_messages = [],
       ps_identity_public = None, ps_session_key = None, ps_ephemeral_public = None, ps_verified = False,
       ps_prev_session_key = None, ps_prev_epoch_key = None, ps_rekey_transition_until = 0,
       ps_x25519_identity_public = None, ps_next_send_seq = 1, ps_last_recv_seq = 0,
       ps_hello_sig_scheme = ''unsigned'', ps_protocol_version = ''ironmesh/0.3'',
       ps_supports_mesh = False, ps_is_relay_capable = False, ps_last_route_announce = None,
       ps_capabilities = [], ps_transport_type = ''websocket'', ps_rns_dest_hash = None, ps_ws_address = None,
       ps_rns_announced_at = None, ps_rns_capabilities = [], ps_rns_features = [],
       ps_rns_announced_version = None, ps_rns_hops = None, ps_rns_estimated_rtt_ms = None,
       ps_rns_estimated_bps = None, ps_rns_link_mtu = None, ps_rns_link_mdu = None,
       ps_rns_rssi = None, ps_rns_snr = None, ps_rns_q = None, ps_session_rekey_count = 0,
       ps_last_rekey_at = None, ps_pending_rekey_private = None, ps_pending_rekey_id = None,
       ps_retries_total = 0, ps_retries_by_reason = [], ps_bytes_sent_total = 0, ps_bytes_received_total = 0,
       ps_offline_since = None, ps_long_drop_alerted = False \<rparr>"

definition ps_record_retry :: "string \<Rightarrow> peer_state \<Rightarrow> peer_state" where
  "ps_record_retry reason s = s\<lparr>ps_retries_total := ps_retries_total s + 1,
     ps_retries_by_reason := dset reason (dget_default 0 (ps_retries_by_reason s) reason + 1) (ps_retries_by_reason s)\<rparr>"

definition mark_authenticating :: "time \<Rightarrow> peer_state \<Rightarrow> peer_state" where
  "mark_authenticating now s = s\<lparr>ps_status := Authenticating, ps_last_seen := Some now\<rparr>"

definition mark_handshaking :: "time \<Rightarrow> peer_state \<Rightarrow> peer_state" where
  "mark_handshaking now s = s\<lparr>ps_status := Handshaking, ps_last_seen := Some now\<rparr>"

definition ps_transition :: "time \<Rightarrow> peer_status \<Rightarrow> peer_state \<Rightarrow> peer_state" where
  "ps_transition now new_status s0 =
    (let s = s0\<lparr>ps_status := new_status, ps_last_seen := Some now\<rparr> in
     if new_status = Online
     then s\<lparr>ps_connected_at := Some now, ps_offline_since := None, ps_long_drop_alerted := False\<rparr>
     else if new_status = Offline
     then (if ps_offline_since s = None then s\<lparr>ps_offline_since := Some now\<rparr> else s)
     else s)"

definition next_sequence :: "peer_state \<Rightarrow> int py \<times> peer_state" where
  "next_sequence s =
    (let sq = ps_next_send_seq s in
     if sq > 2 ^ 63 - 1
     then (Inl (RuntimeError ''Sequence number overflow'') , s)
     else (Inr sq, s\<lparr>ps_next_send_seq := ps_next_send_seq s + 1\<rparr>))"

text \<open>\<open>if self.connected_at\<close> is also false for 0.0.\<close>

definition ps_uptime :: "time \<Rightarrow> peer_state \<Rightarrow> real option" where
  "ps_uptime now s = (case ps_connected_at s of
     None \<Rightarrow> None | Some c \<Rightarrow> if c = 0 then None else Some (now - c))"

definition is_online :: "peer_state \<Rightarrow> bool" where
  "is_online s = (ps_status s = Online)"

definition jopt :: "('a \<Rightarrow> json) \<Rightarrow> 'a option \<Rightarrow> json" where
  "jopt f x = (case x of None \<Rightarrow> JNull | Some v \<Rightarrow> f v)"

definition peer_to_dict :: "crypto \<Rightarrow> time \<Rightarrow> peer_state \<Rightarrow> json" where
  "peer_to_dict C now s = JObj
    [(''node_id'', JStr (ps_node_id s)), (''name'', jopt JStr (ps_agent_name s)),
     (''address'', JStr (ps_address s)), (''status'', JStr (ps_value (ps_status s))),
     (''uptime'', jopt JFloat (ps_uptime now s)), (''messages_sent'', JInt (ps_messages_sent s)),
     (''messages_received'', JInt (ps_messages_received s)), (''verified'', JBool (ps_verified s)),
     (''pending_queue_size'', JInt (int (length (ps_pending_messages s)))),
     (''latency_ms'', jopt JFloat (ps_latency_ms s)), (''last_seen'', jopt JFloat (ps_last_seen s)),
     (''fingerprint'', (case ps_identity_public s of None \<Rightarrow> JNull
        | Some k \<Rightarrow> if k = [] then JNull else JStr (take 32 (hex_of (sha256 C k))))),
     (''transport_type'', JStr (ps_transport_type s)), (''rns_dest_hash'', jopt JStr (ps_rns_dest_hash s)),
     (''ws_address'', jopt JStr (ps_ws_address s)), (''rns_announced_at'', jopt JFloat (ps_rns_announced_at s)),
     (''rns_capabilities'', JArr (ps_rns_capabilities s)), (''rns_features'', JArr (ps_rns_features s)),
     (''rns_announced_version'', jopt JStr (ps_rns_announced_version s)), (''rns_hops'', jopt JInt (ps_rns_hops s)),
     (''rns_estimated_rtt_ms'', jopt JFloat (ps_rns_estimated_rtt_ms s)),
     (''rns_estimated_bps'', jopt JFloat (ps_rns_estimated_bps s)),
     (''rns_link_mtu'', jopt JInt (ps_rns_link_mtu s)), (''rns_link_mdu'', jopt JInt (ps_rns_link_mdu s)),
     (''rns_rssi'', jopt JFloat (ps_rns_rssi s)), (''rns_snr'', jopt JFloat (ps_rns_snr s)),
     (''rns_q'', jopt JFloat (ps_rns_q s)), (''bytes_sent_total'', JInt (ps_bytes_sent_total s)),
     (''bytes_received_total'', JInt (ps_bytes_received_total s)), (''retries_total'', JInt (ps_retries_total s)),
     (''retries_by_reason'', JObj (map (\<lambda>(k, n). (k, JInt n)) (ps_retries_by_reason s))),
     (''session_rekey_count'', JInt (ps_session_rekey_count s)),
     (''offline_since'', jopt JFloat (ps_offline_since s))]"


section \<open>The sender's counter\<close>

lemma next_sequence_Inr:
  "next_sequence s = (Inr n, s') \<longleftrightarrow> n = ps_next_send_seq s \<and> n < 2 ^ 63 \<and> s' = s\<lparr>ps_next_send_seq := n + 1\<rparr>"
  by (auto simp: next_sequence_def Let_def)

lemma next_sequence_Inl:
  "next_sequence s = (Inl e, s') \<Longrightarrow> s' = s"
  by (auto simp: next_sequence_def Let_def split: if_splits)

text \<open>What a connection does to its peer record between two sends.\<close>

datatype peer_event = TakeSequence | Transition time peer_status | Retry string | MarkAuthenticating time | MarkHandshaking time

fun peer_event_step :: "peer_event \<Rightarrow> peer_state \<Rightarrow> int option \<times> peer_state" where
  "peer_event_step TakeSequence s =
     (case next_sequence s of (Inr n, s') \<Rightarrow> (Some n, s') | (Inl _, s') \<Rightarrow> (None, s'))"
| "peer_event_step (Transition now st) s = (None, ps_transition now st s)"
| "peer_event_step (Retry r) s = (None, ps_record_retry r s)"
| "peer_event_step (MarkAuthenticating now) s = (None, mark_authenticating now s)"
| "peer_event_step (MarkHandshaking now) s = (None, mark_handshaking now s)"

lemma other_events_keep_counter [simp]:
  "ps_next_send_seq (ps_transition now st s) = ps_next_send_seq s"
  "ps_next_send_seq (ps_record_retry r s) = ps_next_send_seq s"
  "ps_next_send_seq (mark_authenticating now s) = ps_next_send_seq s"
  "ps_next_send_seq (mark_handshaking now s) = ps_next_send_seq s"
  by (simp_all add: ps_transition_def ps_record_retry_def mark_authenticating_def mark_handshaking_def Let_def)

lemma peer_event_ratchet:
  assumes "1 \<le> ps_next_send_seq s" "peer_event_step e s = (r, s')"
  shows "1 \<le> ps_next_send_seq s' \<and> ps_next_send_seq s \<le> ps_next_send_seq s'
    \<and> (\<forall>n. r = Some n \<longrightarrow> ps_next_send_seq s - 1 < n \<and> n \<le> ps_next_send_seq s' - 1 \<and> n < 2 ^ 63)"
proof (cases e)
  case TakeSequence
  obtain x s1 where st: "next_sequence s = (x, s1)" by (cases "next_sequence s")
  show ?thesis
  proof (cases x)
    case (Inl e)
    with st next_sequence_Inl [of s e s1] assms TakeSequence show ?thesis by simp
  next
    case (Inr n)
    with st next_sequence_Inr [of s n s1] assms TakeSequence show ?thesis by auto
  qed
qed (use assms in auto)

interpretation sender: ratchet peer_event_step "\<lambda>s. ps_next_send_seq s - 1" "\<lambda>s. 1 \<le> ps_next_send_seq s" "\<lambda>_. True"
  by unfold_locales (use peer_event_ratchet in fastforce)+

text \<open>A session never sends a sequence number twice, and none of them is zero: whatever the
  connection does between sends, the numbers \<open>next_sequence\<close> hands out are positive and
  strictly increasing, so every one of them passes the receiver's monotonic check in order.\<close>

lemma send_sequence_unique:
  assumes "1 \<le> ps_next_send_seq s"
  shows "sorted_wrt (<) (run_collect peer_event_step es s)
    \<and> distinct (run_collect peer_event_step es s)
    \<and> (\<forall>n \<in> set (run_collect peer_event_step es s). 0 < n)"
proof -
  have "\<forall>n \<in> set (run_collect peer_event_step es s). ps_next_send_seq s - 1 < n"
    using sender.collected_above [OF assms, of es] by simp
  with assms sender.collected_sorted [OF assms, of es] sender.collected_distinct [OF assms, of es]
  show ?thesis by fastforce
qed

section \<open>Peer status\<close>

lemma transition_facts:
  "ps_status (ps_transition now st s) = st"
  "ps_last_seen (ps_transition now st s) = Some now"
  "ps_offline_since (ps_transition now st s) =
     (if st = Online then None
      else if st = Offline then (case ps_offline_since s of None \<Rightarrow> Some now | Some t \<Rightarrow> Some t)
      else ps_offline_since s)"
  "ps_connected_at (ps_transition now st s) = (if st = Online then Some now else ps_connected_at s)"
  "ps_long_drop_alerted (ps_transition now st s) = (st \<noteq> Online \<and> ps_long_drop_alerted s)"
  by (auto simp: ps_transition_def Let_def split: option.splits)

fun run_transitions :: "(time \<times> peer_status) list \<Rightarrow> peer_state \<Rightarrow> peer_state" where
  "run_transitions [] s = s"
| "run_transitions ((now, st) # es) s = run_transitions es (ps_transition now st s)"

lemma drop_time_kept:
  "\<forall>e \<in> set es. snd e \<noteq> Online \<Longrightarrow> ps_offline_since s = Some t \<Longrightarrow> ps_offline_since (run_transitions es s) = Some t"
proof (induction es arbitrary: s)
  case (Cons e es)
  obtain now st where e: "e = (now, st)" by (cases e)
  have "ps_offline_since (ps_transition now st s) = Some t"
    using Cons.prems e by (auto simp: transition_facts)
  with Cons e show ?case by simp
qed simp

text \<open>The drop time is the time of the first drop. However a lost peer moves through its
  states, its \<open>offline_since\<close> stays the moment it first went offline until it is online
  again, and then it is cleared together with the long-drop alert.\<close>

lemma offline_since_first_drop:
  assumes "ps_offline_since s = None" "\<forall>e \<in> set es. snd e \<noteq> Online"
  shows "ps_offline_since (run_transitions es (ps_transition t0 Offline s)) = Some t0
    \<and> ps_offline_since (ps_transition t1 Online (run_transitions es (ps_transition t0 Offline s))) = None
    \<and> \<not> ps_long_drop_alerted (ps_transition t1 Online (run_transitions es (ps_transition t0 Offline s)))"
  using drop_time_kept [OF assms(2), of "ps_transition t0 Offline s" t0] assms(1)
  by (simp add: transition_facts)

end
