(* ===== verification/Rate_Limits.thy ===== *)
theory Rate_Limits
  imports Prelude
begin

text \<open>
  The token bucket of protocol.py and the two limits of ratelimit.py: the per-address
  window of authentication failures and the per-peer outbound bandwidth gate.
\<close>

section \<open>TokenBucket\<close>

record token_bucket =
  tb_rate :: real
  tb_burst :: int
  tb_tokens :: real
  tb_last_refill :: time

definition new_token_bucket :: "time \<Rightarrow> real \<Rightarrow> int \<Rightarrow> token_bucket" where
  "new_token_bucket now rate burst =
     \<lparr> tb_rate = rate, tb_burst = burst, tb_tokens = of_int burst, tb_last_refill = now \<rparr>"

definition tb_available :: "time \<Rightarrow> token_bucket \<Rightarrow> real" where
  "tb_available now b = min (of_int (tb_burst b)) (tb_tokens b + (now - tb_last_refill b) * tb_rate b)"

definition tb_consume :: "time \<Rightarrow> int \<Rightarrow> token_bucket \<Rightarrow> bool \<times> token_bucket" where
  "tb_consume now tokens b =
    (let b' = b\<lparr>tb_tokens := tb_available now b, tb_last_refill := now\<rparr> in
     if tb_tokens b' \<ge> of_int tokens then (True, b'\<lparr>tb_tokens := tb_tokens b' - of_int tokens\<rparr>) else (False, b'))"

text \<open>\<open>None\<close> is \<open>float("inf")\<close>.\<close>

definition tb_wait_time :: "time \<Rightarrow> int \<Rightarrow> token_bucket \<Rightarrow> real option" where
  "tb_wait_time now tokens b =
    (let available = tb_available now b in
     if available \<ge> of_int tokens then Some 0
     else if tb_rate b \<le> 0 then None
     else Some ((of_int tokens - available) / tb_rate b))"

definition bucket_ok :: "token_bucket \<Rightarrow> bool" where
  "bucket_ok b = (0 \<le> tb_rate b \<and> 0 \<le> tb_tokens b \<and> tb_tokens b \<le> of_int (tb_burst b))"

lemma new_token_bucket_ok: "0 \<le> rate \<Longrightarrow> 0 \<le> burst \<Longrightarrow> bucket_ok (new_token_bucket now rate burst)"
  by (simp add: bucket_ok_def new_token_bucket_def)

lemma tb_consume_facts:
  assumes "tb_consume now n b = (ok, b')"
  shows "ok \<longleftrightarrow> of_int n \<le> tb_available now b"
    "tb_tokens b' = tb_available now b - (if ok then of_int n else 0)"
    "tb_last_refill b' = now" "tb_rate b' = tb_rate b" "tb_burst b' = tb_burst b"
  using assms by (auto simp: tb_consume_def Let_def split: if_splits)

lemma tb_consume_ok:
  assumes "bucket_ok b" "0 \<le> n" "tb_last_refill b \<le> now" "tb_consume now n b = (ok, b')"
  shows "bucket_ok b'"
proof -
  have e: "0 \<le> (now - tb_last_refill b) * tb_rate b" using assms(1,3) by (simp add: bucket_ok_def)
  then have "0 \<le> tb_available now b" using assms(1) by (simp add: bucket_ok_def tb_available_def)
  then show ?thesis
    using assms(1,2) tb_consume_facts [OF assms(4)] by (auto simp: bucket_ok_def tb_available_def)
qed

text \<open>A run of requests, each at its time: what is granted in all.\<close>

fun consume_all :: "(time \<times> int) list \<Rightarrow> token_bucket \<Rightarrow> int \<times> token_bucket" where
  "consume_all [] b = (0, b)"
| "consume_all ((now, n) # rs) b =
     (case tb_consume now n b of (ok, b1) \<Rightarrow>
        (case consume_all rs b1 of (g, b2) \<Rightarrow> ((if ok then n else 0) + g, b2)))"

lemma consume_all_potential:
  "bucket_ok b \<Longrightarrow> sorted (map fst rs) \<Longrightarrow> \<forall>r \<in> set rs. 0 \<le> snd r \<and> tb_last_refill b \<le> fst r \<and> fst r \<le> t \<Longrightarrow>
   tb_last_refill b \<le> t \<Longrightarrow>
   of_int (fst (consume_all rs b)) \<le> tb_tokens b + (t - tb_last_refill b) * tb_rate b"
proof (induction rs arbitrary: b)
  case Nil
  then show ?case by (simp add: bucket_ok_def)
next
  case (Cons r rs)
  obtain now n where r: "r = (now, n)" by (cases r)
  obtain ok b1 where c: "tb_consume now n b = (ok, b1)" by (cases "tb_consume now n b")
  note f = tb_consume_facts [OF c]
  have n: "0 \<le> n" "tb_last_refill b \<le> now" "now \<le> t" using Cons.prems(3) r by auto
  have "of_int (fst (consume_all rs b1)) \<le> tb_tokens b1 + (t - now) * tb_rate b"
    using Cons.IH [OF tb_consume_ok [OF Cons.prems(1) n(1,2) c]] Cons.prems r n f by auto
  moreover have "tb_tokens b1 + (if ok then of_int n else 0) \<le> tb_tokens b + (now - tb_last_refill b) * tb_rate b"
    using f by (simp add: tb_available_def)
  ultimately show ?case
    by (auto simp: r c algebra_simps split: prod.splits)
qed

text \<open>C30: the token bucket is a rate limit. Over any sequence of requests at non-decreasing times
  the tokens granted by time \<open>t\<close> never exceed what was in the bucket plus the rate times the
  elapsed time, hence at most the burst plus rate times time.\<close>

theorem token_bucket_rate_bound:
  assumes "bucket_ok b" "sorted (map fst rs)"
    and "\<forall>r \<in> set rs. 0 \<le> snd r \<and> tb_last_refill b \<le> fst r \<and> fst r \<le> t" "tb_last_refill b \<le> t"
  shows "of_int (fst (consume_all rs b)) \<le> of_int (tb_burst b) + (t - tb_last_refill b) * tb_rate b"
  using consume_all_potential [OF assms] assms(1) by (simp add: bucket_ok_def)

theorem token_bucket_rate_bound_witness:
  "of_int (fst (consume_all [(1, 3), (1, 2), (2, 2)] (new_token_bucket 0 1 4))) \<le> (4 + (2 - 0) * 1 :: real)"
  using token_bucket_rate_bound [OF new_token_bucket_ok [of 1 4 0], of "[(1, 3), (1, 2), (2, 2)]" 2]
  by (simp add: new_token_bucket_def)

text \<open>\<open>wait_time\<close> is exact. For a request that fits the burst, waiting the returned number
  of seconds is enough for \<open>consume\<close> to succeed, and any shorter wait is not.\<close>

lemma wait_time_exact:
  assumes "0 < tb_rate b" "n \<le> tb_burst b" "tb_wait_time now n b = Some w"
  shows "0 \<le> w \<and> fst (tb_consume (now + w) n b) \<and> (\<forall>v. 0 \<le> v \<longrightarrow> v < w \<longrightarrow> \<not> fst (tb_consume (now + v) n b))"
proof (cases "of_int n \<le> tb_available now b")
  case True
  then show ?thesis using assms(3) by (simp add: tb_wait_time_def tb_consume_def Let_def)
next
  case False
  define a where "a = tb_tokens b + (now - tb_last_refill b) * tb_rate b"
  have a: "tb_available now b = a" "a < of_int n"
    using False assms(2) by (auto simp: tb_available_def a_def min_def split: if_splits)
  have shift: "tb_available (now + v) b = min (of_int (tb_burst b)) (a + v * tb_rate b)" for v
    by (simp add: tb_available_def a_def algebra_simps)
  have w: "w = (of_int n - a) / tb_rate b"
    using assms(1,3) a by (simp add: tb_wait_time_def Let_def)
  have "a + w * tb_rate b = of_int n" using assms(1) w by simp
  moreover have "a + v * tb_rate b < of_int n" if "v < w" for v
    using that assms(1) w by (simp add: pos_less_divide_eq)
  moreover have "0 \<le> w" using w a assms(1) by simp
  ultimately show ?thesis
    using assms(2) by (auto simp: tb_consume_def Let_def shift) (metis linorder_not_less)
qed

section \<open>ratelimit.py: failed authentications\<close>

record auth_limits =
  al_max_failures :: nat
  al_failure_window :: real
  al_block_duration :: real

text \<open>The values \<open>BridgeDaemon.__init__\<close> sets.\<close>

definition default_auth_limits :: auth_limits where
  "default_auth_limits = \<lparr> al_max_failures = 3, al_failure_window = 300, al_block_duration = 300 \<rparr>"

type_synonym auth_failures = "(string, time list) dict"

definition recent_failures :: "auth_limits \<Rightarrow> time \<Rightarrow> time list \<Rightarrow> time list" where
  "recent_failures L now failures = filter (\<lambda>t. now - t < al_failure_window L) failures"

definition is_ip_blocked :: "auth_limits \<Rightarrow> time \<Rightarrow> string \<Rightarrow> auth_failures \<Rightarrow> bool \<times> auth_failures" where
  "is_ip_blocked L now ip fs =
    (let recent = recent_failures L now (dget_default [] fs ip);
         fs' = dset ip recent fs in
     (length recent \<ge> al_max_failures L \<and> recent \<noteq> [] \<and> now - last recent < al_block_duration L, fs'))"

text \<open>The audit entries a failure writes: always a failure entry, and a block entry from the limit on.\<close>

datatype auth_audit = AuthFailure string nat | AuthBlocked string real

definition record_auth_failure :: "auth_limits \<Rightarrow> time \<Rightarrow> string \<Rightarrow> auth_failures \<Rightarrow> auth_audit list \<times> auth_failures" where
  "record_auth_failure L now ip fs =
    (let failures = dget_default [] fs ip @ [now]; count = length failures in
     (AuthFailure ip count # (if count \<ge> al_max_failures L then [AuthBlocked ip (al_block_duration L)] else []),
      dset ip failures fs))"

definition clear_ip_auth_history :: "string \<Rightarrow> auth_failures \<Rightarrow> bool \<times> auth_failures" where
  "clear_ip_auth_history ip fs = (dget_default [] fs ip \<noteq> [], dpop ip fs)"

lemma is_ip_blocked_other: "ip' \<noteq> ip \<Longrightarrow> dget (snd (is_ip_blocked L now ip fs)) ip' = dget fs ip'"
  by (simp add: is_ip_blocked_def Let_def)

lemma record_auth_failure_get:
  "dget (snd (record_auth_failure L now ip fs)) ip' =
     (if ip' = ip then Some (dget_default [] fs ip @ [now]) else dget fs ip')"
  by (simp add: record_auth_failure_def Let_def)

text \<open>Failures recorded one after the other.\<close>

fun record_all :: "auth_limits \<Rightarrow> string \<Rightarrow> time list \<Rightarrow> auth_failures \<Rightarrow> auth_failures" where
  "record_all L ip [] fs = fs"
| "record_all L ip (t # ts) fs = record_all L ip ts (snd (record_auth_failure L t ip fs))"

lemma record_all_get: "dget_default [] (record_all L ip ts fs) ip = dget_default [] fs ip @ ts"
  by (induction ts arbitrary: fs) (simp_all add: record_auth_failure_get)

lemma recent_failures_twice:
  "now \<le> now' \<Longrightarrow> recent_failures L now' (recent_failures L now fs) = recent_failures L now' fs"
  by (induction fs) (auto simp: recent_failures_def)

text \<open>An address is blocked exactly while enough of its failures are inside the window.
  With the daemon's limits, after failures recorded at non-decreasing times a fresh address is
  refused at time \<open>now\<close> if and only if at least three of them are less than 300 seconds old.
  Checking prunes the history and never changes a later answer; clearing lifts the block.\<close>

lemma auth_block_iff:
  fixes ts :: "time list"
  assumes "dget fs ip = None" "now \<le> now'"
  defines "fs1 \<equiv> record_all default_auth_limits ip ts fs"
  shows "(fst (is_ip_blocked default_auth_limits now ip fs1) \<longleftrightarrow> 3 \<le> length (filter (\<lambda>t. now - t < 300) ts))
    \<and> fst (is_ip_blocked default_auth_limits now' ip (snd (is_ip_blocked default_auth_limits now ip fs1)))
        = fst (is_ip_blocked default_auth_limits now' ip fs1)
    \<and> \<not> fst (is_ip_blocked default_auth_limits now ip (snd (clear_ip_auth_history ip fs1)))"
proof -
  have h: "dget_default [] fs1 ip = ts"
    using record_all_get [of default_auth_limits ip ts fs] assms(1) by (simp add: fs1_def)
  have l: "now - last (filter (\<lambda>t. now - t < 300) ts) < 300" if "filter (\<lambda>t. now - t < 300) ts \<noteq> []"
    using last_in_set [OF that] by simp
  have 1: "fst (is_ip_blocked default_auth_limits now ip fs1) \<longleftrightarrow> 3 \<le> length (filter (\<lambda>t. now - t < 300) ts)"
    using l unfolding is_ip_blocked_def Let_def h
    by (cases "filter (\<lambda>t. now - t < 300) ts = []") (simp_all add: recent_failures_def default_auth_limits_def)
  have 2: "fst (is_ip_blocked default_auth_limits now' ip (snd (is_ip_blocked default_auth_limits now ip fs1)))
        = fst (is_ip_blocked default_auth_limits now' ip fs1)"
    using recent_failures_twice [OF assms(2)] by (simp add: is_ip_blocked_def Let_def)
  show ?thesis
    using 1 2 by (simp add: clear_ip_auth_history_def is_ip_blocked_def Let_def recent_failures_def default_auth_limits_def)
qed

text \<open>The block can end long before its five minutes. Three failures at 0, 200 and 299 seconds
  block the address, the audit log announces a 300 second block, and two seconds later the
  address is admitted again, because the oldest failure has left the counting window.\<close>

lemma auth_block_ends_early:
  "let fs = record_all default_auth_limits ip [0, 200, 299] [] in
     fst (is_ip_blocked default_auth_limits 299 ip fs)
   \<and> AuthBlocked ip 300 \<in> set (fst (record_auth_failure default_auth_limits 299 ip
        (record_all default_auth_limits ip [0, 200] [])))
   \<and> \<not> fst (is_ip_blocked default_auth_limits 301 ip fs)"
  by (simp add: Let_def is_ip_blocked_def record_auth_failure_def recent_failures_def default_auth_limits_def)

section \<open>ratelimit.py: the bandwidth gate\<close>

record bandwidth_gate =
  bg_rate :: int
  bg_burst :: int
  bg_max_wait :: real
  bg_limiters :: "(node_id, token_bucket) dict"
  bg_drops :: int

text \<open>
  \<open>_gate_peer_bandwidth\<close> up to its \<open>await\<close> and after it: between the two other coroutines
  may run. \<open>gate_open\<close> decides with the clock reading \<open>now\<close>; \<open>gate_charge\<close> consumes the
  cost and ignores whether that succeeded.
\<close>

datatype gate_decision = Refuse | AdmitFree | Admit real int

definition gate_bucket :: "time \<Rightarrow> node_id \<Rightarrow> bandwidth_gate \<Rightarrow> token_bucket \<times> bandwidth_gate" where
  "gate_bucket now peer g = (case dget (bg_limiters g) peer of
     Some b \<Rightarrow> (b, g)
   | None \<Rightarrow> let b = new_token_bucket now (of_int (bg_rate g)) (bg_burst g) in
       (b, g\<lparr>bg_limiters := dset peer b (bg_limiters g)\<rparr>))"

definition gate_open :: "time \<Rightarrow> node_id \<Rightarrow> int \<Rightarrow> bandwidth_gate \<Rightarrow> gate_decision \<times> bandwidth_gate" where
  "gate_open now peer n_bytes g =
    (if bg_rate g \<le> 0 then (AdmitFree, g)
     else case gate_bucket now peer g of (b, g1) \<Rightarrow>
       let cost = min n_bytes (tb_burst b) in
       case tb_wait_time now cost b of
         None \<Rightarrow> (Refuse, g1\<lparr>bg_drops := bg_drops g1 + 1\<rparr>)
       | Some w \<Rightarrow>
           if w > bg_max_wait g1 then (Refuse, g1\<lparr>bg_drops := bg_drops g1 + 1\<rparr>)
           else (Admit w cost, g1))"

definition gate_charge :: "time \<Rightarrow> node_id \<Rightarrow> int \<Rightarrow> bandwidth_gate \<Rightarrow> bool \<times> bandwidth_gate" where
  "gate_charge now peer cost g = (case dget (bg_limiters g) peer of
     None \<Rightarrow> (False, g)
   | Some b \<Rightarrow> (case tb_consume now cost b of (ok, b') \<Rightarrow> (ok, g\<lparr>bg_limiters := dset peer b' (bg_limiters g)\<rparr>)))"

text \<open>The whole call when nothing else runs during the sleep: the admission result.\<close>

definition gate_peer_bandwidth ::
  "time \<Rightarrow> time \<Rightarrow> node_id \<Rightarrow> int \<Rightarrow> bandwidth_gate \<Rightarrow> bool \<times> bandwidth_gate" where
  "gate_peer_bandwidth now later peer n_bytes g = (case gate_open now peer n_bytes g of
     (Refuse, g1) \<Rightarrow> (False, g1)
   | (AdmitFree, g1) \<Rightarrow> (True, g1)
   | (Admit w cost, g1) \<Rightarrow> (True, snd (gate_charge later peer cost g1)))"

lemma gate_bucket_get:
  "gate_bucket now peer g = (b, g1) \<Longrightarrow> dget (bg_limiters g1) peer = Some b \<and> bg_max_wait g1 = bg_max_wait g"
  by (auto simp: gate_bucket_def Let_def split: option.splits)

lemma gate_open_Admit:
  assumes "gate_open now peer n g = (Admit w cost, g1)"
  shows "\<exists>b. dget (bg_limiters g1) peer = Some b \<and> cost = min n (tb_burst b) \<and> tb_wait_time now cost b = Some w
    \<and> w \<le> bg_max_wait g \<and> gate_bucket now peer g = (b, g1)"
  using assms by (auto simp: gate_open_def Let_def gate_bucket_get split: if_splits prod.splits option.splits)

text \<open>An undisturbed admission is paid for. If the gate admits bytes after a wait and nothing
  else uses the peer's bucket during the sleep, then after sleeping the wait the charge
  succeeds, and the wait is within the ceiling.\<close>

lemma gate_admission_charged:
  assumes "gate_open now peer n g = (Admit w cost, g1)"
    and "\<forall>b. dget (bg_limiters g1) peer = Some b \<longrightarrow> 0 < tb_rate b"
  shows "fst (gate_charge (now + w) peer cost g1) \<and> w \<le> bg_max_wait g"
proof -
  obtain b where b: "dget (bg_limiters g1) peer = Some b" "cost = min n (tb_burst b)"
      "tb_wait_time now cost b = Some w" "w \<le> bg_max_wait g"
    using gate_open_Admit [OF assms(1)] by blast
  have "fst (tb_consume (now + w) cost b)"
    using wait_time_exact [of b cost now w] b assms(2) by simp
  with b show ?thesis by (cases "tb_consume (now + w) cost b") (simp add: gate_charge_def)
qed

definition sample_gate :: bandwidth_gate where
  "sample_gate = \<lparr> bg_rate = 10, bg_burst = 10, bg_max_wait = 5,
     bg_limiters = [(''p'', \<lparr> tb_rate = 10, tb_burst = 10, tb_tokens = 0, tb_last_refill = 0 \<rparr>)], bg_drops = 0 \<rparr>"

lemma sample_gate_open: "gate_open 0 ''p'' 10 sample_gate = (Admit 1 10, sample_gate)"
  by (simp add: sample_gate_def gate_open_def gate_bucket_def Let_def tb_wait_time_def tb_available_def)

text \<open>
  With two coroutines the second admission is free: both see the empty bucket, both are told
  to wait one second, the first charge empties the refill and the second one fails unseen.
\<close>

lemma gate_double_admission:
  "let g = sample_gate;
       (d1, g1) = gate_open 0 ''p'' 10 g; (d2, g2) = gate_open 0 ''p'' 10 g1;
       (c1, g3) = gate_charge 1 ''p'' 10 g2; (c2, g4) = gate_charge 1 ''p'' 10 g3 in
     d1 = Admit 1 10 \<and> d2 = Admit 1 10 \<and> c1 \<and> \<not> c2"
  by (simp add: sample_gate_open) (simp add: sample_gate_def gate_charge_def tb_consume_def tb_available_def Let_def)

end
