(* ===== verification/Sending.thy ===== *)
theory Sending
  imports Peers Rate_Limits
begin

text \<open>
  routing.py, the outbound side: \<open>_send_frame\<close>, \<open>_send_encrypted_control\<close> and
  \<open>_flush_pending\<close>, over the part of the daemon they use.

  Everything the environment decides is an argument: the nonce of the secret box, the two
  clocks, and what \<open>ws.send\<close> does. The wire is the list of byte strings handed to a
  connection whose send did not fail.
\<close>

record link =
  l_node_id :: node_id
  l_sign_key :: bytes
  l_peers :: "(node_id, peer_state) dict"
  l_ws_clients :: "node_id list"
  l_gate :: bandwidth_gate
  l_bytes_sent :: int
  l_wire :: "(node_id \<times> bytes) list"

datatype send_outcome = SendOk | SendTimeout | SendRaises

record send_env =
  se_nonce :: bytes
  se_wall :: time
  se_mono :: time
  se_mono_later :: time
  se_outcome :: send_outcome

definition set_peer :: "node_id \<Rightarrow> peer_state \<Rightarrow> link \<Rightarrow> link" where
  "set_peer p s d = d\<lparr>l_peers := dset p s (l_peers d)\<rparr>"

text \<open>\<open>ws_clients.pop\<close>, \<open>transition(OFFLINE)\<close>, \<open>session_key = None\<close>.\<close>

definition mark_link_offline :: "time \<Rightarrow> node_id \<Rightarrow> link \<Rightarrow> link" where
  "mark_link_offline now p d0 =
    (let d = d0\<lparr>l_ws_clients := removeAll p (l_ws_clients d0)\<rparr> in
     case dget (l_peers d) p of
       None \<Rightarrow> d
     | Some s \<Rightarrow> set_peer p ((ps_transition now Offline s)\<lparr>ps_session_key := None\<rparr>) d)"

text \<open>The outer \<open>except\<close>: a peer that is online goes offline, otherwise nothing.\<close>

definition send_failed :: "time \<Rightarrow> node_id \<Rightarrow> link \<Rightarrow> link" where
  "send_failed now p d = (case dget (l_peers d) p of
     None \<Rightarrow> d | Some s \<Rightarrow> if is_online s then mark_link_offline now p d else d)"

text \<open>
  \<open>_send_frame\<close>. The result is the exception that leaves it, if any, and the daemon after.
  Only \<open>next_sequence\<close> is outside the \<open>try\<close>.
\<close>

definition send_frame :: "crypto \<Rightarrow> float_io \<Rightarrow> send_env \<Rightarrow> node_id \<Rightarrow> frame \<Rightarrow> link \<Rightarrow> py_error option \<times> link" where
  "send_frame C io env p f d =
    (if p \<notin> set (l_ws_clients d) then (None, d)
     else case dget (l_peers d) p of
       None \<Rightarrow> (None, d)
     | Some s0 \<Rightarrow>
         (case ps_session_key s0 of
            None \<Rightarrow> (None, d)
          | Some key \<Rightarrow>
              if key = [] then (None, d)
              else case next_sequence s0 of
                (Inl e, _) \<Rightarrow> (Some e, d)
              | (Inr sq, s1) \<Rightarrow>
                  let d1 = set_peer p s1 d;
                      f1 = f\<lparr>f_sequence := sq\<rparr>;
                      source_key = (if f_source f = l_node_id d \<and> f_source_signature f = None
                                    then Some (l_sign_key d) else None) in
                  (case encrypt_and_serialize C io (se_nonce env) key (Some (l_sign_key d)) source_key f1 of
                     Inl _ \<Rightarrow> (None, send_failed (se_wall env) p d1)
                   | Inr (f2, raw) \<Rightarrow>
                       (case gate_peer_bandwidth (se_mono env) (se_mono_later env) p (int (length raw)) (l_gate d1) of
                          (admitted, gate) \<Rightarrow>
                            let d2 = d1\<lparr>l_gate := gate\<rparr> in
                            if \<not> admitted then (None, set_peer p (ps_record_retry ''bandwidth_throttled'' s1) d2)
                            else case se_outcome env of
                              SendOk \<Rightarrow> (None, d2\<lparr>l_bytes_sent := l_bytes_sent d2 + int (length raw),
                                               l_wire := l_wire d2 @ [(p, raw)]\<rparr>)
                            | SendTimeout \<Rightarrow> (None, mark_link_offline (se_wall env) p d2)
                            | SendRaises \<Rightarrow> (None, send_failed (se_wall env) p d2)))))"

definition send_encrypted_control ::
  "crypto \<Rightarrow> float_io \<Rightarrow> send_env \<Rightarrow> string \<Rightarrow> node_id \<Rightarrow> string \<Rightarrow> (string \<times> json) list \<Rightarrow> link \<Rightarrow> py_error option \<times> link" where
  "send_encrypted_control C io env rand_id p msg_type extra_fields d =
    (let control = fold (\<lambda>(k, v) b. dset k v b) extra_fields
                     [(''type'', JStr msg_type), (''from'', JStr (l_node_id d))];
         payload = utf8 (dumps_compact io (JObj control)) in
     send_frame C io env p
       (new_frame (se_wall env) rand_id msg_type payload None (l_node_id d) ''*'' (JStr (mp_value NORMAL)) 0) d)"

section \<open>The offline queue\<close>

record pending_msg =
  pm_msg_id :: string
  pm_source :: string
  pm_msg_type :: string
  pm_payload :: bytes
  pm_priority :: string

record flush_state =
  fl_link :: link
  fl_delivered :: "string list"
  fl_messages_sent :: int
  fl_messages_delivered :: int

text \<open>One pass of the loop: send, mark delivered, count.\<close>

definition flush_one ::
  "crypto \<Rightarrow> float_io \<Rightarrow> send_env \<Rightarrow> string \<Rightarrow> node_id \<Rightarrow> pending_msg \<Rightarrow> flush_state \<Rightarrow> bool \<times> flush_state" where
  "flush_one C io env rand_id p m st =
    (let f = new_frame (se_wall env) rand_id (pm_msg_type m) (pm_payload m) None (pm_source m) p (JStr (pm_priority m)) 0 in
     case send_frame C io env p f (fl_link st) of
       (Some e, d) \<Rightarrow> (False, st\<lparr>fl_link := d\<rparr>)
     | (None, d) \<Rightarrow>
         let d' = (case dget (l_peers d) p of None \<Rightarrow> d
                   | Some s \<Rightarrow> set_peer p (s\<lparr>ps_messages_sent := ps_messages_sent s + 1,
                        ps_bytes_sent_total := ps_bytes_sent_total s + int (length (pm_payload m))\<rparr>) d) in
         (True, \<lparr> fl_link = d', fl_delivered = fl_delivered st @ [pm_msg_id m],
            fl_messages_sent = fl_messages_sent st + 1, fl_messages_delivered = fl_messages_delivered st + 1 \<rparr>))"

text \<open>The loop over the pending messages; an exception ends it.\<close>

fun flush_pending ::
  "crypto \<Rightarrow> float_io \<Rightarrow> (nat \<Rightarrow> send_env \<times> string) \<Rightarrow> node_id \<Rightarrow> pending_msg list \<Rightarrow> flush_state \<Rightarrow> flush_state" where
  "flush_pending C io envs p [] st = st"
| "flush_pending C io envs p (m # ms) st =
     (case flush_one C io (fst (envs (length ms))) (snd (envs (length ms))) p m st of
        (ok, st') \<Rightarrow> if ok then flush_pending C io envs p ms st' else st')"

section \<open>What a send can do\<close>

lemma set_peer_get [simp]: "dget (l_peers (set_peer p s d)) q = (if q = p then Some s else dget (l_peers d) q)"
  by (simp add: set_peer_def)

lemma set_peer_params [simp]:
  "l_node_id (set_peer p s d) = l_node_id d" "l_wire (set_peer p s d) = l_wire d"
  "l_ws_clients (set_peer p s d) = l_ws_clients d" "l_gate (set_peer p s d) = l_gate d"
  "l_sign_key (set_peer p s d) = l_sign_key d"
  by (simp_all add: set_peer_def)

lemma mark_link_offline_params [simp]:
  "l_node_id (mark_link_offline now p d) = l_node_id d" "l_wire (mark_link_offline now p d) = l_wire d"
  "l_ws_clients (mark_link_offline now p d) = removeAll p (l_ws_clients d)"
  by (simp_all add: mark_link_offline_def Let_def split: option.splits)

lemma mark_link_offline_other: "q \<noteq> p \<Longrightarrow> dget (l_peers (mark_link_offline now p d)) q = dget (l_peers d) q"
  by (simp add: mark_link_offline_def Let_def split: option.splits)

lemma send_failed_params [simp]:
  "l_node_id (send_failed now p d) = l_node_id d" "l_wire (send_failed now p d) = l_wire d"
  by (simp_all add: send_failed_def split: option.splits)

lemma send_failed_other: "q \<noteq> p \<Longrightarrow> dget (l_peers (send_failed now p d)) q = dget (l_peers d) q"
  by (simp add: send_failed_def mark_link_offline_other split: option.splits)

text \<open>A peer that can be sent to: connected, known, with a session key.\<close>

definition sendable :: "node_id \<Rightarrow> link \<Rightarrow> bool" where
  "sendable p d = (p \<in> set (l_ws_clients d) \<and>
     (\<exists>s key. dget (l_peers d) p = Some s \<and> ps_session_key s = Some key \<and> key \<noteq> []))"

lemma send_frame_not_sendable: "\<not> sendable p d \<Longrightarrow> send_frame C io env p f d = (None, d)"
  by (auto simp: send_frame_def sendable_def split: option.splits)

lemma send_frame_cases:
  assumes "send_frame C io env p f d = (r, d')"
  obtains (idle) "r = None" "d' = d"
  | (overflow) e where "r = Some e" "d' = d"
  | (sent) "r = None" "sendable p d" "\<forall>q. q \<noteq> p \<longrightarrow> dget (l_peers d') q = dget (l_peers d) q"
      "l_node_id d' = l_node_id d" "l_wire d' = l_wire d \<or> (\<exists>raw. l_wire d' = l_wire d @ [(p, raw)])"
proof (cases "sendable p d")
  case False
  then show ?thesis using assms send_frame_not_sendable idle by auto
next
  case True
  then obtain s key where s: "dget (l_peers d) p = Some s" "ps_session_key s = Some key" "key \<noteq> []" "p \<in> set (l_ws_clients d)"
    by (auto simp: sendable_def)
  obtain x s1 where n: "next_sequence s = (x, s1)" by (cases "next_sequence s")
  show ?thesis
  proof (cases x)
    case (Inl e)
    then show ?thesis using assms s n overflow [of e] by (auto simp: send_frame_def)
  next
    case (Inr sq)
    have "r = None \<and> (\<forall>q. q \<noteq> p \<longrightarrow> dget (l_peers d') q = dget (l_peers d) q)
      \<and> l_node_id d' = l_node_id d \<and> (l_wire d' = l_wire d \<or> (\<exists>raw. l_wire d' = l_wire d @ [(p, raw)]))"
      using assms s n Inr
      by (auto simp: send_frame_def Let_def mark_link_offline_other send_failed_other
          split: sum.splits prod.splits if_splits send_outcome.splits)
    with True sent show ?thesis by blast
  qed
qed

text \<open>What reached the wire is a sealed frame under the peer's session key with a fresh sequence.\<close>

lemma send_frame_wire:
  assumes "send_frame C io env p f d = (r, d')" "l_wire d' = l_wire d @ [(p, raw)]"
  shows "\<exists>s key sq s1 f2. dget (l_peers d) p = Some s \<and> ps_session_key s = Some key \<and> next_sequence s = (Inr sq, s1)
    \<and> encrypt_and_serialize C io (se_nonce env) key (Some (l_sign_key d))
        (if f_source f = l_node_id d \<and> f_source_signature f = None then Some (l_sign_key d) else None)
        (f\<lparr>f_sequence := sq\<rparr>) = Inr (f2, raw)"
proof -
  have "sendable p d" using assms send_frame_not_sendable by fastforce
  then obtain s key where s: "dget (l_peers d) p = Some s" "ps_session_key s = Some key" "key \<noteq> []" "p \<in> set (l_ws_clients d)"
    by (auto simp: sendable_def)
  obtain x s1 where n: "next_sequence s = (x, s1)" by (cases "next_sequence s")
  then obtain sq where sq: "x = Inr sq" using assms s by (cases x) (auto simp: send_frame_def)
  let ?e = "encrypt_and_serialize C io (se_nonce env) key (Some (l_sign_key d))
        (if f_source f = l_node_id d \<and> f_source_signature f = None then Some (l_sign_key d) else None)
        (f\<lparr>f_sequence := sq\<rparr>)"
  show ?thesis
  proof (cases ?e)
    case (Inl e)
    with assms s n sq show ?thesis by (auto simp: send_frame_def Let_def)
  next
    case (Inr fr)
    obtain f2 raw' where fr: "fr = (f2, raw')" by (cases fr)
    have "raw' = raw"
      using assms s n sq Inr fr
      by (auto simp: send_frame_def Let_def split: prod.splits if_splits send_outcome.splits)
    with s n sq Inr fr show ?thesis by blast
  qed
qed

text \<open>C3: what one daemon puts on the wire, the other daemon reads. If a send of a well-formed
  frame reaches the wire, the receiver holding the same session key and the sender's identity
  key opens exactly that frame, carrying the sender's next sequence number, with the sender's
  inner signature when the sender is the source.\<close>

theorem sent_frame_is_received:
  assumes "secretbox_ok C" "ed25519_ok C" "sha256_ok C"
    and "frame_ok f" "frame_printable io f" "f_flags f = priority_flags (f_priority f)"
    and "send_frame C io env p f d = (r, d')" "l_wire d' = l_wire d @ [(p, raw)]"
    and "dget (l_peers d) p = Some s" "ps_session_key s = Some key" "1 \<le> ps_next_send_seq s"
  shows "\<exists>g. deserialize_and_decrypt C io now rid raw key (Some (ed_public C (l_sign_key d))) None = Inr g
    \<and> f_sequence g = ps_next_send_seq s \<and> f_payload g = f_payload f \<and> f_msg_id g = f_msg_id f
    \<and> f_source g = f_source f \<and> f_destination g = f_destination f
    \<and> (f_source f = l_node_id d \<longrightarrow> f_source_signature f = None \<longrightarrow> f_source_signature g \<noteq> None \<longrightarrow>
         verify_source_signature C (ed_public C (l_sign_key d)) False g = Inr True)"
proof -
  let ?sk = "if f_source f = l_node_id d \<and> f_source_signature f = None then Some (l_sign_key d) else None"
  obtain sq s1 f2 where n: "next_sequence s = (Inr sq, s1)"
    and ser: "encrypt_and_serialize C io (se_nonce env) key (Some (l_sign_key d)) ?sk (f\<lparr>f_sequence := sq\<rparr>) = Inr (f2, raw)"
    using send_frame_wire [OF assms(7,8)] assms(9,10) by auto
  have sq: "sq = ps_next_send_seq s" using n by (simp add: next_sequence_Inr)
  let ?f = "f\<lparr>f_sequence := sq\<rparr>"
  have ok: "frame_ok ?f" "frame_printable io ?f" "f_flags ?f = priority_flags (f_priority ?f)"
    using assms(4-6,11) sq by (simp_all add: frame_ok_def frame_printable_def)
  obtain g where g: "sign_inner_source C ?sk ?f = Inr g"
    "deserialize_and_decrypt C io now rid raw key (map_option (ed_public C) (Some (l_sign_key d))) None = Inr g"
    using sealed_frame_reads_back [OF assms(1-3) ok ser] by blast
  have sig: "verify_source_signature C (ed_public C (l_sign_key d)) False g = Inr True"
    if "f_source f = l_node_id d" "f_source_signature f = None" "f_source_signature g \<noteq> None"
    using sign_inner_source_verifies [OF _ _ assms(2), of "l_sign_key d" ?f g False] g(1) that by simp
  show ?thesis
    using g sign_inner_source_keeps [OF g(1)] sq sig by auto
qed

text \<open>A relay named carol with a session to bob, whose counter stands at 7.\<close>

definition sample_link :: link where
  "sample_link = \<lparr> l_node_id = ''carol'', l_sign_key = [2],
     l_peers = [(''bob'', (new_peer_state ''bob'' [])\<lparr>ps_session_key := Some [1], ps_next_send_seq := 7\<rparr>)],
     l_ws_clients = [''bob''],
     l_gate = \<lparr> bg_rate = 0, bg_burst = 0, bg_max_wait = 0, bg_limiters = [], bg_drops = 0 \<rparr>,
     l_bytes_sent = 0, l_wire = [] \<rparr>"

definition sample_env :: send_env where
  "sample_env = \<lparr> se_nonce = [], se_wall = 0, se_mono = 0, se_mono_later = 0, se_outcome = SendOk \<rparr>"

lemma sample_send:
  "\<exists>raw d'. send_frame sample_crypto sample_io sample_env ''bob'' sample_frame sample_link = (None, d')
     \<and> l_wire d' = l_wire sample_link @ [(''bob'', raw)]"
proof -
  obtain f' data where e: "encrypt_and_serialize sample_crypto sample_io [] [1] (Some [2]) None sample_frame = Inr (f', data)"
    using sample_frame_seals by blast
  have s: "sample_frame\<lparr>f_sequence := 7\<rparr> = sample_frame" "f_source sample_frame = ''alice''"
    by (simp_all add: sample_frame_def new_frame_def)
  show ?thesis
    using e by (simp add: send_frame_def sample_link_def sample_env_def next_sequence_def s Let_def set_peer_def
        gate_peer_bandwidth_def gate_open_def)
qed

theorem sent_frame_is_received_witness:
  "\<exists>raw g. deserialize_and_decrypt sample_crypto sample_io 9 ''r'' raw [1] (Some (pad 32 [2])) None = Inr g
     \<and> f_sequence g = 7 \<and> f_payload g = [104, 105]"
proof -
  obtain raw d' where s: "send_frame sample_crypto sample_io sample_env ''bob'' sample_frame sample_link = (None, d')"
    "l_wire d' = l_wire sample_link @ [(''bob'', raw)]" using sample_send by blast
  have p: "dget (l_peers sample_link) ''bob'' = Some ((new_peer_state ''bob'' [])\<lparr>ps_session_key := Some [1], ps_next_send_seq := 7\<rparr>)"
    by (simp add: sample_link_def)
  from sent_frame_is_received [OF sample_crypto_ok(1-3) sample_frame_ok s p, of "[1]" 9 "''r''"]
  show ?thesis by (auto simp: sample_link_def sample_frame_def new_frame_def)
qed

text \<open>Flushing the offline queue acknowledges messages it did not send. When the connection to
  the peer is gone, every pending message is still marked delivered and counted, while nothing
  reaches the wire: the queue is lost.\<close>

lemma flush_marks_unsent_delivered:
  assumes "\<not> sendable p (fl_link st)"
  shows "fl_delivered (flush_pending C io envs p ms st) = fl_delivered st @ map pm_msg_id ms
    \<and> l_wire (fl_link (flush_pending C io envs p ms st)) = l_wire (fl_link st)
    \<and> fl_messages_delivered (flush_pending C io envs p ms st) = fl_messages_delivered st + int (length ms)"
  using assms
proof (induction ms arbitrary: st)
  case (Cons m ms)
  let ?e = "envs (length ms)"
  obtain ok st' where one: "flush_one C io (fst ?e) (snd ?e) p m st = (ok, st')"
    by (cases "flush_one C io (fst ?e) (snd ?e) p m st")
  have "ok \<and> fl_delivered st' = fl_delivered st @ [pm_msg_id m] \<and> l_wire (fl_link st') = l_wire (fl_link st)
    \<and> fl_messages_delivered st' = fl_messages_delivered st + 1 \<and> \<not> sendable p (fl_link st')"
    using one Cons.prems send_frame_not_sendable [OF Cons.prems]
    by (auto simp: flush_one_def Let_def sendable_def split: option.splits)
  with Cons.IH [of st'] one show ?case by simp
qed simp

end
