(* ===== verification/Routes.thy ===== *)
theory Routes
  imports Sealed_File
begin

text \<open>
  mesh.py, \<open>class RoutingTable\<close>: the distance-vector table, its announcements with split
  horizon and poisoned reverse, and its HMAC-protected file.
\<close>

record route =
  rt_next_hop :: node_id
  rt_cost :: int
  rt_learned_from :: node_id
  rt_updated :: time

record routing_table =
  rtab_my_node_id :: node_id
  rtab_ttl :: real
  rtab_routes :: "(node_id, route) dict"

definition INFINITY_COST :: int where "INFINITY_COST = 16"

definition new_routing_table :: "node_id \<Rightarrow> real \<Rightarrow> routing_table" where
  "new_routing_table me ttl = \<lparr> rtab_my_node_id = me, rtab_ttl = ttl, rtab_routes = [] \<rparr>"

abbreviation table_get :: "routing_table \<Rightarrow> node_id \<Rightarrow> route option" where
  "table_get t dst \<equiv> dget (rtab_routes t) dst"

definition put_route :: "node_id \<Rightarrow> route \<Rightarrow> routing_table \<Rightarrow> routing_table" where
  "put_route dst r t = t\<lparr>rtab_routes := dset dst r (rtab_routes t)\<rparr>"

definition drop_route :: "node_id \<Rightarrow> routing_table \<Rightarrow> routing_table" where
  "drop_route dst t = t\<lparr>rtab_routes := dpop dst (rtab_routes t)\<rparr>"

definition add_route ::
  "time \<Rightarrow> node_id \<Rightarrow> node_id \<Rightarrow> int \<Rightarrow> node_id \<Rightarrow> routing_table \<Rightarrow> bool \<times> routing_table" where
  "add_route now dst next_hop cost learned_from t =
    (let new = \<lparr> rt_next_hop = next_hop, rt_cost = cost, rt_learned_from = learned_from, rt_updated = now \<rparr> in
     if dst = rtab_my_node_id t then (False, t)
     else if cost \<le> 0 \<or> cost \<ge> INFINITY_COST then
       (case table_get t dst of
          Some r \<Rightarrow> if rt_learned_from r = learned_from then (True, drop_route dst t) else (False, t)
        | None \<Rightarrow> (False, t))
     else
       (case table_get t dst of
          None \<Rightarrow> (True, put_route dst new t)
        | Some r \<Rightarrow>
            if rt_learned_from r = learned_from
            then (True, put_route dst (r\<lparr>rt_next_hop := next_hop, rt_cost := cost, rt_updated := now\<rparr>) t)
            else if cost < rt_cost r then (True, put_route dst new t)
            else (False, t)))"

definition get_next_hop :: "node_id \<Rightarrow> routing_table \<Rightarrow> node_id option" where
  "get_next_hop dst t = map_option rt_next_hop (table_get t dst)"

definition get_cost :: "node_id \<Rightarrow> routing_table \<Rightarrow> int option" where
  "get_cost dst t = map_option rt_cost (table_get t dst)"

definition all_destinations :: "routing_table \<Rightarrow> node_id list" where
  "all_destinations t = dkeys (rtab_routes t)"

definition expire_old :: "time \<Rightarrow> routing_table \<Rightarrow> node_id list \<times> routing_table" where
  "expire_old now t =
    (let expired = map fst (filter (\<lambda>(dst, r). now - rt_updated r > rtab_ttl t) (rtab_routes t)) in
     (expired, t\<lparr>rtab_routes := fold dpop expired (rtab_routes t)\<rparr>))"

definition to_announcement :: "node_id option \<Rightarrow> routing_table \<Rightarrow> (node_id \<times> int) list" where
  "to_announcement exclude_peer t =
     (rtab_my_node_id t, 0) #
     map (\<lambda>(dst, r). (dst, if exclude_peer \<noteq> None \<and> Some (rt_learned_from r) = exclude_peer
                            then INFINITY_COST else rt_cost r))
       (filter (\<lambda>(dst, r). Some dst \<noteq> exclude_peer) (rtab_routes t))"

section \<open>The table's invariant\<close>

text \<open>No route to oneself, every cost between 1 and 15, one route per destination, and the next
  hop is the neighbour the route was learned from.\<close>

definition table_ok :: "routing_table \<Rightarrow> bool" where
  "table_ok t = (dwf (rtab_routes t) \<and> table_get t (rtab_my_node_id t) = None
     \<and> (\<forall>dst r. table_get t dst = Some r \<longrightarrow> 0 < rt_cost r \<and> rt_cost r < INFINITY_COST \<and> rt_next_hop r = rt_learned_from r))"

lemma new_routing_table_ok [simp]: "table_ok (new_routing_table me ttl)"
  by (simp add: table_ok_def new_routing_table_def)

lemma table_get_put [simp]: "table_get (put_route dst r t) d = (if d = dst then Some r else table_get t d)"
  by (simp add: put_route_def)

lemma table_get_drop [simp]: "table_get (drop_route dst t) d = (if d = dst then None else table_get t d)"
  by (simp add: drop_route_def)

lemma put_drop_params [simp]:
  "rtab_my_node_id (put_route dst r t) = rtab_my_node_id t" "rtab_ttl (put_route dst r t) = rtab_ttl t"
  "rtab_my_node_id (drop_route dst t) = rtab_my_node_id t" "rtab_ttl (drop_route dst t) = rtab_ttl t"
  by (simp_all add: put_route_def drop_route_def)

lemma put_route_ok:
  assumes "table_ok t" "dst \<noteq> rtab_my_node_id t" "0 < rt_cost r" "rt_cost r < INFINITY_COST" "rt_next_hop r = rt_learned_from r"
  shows "table_ok (put_route dst r t)"
proof -
  have "dwf (rtab_routes (put_route dst r t))" using assms(1) by (simp add: table_ok_def put_route_def)
  then show ?thesis using assms unfolding table_ok_def by (simp del: map_of_eq_Some_iff)
qed

lemma drop_route_ok: "table_ok t \<Longrightarrow> table_ok (drop_route dst t)"
proof -
  assume t: "table_ok t"
  have "dwf (rtab_routes (drop_route dst t))" using t by (simp add: table_ok_def drop_route_def)
  then show ?thesis using t unfolding table_ok_def by (simp del: map_of_eq_Some_iff split: if_splits)
qed

lemma add_route_params:
  "add_route now dst nh c lf t = (b, t') \<Longrightarrow> rtab_my_node_id t' = rtab_my_node_id t \<and> rtab_ttl t' = rtab_ttl t"
  by (auto simp: add_route_def Let_def split: if_splits option.splits simp del: map_of_eq_Some_iff)

lemma add_route_ok:
  assumes "table_ok t" "add_route now dst lf c lf t = (b, t')"
  shows "table_ok t'"
proof (cases "table_get t dst")
  case None
  then show ?thesis
    using assms by (auto simp: add_route_def Let_def not_le intro!: put_route_ok split: if_splits)
next
  case (Some r)
  then show ?thesis
    using assms by (auto simp del: map_of_eq_Some_iff simp: add_route_def Let_def not_le intro!: put_route_ok drop_route_ok split: if_splits)
qed

text \<open>What one announcement entry does to the table, by cases.\<close>

lemma add_route_get:
  assumes "add_route now dst nh c lf t = (b, t')"
  shows "table_get t' d =
    (if d \<noteq> dst \<or> dst = rtab_my_node_id t then table_get t d
     else if c \<le> 0 \<or> INFINITY_COST \<le> c then
       (case table_get t dst of Some r \<Rightarrow> if rt_learned_from r = lf then None else Some r | None \<Rightarrow> None)
     else case table_get t dst of
       None \<Rightarrow> Some \<lparr> rt_next_hop = nh, rt_cost = c, rt_learned_from = lf, rt_updated = now \<rparr>
     | Some r \<Rightarrow> if rt_learned_from r = lf \<or> c < rt_cost r
         then Some \<lparr> rt_next_hop = nh, rt_cost = c, rt_learned_from = lf, rt_updated = now \<rparr> else Some r)"
  using assms by (auto simp: add_route_def Let_def split: if_splits option.splits simp del: map_of_eq_Some_iff)

section \<open>Expiry\<close>

lemma dget_fold_dpop: "dget (fold dpop ks d) k = (if k \<in> set ks then None else dget d k)"
  by (induction ks arbitrary: d) auto

lemma dwf_fold_dpop: "dwf d \<Longrightarrow> dwf (fold dpop ks d)"
  by (induction ks arbitrary: d) auto

lemma expired_iff:
  "dwf (rtab_routes t) \<Longrightarrow> dst \<in> set (fst (expire_old now t)) \<longleftrightarrow> (\<exists>r. table_get t dst = Some r \<and> now - rt_updated r > rtab_ttl t)"
  by (force simp: expire_old_def Let_def)

lemma expire_old_get:
  "dwf (rtab_routes t) \<Longrightarrow> table_get (snd (expire_old now t)) dst =
     (case table_get t dst of None \<Rightarrow> None | Some r \<Rightarrow> if now - rt_updated r > rtab_ttl t then None else Some r)"
proof -
  assume w: "dwf (rtab_routes t)"
  have "table_get (snd (expire_old now t)) dst = (if dst \<in> set (fst (expire_old now t)) then None else table_get t dst)"
    by (simp add: expire_old_def Let_def dget_fold_dpop del: map_of_eq_Some_iff)
  then show ?thesis
    using expired_iff [OF w] by (auto simp del: map_of_eq_Some_iff split: option.splits)
qed

lemma expire_old_ok: "table_ok t \<Longrightarrow> table_ok (snd (expire_old now t))"
proof -
  assume t: "table_ok t"
  then have w: "dwf (rtab_routes t)" by (simp add: table_ok_def)
  have "dwf (rtab_routes (snd (expire_old now t)))" "rtab_my_node_id (snd (expire_old now t)) = rtab_my_node_id t"
    using w by (simp_all add: expire_old_def Let_def dwf_fold_dpop)
  then show ?thesis
    using t unfolding table_ok_def expire_old_get [OF w]
    by (simp del: map_of_eq_Some_iff split: option.splits if_splits)
qed

section \<open>Announcements\<close>

lemma announcement_entry:
  assumes "dwf (rtab_routes t)"
  shows "(dst, c) \<in> set (to_announcement (Some p) t) \<longleftrightarrow>
    (dst = rtab_my_node_id t \<and> c = 0) \<or>
    (dst \<noteq> p \<and> (\<exists>r. table_get t dst = Some r \<and> c = (if rt_learned_from r = p then INFINITY_COST else rt_cost r)))"
  using assms by (auto simp: to_announcement_def map_of_is_SomeI) (force intro: map_of_is_SomeI)+

section \<open>The routes file\<close>

definition route_to_json :: "route \<Rightarrow> json" where
  "route_to_json r = JObj [(''next_hop'', JStr (rt_next_hop r)), (''cost'', JInt (rt_cost r)),
     (''learned_from'', JStr (rt_learned_from r)), (''updated'', JFloat (rt_updated r))]"

definition to_serializable :: "routing_table \<Rightarrow> json" where
  "to_serializable t = JObj [(''my_node_id'', JStr (rtab_my_node_id t)), (''ttl'', JFloat (rtab_ttl t)),
     (''routes'', JObj (map (\<lambda>(dst, r). (dst, route_to_json r)) (rtab_routes t)))]"

text \<open>The text of the file \<open>save\<close> writes (to a temporary name, then renamed).\<close>

definition routes_save :: "crypto \<Rightarrow> float_io \<Rightarrow> bytes \<Rightarrow> routing_table \<Rightarrow> string" where
  "routes_save C io hmac_key t =
    (let body = dumps_sorted io (to_serializable t) in
     dumps_default io (JObj [(''hmac'', JStr (mac_hex C hmac_key body)), (''body'', JStr body)]))"

text \<open>
  A stored route with its new time stamp. A MACed body always comes from \<open>save\<close>, whose
  routes have these fields; the loader would keep a dictionary without them as it is,
  which the record cannot hold, so such a body counts as a failed load here.
\<close>

definition route_of_json :: "time \<Rightarrow> json \<Rightarrow> route option" where
  "route_of_json stamp j = (case (jget j ''next_hop'', jget j ''cost'', jget j ''learned_from'') of
     (Some (JStr nh), Some (JInt c), Some (JStr lf)) \<Rightarrow>
       Some \<lparr> rt_next_hop = nh, rt_cost = c, rt_learned_from = lf, rt_updated = stamp \<rparr>
   | _ \<Rightarrow> None)"

fun install_routes :: "node_id \<Rightarrow> time \<Rightarrow> (node_id \<times> json) list \<Rightarrow> (node_id, route) dict \<Rightarrow> bool \<times> (node_id, route) dict" where
  "install_routes me stamp [] routes = (True, routes)"
| "install_routes me stamp ((dst, j) # kvs) routes =
     (if dst = me then install_routes me stamp kvs routes
      else case route_of_json stamp j of
        None \<Rightarrow> (False, routes)
      | Some r \<Rightarrow> install_routes me stamp kvs (dset dst r routes))"

record routes_load_result =
  rl_ok :: bool
  rl_removed :: bool
  rl_table :: routing_table

definition routes_load ::
  "crypto \<Rightarrow> float_io \<Rightarrow> time \<Rightarrow> bytes \<Rightarrow> real \<Rightarrow> string option \<Rightarrow> routing_table \<Rightarrow> routes_load_result" where
  "routes_load C io now hmac_key refresh_ttl file t =
    (let failed = \<lparr> rl_ok = False, rl_removed = False, rl_table = t \<rparr>;
         me = rtab_my_node_id t in
     case file of
       None \<Rightarrow> failed
     | Some content \<Rightarrow>
         (case loads io content of
            Some (JObj data) \<Rightarrow>
              (case dget_default (JStr []) data ''body'' of
                 JStr body \<Rightarrow>
                   (case compare_digest_str (dget_default (JStr []) data ''hmac'') (mac_hex C hmac_key body) of
                      Inl _ \<Rightarrow> failed
                    | Inr False \<Rightarrow> failed\<lparr>rl_removed := is_rotated_body io me body\<rparr>
                    | Inr True \<Rightarrow>
                        (case loads io body of
                           Some (JObj obj) \<Rightarrow>
                             if dget obj ''my_node_id'' \<noteq> Some (JStr me) then failed
                             else (case dget_default (JObj []) obj ''routes'' of
                               JObj kvs \<Rightarrow>
                                 (case install_routes me (now - max 0 (rtab_ttl t - refresh_ttl)) kvs (rtab_routes t) of
                                    (ok, routes) \<Rightarrow> \<lparr> rl_ok = ok, rl_removed = False, rl_table = t\<lparr>rtab_routes := routes\<rparr> \<rparr>)
                             | _ \<Rightarrow> failed)
                         | _ \<Rightarrow> failed))
               | _ \<Rightarrow> failed)
          | _ \<Rightarrow> failed))"

section \<open>Loading what was saved\<close>

lemma route_of_json_sorted: "route_of_json stamp (sort_json (route_to_json r)) = Some (r\<lparr>rt_updated := stamp\<rparr>)"
proof -
  let ?a = "[(''next_hop'', JStr (rt_next_hop r)), (''cost'', JInt (rt_cost r)),
     (''learned_from'', JStr (rt_learned_from r)), (''updated'', JFloat (rt_updated r))]"
  have "dwf ?a" by simp
  from sort_json_obj [OF this] obtain b where b: "sort_json (JObj ?a) = JObj b"
    "\<forall>k. dget b k = map_option sort_json (dget ?a k)" by blast
  have "jget (sort_json (route_to_json r)) k = map_option sort_json (dget ?a k)" for k
    unfolding route_to_json_def b(1) using b(2) by simp
  then show ?thesis by (simp add: route_of_json_def)
qed

lemma install_routes_get:
  "dwf kvs \<Longrightarrow> \<forall>(d, j) \<in> set kvs. route_of_json stamp j \<noteq> None \<Longrightarrow>
   \<exists>rs. install_routes me stamp kvs routes = (True, rs) \<and> (dwf routes \<longrightarrow> dwf rs) \<and>
     (\<forall>d. dget rs d = (case dget kvs d of
        Some j \<Rightarrow> if d = me then dget routes d else route_of_json stamp j | None \<Rightarrow> dget routes d))"
proof (induction kvs arbitrary: routes)
  case (Cons kv kvs)
  obtain d j where kv: "kv = (d, j)" by (cases kv)
  have n: "dget kvs d = None" using Cons.prems(1) kv by (simp add: dget_None_iff)
  show ?case
  proof (cases "d = me")
    case True
    then show ?thesis
      using Cons.IH [of routes] Cons.prems n kv by (auto simp del: map_of_eq_Some_iff)
  next
    case False
    obtain r where r: "route_of_json stamp j = Some r" using Cons.prems(2) kv by auto
    from Cons.IH [of "dset d r routes"] Cons.prems obtain rs where
      "install_routes me stamp kvs (dset d r routes) = (True, rs)" "dwf (dset d r routes) \<longrightarrow> dwf rs"
      "\<forall>d'. dget rs d' = (case dget kvs d' of Some j \<Rightarrow> if d' = me then dget (dset d r routes) d' else route_of_json stamp j
         | None \<Rightarrow> dget (dset d r routes) d')"
      by auto
    then show ?thesis
      using False r n kv by (auto simp del: map_of_eq_Some_iff split: option.splits)
  qed
qed simp

definition table_printable :: "float_io \<Rightarrow> routing_table \<Rightarrow> bool" where
  "table_printable io t = (dwf (rtab_routes t) \<and> float_ok io (rtab_ttl t) \<and>
     (\<forall>kv \<in> set (rtab_routes t). float_ok io (rt_updated (snd kv))))"

lemma wf_to_serializable: "table_printable io t \<Longrightarrow> wf_json io (to_serializable t)"
  unfolding table_printable_def to_serializable_def wf_json.simps dkeys_map_val
  by (auto simp: route_to_json_def dkeys_map_val comp_def case_prod_beta)

text \<open>The keys a serialised table is read by, after sorting.\<close>

lemma to_serializable_sorted:
  assumes "dwf (rtab_routes t)"
  shows "\<exists>b kvs. sort_json (to_serializable t) = JObj b \<and> dget b ''my_node_id'' = Some (JStr (rtab_my_node_id t))
    \<and> dget b ''routes'' = Some (JObj kvs) \<and> dwf kvs
    \<and> (\<forall>d. dget kvs d = map_option (\<lambda>r. sort_json (route_to_json r)) (table_get t d))"
proof -
  let ?rs = "map (\<lambda>(dst, r). (dst, route_to_json r)) (rtab_routes t)"
  let ?a = "[(''my_node_id'', JStr (rtab_my_node_id t)), (''ttl'', JFloat (rtab_ttl t)), (''routes'', JObj ?rs)]"
  have w: "dwf ?rs" using assms by (simp only: dkeys_map_val)
  from sort_json_obj [OF w] obtain kvs where kvs: "sort_json (JObj ?rs) = JObj kvs" "dwf kvs"
    "\<forall>k. dget kvs k = map_option sort_json (dget ?rs k)" by blast
  have "dwf ?a" by simp
  from sort_json_obj [OF this] obtain b where b: "sort_json (JObj ?a) = JObj b"
    "\<forall>k. dget b k = map_option sort_json (dget ?a k)" by blast
  show ?thesis
    using b kvs by (intro exI [of _ b] exI [of _ kvs])
      (simp add: to_serializable_def dget_map_val option.map_comp comp_def del: sort_json.simps)
qed

lemma routes_load_saved:
  assumes t: "table_printable io t" and me: "rtab_my_node_id t' = rtab_my_node_id t"
  shows "\<exists>rs. routes_load C io now key refresh_ttl (Some (routes_save C io key t)) t' =
      \<lparr> rl_ok = True, rl_removed = False, rl_table = t'\<lparr>rtab_routes := rs\<rparr> \<rparr>
    \<and> (dwf (rtab_routes t') \<longrightarrow> dwf rs)
    \<and> (\<forall>d. dget rs d = (case table_get t d of
        Some r \<Rightarrow> if d = rtab_my_node_id t then table_get t' d
                  else Some (r\<lparr>rt_updated := now - max 0 (rtab_ttl t' - refresh_ttl)\<rparr>)
      | None \<Rightarrow> table_get t' d))"
proof -
  let ?body = "dumps_sorted io (to_serializable t)"
  let ?stamp = "now - max 0 (rtab_ttl t' - refresh_ttl)"
  have w: "dwf (rtab_routes t)" using t by (simp add: table_printable_def)
  obtain b kvs where b: "sort_json (to_serializable t) = JObj b" "dget b ''my_node_id'' = Some (JStr (rtab_my_node_id t))"
    "dget b ''routes'' = Some (JObj kvs)" "dwf kvs"
    "\<forall>d. dget kvs d = map_option (\<lambda>r. sort_json (route_to_json r)) (table_get t d)"
    using to_serializable_sorted [OF w] by blast
  have body: "loads io ?body = Some (JObj b)"
    using loads_dumps_sorted [OF wf_to_serializable [OF t]] b(1) by simp
  have content: "loads io (routes_save C io key t) =
      Some (JObj [(''hmac'', JStr (mac_hex C key ?body)), (''body'', JStr ?body)])"
    unfolding routes_save_def Let_def by (rule loads_dumps_default) simp
  have parse: "\<forall>(d, j) \<in> set kvs. route_of_json ?stamp j \<noteq> None"
  proof -
    have "route_of_json ?stamp j \<noteq> None" if "(d, j) \<in> set kvs" for d j
    proof -
      from that b(4) have "dget kvs d = Some j" by simp
      then show ?thesis using b(5) route_of_json_sorted by (auto simp del: map_of_eq_Some_iff)
    qed
    then show ?thesis by auto
  qed
  from install_routes_get [OF b(4) parse, of "rtab_my_node_id t'" "rtab_routes t'"] obtain rs where
    rs: "install_routes (rtab_my_node_id t') ?stamp kvs (rtab_routes t') = (True, rs)" "dwf (rtab_routes t') \<longrightarrow> dwf rs"
      "\<forall>d. dget rs d = (case dget kvs d of
        Some j \<Rightarrow> if d = rtab_my_node_id t' then table_get t' d else route_of_json ?stamp j | None \<Rightarrow> table_get t' d)"
    by blast
  have cmp: "compare_digest_str (JStr (mac_hex C key ?body)) (mac_hex C key ?body) = Inr True"
    by (simp add: compare_digest_str_def mac_hex_def hex_of_ascii)
  have "routes_load C io now key refresh_ttl (Some (routes_save C io key t)) t' =
      \<lparr> rl_ok = True, rl_removed = False, rl_table = t'\<lparr>rtab_routes := rs\<rparr> \<rparr>"
    unfolding routes_load_def Let_def option.case content json.case
    using cmp body b(2,3) me rs(1) by (simp del: map_of_eq_Some_iff)
  moreover have "\<forall>d. dget rs d = (case table_get t d of
        Some r \<Rightarrow> if d = rtab_my_node_id t then table_get t' d else Some (r\<lparr>rt_updated := ?stamp\<rparr>) | None \<Rightarrow> table_get t' d)"
    using rs(3) b(5) me by (simp add: route_of_json_sorted del: map_of_eq_Some_iff split: option.splits)
  ultimately show ?thesis using rs(2) by blast
qed

text \<open>The routes file is a faithful, authenticated store. A table loads back from the file it
  saved with every route, next hop and cost as it was, stamped to expire after the refresh time
  instead of its full TTL; a file whose MAC does not match its body under the node's key, or
  that was saved by another node, changes nothing.\<close>

lemma routes_file_roundtrip:
  assumes "table_printable io t" "table_get t (rtab_my_node_id t) = None" "0 \<le> rtab_ttl t - refresh_ttl"
    and "t' = new_routing_table (rtab_my_node_id t) (rtab_ttl t)"
  shows "rl_ok (routes_load C io now key refresh_ttl (Some (routes_save C io key t)) t')
    \<and> (\<forall>d. table_get (rl_table (routes_load C io now key refresh_ttl (Some (routes_save C io key t)) t')) d =
          map_option (\<lambda>r. r\<lparr>rt_updated := now - (rtab_ttl t - refresh_ttl)\<rparr>) (table_get t d))
    \<and> (\<forall>data body mac. loads io file = Some (JObj data) \<longrightarrow> dget data ''body'' = Some (JStr body)
          \<longrightarrow> dget data ''hmac'' = Some (JStr mac) \<longrightarrow> mac \<noteq> mac_hex C key body
          \<longrightarrow> rl_table (routes_load C io now key refresh_ttl (Some file) t') = t'
            \<and> \<not> rl_ok (routes_load C io now key refresh_ttl (Some file) t'))"
proof -
  have me: "rtab_my_node_id t' = rtab_my_node_id t" using assms(4) by (simp add: new_routing_table_def)
  obtain rs where rs: "routes_load C io now key refresh_ttl (Some (routes_save C io key t)) t' =
      \<lparr> rl_ok = True, rl_removed = False, rl_table = t'\<lparr>rtab_routes := rs\<rparr> \<rparr>"
    "\<forall>d. dget rs d = (case table_get t d of
        Some r \<Rightarrow> if d = rtab_my_node_id t then table_get t' d
                  else Some (r\<lparr>rt_updated := now - max 0 (rtab_ttl t' - refresh_ttl)\<rparr>)
      | None \<Rightarrow> table_get t' d)"
    using routes_load_saved [OF assms(1) me] by blast
  have e: "table_get t' d = None" "rtab_ttl t' = rtab_ttl t" for d
    using assms(4) by (simp_all add: new_routing_table_def)
  show ?thesis
    unfolding rs(1) routes_load_result.simps
    using rs(2) e assms(2,3)
    by (auto simp: routes_load_def Let_def compare_digest_str_def max_def simp del: map_of_eq_Some_iff split: option.splits)
qed

text \<open>Every operation keeps the table sound: no route to the node itself, costs from 1 to 15,
  one entry per destination, and expiry removes exactly the routes older than the TTL.\<close>

lemma routing_table_invariant:
  assumes "table_ok t"
  shows "table_ok (snd (add_route now dst nb c nb t)) \<and> table_ok (snd (expire_old now t))
    \<and> (\<forall>d. table_get (snd (expire_old now t)) d \<noteq> None \<longleftrightarrow>
         (\<exists>r. table_get t d = Some r \<and> now - rt_updated r \<le> rtab_ttl t))
    \<and> (\<forall>d. d \<in> set (fst (expire_old now t)) \<longleftrightarrow> table_get t d \<noteq> None \<and> table_get (snd (expire_old now t)) d = None)"
proof -
  have w: "dwf (rtab_routes t)" using assms by (simp add: table_ok_def)
  obtain b t1 where a: "add_route now dst nb c nb t = (b, t1)" by (cases "add_route now dst nb c nb t")
  show ?thesis
    using add_route_ok [OF assms a] expire_old_ok [OF assms, of now] a
    by (auto simp: expired_iff [OF w] expire_old_get [OF w] simp del: map_of_eq_Some_iff split: option.splits)
qed

end
