(* ===== verification/Dedup.thy ===== *)
theory Dedup
  imports Prelude
begin

text \<open>
  mesh.py, \<open>class DedupCache\<close>: per-source buckets of message ids in least-recently-used
  order, bounded at both levels, with and without the delivering transport. The lock makes
  every operation atomic, so an interleaving of coroutines is a list of operations.

  \<open>once_only\<close> is the interface of a test-and-add: it is interpreted here for both variants
  of the cache.
\<close>

section \<open>Ordered dictionaries in recency order\<close>

definition od_put :: "'k \<Rightarrow> 'v \<Rightarrow> ('k, 'v) dict \<Rightarrow> ('k, 'v) dict" where
  "od_put k v d = dmove_end k (dset k v d)"

text \<open>\<open>while len(d) > n: d.popitem(last=False)\<close>\<close>

fun od_trim :: "nat \<Rightarrow> ('k, 'v) dict \<Rightarrow> ('k, 'v) dict" where
  "od_trim n [] = []"
| "od_trim n (x # d) = (if length (x # d) > n then od_trim n d else x # d)"

lemma od_trim_drop: "od_trim n d = drop (length d - n) d"
  by (induction d) (auto simp: Suc_diff_le)

lemma length_od_trim [simp]: "length (od_trim n d) \<le> n"
  by (simp add: od_trim_drop)

lemma dget_od_put [simp]: "dget (od_put k v d) k' = (if k' = k then Some v else dget d k')"
  by (simp add: od_put_def)

lemma dwf_od_put [simp]: "dwf d \<Longrightarrow> dwf (od_put k v d)"
  by (simp add: od_put_def)

lemma dwf_drop: "dwf d \<Longrightarrow> dwf (drop n d)"
  by (simp add: drop_map [symmetric])

lemma dwf_od_trim [simp]: "dwf d \<Longrightarrow> dwf (od_trim n d)"
  by (simp add: od_trim_drop dwf_drop)

text \<open>The keys more recent than \<open>k\<close>.\<close>

definition newer :: "'k \<Rightarrow> ('k, 'v) dict \<Rightarrow> 'k set" where
  "newer k d = set (tl (dropWhile (\<lambda>x. x \<noteq> k) (dkeys d)))"

lemma newer_split: "dwf (a @ (k, v) # b) \<Longrightarrow> newer k (a @ (k, v) # b) = set (dkeys b)"
  unfolding newer_def by (subst map_append, subst dropWhile_append2) (auto simp: image_iff)

lemma dget_split: "dwf d \<Longrightarrow> dget d k = Some v \<Longrightarrow> \<exists>a b. d = a @ (k, v) # b"
  by (meson map_of_SomeD split_list)

lemma delete_split: "k' \<noteq> k \<Longrightarrow> dpop k' (a @ (k, v) # b) = dpop k' a @ (k, v) # dpop k' b"
  by (simp add: AList.delete_eq)

lemma dmove_end_split:
  "dget d k' = Some w \<Longrightarrow> dmove_end k' d = dpop k' d @ [(k', w)]"
  by (simp add: dmove_end_def)

lemma newer_od_put_other:
  assumes "dwf d" "dget d k = Some v" "k' \<noteq> k"
  shows "newer k (od_put k' w d) \<subseteq> insert k' (newer k d)"
proof -
  obtain a b where d: "d = a @ (k, v) # b" using dget_split [OF assms(1,2)] by blast
  have w: "dwf (dset k' w d)" using assms(1) by simp
  have "dget (dset k' w d) k = Some v" using assms by simp
  then obtain a' b' where d': "dset k' w d = a' @ (k, v) # b'" using dget_split [OF w] by blast
  have put: "od_put k' w d = dpop k' a' @ (k, v) # (dpop k' b' @ [(k', w)])"
  proof -
    have "od_put k' w d = dpop k' (dset k' w d) @ [(k', w)]"
      unfolding od_put_def by (rule dmove_end_split) simp
    then show ?thesis unfolding d' delete_split [OF assms(3)] by simp
  qed
  have "dwf (od_put k' w d)" using assms(1) by simp
  then have n: "newer k (od_put k' w d) = set (dkeys (dpop k' b' @ [(k', w)]))"
    unfolding put by (rule newer_split)
  have nd: "newer k d = set (dkeys b)" using newer_split assms(1) d by metis
  have keys: "dkeys (dset k' w d) = (if k' \<in> set (dkeys d) then dkeys d else dkeys d @ [k'])"
    by (rule update_keys)
  have "set (dkeys b') \<subseteq> insert k' (set (dkeys b))"
  proof -
    have "newer k (dset k' w d) = set (dkeys b')" using newer_split w d' by metis
    moreover have "newer k (dset k' w d) \<subseteq> insert k' (set (dkeys b))"
    proof (cases "k' \<in> set (dkeys d)")
      case True
      then have "newer k (dset k' w d) = newer k d" by (simp add: newer_def keys)
      then show ?thesis using nd by auto
    next
      case False
      then have "newer k (dset k' w d) = set (tl (dropWhile (\<lambda>x. x \<noteq> k) (dkeys d @ [k'])))"
        by (simp add: newer_def keys)
      also have "\<dots> = set (dkeys b @ [k'])"
      proof -
        have "dropWhile (\<lambda>x. x \<noteq> k) (dkeys a @ k # dkeys b @ [k']) = dropWhile (\<lambda>x. x \<noteq> k) (k # dkeys b @ [k'])"
          by (rule dropWhile_append2) (use assms(1) d in auto)
        then have "dropWhile (\<lambda>x. x \<noteq> k) (dkeys d @ [k']) = k # dkeys b @ [k']"
          unfolding d by simp
        then show ?thesis by simp
      qed
      finally show ?thesis by auto
    qed
    ultimately show ?thesis by simp
  qed
  then show ?thesis using n nd by auto
qed

lemma newer_od_put_same: "dwf d \<Longrightarrow> newer k (od_put k v d) = {}"
proof -
  assume w: "dwf d"
  have p: "od_put k v d = dpop k (dset k v d) @ (k, v) # []"
    unfolding od_put_def by (rule dmove_end_split) simp
  have "dwf (od_put k v d)" using w by simp
  then show ?thesis unfolding p by (subst newer_split) simp_all
qed

text \<open>A key with fewer than \<open>n\<close> newer keys survives trimming to \<open>n\<close>, in its place.\<close>

lemma od_trim_keeps:
  assumes "dwf d" "dget d k = Some v" "card (newer k d) < n"
  shows "dget (od_trim n d) k = Some v \<and> newer k (od_trim n d) = newer k d"
proof -
  obtain a b where d: "d = a @ (k, v) # b" using dget_split [OF assms(1,2)] by blast
  have "card (set (dkeys b)) = length b" using assms(1) d distinct_card [of "dkeys b"] by simp
  then have n: "length b < n" using assms(3) newer_split [of a k v b] assms(1) d by simp
  then have t: "od_trim n d = drop (length d - n) a @ (k, v) # b"
    unfolding od_trim_drop d by (simp)
  have w: "dwf (od_trim n d)" using assms(1) by simp
  then have "newer k (od_trim n d) = set (dkeys b)" unfolding t by (rule newer_split)
  moreover have "newer k d = set (dkeys b)" using newer_split assms(1) d by metis
  moreover have "dget (od_trim n d) k = Some v"
    using w unfolding t by (rule map_of_is_SomeI) simp
  ultimately show ?thesis by simp
qed

section \<open>The cache\<close>

datatype dedup_entry = Bare time | Tagged time string

fun entry_time :: "dedup_entry \<Rightarrow> time" where
  "entry_time (Bare t) = t"
| "entry_time (Tagged t tr) = t"

fun entry_transport :: "dedup_entry \<Rightarrow> string option" where
  "entry_transport (Bare t) = None"
| "entry_transport (Tagged t tr) = Some tr"

type_synonym bucket = "(string, dedup_entry) dict"

record dedup_cache =
  dc_sources_max :: nat
  dc_per_source_max :: nat
  dc_ttl :: real
  dc_sources :: "(string, bucket) dict"

definition new_dedup_cache :: "nat \<Rightarrow> nat \<Rightarrow> real \<Rightarrow> dedup_cache" where
  "new_dedup_cache sources_max per_source_max ttl =
     \<lparr> dc_sources_max = sources_max, dc_per_source_max = per_source_max, dc_ttl = ttl, dc_sources = [] \<rparr>"

definition source_bucket :: "dedup_cache \<Rightarrow> string \<Rightarrow> bucket" where
  "source_bucket c src = dget_default [] (dc_sources c) src"

definition is_duplicate :: "string \<Rightarrow> string \<Rightarrow> dedup_cache \<Rightarrow> bool" where
  "is_duplicate src msg_id c = (msg_id \<in> set (dkeys (source_bucket c src)))"

text \<open>
  \<open>_add_locked\<close> and \<open>_add_locked_with_transport\<close>: the source moves to the recent end, the
  id too, then both levels are trimmed.
\<close>

definition add_locked :: "string \<Rightarrow> string \<Rightarrow> dedup_entry \<Rightarrow> dedup_cache \<Rightarrow> dedup_cache" where
  "add_locked src msg_id e c =
    (let bucket = od_trim (dc_per_source_max c) (od_put msg_id e (source_bucket c src)) in
     c\<lparr>dc_sources := od_trim (dc_sources_max c) (od_put src bucket (dc_sources c))\<rparr>)"

definition dedup_add :: "time \<Rightarrow> string \<Rightarrow> string \<Rightarrow> dedup_cache \<Rightarrow> dedup_cache" where
  "dedup_add now src msg_id c = add_locked src msg_id (Bare now) c"

definition check_and_add :: "time \<Rightarrow> string \<Rightarrow> string \<Rightarrow> dedup_cache \<Rightarrow> bool \<times> dedup_cache" where
  "check_and_add now src msg_id c =
     (if is_duplicate src msg_id c then (True, c) else (False, add_locked src msg_id (Bare now) c))"

datatype transport_check =
    Fresh
  | Duplicate (tc_original: "string option") (tc_this: string) (tc_cross: bool) (tc_delta: real)

definition check_and_add_with_transport ::
  "time \<Rightarrow> string \<Rightarrow> string \<Rightarrow> string \<Rightarrow> dedup_cache \<Rightarrow> transport_check \<times> dedup_cache" where
  "check_and_add_with_transport now src msg_id transport c =
     (case dget (source_bucket c src) msg_id of
        Some e \<Rightarrow>
          (let original = entry_transport e in
           (Duplicate original transport (original \<noteq> None \<and> original \<noteq> Some transport) (max 0 (now - entry_time e)), c))
      | None \<Rightarrow> (Fresh, add_locked src msg_id (Tagged now transport) c))"

definition live_entries :: "real \<Rightarrow> time \<Rightarrow> bucket \<Rightarrow> bucket" where
  "live_entries ttl now b = filter (\<lambda>(k, e). \<not> now - entry_time e > ttl) b"

definition cleanup_expired :: "time \<Rightarrow> dedup_cache \<Rightarrow> nat \<times> dedup_cache" where
  "cleanup_expired now c =
    (let swept = map (\<lambda>(s, b). (s, live_entries (dc_ttl c) now b)) (dc_sources c);
         removed = sum_list (map (\<lambda>(s, b). length b - length (live_entries (dc_ttl c) now b)) (dc_sources c)) in
     (removed, c\<lparr>dc_sources := filter (\<lambda>(s, b). b \<noteq> []) swept\<rparr>))"

definition dedup_size :: "dedup_cache \<Rightarrow> nat" where
  "dedup_size c = sum_list (map (\<lambda>(s, b). length b) (dc_sources c))"

definition source_count :: "dedup_cache \<Rightarrow> nat" where
  "source_count c = length (dc_sources c)"

section \<open>Bounds\<close>

definition dedup_ok :: "dedup_cache \<Rightarrow> bool" where
  "dedup_ok c = (dwf (dc_sources c) \<and> length (dc_sources c) \<le> dc_sources_max c \<and>
     (\<forall>(s, b) \<in> set (dc_sources c). dwf b \<and> length b \<le> dc_per_source_max c))"

lemma new_dedup_cache_ok [simp]: "dedup_ok (new_dedup_cache a b t)"
  by (simp add: dedup_ok_def new_dedup_cache_def)

lemma source_bucket_ok: "dedup_ok c \<Longrightarrow> dwf (source_bucket c s)"
  by (auto simp: source_bucket_def dedup_ok_def split: option.splits dest!: map_of_SomeD)

lemma set_od_put: "dwf d \<Longrightarrow> kv \<in> set (od_put k v d) \<longleftrightarrow> kv = (k, v) \<or> fst kv \<noteq> k \<and> kv \<in> set d"
proof -
  assume w: "dwf d"
  obtain a b where kv: "kv = (a, b)" by (cases kv)
  have "(a, b) \<in> set (od_put k v d) \<longleftrightarrow> dget (od_put k v d) a = Some b"
    using w by (simp del: dget_od_put)
  then show ?thesis using w by (auto simp: kv)
qed

lemma set_od_trim: "set (od_trim n d) \<subseteq> set d"
  by (simp add: od_trim_drop set_drop_subset)

lemma add_locked_ok:
  assumes "dedup_ok c" shows "dedup_ok (add_locked s m e c)"
proof -
  have w: "dwf (source_bucket c s)" by (rule source_bucket_ok [OF assms])
  have d: "dwf (dc_sources c)" using assms by (simp add: dedup_ok_def)
  have "dwf b \<and> length b \<le> dc_per_source_max c"
    if "(t, b) \<in> set (od_trim (dc_sources_max c)
        (od_put s (od_trim (dc_per_source_max c) (od_put m e (source_bucket c s))) (dc_sources c)))" for t b
    using that set_od_trim [of "dc_sources_max c"] assms w unfolding dedup_ok_def
    by (fastforce simp: set_od_put [OF d])
  then show ?thesis
    using d by (auto simp: dedup_ok_def add_locked_def Let_def)
qed

lemma cleanup_ok: assumes "dedup_ok c" shows "dedup_ok (snd (cleanup_expired now c))"
proof -
  let ?f = "\<lambda>(s, b). (s, live_entries (dc_ttl c) now b)"
  have "dwf (map ?f (dc_sources c))" using assms unfolding dkeys_map_val by (simp add: dedup_ok_def)
  then have "dwf (filter (\<lambda>(s, b). b \<noteq> []) (map ?f (dc_sources c)))" by (rule distinct_map_filter)
  moreover have "length (filter (\<lambda>(s, b). b \<noteq> []) (map ?f (dc_sources c))) \<le> dc_sources_max c"
    by (rule le_trans [OF length_filter_le]) (use assms in \<open>simp add: dedup_ok_def\<close>)
  moreover have "dwf (live_entries (dc_ttl c) now b) \<and> length (live_entries (dc_ttl c) now b) \<le> dc_per_source_max c"
    if "(s, b) \<in> set (dc_sources c)" for s b
  proof -
    have b: "dwf b" "length b \<le> dc_per_source_max c" using that assms by (auto simp: dedup_ok_def)
    show ?thesis
      unfolding live_entries_def using b(1) le_trans [OF length_filter_le b(2)] by (simp add: distinct_map_filter)
  qed
  ultimately show ?thesis by (auto simp: dedup_ok_def cleanup_expired_def Let_def)
qed

lemma check_and_add_ok:
  "dedup_ok c \<Longrightarrow> dedup_ok (snd (check_and_add now s m c))"
  "dedup_ok c \<Longrightarrow> dedup_ok (snd (check_and_add_with_transport now s m tr c))"
  by (auto simp: check_and_add_def check_and_add_with_transport_def add_locked_ok Let_def split: option.splits)

lemma dedup_size_le: "dedup_ok c \<Longrightarrow> dedup_size c \<le> dc_sources_max c * dc_per_source_max c"
proof -
  assume ok: "dedup_ok c"
  have "sum_list (map (\<lambda>(s, b). length b) d) \<le> length d * n" if "\<forall>(s, b) \<in> set d. length b \<le> n" for d :: "(string, bucket) dict" and n
    using that by (induction d) auto
  with ok have "dedup_size c \<le> length (dc_sources c) * dc_per_source_max c"
    by (fastforce simp: dedup_size_def dedup_ok_def)
  also have "\<dots> \<le> dc_sources_max c * dc_per_source_max c"
    using ok by (simp add: dedup_ok_def)
  finally show ?thesis .
qed

section \<open>Test and add\<close>

text \<open>The contract of an atomic test-and-add over a set of seen keys.\<close>

locale once_only =
  fixes test_add :: "'e \<Rightarrow> 's \<Rightarrow> bool \<times> 's"
    and seen :: "'e \<Rightarrow> 's \<Rightarrow> bool"
    and inv :: "'s \<Rightarrow> bool"
  assumes answers: "fst (test_add e s) = seen e s"
    and remembers: "inv s \<Longrightarrow> seen e (snd (test_add e s))"
    and unchanged: "seen e s \<Longrightarrow> snd (test_add e s) = s"
begin

lemma second_is_duplicate:
  assumes "inv s"
  shows "fst (test_add e (snd (test_add e s)))"
  using remembers [OF assms] by (simp add: answers)

lemma duplicates_change_nothing: "fst (test_add e s) \<Longrightarrow> snd (test_add e s) = s"
  by (simp add: answers unchanged)

end

definition dedup_positive :: "dedup_cache \<Rightarrow> bool" where
  "dedup_positive c = (dedup_ok c \<and> 0 < dc_sources_max c \<and> 0 < dc_per_source_max c)"

lemma add_locked_get:
  assumes "dedup_positive c"
  shows "dget (dc_sources (add_locked s m e c)) s = Some (od_trim (dc_per_source_max c) (od_put m e (source_bucket c s)))
    \<and> dget (source_bucket (add_locked s m e c) s) m = Some e \<and> newer s (dc_sources (add_locked s m e c)) = {}
    \<and> newer m (source_bucket (add_locked s m e c) s) = {}"
proof -
  let ?b = "od_put m e (source_bucket c s)"
  let ?t = "od_trim (dc_per_source_max c) ?b"
  have ok: "dwf (source_bucket c s)" "dwf (dc_sources c)"
    using assms source_bucket_ok by (auto simp: dedup_positive_def dedup_ok_def)
  have b: "dget ?t m = Some e \<and> newer m ?t = newer m ?b"
    by (rule od_trim_keeps) (use assms ok newer_od_put_same [OF ok(1), of m e] in \<open>simp_all add: dedup_positive_def\<close>)
  have s: "dget (od_trim (dc_sources_max c) (od_put s ?t (dc_sources c))) s = Some ?t
     \<and> newer s (od_trim (dc_sources_max c) (od_put s ?t (dc_sources c))) = newer s (od_put s ?t (dc_sources c))"
    by (rule od_trim_keeps) (use assms ok newer_od_put_same [OF ok(2), of s ?t] in \<open>simp_all add: dedup_positive_def\<close>)
  show ?thesis
    using b s newer_od_put_same [OF ok(1), of m e] newer_od_put_same [OF ok(2), of s ?t]
    by (simp add: add_locked_def Let_def source_bucket_def)
qed

lemma is_duplicate_iff: "is_duplicate s m c \<longleftrightarrow> dget (source_bucket c s) m \<noteq> None"
  by (simp add: is_duplicate_def dget_None_iff)

lemma add_locked_entry: "dedup_positive c \<Longrightarrow> dget (source_bucket (add_locked s m e c) s) m = Some e"
  using add_locked_get [of c s m e] by blast

lemma add_locked_seen: "dedup_positive c \<Longrightarrow> is_duplicate s m (add_locked s m e c)"
  using add_locked_get [of c s m e] by (simp add: is_duplicate_iff)

interpretation plain: once_only "\<lambda>(now, s, m). check_and_add now s m" "\<lambda>(now, s, m). is_duplicate s m" dedup_positive
  by unfold_locales (auto simp: check_and_add_def add_locked_seen split: if_splits)

definition transport_test_add :: "time \<times> string \<times> string \<times> string \<Rightarrow> dedup_cache \<Rightarrow> bool \<times> dedup_cache" where
  "transport_test_add e c = (case e of (now, s, m, tr) \<Rightarrow>
     (case check_and_add_with_transport now s m tr c of (r, c') \<Rightarrow> (r \<noteq> Fresh, c')))"

interpretation tagged: once_only transport_test_add "\<lambda>(now, s, m, tr). is_duplicate s m" dedup_positive
  by unfold_locales
     (auto simp: transport_test_add_def check_and_add_with_transport_def Let_def is_duplicate_iff add_locked_entry
        split: option.splits simp del: map_of_eq_Some_iff)

section \<open>How long a message is remembered\<close>

text \<open>The operations other deliveries run between two deliveries of a message.\<close>

datatype dedup_op =
    DCheck time string string
  | DCheckTransport time string string string
  | DAdd time string string
  | DSweep time

fun dedup_step :: "dedup_op \<Rightarrow> dedup_cache \<Rightarrow> dedup_cache" where
  "dedup_step (DCheck now s m) c = snd (check_and_add now s m c)"
| "dedup_step (DCheckTransport now s m tr) c = snd (check_and_add_with_transport now s m tr c)"
| "dedup_step (DAdd now s m) c = dedup_add now s m c"
| "dedup_step (DSweep now) c = snd (cleanup_expired now c)"

fun op_key :: "dedup_op \<Rightarrow> (string \<times> string) option" where
  "op_key (DCheck now s m) = Some (s, m)"
| "op_key (DCheckTransport now s m tr) = Some (s, m)"
| "op_key (DAdd now s m) = Some (s, m)"
| "op_key (DSweep now) = None"

text \<open>The message is in its bucket, first seen at \<open>t0\<close> or later, with bounded newer traffic.\<close>

definition remembered :: "string \<Rightarrow> string \<Rightarrow> time \<Rightarrow> string set \<Rightarrow> string set \<Rightarrow> dedup_cache \<Rightarrow> bool" where
  "remembered s m t0 S M c = (dedup_positive c \<and> (\<exists>b e. dget (dc_sources c) s = Some b \<and> dget b m = Some e
     \<and> t0 \<le> entry_time e \<and> newer s (dc_sources c) \<subseteq> S \<and> newer m b \<subseteq> M))"

lemma remembered_duplicate: "remembered s m t0 S M c \<Longrightarrow> is_duplicate s m c"
  by (auto simp: remembered_def is_duplicate_iff source_bucket_def simp del: map_of_eq_Some_iff)

lemma add_locked_params [simp]:
  "dc_sources_max (add_locked s m e c) = dc_sources_max c" "dc_per_source_max (add_locked s m e c) = dc_per_source_max c"
  "dc_ttl (add_locked s m e c) = dc_ttl c"
  by (simp_all add: add_locked_def Let_def)

lemma add_locked_positive: "dedup_positive c \<Longrightarrow> dedup_positive (add_locked s m e c)"
  by (simp add: dedup_positive_def add_locked_ok)

lemma remembered_add:
  assumes r: "remembered s m t0 S M c"
    and fin: "finite S" "card S < dc_sources_max c" "finite M" "card M < dc_per_source_max c"
    and key: "s' \<noteq> s \<longrightarrow> s' \<in> S" "s' = s \<longrightarrow> m' \<noteq> m \<longrightarrow> m' \<in> M" "s' = s \<longrightarrow> m' = m \<longrightarrow> t0 \<le> entry_time e'"
  shows "remembered s m t0 S M (add_locked s' m' e' c)"
proof -
  obtain b e where b: "dget (dc_sources c) s = Some b" "dget b m = Some e" "t0 \<le> entry_time e"
      "newer s (dc_sources c) \<subseteq> S" "newer m b \<subseteq> M" and pos: "dedup_positive c"
    using r by (auto simp: remembered_def)
  have w: "dwf (dc_sources c)" using pos by (simp add: dedup_positive_def dedup_ok_def)
  show ?thesis
  proof (cases "s' = s")
    case False
    let ?b' = "od_trim (dc_per_source_max c) (od_put m' e' (source_bucket c s'))"
    have n: "newer s (od_put s' ?b' (dc_sources c)) \<subseteq> S"
      using newer_od_put_other [OF w b(1) False, of ?b'] b(4) key(1) False by auto
    have "dget (od_trim (dc_sources_max c) (od_put s' ?b' (dc_sources c))) s = Some b
       \<and> newer s (od_trim (dc_sources_max c) (od_put s' ?b' (dc_sources c))) = newer s (od_put s' ?b' (dc_sources c))"
      by (rule od_trim_keeps)
        (use w b(1) False n fin in \<open>simp_all add: card_mono le_less_trans [OF card_mono]\<close>)
    then show ?thesis
      using b n add_locked_positive [OF pos] unfolding remembered_def
      by (auto simp: add_locked_def Let_def simp del: map_of_eq_Some_iff)
  next
    case True
    have sb: "source_bucket c s = b" using b(1) by (simp add: source_bucket_def)
    have wb: "dwf b" using source_bucket_ok [of c s] pos sb by (simp add: dedup_positive_def)
    note g = add_locked_get [OF pos, of s m' e', unfolded sb]
    let ?b' = "od_trim (dc_per_source_max c) (od_put m' e' b)"
    have "dget ?b' m = Some (if m' = m then e' else e) \<and> newer m ?b' \<subseteq> M"
    proof (cases "m' = m")
      case True
      have "source_bucket (add_locked s m' e' c) s = ?b'" using g by (simp add: source_bucket_def)
      then show ?thesis using g True by (simp del: map_of_eq_Some_iff)
    next
      case False
      have n: "newer m (od_put m' e' b) \<subseteq> M"
        using newer_od_put_other [OF wb b(2) False, of e'] b(5) key(2) True False by auto
      have "dget ?b' m = Some e \<and> newer m ?b' = newer m (od_put m' e' b)"
        by (rule od_trim_keeps) (use wb b(2) False n fin in \<open>simp_all add: le_less_trans [OF card_mono]\<close>)
      with n False show ?thesis by simp
    qed
    then show ?thesis
      using g True b(3) key(3) add_locked_positive [OF pos, of s m' e'] unfolding remembered_def
      by (auto simp del: map_of_eq_Some_iff)
  qed
qed

lemma newer_filter:
  assumes "dwf d" "dget d k = Some v" "P (k, v)"
  shows "dget (filter P d) k = Some v \<and> newer k (filter P d) \<subseteq> newer k d"
proof -
  obtain a b where d: "d = a @ (k, v) # b" using dget_split [OF assms(1,2)] by blast
  have w: "dwf (filter P d)" using assms(1) by (rule distinct_map_filter)
  have f: "filter P d = filter P a @ (k, v) # filter P b" using d assms(3) by simp
  have "newer k (filter P d) = set (dkeys (filter P b))" using w unfolding f by (rule newer_split)
  moreover have "newer k d = set (dkeys b)" using newer_split assms(1) d by metis
  moreover have "dget (filter P d) k = Some v" using w by (rule map_of_is_SomeI) (simp add: f)
  ultimately show ?thesis by auto
qed

lemma newer_map: "newer k (map (\<lambda>(x, y). (x, f y)) d) = newer k d"
proof -
  show ?thesis by (simp only: newer_def dkeys_map_val)
qed

lemma remembered_sweep:
  assumes r: "remembered s m t0 S M c" and fresh: "now - t0 \<le> dc_ttl c"
  shows "remembered s m t0 S M (snd (cleanup_expired now c))"
proof -
  obtain b e where b: "dget (dc_sources c) s = Some b" "dget b m = Some e" "t0 \<le> entry_time e"
      "newer s (dc_sources c) \<subseteq> S" "newer m b \<subseteq> M" and pos: "dedup_positive c"
    using r by (auto simp: remembered_def)
  have ok: "dedup_ok c" using pos by (simp add: dedup_positive_def)
  have wb: "dwf b" using source_bucket_ok [OF ok, of s] b(1) by (simp add: source_bucket_def)
  have lb: "dget (live_entries (dc_ttl c) now b) m = Some e \<and> newer m (live_entries (dc_ttl c) now b) \<subseteq> newer m b"
    unfolding live_entries_def by (rule newer_filter [OF wb b(2)]) (use b(3) fresh in simp)
  then have ne: "live_entries (dc_ttl c) now b \<noteq> []" by auto
  let ?g = "map (\<lambda>(s, b). (s, live_entries (dc_ttl c) now b)) (dc_sources c)"
  have wg: "dwf ?g" using ok unfolding dkeys_map_val by (simp add: dedup_ok_def)
  have "dget ?g s = Some (live_entries (dc_ttl c) now b)"
    using b(1) unfolding dget_map_val by simp
  then have "dget (filter (\<lambda>(s, b). b \<noteq> []) ?g) s = Some (live_entries (dc_ttl c) now b)
     \<and> newer s (filter (\<lambda>(s, b). b \<noteq> []) ?g) \<subseteq> newer s ?g"
    by (intro newer_filter [OF wg]) (use ne in simp_all)
  moreover have "dedup_positive (snd (cleanup_expired now c))"
    using pos cleanup_ok [OF ok, of now] by (simp add: dedup_positive_def cleanup_expired_def Let_def)
  ultimately show ?thesis
    using lb b unfolding remembered_def newer_map by (auto simp: cleanup_expired_def Let_def simp del: map_of_eq_Some_iff)
qed

lemma dedup_step_params:
  "dc_sources_max (dedup_step op c) = dc_sources_max c \<and> dc_per_source_max (dedup_step op c) = dc_per_source_max c
   \<and> dc_ttl (dedup_step op c) = dc_ttl c"
  by (cases op) (auto simp: check_and_add_def check_and_add_with_transport_def dedup_add_def cleanup_expired_def Let_def
      split: option.splits)

lemma remembered_step:
  assumes r: "remembered s m t0 S M c" and op: "\<forall>k. op_key op = Some k \<longrightarrow> k \<noteq> (s, m)"
    and fresh: "\<forall>now. op = DSweep now \<longrightarrow> now - t0 \<le> dc_ttl c"
    and fin: "finite S" "card S < dc_sources_max c" "finite M" "card M < dc_per_source_max c"
    and key: "\<forall>s' m'. op_key op = Some (s', m') \<longrightarrow> (if s' = s then m' \<in> M else s' \<in> S)"
  shows "remembered s m t0 S M (dedup_step op c)"
proof (cases op)
  case (DSweep now)
  then show ?thesis using remembered_sweep [OF r] fresh by simp
qed (use r op key fin in \<open>auto simp: check_and_add_def check_and_add_with_transport_def dedup_add_def Let_def
      intro!: remembered_add split: option.splits if_splits\<close>)

fun dedup_run :: "dedup_op list \<Rightarrow> dedup_cache \<Rightarrow> dedup_cache" where
  "dedup_run [] c = c"
| "dedup_run (op # ops) c = dedup_run ops (dedup_step op c)"

lemma remembered_run:
  assumes "remembered s m t0 S M c" "\<forall>op \<in> set ops. \<forall>k. op_key op = Some k \<longrightarrow> k \<noteq> (s, m)"
    and "\<forall>now. DSweep now \<in> set ops \<longrightarrow> now - t0 \<le> dc_ttl c"
    and fin: "finite S" "card S < dc_sources_max c" "finite M" "card M < dc_per_source_max c"
    and "\<forall>op \<in> set ops. \<forall>s' m'. op_key op = Some (s', m') \<longrightarrow> (if s' = s then m' \<in> M else s' \<in> S)"
  shows "remembered s m t0 S M (dedup_run ops c)"
  using assms
proof (induction ops arbitrary: c)
  case (Cons op ops)
  have "remembered s m t0 S M (dedup_step op c)"
    by (rule remembered_step) (use Cons.prems in auto)
  with Cons.IH [of "dedup_step op c"] Cons.prems show ?case
    by (simp add: dedup_step_params)
qed simp

text \<open>The other sources, and the other ids of the same source, that a run of operations names.\<close>

definition other_sources :: "string \<Rightarrow> dedup_op list \<Rightarrow> string set" where
  "other_sources s ops = {s'. \<exists>m' op. op \<in> set ops \<and> op_key op = Some (s', m') \<and> s' \<noteq> s}"

definition other_ids :: "string \<Rightarrow> string \<Rightarrow> dedup_op list \<Rightarrow> string set" where
  "other_ids s m ops = {m'. \<exists>op. op \<in> set ops \<and> op_key op = Some (s, m') \<and> m' \<noteq> m}"

lemma finite_others [simp]: "finite (other_sources s ops)" "finite (other_ids s m ops)"
proof -
  have "other_sources s ops \<subseteq> (fst \<circ> the \<circ> op_key) ` set ops"
    by (force simp: other_sources_def)
  then show "finite (other_sources s ops)" by (rule finite_subset) simp
  have "other_ids s m ops \<subseteq> (snd \<circ> the \<circ> op_key) ` set ops"
    by (force simp: other_ids_def)
  then show "finite (other_ids s m ops)" by (rule finite_subset) simp
qed

lemma check_and_add_remembered:
  assumes "dedup_positive c" "\<not> is_duplicate s m c"
  shows "remembered s m t0 {} {} (snd (check_and_add t0 s m c))"
  using assms add_locked_get [OF assms(1), of s m "Bare t0"] add_locked_positive [OF assms(1), of s m "Bare t0"]
  unfolding remembered_def by (auto simp: check_and_add_def source_bucket_def simp del: map_of_eq_Some_iff)

lemma remembered_mono: "remembered s m t0 S M c \<Longrightarrow> S \<subseteq> S' \<Longrightarrow> M \<subseteq> M' \<Longrightarrow> remembered s m t0 S' M' c"
  unfolding remembered_def by blast

text \<open>C21: a delivered message stays a duplicate until its time is up, whatever a flood does. After
  a first delivery, any interleaving of other deliveries and sweeps within the TTL leaves the
  message a duplicate, as long as fewer other sources than the source budget and fewer other
  ids of the same source than the per-source budget appear. So one hostile source can never
  push out the messages of another.\<close>

theorem dedup_flood_resistant:
  assumes "dedup_positive c" "\<not> is_duplicate s m c"
    and "\<forall>op \<in> set ops. op_key op \<noteq> Some (s, m)" "\<forall>now. DSweep now \<in> set ops \<longrightarrow> now - t0 \<le> dc_ttl c"
    and "card (other_sources s ops) < dc_sources_max c" "card (other_ids s m ops) < dc_per_source_max c"
  shows "\<not> fst (check_and_add t0 s m c)
    \<and> fst (check_and_add t1 s m (dedup_run ops (snd (check_and_add t0 s m c))))"
proof -
  let ?c = "snd (check_and_add t0 s m c)"
  have p: "dc_sources_max ?c = dc_sources_max c" "dc_per_source_max ?c = dc_per_source_max c" "dc_ttl ?c = dc_ttl c"
    by (simp_all add: check_and_add_def)
  have "remembered s m t0 (other_sources s ops) (other_ids s m ops) ?c"
    by (rule remembered_mono [OF check_and_add_remembered [OF assms(1,2)]]) simp_all
  then have "remembered s m t0 (other_sources s ops) (other_ids s m ops) (dedup_run ops ?c)"
    by (rule remembered_run)
      (use assms(3-6) p in \<open>simp_all\<close>, use assms(3) in \<open>auto simp: other_sources_def other_ids_def\<close>)
  then have "is_duplicate s m (dedup_run ops ?c)" by (rule remembered_duplicate)
  then show ?thesis using assms(2) by (simp add: check_and_add_def)
qed

theorem dedup_flood_resistant_witness:
  "fst (check_and_add 9 ''a'' ''1'' (dedup_run [DCheck 2 ''b'' ''1'', DCheck 3 ''b'' ''2'', DSweep 4]
     (snd (check_and_add 1 ''a'' ''1'' (new_dedup_cache 2 1 300)))))"
proof -
  have o: "other_sources ''a'' [DCheck 2 ''b'' ''1'', DCheck 3 ''b'' ''2'', DSweep 4] = {''b''}"
    "other_ids ''a'' ''1'' [DCheck 2 ''b'' ''1'', DCheck 3 ''b'' ''2'', DSweep 4] = {}"
    by (force simp: other_sources_def other_ids_def)+
  have "dedup_positive (new_dedup_cache 2 1 300)" "\<not> is_duplicate ''a'' ''1'' (new_dedup_cache 2 1 300)"
    by (simp_all add: dedup_positive_def is_duplicate_def source_bucket_def) (simp_all add: new_dedup_cache_def)
  from dedup_flood_resistant [OF this, of "[DCheck 2 ''b'' ''1'', DCheck 3 ''b'' ''2'', DSweep 4]" 1 9]
  show ?thesis by (simp add: o) (simp add: new_dedup_cache_def)
qed

text \<open>The cache is bounded. Every operation keeps at most \<open>sources_max\<close> sources of at most
  \<open>per_source_max\<close> ids each, so never more than their product in all.\<close>

lemma dedup_bounded:
  assumes "dedup_ok c"
  shows "dedup_ok (dedup_run ops c)
    \<and> source_count (dedup_run ops c) \<le> dc_sources_max c
    \<and> dedup_size (dedup_run ops c) \<le> dc_sources_max c * dc_per_source_max c"
  using assms
proof (induction ops arbitrary: c)
  case Nil
  then show ?case using dedup_size_le by (simp add: dedup_ok_def source_count_def)
next
  case (Cons op ops)
  have "dedup_ok (dedup_step op c)"
    using Cons.prems by (cases op) (simp_all add: check_and_add_ok dedup_add_def add_locked_ok cleanup_ok)
  from Cons.IH [OF this] show ?case by (simp add: dedup_step_params)
qed

end
