(* ===== verification/Breaker.thy ===== *)
theory Breaker
  imports Prelude
begin

text \<open>
  mesh.py, \<open>class CircuitBreaker\<close>: per-peer failure window, trip and cooldown. The trip
  callback is the audit entry; \<open>record_failure\<close> returns whether it fired.
\<close>

record breaker_peer =
  bp_failures :: "time list"
  bp_opened_at :: "time option"

record circuit_breaker =
  cb_threshold :: nat
  cb_window :: real
  cb_cooldown :: real
  cb_state :: "(node_id, breaker_peer) dict"

definition new_circuit_breaker :: circuit_breaker where
  "new_circuit_breaker = \<lparr> cb_threshold = 3, cb_window = 60, cb_cooldown = 60, cb_state = [] \<rparr>"

definition closed_peer :: breaker_peer where
  "closed_peer = \<lparr> bp_failures = [], bp_opened_at = None \<rparr>"

definition breaker_get :: "circuit_breaker \<Rightarrow> node_id \<Rightarrow> breaker_peer" where
  "breaker_get b p = dget_default closed_peer (cb_state b) p"

definition breaker_put :: "node_id \<Rightarrow> breaker_peer \<Rightarrow> circuit_breaker \<Rightarrow> circuit_breaker" where
  "breaker_put p s b = b\<lparr>cb_state := dset p s (cb_state b)\<rparr>"

definition record_success :: "node_id \<Rightarrow> circuit_breaker \<Rightarrow> circuit_breaker" where
  "record_success p b = breaker_put p closed_peer b"

definition record_failure :: "time \<Rightarrow> node_id \<Rightarrow> circuit_breaker \<Rightarrow> bool \<times> circuit_breaker" where
  "record_failure now p b =
    (let st = breaker_get b p;
         failures = filter (\<lambda>t. now - t \<le> cb_window b) (bp_failures st @ [now]) in
     if length failures \<ge> cb_threshold b \<and> bp_opened_at st = None
     then (True, breaker_put p \<lparr> bp_failures = failures, bp_opened_at = Some now \<rparr> b)
     else (False, breaker_put p \<lparr> bp_failures = failures, bp_opened_at = bp_opened_at st \<rparr> b))"

definition breaker_is_open :: "time \<Rightarrow> node_id \<Rightarrow> circuit_breaker \<Rightarrow> bool \<times> circuit_breaker" where
  "breaker_is_open now p b = (case dget (cb_state b) p of
     None \<Rightarrow> (False, b)
   | Some st \<Rightarrow> (case bp_opened_at st of
       None \<Rightarrow> (False, b)
     | Some t \<Rightarrow> if now - t > cb_cooldown b then (False, breaker_put p closed_peer b) else (True, b)))"

lemma breaker_get_put [simp]: "breaker_get (breaker_put p s b) q = (if q = p then s else breaker_get b q)"
  by (simp add: breaker_get_def breaker_put_def)

lemma breaker_put_params [simp]:
  "cb_threshold (breaker_put p s b) = cb_threshold b" "cb_window (breaker_put p s b) = cb_window b"
  "cb_cooldown (breaker_put p s b) = cb_cooldown b"
  by (simp_all add: breaker_put_def)

lemma breaker_is_open_fst:
  "fst (breaker_is_open now p b) \<longleftrightarrow> (\<exists>t. bp_opened_at (breaker_get b p) = Some t \<and> now - t \<le> cb_cooldown b)"
  by (auto simp: breaker_is_open_def breaker_get_def closed_peer_def split: option.splits)

section \<open>The breaker as a state machine\<close>

text \<open>
  A peer is closed with its recent failures, or open since a time. The steps are the three
  calls; \<open>Probe\<close> is \<open>is_open\<close>, which is what closes an expired breaker.
\<close>

datatype breaker_phase = Closed "time list" | Open time "time list"

definition phase_of :: "breaker_peer \<Rightarrow> breaker_phase" where
  "phase_of s = (case bp_opened_at s of None \<Rightarrow> Closed (bp_failures s) | Some t \<Rightarrow> Open t (bp_failures s))"

datatype breaker_event = Success | Failure time | Probe time

inductive breaker_step :: "circuit_breaker \<Rightarrow> breaker_phase \<Rightarrow> breaker_event \<Rightarrow> breaker_phase \<Rightarrow> bool" for b where
  success: "breaker_step b ph Success (Closed [])"
| fail_closed: "fs' = filter (\<lambda>t. now - t \<le> cb_window b) (fs @ [now]) \<Longrightarrow> length fs' < cb_threshold b \<Longrightarrow>
    breaker_step b (Closed fs) (Failure now) (Closed fs')"
| trip: "fs' = filter (\<lambda>t. now - t \<le> cb_window b) (fs @ [now]) \<Longrightarrow> cb_threshold b \<le> length fs' \<Longrightarrow>
    breaker_step b (Closed fs) (Failure now) (Open now fs')"
| fail_open: "fs' = filter (\<lambda>t. now - t \<le> cb_window b) (fs @ [now]) \<Longrightarrow>
    breaker_step b (Open t fs) (Failure now) (Open t fs')"
| probe_closed: "breaker_step b (Closed fs) (Probe now) (Closed fs)"
| probe_open: "now - t \<le> cb_cooldown b \<Longrightarrow> breaker_step b (Open t fs) (Probe now) (Open t fs)"
| probe_expired: "now - t > cb_cooldown b \<Longrightarrow> breaker_step b (Open t fs) (Probe now) (Closed [])"

inductive_cases success_stepE: "breaker_step b ph Success ph'"
inductive_cases failure_stepE: "breaker_step b ph (Failure now) ph'"
inductive_cases probe_stepE: "breaker_step b ph (Probe now) ph'"
inductive_simps step_to_open: "breaker_step b (Closed fs) e (Open t fs')"

fun breaker_exec :: "node_id \<Rightarrow> breaker_event \<Rightarrow> circuit_breaker \<Rightarrow> circuit_breaker" where
  "breaker_exec p Success b = record_success p b"
| "breaker_exec p (Failure now) b = snd (record_failure now p b)"
| "breaker_exec p (Probe now) b = snd (breaker_is_open now p b)"

lemma breaker_exec_params [simp]:
  "cb_threshold (breaker_exec p e b) = cb_threshold b" "cb_window (breaker_exec p e b) = cb_window b"
  "cb_cooldown (breaker_exec p e b) = cb_cooldown b"
  by (cases e; auto simp: record_success_def record_failure_def breaker_is_open_def Let_def split: option.splits)+

lemma breaker_exec_other: "q \<noteq> p \<Longrightarrow> breaker_get (breaker_exec p e b) q = breaker_get b q"
  by (cases e) (auto simp: record_success_def record_failure_def breaker_is_open_def Let_def split: option.splits)

lemma breaker_exec_refines:
  "breaker_step b (phase_of (breaker_get b p)) e (phase_of (breaker_get (breaker_exec p e b) p))"
proof (cases e)
  case Success
  then show ?thesis
    by (simp add: record_success_def closed_peer_def phase_of_def breaker_step.intros)
next
  case (Failure now)
  show ?thesis
    unfolding Failure
    by (cases "bp_opened_at (breaker_get b p)")
       (auto simp: record_failure_def Let_def phase_of_def not_le intro!: breaker_step.intros)
next
  case (Probe now)
  show ?thesis
  proof (cases "dget (cb_state b) p")
    case None
    then show ?thesis
      unfolding Probe by (simp add: breaker_is_open_def breaker_get_def phase_of_def closed_peer_def breaker_step.intros)
  next
    case (Some st)
    then have g: "breaker_get b p = st" by (simp add: breaker_get_def)
    show ?thesis
      unfolding Probe using Some g
      by (cases "bp_opened_at st")
         (auto simp: breaker_is_open_def phase_of_def closed_peer_def intro!: breaker_step.intros)
  qed
qed

lemma breaker_step_det: "breaker_step b ph e ph1 \<Longrightarrow> breaker_step b ph e ph2 \<Longrightarrow> ph1 = ph2"
  by (induction rule: breaker_step.induct) (auto elim!: success_stepE failure_stepE probe_stepE)

text \<open>C31: the breaker implements its state machine. Each of \<open>record_success\<close>, \<open>record_failure\<close>
  and \<open>is_open\<close> takes the peer's phase along exactly one transition of \<open>breaker_step\<close>, leaves
  every other peer alone, and the answer of \<open>is_open\<close> is whether the phase stays open.\<close>

theorem circuit_breaker_refines:
  "(\<forall>ph. breaker_step b (phase_of (breaker_get b p)) e ph \<longleftrightarrow> ph = phase_of (breaker_get (breaker_exec p e b) p))
   \<and> (q \<noteq> p \<longrightarrow> breaker_get (breaker_exec p e b) q = breaker_get b q)
   \<and> (fst (breaker_is_open now p b) \<longleftrightarrow>
        (\<exists>t fs. phase_of (breaker_get (breaker_exec p (Probe now) b) p) = Open t fs))"
proof (intro conjI)
  show "\<forall>ph. breaker_step b (phase_of (breaker_get b p)) e ph \<longleftrightarrow> ph = phase_of (breaker_get (breaker_exec p e b) p)"
    using breaker_exec_refines breaker_step_det by metis
  show "q \<noteq> p \<longrightarrow> breaker_get (breaker_exec p e b) q = breaker_get b q"
    using breaker_exec_other by blast
  show "fst (breaker_is_open now p b) \<longleftrightarrow>
        (\<exists>t fs. phase_of (breaker_get (breaker_exec p (Probe now) b) p) = Open t fs)"
    by (auto simp: breaker_is_open_def breaker_get_def phase_of_def closed_peer_def breaker_put_def split: option.splits)
qed

theorem circuit_breaker_refines_witness:
  "breaker_get (breaker_exec ''p'' (Failure 3) new_circuit_breaker) ''q'' = closed_peer"
  using circuit_breaker_refines [of new_circuit_breaker "''p''" "Failure 3" "''q''" 0]
  by (simp add: breaker_get_def new_circuit_breaker_def)

end
