(* ===== verification/Mesh.thy ===== *)
theory Mesh
  imports Sending Routes Dedup Breaker
begin

text \<open>
  mesh.py, \<open>class MeshRouter\<close>: the composition of routing table, dedup cache and circuit
  breaker, over the outbound side of the daemon. \<open>handle_route_announce\<close>, \<open>relay_message\<close>
  and one pass of the two background loops are whole handlers; the audit entries they write
  are values.
\<close>

datatype mesh_mode = ModeOff | Passive | Relay

fun mesh_mode_of :: "string \<Rightarrow> mesh_mode py" where
  "mesh_mode_of s = (if s = ''off'' then Inr ModeOff else if s = ''passive'' then Inr Passive
     else if s = ''relay'' then Inr Relay else Inl (ValueError ''Invalid mesh_routing mode''))"

datatype mesh_audit =
    RouteExpired node_id
  | PartitionSuspected node_id
  | RouteLearned node_id node_id int
  | RouteAnnounced node_id nat
  | DuplicateDropped string string
  | CrossTransportReplay string string "string option" string
  | TtlExpired string string
  | RouteLoop string string "string list"
  | NoRoute string string
  | MessageRelayed string string node_id string
  | BreakerTripped node_id

record mesh_router =
  m_mode :: mesh_mode
  m_table :: routing_table
  m_dedup :: dedup_cache
  m_breaker :: circuit_breaker
  m_sequence :: int
  m_last_partition :: "(node_id, time) dict"
  m_save_pending :: bool
  m_saved :: "routing_table option"
  m_audit :: "mesh_audit list"
  m_relayed :: int
  m_link :: link

text \<open>\<open>__init__\<close>: needs the keypair, validates the mode.\<close>

definition new_mesh_router :: "string \<Rightarrow> real \<Rightarrow> nat \<Rightarrow> nat \<Rightarrow> real \<Rightarrow> bool \<Rightarrow> link \<Rightarrow> mesh_router py" where
  "new_mesh_router mode route_ttl sources_max per_source_max dedup_ttl has_keypair d =
    (if \<not> has_keypair then Inl (RuntimeError ''MeshRouter requires daemon keypair'')
     else py_bind (mesh_mode_of mode) (\<lambda>md. Inr
       \<lparr> m_mode = md, m_table = new_routing_table (l_node_id d) route_ttl,
         m_dedup = new_dedup_cache sources_max per_source_max dedup_ttl, m_breaker = new_circuit_breaker,
         m_sequence = 0, m_last_partition = [], m_save_pending = False, m_saved = None, m_audit = [],
         m_relayed = 0, m_link = d \<rparr>))"

definition log_mesh :: "mesh_audit list \<Rightarrow> mesh_router \<Rightarrow> mesh_router" where
  "log_mesh es m = m\<lparr>m_audit := m_audit m @ es\<rparr>"

definition direct_peers :: "mesh_router \<Rightarrow> node_id list" where
  "direct_peers m = map fst (filter (\<lambda>(pid, s). is_online s \<and> pid \<in> set (l_ws_clients (m_link m)) \<and> ps_supports_mesh s)
     (l_peers (m_link m)))"

text \<open>\<open>is_open\<close> closes an expired breaker as it answers, so the lookup threads the breaker.\<close>

definition probe_breaker :: "time \<Rightarrow> node_id \<Rightarrow> mesh_router \<Rightarrow> bool \<times> mesh_router" where
  "probe_breaker now p m = (case breaker_is_open now p (m_breaker m) of (o', b) \<Rightarrow> (o', m\<lparr>m_breaker := b\<rparr>))"

definition mesh_get_route :: "time \<Rightarrow> node_id \<Rightarrow> mesh_router \<Rightarrow> node_id option \<times> mesh_router" where
  "mesh_get_route now dst m0 =
    (if dst = l_node_id (m_link m0) then (None, m0)
     else
       let (direct, m) =
         (if dst \<in> set (l_ws_clients (m_link m0))
          then (case probe_breaker now dst m0 of (opened, m1) \<Rightarrow> (\<not> opened, m1)) else (False, m0)) in
       if direct then (Some dst, m)
       else case get_next_hop dst (m_table m) of
         None \<Rightarrow> (None, m)
       | Some nh \<Rightarrow>
           (case probe_breaker now nh m of (opened, m2) \<Rightarrow>
              if opened then (None, m2)
              else if nh \<notin> set (l_ws_clients (m_link m2)) then (None, m2)
              else (Some nh, m2)))"

section \<open>Persistence\<close>

definition routes_key :: "crypto \<Rightarrow> bytes \<Rightarrow> bytes" where
  "routes_key C ed25519_secret = sha256 C (ed25519_secret @ utf8 ''ironmesh-routes-v1'')"

definition load_persisted_routes ::
  "crypto \<Rightarrow> float_io \<Rightarrow> time \<Rightarrow> bytes \<Rightarrow> string option \<Rightarrow> mesh_router \<Rightarrow> bool \<times> mesh_router" where
  "load_persisted_routes C io now secret file m =
    (let r = routes_load C io now (routes_key C secret) 30 file (m_table m) in (rl_ok r, m\<lparr>m_table := rl_table r\<rparr>))"

definition schedule_save :: "mesh_router \<Rightarrow> mesh_router" where
  "schedule_save m = m\<lparr>m_save_pending := True\<rparr>"

section \<open>Announcing\<close>

definition build_announcement_payload :: "node_id \<Rightarrow> mesh_router \<Rightarrow> json \<times> mesh_router" where
  "build_announcement_payload neighbor m =
    (let m' = m\<lparr>m_sequence := m_sequence m + 1\<rparr> in
     (JObj [(''origin'', JStr (l_node_id (m_link m))),
            (''routes'', JArr (map (\<lambda>(dst, c). JObj [(''destination'', JStr dst), (''cost'', JInt c)])
                                (to_announcement (Some neighbor) (m_table m)))),
            (''sequence_number'', JInt (m_sequence m'))], m'))"

definition send_announcement :: "crypto \<Rightarrow> float_io \<Rightarrow> send_env \<Rightarrow> string \<Rightarrow> node_id \<Rightarrow> mesh_router \<Rightarrow> mesh_router" where
  "send_announcement C io env rid neighbor m0 =
    (case build_announcement_payload neighbor m0 of (payload, m) \<Rightarrow>
       let f = new_frame (se_wall env) rid (mt_value ROUTE_ANNOUNCE) (utf8 (dumps_compact io payload)) None
                 (l_node_id (m_link m)) neighbor (JStr (mp_value NORMAL)) 0 in
       case send_frame C io env neighbor f (m_link m) of
         (Some _, d) \<Rightarrow> m\<lparr>m_link := d\<rparr>
       | (None, d) \<Rightarrow> log_mesh [RouteAnnounced neighbor (length (to_announcement (Some neighbor) (m_table m0)))] (m\<lparr>m_link := d\<rparr>))"

text \<open>One round of \<open>announce_loop\<close>.\<close>

definition announce_pass :: "crypto \<Rightarrow> float_io \<Rightarrow> (node_id \<Rightarrow> send_env \<times> string) \<Rightarrow> mesh_router \<Rightarrow> mesh_router" where
  "announce_pass C io envs m =
    (if m_mode m = ModeOff then m
     else fold (\<lambda>n. send_announcement C io (fst (envs n)) (snd (envs n)) n) (direct_peers m) m)"

text \<open>One round of \<open>cleanup_loop\<close>: expiry, dedup sweep, partition check, pending save.\<close>

fun partition_check :: "time \<Rightarrow> real \<Rightarrow> (node_id \<times> route) list \<Rightarrow> (node_id, time) dict \<Rightarrow> mesh_audit list \<times> (node_id, time) dict" where
  "partition_check now ttl [] seen_at = ([], seen_at)"
| "partition_check now ttl ((dst, r) # rs) seen_at =
     (if now - rt_updated r > 2 * ttl \<and> now - dget_default 0 seen_at dst > 300
      then (case partition_check now ttl rs (dset dst now seen_at) of (es, l) \<Rightarrow> (PartitionSuspected dst # es, l))
      else partition_check now ttl rs seen_at)"

definition cleanup_pass :: "time \<Rightarrow> mesh_router \<Rightarrow> mesh_router" where
  "cleanup_pass now m0 =
    (case expire_old now (m_table m0) of (expired, table) \<Rightarrow>
       let m1 = log_mesh (map RouteExpired expired) (m0\<lparr>m_table := table\<rparr>);
           m2 = (if expired = [] then m1 else schedule_save m1);
           m3 = m2\<lparr>m_dedup := snd (cleanup_expired now (m_dedup m2))\<rparr> in
       case partition_check now (rtab_ttl table) (rtab_routes table) (m_last_partition m3) of (es, checked) \<Rightarrow>
         let m4 = log_mesh es (m3\<lparr>m_last_partition := checked\<rparr>) in
         if m_save_pending m4 then m4\<lparr>m_saved := Some (m_table m4), m_save_pending := False\<rparr> else m4)"

section \<open>Learning\<close>

text \<open>
  \<open>int(entry.get("cost", 16))\<close> for the JSON values: numbers truncate, a string of digits
  with an optional sign and surrounding white space is read, anything else raises.
\<close>

definition int_space :: "char \<Rightarrow> bool" where
  "int_space c = (let n = of_char c :: nat in 9 \<le> n \<and> n \<le> 13 \<or> 28 \<le> n \<and> n \<le> 32 \<or> n = 133 \<or> n = 160)"

definition strip_ws :: "string \<Rightarrow> string" where
  "strip_ws s = rev (dropWhile int_space (rev (dropWhile int_space s)))"

fun digits_value :: "string \<Rightarrow> nat \<Rightarrow> nat option" where
  "digits_value [] acc = Some acc"
| "digits_value (c # s) acc = (if is_digit c then digits_value s (10 * acc + digit_val c)
     else if c = CHR ''_'' \<and> s \<noteq> [] \<and> is_digit (hd s) then digits_value s acc else None)"

definition int_of_str :: "string \<Rightarrow> int option" where
  "int_of_str s = (case strip_ws s of
     [] \<Rightarrow> None
   | c # t \<Rightarrow>
       let (neg, body) = (if c = CHR ''-'' then (True, t) else if c = CHR ''+'' then (False, t) else (False, c # t)) in
       if body = [] \<or> \<not> is_digit (hd body) then None
       else map_option (\<lambda>n. if neg then - int n else int n) (digits_value body 0))"

definition int_of_json :: "json \<Rightarrow> int option" where
  "int_of_json j = (case j of
     JInt i \<Rightarrow> Some i | JBool b \<Rightarrow> Some (if b then 1 else 0) | JFloat r \<Rightarrow> Some (trunc_int r)
   | JStr s \<Rightarrow> int_of_str s | _ \<Rightarrow> None)"

text \<open>What one entry of an announcement names, if it is usable.\<close>

definition announce_entry :: "node_id \<Rightarrow> json \<Rightarrow> (node_id \<times> int) option" where
  "announce_entry me entry = (case entry of
     JObj e \<Rightarrow>
       (case int_of_json (dget_default (JInt INFINITY_COST) e ''cost'') of
          None \<Rightarrow> None
        | Some cost \<Rightarrow>
            (case dget e ''destination'' of
               Some (JStr dst) \<Rightarrow> if dst = [] \<or> dst = me then None else Some (dst, cost)
             | _ \<Rightarrow> None))
   | _ \<Rightarrow> None)"

fun learn_routes :: "time \<Rightarrow> node_id \<Rightarrow> node_id \<Rightarrow> json list \<Rightarrow> routing_table \<Rightarrow> mesh_audit list \<times> routing_table" where
  "learn_routes now me peer [] t = ([], t)"
| "learn_routes now me peer (entry # es) t =
     (case announce_entry me entry of
        None \<Rightarrow> learn_routes now me peer es t
      | Some (dst, cost) \<Rightarrow>
          (case add_route now dst peer (cost + 1) peer t of (changed, t1) \<Rightarrow>
             (case learn_routes now me peer es t1 of (audit, t2) \<Rightarrow>
                (if changed then RouteLearned dst peer (cost + 1) # audit else audit, t2))))"

definition mark_announcer :: "time \<Rightarrow> node_id \<Rightarrow> mesh_router \<Rightarrow> mesh_router" where
  "mark_announcer now peer m = (case dget (l_peers (m_link m)) peer of
     None \<Rightarrow> m
   | Some s \<Rightarrow> m\<lparr>m_link := set_peer peer (s\<lparr>ps_last_route_announce := Some now, ps_is_relay_capable := True\<rparr>) (m_link m)\<rparr>)"

definition handle_route_announce :: "float_io \<Rightarrow> time \<Rightarrow> node_id \<Rightarrow> bytes \<Rightarrow> mesh_router \<Rightarrow> mesh_router" where
  "handle_route_announce io now peer payload m =
    (if m_mode m = ModeOff then m
     else if length payload > 1048576 then m
     else case safe_json_loads io payload MAX_JSON_DEPTH of
       Some (JObj data) \<Rightarrow>
         (case dget_default (JArr []) data ''routes'' of
            JArr routes \<Rightarrow>
              let m1 = mark_announcer now peer m in
              (case learn_routes now (l_node_id (m_link m1)) peer routes (m_table m1) of (audit, t) \<Rightarrow>
                 let m2 = log_mesh audit (m1\<lparr>m_table := t\<rparr>) in
                 if audit = [] then m2 else schedule_save m2)
          | _ \<Rightarrow> m)
     | _ \<Rightarrow> m)"

section \<open>Relaying\<close>

text \<open>\<open>_send_unreachable\<close>: best effort, along a route back to the source.\<close>

definition send_unreachable ::
  "crypto \<Rightarrow> float_io \<Rightarrow> send_env \<Rightarrow> string \<Rightarrow> string \<Rightarrow> string \<Rightarrow> string \<Rightarrow> mesh_router \<Rightarrow> mesh_router" where
  "send_unreachable C io env rid original_source destination original_msg_id m =
    (case mesh_get_route (se_wall env) original_source m of
       (None, m1) \<Rightarrow> m1
     | (Some nh, m1) \<Rightarrow>
         let payload = utf8 (dumps_compact io (JObj [(''destination'', JStr destination),
               (''original_msg_id'', JStr original_msg_id), (''reason'', JStr ''no_route'')]));
             f = new_frame (se_wall env) rid (mt_value ROUTE_UNREACHABLE) payload None
                   (l_node_id (m_link m1)) original_source (JStr (mp_value NORMAL)) 0 in
         m1\<lparr>m_link := snd (send_frame C io env nh f (m_link m1))\<rparr>)"

text \<open>The duplicate check of \<open>relay_message\<close>, with or without the delivering transport.\<close>

definition relay_dedup :: "time \<Rightarrow> frame \<Rightarrow> string option \<Rightarrow> mesh_router \<Rightarrow> bool \<times> mesh_router" where
  "relay_dedup now f transport m = (case transport of
     Some tr \<Rightarrow>
       (case check_and_add_with_transport now (f_source f) (f_msg_id f) tr (m_dedup m) of
          (Fresh, c) \<Rightarrow> (False, m\<lparr>m_dedup := c\<rparr>)
        | (Duplicate original this cross delta, c) \<Rightarrow>
            (True, log_mesh (DuplicateDropped (f_source f) (f_msg_id f) #
                (if cross then [CrossTransportReplay (f_source f) (f_msg_id f) original this] else []))
              (m\<lparr>m_dedup := c\<rparr>)))
   | None \<Rightarrow>
       (case check_and_add now (f_source f) (f_msg_id f) (m_dedup m) of
          (True, c) \<Rightarrow> (True, log_mesh [DuplicateDropped (f_source f) (f_msg_id f)] (m\<lparr>m_dedup := c\<rparr>))
        | (False, c) \<Rightarrow> (False, m\<lparr>m_dedup := c\<rparr>)))"

text \<open>The frame a relay forwards.\<close>

definition hop_frame :: "node_id \<Rightarrow> frame \<Rightarrow> frame" where
  "hop_frame me f = f\<lparr>f_ttl := f_ttl f - 1, f_hops := f_hops f @ [me]\<rparr>"

definition relay_message ::
  "crypto \<Rightarrow> float_io \<Rightarrow> send_env \<Rightarrow> send_env \<Rightarrow> string \<Rightarrow> frame \<Rightarrow> string option \<Rightarrow> mesh_router \<Rightarrow> bool \<times> mesh_router" where
  "relay_message C io env env' rid f transport m0 =
    (let now = se_wall env; me = l_node_id (m_link m0) in
     if m_mode m0 \<noteq> Relay then (False, m0)
     else if now - f_timestamp f > 86400 then (False, m0)
     else case relay_dedup now f transport m0 of
       (True, m1) \<Rightarrow> (False, m1)
     | (False, m1) \<Rightarrow>
         if f_ttl f \<le> 0 then (False, log_mesh [TtlExpired (f_source f) (f_msg_id f)] m1)
         else if me \<in> set (f_hops f) then (False, log_mesh [RouteLoop (f_source f) (f_msg_id f) (f_hops f)] m1)
         else
           let g = hop_frame me f in
           (case mesh_get_route now (f_destination f) m1 of
              (None, m2) \<Rightarrow>
                (False, send_unreachable C io env' rid (f_source f) (f_destination f) (f_msg_id f)
                   (log_mesh [NoRoute (f_destination f) (f_msg_id f)] m2))
            | (Some nh, m2) \<Rightarrow>
                (case send_frame C io env nh g (m_link m2) of
                   (None, d) \<Rightarrow>
                     (True, log_mesh [MessageRelayed (f_source f) (f_destination f) nh (f_msg_id f)]
                        (m2\<lparr>m_link := d, m_breaker := record_success nh (m_breaker m2), m_relayed := m_relayed m2 + 1\<rparr>))
                 | (Some _, d) \<Rightarrow>
                     (case record_failure now nh (m_breaker m2) of (tripped, b) \<Rightarrow>
                        (False, log_mesh (if tripped then [BreakerTripped nh] else []) (m2\<lparr>m_link := d, m_breaker := b\<rparr>))))))"

section \<open>Facts about the lookups\<close>

lemma log_mesh_fields [simp]:
  "m_mode (log_mesh es m) = m_mode m" "m_table (log_mesh es m) = m_table m" "m_dedup (log_mesh es m) = m_dedup m"
  "m_breaker (log_mesh es m) = m_breaker m" "m_link (log_mesh es m) = m_link m" "m_relayed (log_mesh es m) = m_relayed m"
  "m_audit (log_mesh es m) = m_audit m @ es" "m_save_pending (log_mesh es m) = m_save_pending m"
  "m_last_partition (log_mesh es m) = m_last_partition m"
  by (simp_all add: log_mesh_def)

lemma probe_breaker_fields:
  "probe_breaker now p m = (b, m') \<Longrightarrow> m_mode m' = m_mode m \<and> m_table m' = m_table m \<and> m_dedup m' = m_dedup m
     \<and> m_link m' = m_link m \<and> m_relayed m' = m_relayed m \<and> m_audit m' = m_audit m
     \<and> b = fst (breaker_is_open now p (m_breaker m)) \<and> m_breaker m' = snd (breaker_is_open now p (m_breaker m))"
  by (auto simp: probe_breaker_def split: prod.splits)

lemma mesh_get_route_fields:
  assumes "mesh_get_route now dst m = (r, m')"
  shows "m_mode m' = m_mode m \<and> m_table m' = m_table m \<and> m_dedup m' = m_dedup m \<and> m_link m' = m_link m
    \<and> m_relayed m' = m_relayed m \<and> m_audit m' = m_audit m"
  using assms
  by (auto simp: mesh_get_route_def Let_def split: if_splits prod.splits option.splits dest!: probe_breaker_fields)

lemma mesh_get_route_Some:
  assumes "mesh_get_route now dst m = (Some nh, m')"
  shows "dst \<noteq> l_node_id (m_link m) \<and> nh \<in> set (l_ws_clients (m_link m))
    \<and> (nh = dst \<or> get_next_hop dst (m_table m) = Some nh)
    \<and> \<not> fst (breaker_is_open now nh (m_breaker m'))"
proof -
  have closed: "\<not> fst (breaker_is_open now p b')" if "\<not> fst (breaker_is_open now p b)" "b' = snd (breaker_is_open now p b)" for p b b'
    using that by (auto simp: breaker_is_open_def breaker_put_def closed_peer_def split: option.splits if_splits)
  show ?thesis
    using assms closed
    by (auto simp: mesh_get_route_def Let_def split: if_splits prod.splits option.splits dest!: probe_breaker_fields)
qed

section \<open>What a relay forwards\<close>

lemma relay_dedup_fields:
  assumes "relay_dedup now f tr m = (dup, m')"
  shows "m_mode m' = m_mode m \<and> m_table m' = m_table m \<and> m_link m' = m_link m \<and> m_breaker m' = m_breaker m
    \<and> m_relayed m' = m_relayed m
    \<and> dup = is_duplicate (f_source f) (f_msg_id f) (m_dedup m)
    \<and> (dedup_positive (m_dedup m) \<longrightarrow> is_duplicate (f_source f) (f_msg_id f) (m_dedup m'))
    \<and> (\<forall>p. BreakerTripped p \<in> set (m_audit m') \<longrightarrow> BreakerTripped p \<in> set (m_audit m))"
proof (cases tr)
  case None
  then show ?thesis
    using assms add_locked_seen [of "m_dedup m" "f_source f" "f_msg_id f" "Bare now"]
    by (auto simp: relay_dedup_def check_and_add_def split: if_splits)
next
  case (Some t)
  then show ?thesis
    using assms add_locked_entry [of "m_dedup m" "f_source f" "f_msg_id f" "Tagged now t"]
    by (auto simp: relay_dedup_def check_and_add_with_transport_def is_duplicate_iff Let_def
        split: option.splits if_splits simp del: map_of_eq_Some_iff)
qed

lemma send_unreachable_fields:
  "m_mode (send_unreachable C io env rid a b c m) = m_mode m \<and> m_table (send_unreachable C io env rid a b c m) = m_table m
   \<and> m_dedup (send_unreachable C io env rid a b c m) = m_dedup m \<and> m_audit (send_unreachable C io env rid a b c m) = m_audit m"
proof -
  obtain r m1 where g: "mesh_get_route (se_wall env) a m = (r, m1)" by (cases "mesh_get_route (se_wall env) a m")
  show ?thesis using mesh_get_route_fields [OF g] g by (cases r) (simp_all add: send_unreachable_def Let_def)
qed

text \<open>A successful relay, step by step.\<close>

lemma relay_message_TrueE:
  assumes "relay_message C io env env' rid f tr m = (True, m')"
  obtains m1 nh m2 d where "m_mode m = Relay" "se_wall env - f_timestamp f \<le> 86400"
    "relay_dedup (se_wall env) f tr m = (False, m1)" "0 < f_ttl f" "l_node_id (m_link m) \<notin> set (f_hops f)"
    "mesh_get_route (se_wall env) (f_destination f) m1 = (Some nh, m2)"
    "send_frame C io env nh (hop_frame (l_node_id (m_link m)) f) (m_link m2) = (None, d)"
    "m' = log_mesh [MessageRelayed (f_source f) (f_destination f) nh (f_msg_id f)]
       (m2\<lparr>m_link := d, m_breaker := record_success nh (m_breaker m2), m_relayed := m_relayed m2 + 1\<rparr>)"
proof -
  obtain dup m1 where d: "relay_dedup (se_wall env) f tr m = (dup, m1)" by (cases "relay_dedup (se_wall env) f tr m")
  obtain r m2 where g: "mesh_get_route (se_wall env) (f_destination f) m1 = (r, m2)"
    by (cases "mesh_get_route (se_wall env) (f_destination f) m1")
  have n: "\<not> dup" using assms d by (auto simp: relay_message_def Let_def split: if_splits)
  then obtain nh where nh: "r = Some nh"
    using assms d g by (auto simp: relay_message_def Let_def split: if_splits option.splits)
  obtain e dd where s: "send_frame C io env nh (hop_frame (l_node_id (m_link m)) f) (m_link m2) = (e, dd)"
    by (cases "send_frame C io env nh (hop_frame (l_node_id (m_link m)) f) (m_link m2)")
  show ?thesis
    using assms d g n nh s that [of m1 nh m2 dd]
    by (auto simp: relay_message_def Let_def split: if_splits option.splits prod.splits)
qed

lemma relay_message_True:
  assumes "relay_message C io env env' rid f tr m = (True, m')"
  shows "m_mode m = Relay \<and> se_wall env - f_timestamp f \<le> 86400
    \<and> \<not> is_duplicate (f_source f) (f_msg_id f) (m_dedup m) \<and> 0 < f_ttl f \<and> l_node_id (m_link m) \<notin> set (f_hops f)
    \<and> (dedup_positive (m_dedup m) \<longrightarrow> is_duplicate (f_source f) (f_msg_id f) (m_dedup m'))"
proof (rule relay_message_TrueE [OF assms])
  fix m1 nh m2 d
  assume r: "m_mode m = Relay" "se_wall env - f_timestamp f \<le> 86400"
    "relay_dedup (se_wall env) f tr m = (False, m1)" "0 < f_ttl f" "l_node_id (m_link m) \<notin> set (f_hops f)"
    "mesh_get_route (se_wall env) (f_destination f) m1 = (Some nh, m2)"
    "m' = log_mesh [MessageRelayed (f_source f) (f_destination f) nh (f_msg_id f)]
       (m2\<lparr>m_link := d, m_breaker := record_success nh (m_breaker m2), m_relayed := m_relayed m2 + 1\<rparr>)"
  have "m_dedup m' = m_dedup m1" using mesh_get_route_fields [OF r(6)] r(7) by simp
  with r(1,2,4,5) relay_dedup_fields [OF r(3)] show ?thesis by simp
qed

text \<open>
  A frame carried along a path: each node on it forwarded, with its own router state, the
  frame the previous one produced.
\<close>

inductive carried :: "crypto \<Rightarrow> float_io \<Rightarrow> frame \<Rightarrow> node_id list \<Rightarrow> frame \<Rightarrow> bool" for C io f where
  origin: "carried C io f [] f"
| hop: "carried C io f ns g \<Longrightarrow> relay_message C io env env' rid g tr m = (True, m') \<Longrightarrow>
    carried C io f (ns @ [l_node_id (m_link m)]) (hop_frame (l_node_id (m_link m)) g)"

inductive_cases carried_NilE: "carried C io f [] g"

lemma carried_invariant:
  "carried C io f ns g \<Longrightarrow> distinct (f_hops f) \<Longrightarrow>
     distinct (f_hops f @ ns) \<and> f_hops g = f_hops f @ ns \<and> f_ttl g = f_ttl f - int (length ns)
     \<and> (ns \<noteq> [] \<longrightarrow> int (length ns) \<le> f_ttl f)
     \<and> g = f\<lparr>f_ttl := f_ttl g, f_hops := f_hops g\<rparr>"
proof (induction rule: carried.induct)
  case (hop ns g env env' rid tr m m')
  from relay_message_True [OF hop.hyps(2)] hop.IH [OF hop.prems]
  show ?case by (auto simp: hop_frame_def)
qed simp


text \<open>A relay that has a connected neighbour, and a message for that neighbour.\<close>

definition sample_router :: mesh_router where
  "sample_router = \<lparr> m_mode = Relay, m_table = new_routing_table ''carol'' 90,
     m_dedup = new_dedup_cache 128 1024 300, m_breaker = new_circuit_breaker, m_sequence = 0,
     m_last_partition = [], m_save_pending = False, m_saved = None, m_audit = [], m_relayed = 0,
     m_link = sample_link\<lparr>l_peers := [(''bob'', new_peer_state ''bob'' [])]\<rparr> \<rparr>"

lemma sample_relay:
  "\<exists>m'. relay_message sample_crypto sample_io sample_env sample_env ''r'' sample_frame (Some ''ws'') sample_router = (True, m')
     \<and> l_wire (m_link m') = [] \<and> m_relayed m' = 1"
proof -
  have n: "\<not> sendable ''bob'' (sample_link\<lparr>l_peers := [(''bob'', new_peer_state ''bob'' [])]\<rparr>)"
    by (simp add: sendable_def new_peer_state_def)
  note s = send_frame_not_sendable [OF n]
  have dd: "check_and_add_with_transport 0 ''alice'' ''m1'' ''ws'' (new_dedup_cache 128 1024 300)
      = (Fresh, add_locked ''alice'' ''m1'' (Tagged 0 ''ws'') (new_dedup_cache 128 1024 300))"
    by (simp add: check_and_add_with_transport_def source_bucket_def new_dedup_cache_def)
  have f: "f_source sample_frame = ''alice''" "f_msg_id sample_frame = ''m1''" "f_destination sample_frame = ''bob''"
    "f_ttl sample_frame = 3" "f_hops sample_frame = []" "f_timestamp sample_frame = 0"
    by (simp_all add: sample_frame_def new_frame_def)
  show ?thesis
    unfolding relay_message_def Let_def relay_dedup_def f
    by (simp add: sample_router_def sample_env_def dd mesh_get_route_def probe_breaker_def breaker_is_open_def
        new_circuit_breaker_def s log_mesh_def) (simp add: sample_link_def)
qed




text \<open>A failed relay counts as a delivered one. \<open>_send_frame\<close> reports a missing session, a
  closed socket, a timeout or a throttled frame by returning, so whenever a next hop is found
  that cannot be sent to, the relay still answers success, audits the message as relayed, counts
  it and records a success with the circuit breaker, while nothing reaches the wire.\<close>

lemma relay_failure_counts_as_success:
  assumes "relay_dedup (se_wall env) f tr m = (False, m1)" "m_mode m = Relay" "se_wall env - f_timestamp f \<le> 86400"
    and "0 < f_ttl f" "l_node_id (m_link m) \<notin> set (f_hops f)"
    and "mesh_get_route (se_wall env) (f_destination f) m1 = (Some nh, m2)" "\<not> sendable nh (m_link m)"
  shows "\<exists>m'. relay_message C io env env' rid f tr m = (True, m') \<and> l_wire (m_link m') = l_wire (m_link m)
    \<and> MessageRelayed (f_source f) (f_destination f) nh (f_msg_id f) \<in> set (m_audit m')
    \<and> m_relayed m' = m_relayed m + 1 \<and> bp_failures (breaker_get (m_breaker m') nh) = []"
proof -
  have l: "m_link m2 = m_link m" "m_relayed m2 = m_relayed m"
    using relay_dedup_fields [OF assms(1)] mesh_get_route_fields [OF assms(6)] by simp_all
  have "send_frame C io env nh (hop_frame (l_node_id (m_link m)) f) (m_link m2) = (None, m_link m)"
    using send_frame_not_sendable [OF assms(7)] l by simp
  then show ?thesis
    using assms l by (simp add: relay_message_def Let_def record_success_def closed_peer_def)
qed

definition all_closed :: "circuit_breaker \<Rightarrow> bool" where
  "all_closed b = (\<forall>p. breaker_get b p = closed_peer)"

lemma all_closed_probe: "all_closed (m_breaker m) \<Longrightarrow> probe_breaker now p m = (False, m)"
proof -
  assume "all_closed (m_breaker m)"
  then have "breaker_get (m_breaker m) p = closed_peer" by (simp add: all_closed_def)
  then have "breaker_is_open now p (m_breaker m) = (False, m_breaker m)"
    by (auto simp: breaker_is_open_def breaker_get_def closed_peer_def split: option.splits)
  then show ?thesis by (simp add: probe_breaker_def)
qed

lemma all_closed_route: "all_closed (m_breaker m) \<Longrightarrow> snd (mesh_get_route now dst m) = m"
  by (simp add: mesh_get_route_def all_closed_probe Let_def split: option.splits)

lemma all_closed_success: "all_closed b \<Longrightarrow> all_closed (record_success p b)"
  by (simp add: all_closed_def record_success_def)

lemma send_frame_no_overflow:
  assumes "\<forall>s. dget (l_peers d) p = Some s \<longrightarrow> ps_next_send_seq s < 2 ^ 63"
  shows "fst (send_frame C io env p f d) = None"
proof (cases "sendable p d")
  case True
  then obtain s key where s: "dget (l_peers d) p = Some s" "ps_session_key s = Some key" "key \<noteq> []" "p \<in> set (l_ws_clients d)"
    by (auto simp: sendable_def)
  then have "next_sequence s = (Inr (ps_next_send_seq s), s\<lparr>ps_next_send_seq := ps_next_send_seq s + 1\<rparr>)"
    using assms by (simp add: next_sequence_Inr)
  with s show ?thesis
    by (auto simp: send_frame_def Let_def split: sum.splits prod.splits send_outcome.splits)
qed (simp add: send_frame_not_sendable)

lemma send_unreachable_breaker:
  "all_closed (m_breaker m) \<Longrightarrow> m_breaker (send_unreachable C io env rid a b c m) = m_breaker m"
proof -
  assume a: "all_closed (m_breaker m)"
  obtain r m1 where g: "mesh_get_route (se_wall env) a m = (r, m1)" by (cases "mesh_get_route (se_wall env) a m")
  then have "m1 = m" using all_closed_route [OF a, of "se_wall env" a] by simp
  with g show ?thesis by (cases r) (simp_all add: send_unreachable_def Let_def)
qed

text \<open>Relaying never trips the circuit breaker. As long as no session has used up its 63-bit
  sequence space, no relay, whatever its outcome, records a failure or opens the breaker of any
  peer; \<open>relay_message\<close> is the only caller of \<open>record_failure\<close>, so the breaker stays closed.\<close>

lemma relay_never_trips_breaker:
  assumes "\<forall>p s. dget (l_peers (m_link m)) p = Some s \<longrightarrow> ps_next_send_seq s < 2 ^ 63"
    and "\<forall>p. breaker_get (m_breaker m) p = closed_peer"
  shows "(\<forall>p. breaker_get (m_breaker (snd (relay_message C io env env' rid f tr m))) p = closed_peer)
    \<and> (\<forall>p. BreakerTripped p \<notin> set (m_audit m) \<longrightarrow>
         BreakerTripped p \<notin> set (m_audit (snd (relay_message C io env env' rid f tr m))))"
proof -
  obtain dup m1 where d: "relay_dedup (se_wall env) f tr m = (dup, m1)" by (cases "relay_dedup (se_wall env) f tr m")
  note df = relay_dedup_fields [OF d]
  obtain r m2 where g: "mesh_get_route (se_wall env) (f_destination f) m1 = (r, m2)"
    by (cases "mesh_get_route (se_wall env) (f_destination f) m1")
  have ac: "all_closed (m_breaker m1)" using assms(2) df by (simp add: all_closed_def)
  then have m2: "m2 = m1" using all_closed_route [of m1 "se_wall env" "f_destination f"] g by simp
  have send: "fst (send_frame C io env nh h (m_link m1)) = None" for nh h
    using send_frame_no_overflow assms(1) df by metis
  have "all_closed (m_breaker (snd (relay_message C io env env' rid f tr m)))
    \<and> (\<forall>p. BreakerTripped p \<in> set (m_audit (snd (relay_message C io env env' rid f tr m))) \<longrightarrow> BreakerTripped p \<in> set (m_audit m))"
  proof (cases "m_mode m \<noteq> Relay \<or> se_wall env - f_timestamp f > 86400 \<or> dup \<or> f_ttl f \<le> 0 \<or> l_node_id (m_link m) \<in> set (f_hops f)")
    case True
    then show ?thesis using d df assms(2) ac by (auto simp: relay_message_def Let_def all_closed_def)
  next
    case False
    show ?thesis
    proof (cases r)
      case None
      with False d g m2 df ac send_unreachable_fields send_unreachable_breaker show ?thesis
        by (auto simp: relay_message_def Let_def)
    next
      case (Some nh)
      obtain e dd where s: "send_frame C io env nh (hop_frame (l_node_id (m_link m)) f) (m_link m1) = (e, dd)"
        by (cases "send_frame C io env nh (hop_frame (l_node_id (m_link m)) f) (m_link m1)")
      then have "e = None" using send [of nh "hop_frame (l_node_id (m_link m)) f"] by simp
      with False d g m2 df ac s Some show ?thesis
        by (auto simp: relay_message_def Let_def all_closed_success)
    qed
  qed
  then show ?thesis by (auto simp: all_closed_def)
qed

section \<open>Exchanging announcements\<close>

definition route_entry :: "node_id \<times> int \<Rightarrow> json" where
  "route_entry e = (case e of (dst, c) \<Rightarrow> JObj [(''destination'', JStr dst), (''cost'', JInt c)])"

lemma announce_entry_route_entry:
  "announce_entry me (route_entry (dst, c)) = (if dst = [] \<or> dst = me then None else Some (dst, c))"
  by (simp add: announce_entry_def route_entry_def int_of_json_def)

lemma learn_routes_table_ok:
  "table_ok t \<Longrightarrow> rtab_my_node_id t = me \<Longrightarrow> table_ok (snd (learn_routes now me peer es t))
     \<and> rtab_my_node_id (snd (learn_routes now me peer es t)) = me \<and> rtab_ttl (snd (learn_routes now me peer es t)) = rtab_ttl t"
proof (induction es arbitrary: t)
  case (Cons e es)
  show ?case
  proof (cases "announce_entry me e")
    case (Some x)
    obtain dst c where x: "x = (dst, c)" by (cases x)
    obtain b t1 where a: "add_route now dst peer (c + 1) peer t = (b, t1)" by (cases "add_route now dst peer (c + 1) peer t")
    from Cons.IH [OF add_route_ok [OF Cons.prems(1) a]] add_route_params [OF a] Cons.prems(2) show ?thesis
      using Some x a by (auto split: prod.splits)
  qed (use Cons in simp)
qed simp

text \<open>A poisoned entry leaves no route over the announcer, and nothing after it brings one back.\<close>

lemma learn_routes_poisoned:
  "rtab_my_node_id t = me \<Longrightarrow> dst \<noteq> me \<Longrightarrow> dst \<noteq> [] \<Longrightarrow>
   \<forall>(d, c) \<in> set es. d = dst \<longrightarrow> INFINITY_COST \<le> c \<Longrightarrow>
   (\<exists>c. (dst, c) \<in> set es) \<or> (\<forall>r. table_get t dst = Some r \<longrightarrow> rt_learned_from r \<noteq> peer) \<Longrightarrow>
   table_get (snd (learn_routes now me peer (map route_entry es) t)) dst = Some r \<Longrightarrow> rt_learned_from r \<noteq> peer"
proof (induction es arbitrary: t)
  case (Cons e es)
  obtain d c where e: "e = (d, c)" by (cases e)
  obtain b t1 where a: "add_route now d peer (c + 1) peer t = (b, t1)" by (cases "add_route now d peer (c + 1) peer t")
  note p = add_route_params [OF a]
  show ?case
  proof (cases "d = dst")
    case True
    have c: "INFINITY_COST \<le> c" using Cons.prems(4) e True by auto
    have "\<forall>r. table_get t1 dst = Some r \<longrightarrow> rt_learned_from r \<noteq> peer"
      using add_route_get [OF a, of dst] True c Cons.prems(1,2)
      by (auto simp: INFINITY_COST_def simp del: map_of_eq_Some_iff split: option.splits if_splits)
    then show ?thesis
      using Cons.IH [of t1] Cons.prems p a e True by (auto simp: announce_entry_route_entry split: prod.splits)
  next
    case False
    have same: "table_get t1 dst = table_get t dst"
      using add_route_get [OF a, of dst] False by simp
    show ?thesis
    proof (cases "d = [] \<or> d = me")
      case True
      then show ?thesis using Cons.IH [of t] Cons.prems e False by (auto simp: announce_entry_route_entry)
    next
      case nd: False
      show ?thesis
        using Cons.IH [of t1] Cons.prems p a e False nd same
        by (auto simp: announce_entry_route_entry simp del: map_of_eq_Some_iff split: prod.splits)
    qed
  qed
qed simp

lemma wf_announcement: "wf_json io (fst (build_announcement_payload n m))"
  by (auto simp: build_announcement_payload_def Let_def)

lemma foldr_max_const: "\<forall>m \<in> set ns. m \<le> k \<Longrightarrow> foldr max ns (0::nat) \<le> k"
  by (simp add: foldr_max_le)

lemma depth_announcement: "json_depth (fst (build_announcement_payload n m)) \<le> MAX_JSON_DEPTH"
proof -
  have "json_depth (JArr (map (\<lambda>(dst, c). JObj [(''destination'', JStr dst), (''cost'', JInt c)]) es)) \<le> 2" for es
    unfolding json_depth.simps by (rule foldr_max_const) auto
  then show ?thesis
    unfolding build_announcement_payload_def Let_def fst_conv MAX_JSON_DEPTH_def
    by (simp add: le_Suc_eq del: json_depth.simps(1)) (meson le_trans numeral_le_iff order_refl semiring_norm)?
qed

lemma learn_routes_skip:
  "rtab_my_node_id t = me \<Longrightarrow> dst \<notin> fst ` set es \<Longrightarrow>
   table_get (snd (learn_routes now me peer (map route_entry es) t)) dst = table_get t dst"
proof (induction es arbitrary: t)
  case (Cons e es)
  obtain d c where e: "e = (d, c)" by (cases e)
  obtain b t1 where a: "add_route now d peer (c + 1) peer t = (b, t1)" by (cases "add_route now d peer (c + 1) peer t")
  have "table_get t1 dst = table_get t dst" using add_route_get [OF a, of dst] Cons.prems(2) e by auto
  then show ?case
    using Cons.IH [of t1] Cons.IH [of t] add_route_params [OF a] Cons.prems a e
    by (auto simp: announce_entry_route_entry simp del: map_of_eq_Some_iff split: prod.splits)
qed simp

lemma learn_routes_reach:
  "rtab_my_node_id t = me \<Longrightarrow> dst \<noteq> me \<Longrightarrow> dst \<noteq> [] \<Longrightarrow> distinct (map fst es) \<Longrightarrow> (dst, c) \<in> set es \<Longrightarrow>
   0 \<le> c \<Longrightarrow> c + 1 < INFINITY_COST \<Longrightarrow>
   \<exists>r. table_get (snd (learn_routes now me peer (map route_entry es) t)) dst = Some r \<and> rt_cost r \<le> c + 1"
proof (induction es arbitrary: t)
  case (Cons e es)
  obtain d c' where e: "e = (d, c')" by (cases e)
  obtain b t1 where a: "add_route now d peer (c' + 1) peer t = (b, t1)" by (cases "add_route now d peer (c' + 1) peer t")
  note p = add_route_params [OF a]
  show ?case
  proof (cases "d = dst")
    case True
    then have c: "c' = c" and n: "dst \<notin> fst ` set es" using Cons.prems(4,5) e by (auto simp: image_iff)
    have "\<exists>r. table_get t1 dst = Some r \<and> rt_cost r \<le> c + 1"
      using add_route_get [OF a, of dst] True c Cons.prems(1,2,6,7)
      by (auto simp del: map_of_eq_Some_iff split: option.splits if_splits)
    then show ?thesis
      using learn_routes_skip [of t1 me dst es now peer] n p Cons.prems(1,2,3) a e True c
      by (auto simp: announce_entry_route_entry simp del: map_of_eq_Some_iff split: prod.splits)
  next
    case False
    then have i: "(dst, c) \<in> set es" "distinct (map fst es)" using Cons.prems(4,5) e by auto
    show ?thesis
      using Cons.IH [of t1] Cons.IH [of t] Cons.prems i p a e False
      by (cases "d = [] \<or> d = me")
         (auto simp: announce_entry_route_entry simp del: map_of_eq_Some_iff split: prod.splits)
  qed
qed simp

lemma handle_announcement:
  assumes "m_mode b \<noteq> ModeOff"
    and "p = utf8 (dumps_compact io (fst (build_announcement_payload n a)))" "length p \<le> 1048576"
  shows "m_table (handle_route_announce io now peer p b) =
    snd (learn_routes now (l_node_id (m_link b)) peer (map route_entry (to_announcement (Some n) (m_table a))) (m_table b))"
proof -
  let ?d = "[(''origin'', JStr (l_node_id (m_link a))),
    (''routes'', JArr (map route_entry (to_announcement (Some n) (m_table a)))), (''sequence_number'', JInt (m_sequence a + 1))]"
  have pay: "fst (build_announcement_payload n a) = JObj ?d"
    by (simp add: build_announcement_payload_def Let_def route_entry_def case_prod_beta')
  have l: "safe_json_loads io p MAX_JSON_DEPTH = Some (JObj ?d)"
    unfolding assms(2) pay [symmetric]
    by (rule safe_json_loads_dumps [OF wf_announcement depth_announcement])
  have mk: "m_table (mark_announcer now peer b) = m_table b" "l_node_id (m_link (mark_announcer now peer b)) = l_node_id (m_link b)"
    by (simp_all add: mark_announcer_def split: option.splits)
  show ?thesis
    unfolding handle_route_announce_def l
    using assms(1,3) mk by (simp add: Let_def schedule_save_def split: prod.splits)
qed

lemma announcement_distinct:
  "table_ok t \<Longrightarrow> distinct (map fst (to_announcement (Some n) t))"
proof -
  assume t: "table_ok t"
  let ?f = "\<lambda>(dst, r). (dst, if rt_learned_from r = n then INFINITY_COST else rt_cost r)"
  have k: "map fst (map ?f xs) = dkeys xs" for xs by (induction xs) auto
  have "dwf (filter (\<lambda>(dst, r). dst \<noteq> n) (rtab_routes t))" using t by (simp add: table_ok_def distinct_map_filter)
  moreover have "rtab_my_node_id t \<notin> set (dkeys (rtab_routes t))" using t by (simp add: table_ok_def dget_None_iff)
  ultimately have "distinct (rtab_my_node_id t # map fst (map ?f (filter (\<lambda>(dst, r). dst \<noteq> n) (rtab_routes t))))"
    unfolding k by auto
  then show ?thesis by (simp add: to_announcement_def)
qed

text \<open>C20: split horizon with poisoned reverse, end to end. When node \<open>b\<close> handles the very bytes
  that its neighbour \<open>a\<close> announces to it, no destination that \<open>a\<close> itself routes through \<open>b\<close>
  is afterwards routed by \<open>b\<close> through \<open>a\<close>, so two neighbours never point at each other;
  and every other destination \<open>a\<close> reaches in less than 15 hops becomes reachable for \<open>b\<close>
  at a cost of at most one more.\<close>

theorem no_two_node_loop:
  fixes na :: node_id and now :: time
  assumes "table_ok (m_table a)" "table_ok (m_table b)" "m_mode b \<noteq> ModeOff"
    and "rtab_my_node_id (m_table b) = nb" "l_node_id (m_link b) = nb"
    and "p = utf8 (dumps_compact io (fst (build_announcement_payload nb a)))" "length p \<le> 1048576"
    and "table_get (m_table a) dst = Some r" "dst \<noteq> nb" "dst \<noteq> []"
  defines "b' \<equiv> handle_route_announce io now na p b"
  shows "(rt_learned_from r = nb \<longrightarrow> (\<forall>r'. table_get (m_table b') dst = Some r' \<longrightarrow> rt_learned_from r' \<noteq> na))
    \<and> (rt_learned_from r \<noteq> nb \<longrightarrow> rt_cost r < 15 \<longrightarrow> (\<exists>r'. table_get (m_table b') dst = Some r' \<and> rt_cost r' \<le> rt_cost r + 1))"
proof -
  let ?es = "to_announcement (Some nb) (m_table a)"
  have b': "m_table b' = snd (learn_routes now nb na (map route_entry ?es) (m_table b))"
    using handle_announcement [OF assms(3,6,7)] assms(5) by (simp add: b'_def)
  have w: "dwf (rtab_routes (m_table a))" using assms(1) by (simp add: table_ok_def)
  have ne: "dst \<noteq> rtab_my_node_id (m_table a)" using assms(1,8) by (auto simp: table_ok_def)
  have entry: "(dst, c) \<in> set ?es \<longleftrightarrow> c = (if rt_learned_from r = nb then INFINITY_COST else rt_cost r)" for c
    unfolding announcement_entry [OF w] using ne assms(8,9) by auto
  have 1: "rt_learned_from r' \<noteq> na" if "rt_learned_from r = nb" "table_get (m_table b') dst = Some r'" for r'
    by (rule learn_routes_poisoned [OF assms(4,9,10) _ _ that(2) [unfolded b']])
       (use entry that(1) in \<open>auto simp: case_prod_beta\<close>)
  have 2: "\<exists>r'. table_get (m_table b') dst = Some r' \<and> rt_cost r' \<le> rt_cost r + 1"
    if "rt_learned_from r \<noteq> nb" "rt_cost r < 15"
    unfolding b'
    by (rule learn_routes_reach [OF assms(4,9,10) announcement_distinct [OF assms(1)]])
       (use entry that assms(1,8) in \<open>auto simp: INFINITY_COST_def table_ok_def dest: spec [of _ dst]\<close>)
  show ?thesis using 1 2 by blast
qed

definition sample_announcer :: mesh_router where
  "sample_announcer = sample_router\<lparr>m_table := \<lparr> rtab_my_node_id = ''a'', rtab_ttl = 90,
     rtab_routes = [(''x'', \<lparr> rt_next_hop = ''carol'', rt_cost = 2, rt_learned_from = ''carol'', rt_updated = 0 \<rparr>)] \<rparr>\<rparr>"

theorem no_two_node_loop_witness:
  "case table_get (m_table (handle_route_announce sample_io 1 ''a''
      (utf8 (dumps_compact sample_io (fst (build_announcement_payload ''carol'' sample_announcer)))) sample_router)) ''x''
    of None \<Rightarrow> True | Some r' \<Rightarrow> rt_learned_from r' \<noteq> ''a''"
proof -
  have t: "table_ok (m_table sample_announcer)" "table_ok (m_table sample_router)" "m_mode sample_router \<noteq> ModeOff"
    "rtab_my_node_id (m_table sample_router) = ''carol''" "l_node_id (m_link sample_router) = ''carol''"
    by (simp_all add: sample_announcer_def sample_router_def table_ok_def INFINITY_COST_def new_routing_table_def sample_link_def)
  have "length (utf8 (dumps_compact sample_io (fst (build_announcement_payload ''carol'' sample_announcer)))) \<le> 200"
    by code_simp
  then have l: "length (utf8 (dumps_compact sample_io (fst (build_announcement_payload ''carol'' sample_announcer)))) \<le> 1048576"
    by simp
  have g: "table_get (m_table sample_announcer) ''x'' =
      Some \<lparr> rt_next_hop = ''carol'', rt_cost = 2, rt_learned_from = ''carol'', rt_updated = 0 \<rparr>"
    by (simp add: sample_announcer_def)
  from no_two_node_loop [OF t refl l g, of 1 "''a''"] show ?thesis by (simp split: option.split)
qed

section \<open>The cleanup pass\<close>

lemma partition_check_fresh:
  "0 \<le> ttl \<Longrightarrow> \<forall>(dst, r) \<in> set rs. now - rt_updated r \<le> ttl \<Longrightarrow> partition_check now ttl rs seen = ([], seen)"
  by (induction rs) auto

text \<open>The mesh partition alarm can never fire. The cleanup pass removes every route older than
  the TTL before it looks for routes older than twice the TTL, so for any table and any time it
  records no suspected partition.\<close>

lemma partition_alarm_dead:
  assumes "dwf (rtab_routes (m_table m))" "0 \<le> rtab_ttl (m_table m)"
  shows "\<forall>dst. PartitionSuspected dst \<in> set (m_audit (cleanup_pass now m)) \<longrightarrow> PartitionSuspected dst \<in> set (m_audit m)"
proof -
  obtain ex t where e: "expire_old now (m_table m) = (ex, t)" by (cases "expire_old now (m_table m)")
  have ttl: "rtab_ttl t = rtab_ttl (m_table m)" using e by (auto simp: expire_old_def Let_def)
  have w: "dwf (rtab_routes t)" using e assms(1) by (auto simp: expire_old_def Let_def dwf_fold_dpop)
  have "\<forall>(dst, r) \<in> set (rtab_routes t). now - rt_updated r \<le> rtab_ttl t"
  proof -
    have "now - rt_updated r \<le> rtab_ttl t" if "(dst, r) \<in> set (rtab_routes t)" for dst r
    proof -
      have "table_get t dst = Some r" using that w by simp
      moreover have "table_get t dst = (case table_get (m_table m) dst of None \<Rightarrow> None
          | Some r \<Rightarrow> if now - rt_updated r > rtab_ttl (m_table m) then None else Some r)"
        using expire_old_get [OF assms(1), of now dst] e by simp
      ultimately show ?thesis using ttl by (auto simp del: map_of_eq_Some_iff split: option.splits if_splits)
    qed
    then show ?thesis by auto
  qed
  then have "partition_check now (rtab_ttl t) (rtab_routes t) seen = ([], seen)" for seen
    using partition_check_fresh assms(2) ttl by simp
  then show ?thesis
    using e by (auto simp: cleanup_pass_def Let_def schedule_save_def)
qed

end
