(* ===== verification/Invites.thy ===== *)
theory Invites
  imports Trust Mesh
begin

text \<open>
  invite.py: single-use invite tokens. Issuing, the transport string, the joiner's checks, and the
  ledger of spent nonces the inviting node keeps.

  \<^item> \<open>str(x)\<close> of a JSON value that is not a string is the parameter \<open>rep\<close>; \<open>int\<close> and
    \<open>float\<close> are those of the other theories.
  \<^item> The ledger file is what \<open>json.load\<close> makes of it (the order of its keys is not kept). A
    record of it is a dictionary, as in the code.
\<close>

definition INVITE_PREFIX :: string where "INVITE_PREFIX = ''ironmesh-invite-v1:''"

definition INVITE_CLOCK_SKEW :: real where "INVITE_CLOCK_SKEW = 30"

definition LEDGER_RETENTION_AFTER_EXPIRY :: real where "LEDGER_RETENTION_AFTER_EXPIRY = 3600"

datatype invite_error =
    InviteExpired
  | InviteSpent
  | InviteIdentityMismatch
  | InviteMalformed string
  | InviteBadSignature

record invite_token =
  it_version :: int
  it_nonce :: string
  it_inviter_id :: string
  it_inviter_key :: string
  it_endpoint :: string
  it_issued_at :: real
  it_expires_at :: real
  it_allowed_peers :: string
  it_profile :: string
  it_signature :: string

definition invite_to_dict :: "invite_token \<Rightarrow> json" where
  "invite_to_dict t = JObj [(''version'', JInt (it_version t)), (''nonce'', JStr (it_nonce t)),
     (''inviter_id'', JStr (it_inviter_id t)), (''inviter_key'', JStr (it_inviter_key t)), (''endpoint'', JStr (it_endpoint t)),
     (''issued_at'', JFloat (it_issued_at t)), (''expires_at'', JFloat (it_expires_at t)),
     (''allowed_peers'', JStr (it_allowed_peers t)), (''profile'', JStr (it_profile t)), (''signature'', JStr (it_signature t))]"

definition rstrip_eq :: "string \<Rightarrow> string" where
  "rstrip_eq s = rev (dropWhile (\<lambda>c. c = CHR ''='') (rev s))"

definition invite_to_string :: "float_io \<Rightarrow> invite_token \<Rightarrow> string" where
  "invite_to_string io t = INVITE_PREFIX @ rstrip_eq (urlsafe_b64encode (utf8 (dumps_sorted io (invite_to_dict t))))"

definition invite_canonical_bytes :: "float_io \<Rightarrow> invite_token \<Rightarrow> bytes py" where
  "invite_canonical_bytes io t = canonical_invite_bytes io (it_nonce t) (it_inviter_id t) (it_inviter_key t) (it_endpoint t)
     (it_issued_at t) (it_expires_at t) (it_allowed_peers t) (it_profile t) (it_version t)"

definition invite_is_expired :: "time \<Rightarrow> invite_token \<Rightarrow> bool" where
  "invite_is_expired now t = (now > it_expires_at t + INVITE_CLOCK_SKEW)"

text \<open>\<open>None\<close>: the signature verifies. A key that is not 32 bytes makes \<open>VerifyKey\<close> raise a
  \<open>ValueError\<close>, reported as malformed; a body that has no canonical form is a bad signature.\<close>

definition invite_verify_signature :: "crypto \<Rightarrow> float_io \<Rightarrow> invite_token \<Rightarrow> invite_error option" where
  "invite_verify_signature C io t = (case (b64decode (it_inviter_key t), b64decode (it_signature t)) of
     (Some vk, Some sig) \<Rightarrow>
       if length vk \<noteq> 32 then Some (InviteMalformed ''invite key/signature not base64'')
       else (case py_bind (invite_canonical_bytes io t) (\<lambda>body. verify_detached_with_context C vk SIG_CTX_INVITE body sig) of
         Inr _ \<Rightarrow> None
       | Inl _ \<Rightarrow> Some InviteBadSignature)
   | _ \<Rightarrow> Some (InviteMalformed ''invite key/signature not base64''))"

definition invite_matches_identity :: "invite_token \<Rightarrow> string option \<Rightarrow> bool" where
  "invite_matches_identity t presented = (case presented of None \<Rightarrow> False | Some k \<Rightarrow> k \<noteq> [] \<and> k = it_inviter_key t)"

section \<open>Issuing\<close>

definition keys_fingerprint :: "crypto \<Rightarrow> bytes \<Rightarrow> string" where
  "keys_fingerprint C ed_pub = take 32 (hex_of (sha256 C ed_pub))"

text \<open>The 16 random bytes of the nonce are \<open>rnd\<close>.\<close>

definition create_invite ::
  "crypto \<Rightarrow> float_io \<Rightarrow> bytes \<Rightarrow> bytes \<Rightarrow> string \<Rightarrow> string option \<Rightarrow> real option \<Rightarrow> string \<Rightarrow> time \<Rightarrow> bytes \<Rightarrow> invite_token py" where
  "create_invite C io ed_pub ed_sec endpoint profile ttl_seconds allowed_peers now rnd =
    (let ttl = (case ttl_seconds of None \<Rightarrow> invite_max_age_for_profile profile | Some x \<Rightarrow> x);
         nonce = hex_of rnd; iid = keys_fingerprint C ed_pub; ikey = b64encode ed_pub;
         profile_str = (case profile of None \<Rightarrow> [] | Some p \<Rightarrow> p) in
     if endpoint = [] then Inl (ValueError ''endpoint must be a non-empty string'')
     else if ttl \<le> 0 then Inl (ValueError ''ttl_seconds must be positive'')
     else py_bind (canonical_invite_bytes io nonce iid ikey endpoint now (now + ttl) allowed_peers profile_str INVITE_SIGNED_VERSION) (\<lambda>body.
          py_bind (sign_detached_with_context C ed_sec SIG_CTX_INVITE body) (\<lambda>sig.
          Inr \<lparr> it_version = INVITE_SIGNED_VERSION, it_nonce = nonce, it_inviter_id = iid, it_inviter_key = ikey,
             it_endpoint = endpoint, it_issued_at = now, it_expires_at = now + ttl, it_allowed_peers = allowed_peers,
             it_profile = profile_str, it_signature = b64encode sig \<rparr>)))"

section \<open>Parsing and the joiner's checks\<close>

definition invite_required :: "string list" where
  "invite_required = [''version'', ''nonce'', ''inviter_id'', ''inviter_key'', ''endpoint'',
     ''issued_at'', ''expires_at'', ''allowed_peers'', ''profile'', ''signature'']"

definition str_of :: "(json \<Rightarrow> string) \<Rightarrow> json \<Rightarrow> string" where
  "str_of rep j = (case j of JStr s \<Rightarrow> s | _ \<Rightarrow> rep j)"

definition token_of_dict :: "(json \<Rightarrow> string) \<Rightarrow> float_io \<Rightarrow> (string, json) dict \<Rightarrow> invite_error + invite_token" where
  "token_of_dict rep io d =
    (let get = (\<lambda>k. dget_default JNull d k); s = (\<lambda>k. str_of rep (get k)) in
     if \<exists>k \<in> set invite_required. dget d k = None then Inl (InviteMalformed ''invite missing fields'')
     else case (int_of_json (get ''version''), float_of io (get ''issued_at''), float_of io (get ''expires_at'')) of
       (Some v, Inr iss, Inr ex) \<Rightarrow>
         Inr \<lparr> it_version = v, it_nonce = s ''nonce'', it_inviter_id = s ''inviter_id'', it_inviter_key = s ''inviter_key'',
            it_endpoint = s ''endpoint'', it_issued_at = iss, it_expires_at = ex, it_allowed_peers = s ''allowed_peers'',
            it_profile = s ''profile'', it_signature = s ''signature'' \<rparr>
     | _ \<Rightarrow> Inl (InviteMalformed ''invite field has wrong type''))"

text \<open>\<open>-n % 4\<close> padding characters are put back.\<close>

definition parse_invite :: "(json \<Rightarrow> string) \<Rightarrow> float_io \<Rightarrow> string \<Rightarrow> invite_error + invite_token" where
  "parse_invite rep io token_str =
    (let s = py_strip token_str in
     case strip_prefix INVITE_PREFIX s of
       None \<Rightarrow> Inl (InviteMalformed ''invite token must start with the prefix'')
     | Some b64 \<Rightarrow>
         (case Option.bind (urlsafe_b64decode (b64 @ replicate ((4 - length b64 mod 4) mod 4) (CHR ''=''))) (loads_bytes io) of
            None \<Rightarrow> Inl (InviteMalformed ''invite body not decodable'')
          | Some (JObj d) \<Rightarrow> token_of_dict rep io d
          | Some _ \<Rightarrow> Inl (InviteMalformed ''invite body is not an object'')))"

definition validate_invite :: "crypto \<Rightarrow> float_io \<Rightarrow> time \<Rightarrow> string option \<Rightarrow> invite_token \<Rightarrow> invite_error option" where
  "validate_invite C io now presented t = (case invite_verify_signature C io t of
     Some e \<Rightarrow> Some e
   | None \<Rightarrow>
       if invite_is_expired now t then Some InviteExpired
       else if presented \<noteq> None \<and> \<not> invite_matches_identity t presented then Some InviteIdentityMismatch
       else None)"

section \<open>The ledger\<close>

datatype ledger_file = NoLedger | LedgerUnreadable | LedgerHolds json

type_synonym ledger = "(string, (string, json) dict) dict"

definition spent_expiry :: "float_io \<Rightarrow> (string, json) dict \<Rightarrow> real py" where
  "spent_expiry io r = float_of io (dget_default (JFloat 0) r ''expires_at'')"

text \<open>\<open>_prune\<close> without saving; an entry whose \<open>expires_at\<close> is no number raises.\<close>

fun ledger_prune :: "float_io \<Rightarrow> time \<Rightarrow> ledger \<Rightarrow> ledger py" where
  "ledger_prune io now [] = Inr []"
| "ledger_prune io now ((n, r) # spent) =
     py_bind (spent_expiry io r) (\<lambda>x. py_bind (ledger_prune io now spent) (\<lambda>rest.
       Inr (if x \<ge> now - LEDGER_RETENTION_AFTER_EXPIRY then (n, r) # rest else rest)))"

definition ledger_json :: "ledger \<Rightarrow> json" where
  "ledger_json spent = JObj [(''version'', JInt 1), (''spent'', JObj (map (\<lambda>(n, r). (n, JObj r)) spent))]"

text \<open>The constructor's load: an unreadable file raises; a document of another shape is an empty
  ledger; records that are not objects raise in the pruning.\<close>

definition ledger_load :: "float_io \<Rightarrow> time \<Rightarrow> ledger_file \<Rightarrow> ledger py" where
  "ledger_load io now f = (case f of
     NoLedger \<Rightarrow> Inr []
   | LedgerUnreadable \<Rightarrow> Inl (ValueError ''invite ledger unreadable'')
   | LedgerHolds j \<Rightarrow>
       (case jget j ''spent'' of
          Some (JObj d) \<Rightarrow> (case records_of d of
             None \<Rightarrow> Inl (TypeError ''ledger record'')
           | Some spent \<Rightarrow> ledger_prune io now spent)
        | _ \<Rightarrow> Inr []))"

definition is_spent :: "string \<Rightarrow> ledger \<Rightarrow> bool" where
  "is_spent nonce spent = (nonce \<in> set (dkeys spent))"

text \<open>The ledger in memory, the file and what the call raised, if anything: the nonce is recorded in
  memory before the pruning and the write, which may raise (\<open>OSError\<close>).\<close>

definition mark_spent :: "float_io \<Rightarrow> time \<Rightarrow> bool \<Rightarrow> invite_token \<Rightarrow> ledger \<Rightarrow> ledger_file \<Rightarrow> ledger \<times> ledger_file \<times> py_error option" where
  "mark_spent io now writes t spent f =
    (let spent1 = dset (it_nonce t) [(''spent_at'', JFloat now), (''expires_at'', JFloat (it_expires_at t))] spent in
     case ledger_prune io now spent1 of
       Inl e \<Rightarrow> (spent1, f, Some e)
     | Inr spent2 \<Rightarrow> if writes then (spent2, LedgerHolds (ledger_json spent2), None)
         else (spent2, f, Some (RuntimeError ''OSError'')))"

definition check_and_reject_if_spent :: "invite_token \<Rightarrow> ledger \<Rightarrow> invite_error option" where
  "check_and_reject_if_spent t spent = (if is_spent (it_nonce t) spent then Some InviteSpent else None)"

section \<open>Transport strings\<close>

lemma b64_sextets_shape:
  "\<forall>n \<in> set ns. n < 256 \<Longrightarrow> \<exists>p k. b64_sextets ns = p @ replicate k (CHR ''='') \<and> CHR ''='' \<notin> set p \<and> k \<le> 2
     \<and> length (b64_sextets ns) mod 4 = 0"
proof (induction ns rule: b64_sextets.induct)
  case (1 a b c bs)
  then have abc: "a < 256" "b < 256" "c < 256" by simp_all
  note ne = b64_char_facts(2) [OF sextet_bounds(1) [OF abc]] b64_char_facts(2) [OF sextet_bounds(2) [OF abc]]
    b64_char_facts(2) [OF sextet_bounds(3) [OF abc]] b64_char_facts(2) [OF sextet_bounds(4) [OF abc]]
  from 1 obtain p k where "b64_sextets bs = p @ replicate k (CHR ''='')" "CHR ''='' \<notin> set p" "k \<le> 2" "length (b64_sextets bs) mod 4 = 0"
    by auto
  moreover have "b64_sextets (a # b # c # bs) = [b64_char (a div 4), b64_char (a mod 4 * 16 + b div 16),
      b64_char (b mod 16 * 4 + c div 64), b64_char (c mod 64)] @ b64_sextets bs" by simp
  ultimately show ?case
    using ne ne [THEN not_sym] by (intro exI [of _ "[b64_char (a div 4), b64_char (a mod 4 * 16 + b div 16),
      b64_char (b mod 16 * 4 + c div 64), b64_char (c mod 64)] @ p"] exI [of _ k])
      (auto simp del: b64_sextets.simps)
next
  case (2 a b)
  then have ab: "a < 256" "b < 256" "(0::nat) < 256" by simp_all
  have "b64_char (b mod 16 * 4) \<noteq> CHR ''=''" using b64_char_facts(2) [OF sextet_bounds(3) [OF ab]] by simp
  then show ?case
    using b64_char_facts(2) [OF sextet_bounds(1) [OF ab]] b64_char_facts(2) [OF sextet_bounds(2) [OF ab]]
    by (intro exI [of _ "[b64_char (a div 4), b64_char (a mod 4 * 16 + b div 16), b64_char (b mod 16 * 4)]"] exI [of _ 1]) auto
next
  case (3 a)
  then have a: "a < 256" "(0::nat) < 256" by simp_all
  have "b64_char (a mod 4 * 16) \<noteq> CHR ''=''" using b64_char_facts(2) [OF sextet_bounds(2) [OF a(1,2,2)]] by simp
  then show ?case
    using b64_char_facts(2) [OF sextet_bounds(1) [OF a(1,2,2)]]
    by (intro exI [of _ "[b64_char (a div 4), b64_char (a mod 4 * 16)]"] exI [of _ 2]) (auto simp: numeral_2_eq_2)
qed simp

lemma rstrip_eq_repad:
  assumes "s = p @ replicate k (CHR ''='')" "CHR ''='' \<notin> set p" "k \<le> 2" "length s mod 4 = 0"
  shows "rstrip_eq s @ replicate ((4 - length (rstrip_eq s) mod 4) mod 4) (CHR ''='') = s"
proof -
  have "dropWhile (\<lambda>c. c = CHR ''='') (rev p) = rev p"
    using assms(2) by (cases p rule: rev_cases) auto
  then have r: "rstrip_eq s = p" unfolding rstrip_eq_def assms(1) rev_append rev_replicate
    by (subst dropWhile_append2) auto
  have "(4 - length p mod 4) mod 4 = k"
  proof -
    define m where "m = length p mod 4"
    have "m < 4" by (simp add: m_def)
    have "(m + k) mod 4 = 0" using assms(1,4) by (simp add: m_def mod_add_left_eq)
    with \<open>m < 4\<close> assms(3) have "m + k = 0 \<or> m + k = 4" by presburger
    then have "(4 - m) mod 4 = k" using assms(3) by (cases "m = 0") auto
    then show ?thesis by (simp add: m_def)
  qed
  then show ?thesis using r assms(1) by simp
qed

lemma urlsafe_repad:
  "rstrip_eq (urlsafe_b64encode bs) @ replicate ((4 - length (rstrip_eq (urlsafe_b64encode bs)) mod 4) mod 4) (CHR ''='')
     = urlsafe_b64encode bs"
proof -
  let ?m = "\<lambda>c. if c = CHR ''+'' then CHR ''-'' else if c = CHR ''/'' then CHR ''_'' else c"
  obtain p k where p: "b64encode bs = p @ replicate k (CHR ''='')" "CHR ''='' \<notin> set p" "k \<le> 2" "length (b64encode bs) mod 4 = 0"
    using b64_sextets_shape [OF unat_list_bound, of bs, folded b64encode_def] by (elim exE conjE) (rule that)
  have "urlsafe_b64encode bs = map ?m p @ replicate k (CHR ''='')" by (simp add: urlsafe_b64encode_def p(1))
  moreover have "CHR ''='' \<notin> set (map ?m p)" using p(2) by auto
  moreover have "length (urlsafe_b64encode bs) mod 4 = 0" using p(4) by (simp add: urlsafe_b64encode_def)
  ultimately show ?thesis using p(3) by (intro rstrip_eq_repad)
qed

lemma urlsafe_no_space: "c \<in> set (urlsafe_b64encode bs) \<Longrightarrow> \<not> py_space c"
proof -
  assume "c \<in> set (urlsafe_b64encode bs)"
  then obtain d where d: "d \<in> set (b64encode bs)"
    "c = (if d = CHR ''+'' then CHR ''-'' else if d = CHR ''/'' then CHR ''_'' else d)"
    unfolding urlsafe_b64encode_def set_map image_iff by blast
  have "\<not> py_space (b64_char n)" if "n < 64" for n
    using of_char_b64_char [OF that] that by (auto simp: py_space_def Let_def split: if_splits)
  then have "\<not> py_space d" using b64_encode_char [OF d(1)] by (auto simp: py_space_def)
  then show ?thesis using d(2) by (auto simp: py_space_def)
qed

lemma py_strip_id: "\<forall>c \<in> set s. \<not> py_space c \<Longrightarrow> py_strip s = s"
proof -
  assume a: "\<forall>c \<in> set s. \<not> py_space c"
  then have "dropWhile py_space s = s" by (cases s) auto
  moreover have "dropWhile py_space (rev s) = rev s" using a by (cases s rule: rev_cases) auto
  ultimately show ?thesis by (simp add: py_strip_def)
qed

lemma strip_prefix_append: "strip_prefix p (p @ s) = Some s"
  by (induction p) auto

lemma token_of_dict_sorted:
  assumes "sort_json (invite_to_dict t) = JObj d"
  shows "token_of_dict rep io d = Inr t"
proof -
  let ?a = "[(''version'', JInt (it_version t)), (''nonce'', JStr (it_nonce t)),
     (''inviter_id'', JStr (it_inviter_id t)), (''inviter_key'', JStr (it_inviter_key t)), (''endpoint'', JStr (it_endpoint t)),
     (''issued_at'', JFloat (it_issued_at t)), (''expires_at'', JFloat (it_expires_at t)),
     (''allowed_peers'', JStr (it_allowed_peers t)), (''profile'', JStr (it_profile t)), (''signature'', JStr (it_signature t))]"
  have "dwf ?a" by simp
  from sort_json_obj [OF this] obtain b where b: "sort_json (invite_to_dict t) = JObj b"
    "\<forall>k. dget b k = map_option sort_json (dget ?a k)" unfolding invite_to_dict_def by blast
  then have "d = b" using assms by simp
  with b(2) have "\<forall>k. dget d k = map_option sort_json (dget ?a k)" by simp
  then show ?thesis
    by (simp add: token_of_dict_def invite_required_def str_of_def int_of_json_def float_of_def Let_def)
qed

lemma parse_invite_to_string:
  assumes "float_ok io (it_issued_at t)" "float_ok io (it_expires_at t)"
  shows "parse_invite rep io (invite_to_string io t) = Inr t"
proof -
  let ?enc = "urlsafe_b64encode (utf8 (dumps_sorted io (invite_to_dict t)))"
  have w: "wf_json io (invite_to_dict t)" using assms by (simp add: invite_to_dict_def)
  have "set (rstrip_eq ?enc) \<subseteq> set ?enc"
    unfolding rstrip_eq_def using set_dropWhileD by fastforce
  then have "\<forall>c \<in> set (invite_to_string io t). \<not> py_space c"
    using urlsafe_no_space by (auto simp: invite_to_string_def INVITE_PREFIX_def py_space_def)
  then have strip: "py_strip (invite_to_string io t) = INVITE_PREFIX @ rstrip_eq ?enc"
    using py_strip_id by (simp add: invite_to_string_def)
  obtain d where d: "sort_json (invite_to_dict t) = JObj d" by (simp add: invite_to_dict_def)
  have "loads_bytes io (utf8 (dumps_sorted io (invite_to_dict t))) = Some (JObj d)"
    unfolding loads_bytes_def utf8_decode_utf8 using loads_dumps_sorted [OF w] d by simp
  then show ?thesis
    unfolding parse_invite_def strip Let_def strip_prefix_append option.case urlsafe_repad urlsafe_roundtrip
    using token_of_dict_sorted [OF d] by simp
qed

lemma issued_invite:
  assumes "ed25519_ok C" "ed_pub = ed_public C ed_sec" "length ed_pub = 32"
    and "create_invite C io ed_pub ed_sec endpoint profile ttl allowed now rnd = Inr t"
  shows "invite_verify_signature C io t = None" "it_inviter_key t = b64encode ed_pub" "it_issued_at t = now"
    "it_expires_at t = now + (case ttl of None \<Rightarrow> invite_max_age_for_profile profile | Some x \<Rightarrow> x)" "now < it_expires_at t"
proof -
  obtain body sig where b: "canonical_invite_bytes io (hex_of rnd) (keys_fingerprint C ed_pub) (b64encode ed_pub) endpoint now
        (it_expires_at t) allowed (it_profile t) INVITE_SIGNED_VERSION = Inr body"
      "sign_detached_with_context C ed_sec SIG_CTX_INVITE body = Inr sig"
    and t: "t = \<lparr> it_version = INVITE_SIGNED_VERSION, it_nonce = hex_of rnd, it_inviter_id = keys_fingerprint C ed_pub,
        it_inviter_key = b64encode ed_pub, it_endpoint = endpoint, it_issued_at = now, it_expires_at = it_expires_at t,
        it_allowed_peers = allowed, it_profile = it_profile t, it_signature = b64encode sig \<rparr>"
    and x: "it_expires_at t = now + (case ttl of None \<Rightarrow> invite_max_age_for_profile profile | Some x \<Rightarrow> x)" "now < it_expires_at t"
    using assms(4) unfolding create_invite_def Let_def
    by (auto simp: py_bind_Inr_iff not_le split: if_splits)
  have f: "it_version t = INVITE_SIGNED_VERSION" "it_nonce t = hex_of rnd" "it_inviter_id t = keys_fingerprint C ed_pub"
    "it_inviter_key t = b64encode ed_pub" "it_endpoint t = endpoint" "it_issued_at t = now" "it_allowed_peers t = allowed"
    "it_signature t = b64encode sig"
    by (subst t, simp)+
  have "invite_canonical_bytes io t = Inr body" using b(1) by (simp add: invite_canonical_bytes_def f)
  moreover have "verify_detached_with_context C ed_pub SIG_CTX_INVITE body sig = Inr True"
    using sign_verify_context [OF assms(1) b(2)] assms(2) by simp
  ultimately show "invite_verify_signature C io t = None"
    using assms(3) by (simp add: invite_verify_signature_def f b64decode_b64encode)
  show "it_inviter_key t = b64encode ed_pub" "it_issued_at t = now" by (rule f)+
  show "it_expires_at t = now + (case ttl of None \<Rightarrow> invite_max_age_for_profile profile | Some x \<Rightarrow> x)" "now < it_expires_at t"
    by (rule x)+
qed

text \<open>C26: an issued invite works. The token a node issues survives its transport string, and within its
  lifetime (and the clock tolerance) the joiner's checks accept it when the handshake presents the
  issuer's key, and only then: another identity is refused as a mismatch, and after the lifetime the
  token is refused as expired.\<close>

theorem invite_issue_validate:
  assumes "ed25519_ok C" "ed_pub = ed_public C ed_sec" "length ed_pub = 32" "float_ok io now"
    and "create_invite C io ed_pub ed_sec endpoint profile ttl allowed now rnd = Inr t" "float_ok io (it_expires_at t)"
  shows "parse_invite rep io (invite_to_string io t) = Inr t
    \<and> it_expires_at t = now + (case ttl of None \<Rightarrow> invite_max_age_for_profile profile | Some x \<Rightarrow> x) \<and> now < it_expires_at t
    \<and> validate_invite C io later presented t =
        (if later > it_expires_at t + 30 then Some InviteExpired
         else if presented \<noteq> None \<and> presented \<noteq> Some (b64encode ed_pub) then Some InviteIdentityMismatch else None)"
proof -
  note i = issued_invite [OF assms(1-3,5)]
  have "b64encode ed_pub \<noteq> []" using assms(3) by auto
  then have "validate_invite C io later presented t =
        (if later > it_expires_at t + 30 then Some InviteExpired
         else if presented \<noteq> None \<and> presented \<noteq> Some (b64encode ed_pub) then Some InviteIdentityMismatch else None)"
    using i by (auto simp: validate_invite_def invite_is_expired_def INVITE_CLOCK_SKEW_def invite_matches_identity_def split: option.splits)
  moreover have "parse_invite rep io (invite_to_string io t) = Inr t"
    by (rule parse_invite_to_string) (use assms(4,6) i in simp_all)
  ultimately show ?thesis using i by blast
qed

text \<open>Printing and reading of the two floats 0.0 and 1.0.\<close>

definition sample_io01 :: float_io where
  "sample_io01 = \<lparr> show_float = (\<lambda>r. if r = 0 then ''0.0'' else ''1.0''),
     read_float = (\<lambda>s. if s = ''0.0'' then Some 0 else if s = ''1.0'' then Some 1 else None) \<rparr>"

lemma sample_float_ok01 [simp]: "float_ok sample_io01 0" "float_ok sample_io01 1"
  by (simp_all add: float_ok_def sample_io01_def lex_number_def is_digit_def)

lemma sample_invite:
  "\<exists>t. create_invite sample_crypto sample_io01 (pad 32 [7]) [7] ''h:1'' None (Some 1) [] 0 [5] = Inr t \<and> it_expires_at t = 1
     \<and> it_nonce t = hex_of [5] \<and> it_inviter_key t = b64encode (pad 32 [7])"
proof -
  have "pad 32 [7] \<noteq> []" using length_pad [of 32 "[7]"] by fastforce
  moreover have "keys_fingerprint sample_crypto (pad 32 [7]) \<noteq> []" by code_simp
  moreover have "hex_of [5] \<noteq> []" by (simp add: hex_of_def)
  moreover have "SIG_CTX_INVITE \<noteq> []" by (simp add: SIG_CTX_INVITE_def)
  ultimately show ?thesis
    by (simp add: create_invite_def Let_def canonical_invite_bytes_def sign_detached_with_context_def INVITE_SIGNED_VERSION_def)
qed

theorem invite_issue_validate_witness:
  "\<exists>t. create_invite sample_crypto sample_io01 (pad 32 [7]) [7] ''h:1'' None (Some 1) [] 0 [5] = Inr t
     \<and> parse_invite (\<lambda>_. []) sample_io01 (invite_to_string sample_io01 t) = Inr t
     \<and> validate_invite sample_crypto sample_io01 31 (Some (b64encode (pad 32 [7]))) t = None
     \<and> validate_invite sample_crypto sample_io01 32 None t = Some InviteExpired"
proof -
  obtain t where t: "create_invite sample_crypto sample_io01 (pad 32 [7]) [7] ''h:1'' None (Some 1) [] 0 [5] = Inr t" "it_expires_at t = 1"
    using sample_invite by blast
  have "float_ok sample_io01 (it_expires_at t)" using t(2) by simp
  from invite_issue_validate [OF sample_crypto_ok(2) sample_public [symmetric] length_pad sample_float_ok01(1) t(1) this]
  show ?thesis using t by auto
qed

text \<open>A ledger file that is JSON of another shape is read as an empty ledger: every nonce it held can
  be presented again. (An unreadable file raises, as the comment of the loader wants.)\<close>

lemma misshapen_ledger_is_empty: "ledger_load io now (LedgerHolds (JArr xs)) = Inr []"
  by (simp add: ledger_load_def)

end
