(* ===== verification/Trust_Ops.thy ===== *)
theory Trust_Ops
  imports Invites
begin

text \<open>
  trust_ops.py, \<open>TrustOpsMixin\<close>: what the daemon does with the trust store over a peer's
  lifetime. Every operation opens the store afresh from its file, so the file is the state; the
  daemon's own part is the record \<open>trust_daemon\<close>.

  \<^item> \<open>_check_tofu\<close> runs without an \<open>await\<close> from the invite checks to the pin, so it is one
    step; the clock readings in it are one value, and \<open>ledger_writes\<close> says whether the ledger
    can be written.
  \<^item> Audit records are values (\<open>trust_audit\<close>); whether an audit log is configured does not
    change the rest. Closing a socket and notifying dashboards are not modelled.
\<close>

datatype trust_audit =
    AuditTofuNew node_id string
  | AuditTofuMismatch node_id
  | AuditInviteAccepted node_id string string
  | AuditInviteRejected node_id "string option" string
  | AuditGatedDrop node_id string
  | AuditGatedQueue node_id string nat
  | AuditPromoted node_id nat
  | AuditBlocked node_id nat
  | AuditCapBaseline node_id string nat
  | AuditCapChanged node_id json json "string list" "string list"
  | AuditCapPartial node_id json string "string list" "string list" bool bool
  | AuditCapAccepted node_id json json

record trust_daemon =
  td_node_id :: node_id
  td_ed_public :: bytes
  td_ed_secret :: bytes
  td_gate_on :: bool
  td_file :: trust_file
  td_ledger :: "ledger option"
  td_ledger_file :: ledger_file
  td_clients :: "node_id list"
  td_peers :: "(node_id, peer_state) dict"
  td_limiters :: "node_id list"
  td_gate_last_audit :: "(node_id, time) dict"
  td_blocked_count :: nat
  td_dropped_count :: nat

record tofu_env =
  tv_trust :: trust_env
  tv_legacy :: bytes
  tv_ledger_writes :: bool

abbreviation tv_now :: "tofu_env \<Rightarrow> time" where
  "tv_now V \<equiv> te_now (tv_trust V)"

definition open_store :: "crypto \<Rightarrow> float_io \<Rightarrow> tofu_env \<Rightarrow> trust_daemon \<Rightarrow> (trust_store \<times> trust_file) py" where
  "open_store C io V D = trust_open C io (tv_legacy V) (tv_trust V) (take 32 (td_ed_secret D)) (td_file D)"

section \<open>The inviter's side of an invite\<close>

text \<open>The ledger is loaded at its first use; the load may raise.\<close>

definition get_invite_ledger :: "float_io \<Rightarrow> time \<Rightarrow> trust_daemon \<Rightarrow> (ledger \<times> trust_daemon) py" where
  "get_invite_ledger io now D = (case td_ledger D of
     Some l \<Rightarrow> Inr (l, D)
   | None \<Rightarrow> py_bind (ledger_load io now (td_ledger_file D)) (\<lambda>l. Inr (l, D\<lparr>td_ledger := Some l\<rparr>)))"

datatype invite_verdict =
    NoInvite
  | InviteRefused "string option" string
  | InviteRaised py_error
  | InviteGood invite_token ledger

definition validate_incoming_invite ::
  "(json \<Rightarrow> string) \<Rightarrow> crypto \<Rightarrow> float_io \<Rightarrow> time \<Rightarrow> string option \<Rightarrow> trust_daemon \<Rightarrow> invite_verdict \<times> trust_daemon" where
  "validate_incoming_invite rep C io now token_str D =
    (case token_str of
       None \<Rightarrow> (NoInvite, D)
     | Some s \<Rightarrow>
         if s = [] then (NoInvite, D)
         else case parse_invite rep io s of
           Inl e \<Rightarrow> (InviteRefused None ''malformed'', D)
         | Inr t \<Rightarrow>
             if it_inviter_key t \<noteq> b64encode (td_ed_public D) then (InviteRefused (Some (it_nonce t)) ''not_our_invite'', D)
             else if invite_verify_signature C io t \<noteq> None then (InviteRefused (Some (it_nonce t)) ''bad_signature'', D)
             else if invite_is_expired now t then (InviteRefused (Some (it_nonce t)) ''expired'', D)
             else case get_invite_ledger io now D of
               Inl e \<Rightarrow> (InviteRaised e, D)
             | Inr (l, D1) \<Rightarrow>
                 if check_and_reject_if_spent t l \<noteq> None then (InviteRefused (Some (it_nonce t)) ''spent'', D1)
                 else (InviteGood t l, D1))"

section \<open>Trust on first use\<close>

datatype tofu_outcome =
    TofuSkipped
  | TofuTrusted
  | TofuPinned string "string option"
  | TofuRefused string
  | TofuRaised py_error

definition forget_peer :: "node_id \<Rightarrow> trust_daemon \<Rightarrow> trust_daemon" where
  "forget_peer p D = D\<lparr>td_clients := removeAll p (td_clients D), td_peers := dpop p (td_peers D),
     td_limiters := removeAll p (td_limiters D)\<rparr>"

text \<open>The pin of a new peer: an invited one is always pending, and its token is spent first.\<close>

definition pin_new_peer :: "crypto \<Rightarrow> float_io \<Rightarrow> tofu_env \<Rightarrow> node_id \<Rightarrow> string \<Rightarrow> (invite_token \<times> ledger) option
    \<Rightarrow> trust_store \<Rightarrow> trust_daemon \<Rightarrow> tofu_outcome \<times> trust_audit list \<times> trust_daemon" where
  "pin_new_peer C io V p key invt st D =
    (let (state, via, D1, raised) = (case invt of
         None \<Rightarrow> (if td_gate_on D then ''pending'' else ''trusted'', None, D, None)
       | Some (t, l) \<Rightarrow>
           (case mark_spent io (tv_now V) (tv_ledger_writes V) t l (td_ledger_file D) of
              (l1, f1, e) \<Rightarrow> (''pending'', Some ''invite'', D\<lparr>td_ledger := Some l1, td_ledger_file := f1\<rparr>, e))) in
     case raised of
       Some (ValueError m) \<Rightarrow> (TofuRefused ''TOFU check failed'', [], D1)
     | Some e \<Rightarrow> (TofuRaised e, [], D1)
     | None \<Rightarrow>
     (case pin_peer C io (tv_trust V) p key state via st (td_file D1) of
       (None, st1, disk1) \<Rightarrow>
         (TofuPinned state via,
          (case invt of None \<Rightarrow> [] | Some (t, l) \<Rightarrow> [AuditInviteAccepted p (it_nonce t) state]) @ [AuditTofuNew p state],
          D1\<lparr>td_file := disk1\<rparr>)
     | (Some (NotPersisted n), st1, disk1) \<Rightarrow>
         (TofuRefused ''pin did not persist'',
          (case invt of None \<Rightarrow> [] | Some (t, l) \<Rightarrow> [AuditInviteRejected p (Some (it_nonce t)) ''pin-not-persisted'']),
          D1\<lparr>td_file := disk1\<rparr>)
     | (Some e, st1, disk1) \<Rightarrow> (TofuRefused ''TOFU check failed'', [], D1\<lparr>td_file := disk1\<rparr>)))"

definition check_store :: "crypto \<Rightarrow> float_io \<Rightarrow> tofu_env \<Rightarrow> node_id \<Rightarrow> string \<Rightarrow> (invite_token \<times> ledger) option
    \<Rightarrow> trust_daemon \<Rightarrow> tofu_outcome \<times> trust_audit list \<times> trust_daemon" where
  "check_store C io V p key invt D = (case open_store C io V D of
     Inl (ValueError m) \<Rightarrow> (TofuRefused ''TOFU check failed'', [], D)
   | Inl e \<Rightarrow> (TofuRaised e, [], D)
   | Inr (st, disk) \<Rightarrow>
       (let D1 = D\<lparr>td_file := disk\<rparr> in
        if is_revoked p st then (TofuRefused ''revoked'', [], D1)
        else case verify_peer C io (tv_trust V) p key st disk of
          (NewPeer, st1, disk1) \<Rightarrow> pin_new_peer C io V p key invt st1 (D\<lparr>td_file := disk1\<rparr>)
        | (TrustedPeer, st1, disk1) \<Rightarrow> (TofuTrusted, [], D\<lparr>td_file := disk1\<rparr>)
        | (KeyMismatch, st1, disk1) \<Rightarrow> (TofuRefused ''TOFU mismatch'', [AuditTofuMismatch p], forget_peer p (D\<lparr>td_file := disk1\<rparr>))))"

definition check_tofu :: "(json \<Rightarrow> string) \<Rightarrow> crypto \<Rightarrow> float_io \<Rightarrow> tofu_env \<Rightarrow> node_id \<Rightarrow> string option \<Rightarrow> string option
    \<Rightarrow> trust_daemon \<Rightarrow> tofu_outcome \<times> trust_audit list \<times> trust_daemon" where
  "check_tofu rep C io V p identity invite D =
    (case identity of
       None \<Rightarrow> (TofuSkipped, [], D)
     | Some key \<Rightarrow>
         if key = [] then (TofuSkipped, [], D)
         else case validate_incoming_invite rep C io (tv_now V) invite D of
           (InviteRefused nonce reason, D1) \<Rightarrow> (TofuRefused ''invite'', [AuditInviteRejected p nonce reason], D1)
         | (InviteRaised e, D1) \<Rightarrow> (TofuRaised e, [], D1)
         | (NoInvite, D1) \<Rightarrow> check_store C io V p key None D1
         | (InviteGood t l, D1) \<Rightarrow> check_store C io V p key (Some (t, l)) D1)"

section \<open>The message gate\<close>

definition gated_types :: "string list" where
  "gated_types = [''MSG'', ''REQ'', ''RESP'']"

datatype gate_verdict = Deliver | QueueIt | DropIt

text \<open>What the queue insertion did: stored (and how many wait), not stored (the cap), or raised.\<close>

datatype queue_result = Queued nat | QueueFull | QueueFailed

definition gate_inbound :: "crypto \<Rightarrow> float_io \<Rightarrow> tofu_env \<Rightarrow> node_id \<Rightarrow> string \<Rightarrow> string \<Rightarrow> queue_result \<Rightarrow> trust_daemon
    \<Rightarrow> gate_verdict \<times> trust_audit list \<times> trust_daemon" where
  "gate_inbound C io V p msg_type msg_id q D =
    (if \<not> td_gate_on D \<or> msg_type \<notin> set gated_types \<or> p = td_node_id D then (Deliver, [], D)
     else case open_store C io V D of
       Inl e \<Rightarrow> (DropIt, [], D)
     | Inr (st, disk) \<Rightarrow>
         (let D1 = D\<lparr>td_file := disk\<rparr>; state = get_trust_state p st in
          if state = JStr ''trusted'' then (Deliver, [], D1)
          else if state = JStr ''blocked'' then
            (let D2 = D1\<lparr>td_blocked_count := td_blocked_count D1 + 1, td_dropped_count := td_dropped_count D1 + 1\<rparr> in
             if tv_now V - dget_default 0 (td_gate_last_audit D2) p \<ge> 1
             then (DropIt, [AuditGatedDrop p msg_id], D2\<lparr>td_gate_last_audit := dset p (tv_now V) (td_gate_last_audit D2)\<rparr>)
             else (DropIt, [], D2))
          else case q of
            QueueFailed \<Rightarrow> (DropIt, [], D1)
          | QueueFull \<Rightarrow> (QueueIt, [], D1)
          | Queued n \<Rightarrow> (QueueIt, [AuditGatedQueue p msg_id n], D1)))"

text \<open>The operator's promote and block: whether it succeeded, the audit record. \<open>waiting\<close> is the
  number of queued messages that are drained or discarded.\<close>

definition operator_set_state :: "crypto \<Rightarrow> float_io \<Rightarrow> tofu_env \<Rightarrow> string \<Rightarrow> node_id \<Rightarrow> trust_daemon \<Rightarrow> bool \<times> trust_daemon" where
  "operator_set_state C io V state target D = (case open_store C io V D of
     Inl e \<Rightarrow> (False, D)
   | Inr (st, disk) \<Rightarrow>
       (case set_trust_state C io (tv_trust V) target state st disk of
          (Inr True, st1, disk1) \<Rightarrow> (True, D\<lparr>td_file := disk1\<rparr>)
        | (_, st1, disk1) \<Rightarrow> (False, D\<lparr>td_file := disk1\<rparr>)))"

definition promote_pending_peer :: "crypto \<Rightarrow> float_io \<Rightarrow> tofu_env \<Rightarrow> node_id \<Rightarrow> nat \<Rightarrow> trust_daemon \<Rightarrow> nat option \<times> trust_audit list \<times> trust_daemon" where
  "promote_pending_peer C io V target waiting D = (case operator_set_state C io V ''trusted'' target D of
     (True, D1) \<Rightarrow> (Some waiting, [AuditPromoted target waiting], D1)
   | (False, D1) \<Rightarrow> (None, [], D1))"

definition block_pending_peer :: "crypto \<Rightarrow> float_io \<Rightarrow> tofu_env \<Rightarrow> node_id \<Rightarrow> nat \<Rightarrow> trust_daemon \<Rightarrow> nat option \<times> trust_audit list \<times> trust_daemon" where
  "block_pending_peer C io V target waiting D = (case operator_set_state C io V ''blocked'' target D of
     (True, D1) \<Rightarrow> (Some waiting, [AuditBlocked target waiting], D1)
   | (False, D1) \<Rightarrow> (None, [], D1))"

section \<open>Revocation\<close>

definition revocation_bytes :: "node_id \<Rightarrow> node_id \<Rightarrow> int \<Rightarrow> bytes" where
  "revocation_bytes target revoker timestamp = utf8 (target @ revoker @ show_int timestamp)"

text \<open>The signed payload, the peers it is sent to, and the local mark.\<close>

definition broadcast_revocation :: "crypto \<Rightarrow> float_io \<Rightarrow> tofu_env \<Rightarrow> node_id \<Rightarrow> string \<Rightarrow> trust_daemon
    \<Rightarrow> (json \<times> node_id list \<times> trust_daemon) py" where
  "broadcast_revocation C io V target reason D =
     py_bind (open_store C io V D) (\<lambda>(st, disk).
       let ts = trunc_int (tv_now V);
           signature = sign_detached C (td_ed_secret D) (revocation_bytes target (td_node_id D) ts);
           payload = JObj [(''target_node_id'', JStr target), (''revoker_node_id'', JStr (td_node_id D)), (''timestamp'', JInt ts),
              (''reason'', JStr reason), (''signature'', JStr (b64encode signature))];
           (st1, disk1) = mark_revoked C io (tv_trust V) target (td_node_id D) (tv_now V) (JStr reason) st disk in
       Inr (payload, map fst (filter (\<lambda>(pid, s). is_online s \<and> pid \<noteq> target) (td_peers D)), D\<lparr>td_file := disk1\<rparr>))"

text \<open>Whether the revocation is applied; an exception the handler does not catch is \<open>Inl\<close>. The
  argument \<open>identity\<close> is the sender's identity key on its peer record.\<close>

definition disconnect_revoked :: "time \<Rightarrow> node_id \<Rightarrow> trust_daemon \<Rightarrow> trust_daemon" where
  "disconnect_revoked now target D =
    (if target \<notin> set (td_clients D) then D
     else D\<lparr>td_clients := removeAll target (td_clients D),
            td_peers := (case dget (td_peers D) target of None \<Rightarrow> td_peers D
              | Some s \<Rightarrow> dset target ((ps_transition now Offline s)\<lparr>ps_session_key := None\<rparr>) (td_peers D))\<rparr>)"

definition revocation_signature_ok :: "crypto \<Rightarrow> bytes option \<Rightarrow> bytes \<Rightarrow> json \<Rightarrow> bool" where
  "revocation_signature_ok C identity body signature = (case (identity, signature) of
     (Some vk, JStr s) \<Rightarrow> vk \<noteq> [] \<and> length vk = 32 \<and>
       (case b64decode s of None \<Rightarrow> False | Some sig \<Rightarrow> verify_detached C vk body sig = Inr True)
   | _ \<Rightarrow> False)"

definition handle_revocation :: "crypto \<Rightarrow> float_io \<Rightarrow> tofu_env \<Rightarrow> node_id \<Rightarrow> bytes \<Rightarrow> bytes option \<Rightarrow> trust_daemon
    \<Rightarrow> (bool \<times> trust_daemon) py" where
  "handle_revocation C io V p payload identity D = (case loads_bytes io payload of
     None \<Rightarrow> Inr (False, D)
   | Some (JObj d) \<Rightarrow>
       (let get = (\<lambda>k. dget_default JNull d k);
            target = get ''target_node_id''; revoker = get ''revoker_node_id''; timestamp = get ''timestamp'';
            signature = get ''signature''; reason = dget_default (JStr []) d ''reason'' in
        if \<not> (truthy target \<and> truthy revoker \<and> truthy timestamp \<and> truthy signature) then Inr (False, D)
        else if revoker \<noteq> JStr p then Inr (False, D)
        else if identity = None \<or> identity = Some [] then Inr (False, D)
        else (case (py_str target, int_of_json timestamp) of
           (Some tgt, Some ts) \<Rightarrow>
             if \<not> revocation_signature_ok C identity (revocation_bytes tgt p ts) signature then Inr (False, D)
             else py_bind (open_store C io V D) (\<lambda>(st, disk). py_bind (float_of io timestamp) (\<lambda>tsf.
               let (st1, disk1) = mark_revoked C io (tv_trust V) tgt p tsf reason st disk in
               Inr (True, disconnect_revoked (tv_now V) tgt (D\<lparr>td_file := disk1\<rparr>))))
         | (None, _) \<Rightarrow> Inl (TypeError ''target_node_id'')
         | (_, None) \<Rightarrow> Inl (ValueError ''timestamp'')))
   | Some _ \<Rightarrow> Inl (TypeError ''payload is not an object''))"

section \<open>Capability continuity\<close>

text \<open>Stash and demote, both attempted; the flags say what was persisted.\<close>

definition apply_cap_change :: "crypto \<Rightarrow> float_io \<Rightarrow> tofu_env \<Rightarrow> node_id \<Rightarrow> string list \<Rightarrow> trust_store \<Rightarrow> trust_file
    \<Rightarrow> bool \<times> bool \<times> trust_store \<times> trust_file" where
  "apply_cap_change C io V p new_set st disk =
    (case stash_pending_change C io (tv_trust V) p new_set st disk of
       (stashed, st1, disk1) \<Rightarrow>
         if get_trust_state p st1 = JStr ''pending-cap-change'' then (stashed, True, st1, disk1)
         else (case set_trust_state C io (tv_trust V) p ''pending-cap-change'' st1 disk1 of
           (r, st2, disk2) \<Rightarrow> (stashed, r = Inr True, st2, disk2)))"

definition handle_cap_observation :: "crypto \<Rightarrow> float_io \<Rightarrow> tofu_env \<Rightarrow> node_id \<Rightarrow> cap_verdict \<Rightarrow> trust_store \<Rightarrow> trust_file
    \<Rightarrow> trust_audit list \<times> trust_store \<times> trust_file" where
  "handle_cap_observation C io V p verdict st disk = (case verdict of
     FirstObservation h s \<Rightarrow> ([AuditCapBaseline p h (length s)], st, disk)
   | CapMatch h s \<Rightarrow> ([], st, disk)
   | PendingMatch h s \<Rightarrow> ([], st, disk)
   | Reverted h s cleared \<Rightarrow> ([AuditCapChanged p cleared (JStr h) [] []], st, disk)
   | CapChanged old new old_set new_set added removed \<Rightarrow>
       (case apply_cap_change C io V p new_set st disk of
          (stashed, demoted, st1, disk1) \<Rightarrow>
            ([if stashed \<and> demoted then AuditCapChanged p old (JStr new) added removed
              else AuditCapPartial p old new added removed stashed demoted], st1, disk1))
   | UnknownPeer \<Rightarrow> ([], st, disk))"

text \<open>The routing layer's use of it: observe, then react, on one open store.\<close>

definition observe_announcement :: "crypto \<Rightarrow> float_io \<Rightarrow> tofu_env \<Rightarrow> node_id \<Rightarrow> string list \<Rightarrow> trust_store \<Rightarrow> trust_file
    \<Rightarrow> trust_audit list \<times> trust_store \<times> trust_file" where
  "observe_announcement C io V p caps st disk =
    (case observe_capabilities C io (tv_trust V) p caps st disk of
       (v, st1, disk1) \<Rightarrow> handle_cap_observation C io V p v st1 disk1)"

definition accept_pending_cap_change :: "crypto \<Rightarrow> float_io \<Rightarrow> tofu_env \<Rightarrow> node_id \<Rightarrow> trust_daemon
    \<Rightarrow> ((string + json \<times> json) \<times> trust_audit list \<times> trust_daemon) py" where
  "accept_pending_cap_change C io V n D = (case open_store C io V D of
     Inl e \<Rightarrow> Inr (Inl ''trust store unavailable'', [], D)
   | Inr (st, disk) \<Rightarrow>
       (let D1 = D\<lparr>td_file := disk\<rparr> in
        case get_peer n st of
          None \<Rightarrow> Inr (Inl ''unknown peer'', [], D1)
        | Some r \<Rightarrow>
            if get_trust_state n st \<noteq> JStr ''pending-cap-change'' then Inr (Inl ''peer is in another state'', [], D1)
            else (case get_or_none r ''capability_hash_pending'' of
              None \<Rightarrow> Inr (Inl ''no pending capability change'', [], D1)
            | Some new_hash \<Rightarrow>
                py_bind (accept_capability_change C io (tv_legacy V) (tv_trust V) n st disk) (\<lambda>(ok, st1, disk1).
                  if \<not> ok then Inr (Inl ''accept_capability_change returned False'', [], D\<lparr>td_file := disk1\<rparr>)
                  else (case set_trust_state C io (tv_trust V) n ''trusted'' st1 disk1 of
                    (res, st2, disk2) \<Rightarrow>
                      Inr (Inr (rec_or r ''capability_hash'' JNull, new_hash),
                           [AuditCapAccepted n (rec_or r ''capability_hash'' JNull) new_hash], D\<lparr>td_file := disk2\<rparr>))))))"

section \<open>Listing\<close>

text \<open>One row per peer with queued messages (source, count, oldest, newest), then the pending peers
  without any.\<close>

definition pending_row :: "node_id \<Rightarrow> peer_rec \<Rightarrow> json \<Rightarrow> json \<Rightarrow> json \<Rightarrow> peer_rec" where
  "pending_row n r count oldest newest = [(''node_id'', JStr n), (''fingerprint'', rec_or r ''fingerprint'' (JStr [])),
     (''first_seen'', rec_or r ''first_seen'' JNull), (''last_seen'', rec_or r ''last_seen'' JNull),
     (''queued_count'', count), (''oldest_queued_at'', oldest), (''newest_queued_at'', newest)]"

definition list_pending_trust :: "crypto \<Rightarrow> float_io \<Rightarrow> tofu_env \<Rightarrow> (node_id \<times> nat \<times> real \<times> real) list \<Rightarrow> trust_daemon \<Rightarrow> peer_rec list" where
  "list_pending_trust C io V summary D = (case open_store C io V D of
     Inl e \<Rightarrow> []
   | Inr (st, disk) \<Rightarrow>
       (let rows = list_by_trust_state ''pending'' st;
            named = map (\<lambda>r. (case rec_or r ''node_id'' JNull of JStr n \<Rightarrow> n | _ \<Rightarrow> [], r)) rows in
        map (\<lambda>(n, c, o1, o2). pending_row n (dget_default [] named n) (JInt (int c)) (JFloat o1) (JFloat o2)) summary @
        map (\<lambda>(n, r). pending_row n r (JInt 0) JNull JNull) (filter (\<lambda>(n, r). n \<notin> fst ` set summary) named)))"

section \<open>First use is binding\<close>

lemma store_view_get:
  assumes "store_view st' = store_view st"
  shows "dget (ts_peers st) p = Some r \<Longrightarrow> \<exists>r'. dget (ts_peers st') p = Some r' \<and> (\<forall>k. dget r' k = dget r k)"
    and "dget (ts_peers st) p = None \<Longrightarrow> dget (ts_peers st') p = None"
    and "is_revoked p st' \<longleftrightarrow> is_revoked p st"
proof -
  have v: "map_option dget (dget (ts_peers st') p) = map_option dget (dget (ts_peers st) p)"
    "map_option dget (dget (ts_revoked st') p) = map_option dget (dget (ts_revoked st) p)"
    using assms by (simp_all add: store_view_def records_view_def fun_eq_iff [of "records_view _"])
  show "dget (ts_peers st) p = Some r \<Longrightarrow> \<exists>r'. dget (ts_peers st') p = Some r' \<and> (\<forall>k. dget r' k = dget r k)"
    using v(1) by (cases "dget (ts_peers st') p") (auto simp: fun_eq_iff simp del: map_of_eq_Some_iff)
  show "dget (ts_peers st) p = None \<Longrightarrow> dget (ts_peers st') p = None"
    using v(1) by (cases "dget (ts_peers st') p") (auto simp del: map_of_eq_Some_iff)
  show "is_revoked p st' \<longleftrightarrow> is_revoked p st"
    using v(2) dget_None_iff [of "ts_revoked st'" p] dget_None_iff [of "ts_revoked st" p]
    unfolding is_revoked_def by (metis map_option_is_None)
qed

lemma records_ok_dset:
  assumes "records_ok io d" "dwf r" "\<forall>(k, v) \<in> set r. sort_json v = v \<and> wf_json io v"
  shows "records_ok io (dset p r d)"
proof -
  have "r' = r \<or> (n, r') \<in> set d" if "(n, r') \<in> set (dset p r d)" for n r'
  proof -
    have "dwf (dset p r d)" using assms(1) by (simp add: records_ok_def)
    with that have "dget (dset p r d) n = Some r'" by (rule map_of_is_SomeI [rotated])
    then show ?thesis by (auto split: if_splits dest: map_of_SomeD)
  qed
  then show ?thesis using assms unfolding records_ok_def by auto blast+
qed

lemma records_ok_dpop: "records_ok io d \<Longrightarrow> records_ok io (dpop p d)"
  by (auto simp: records_ok_def AList.delete_eq distinct_map_filter)

lemma open_store_file: "open_store C io V (D\<lparr>td_ledger := l, td_ledger_file := f\<rparr>) = open_store C io V D"
  by (simp add: open_store_def)

lemma open_saved_store:
  assumes "secretbox_ok C" "store_ok io st1" "ts_keys st1 = ts_keys st" "open_store C io V D = Inr (st, disk)"
    and "td_file D' = Holds (serialize_envelope C io nonce st1)" "td_ed_secret D' = td_ed_secret D"
  shows "\<exists>st2. open_store C io V' D' = Inr (st2, td_file D') \<and> store_view st2 = store_view st1
    \<and> store_ok io st2 \<and> ts_keys st2 = ts_keys st \<and> \<not> ts_readonly st2"
proof -
  let ?sec = "take 32 (td_ed_secret D)"
  obtain mk bk where k: "derive_mac_key C ?sec = Inr mk" "derive_box_key C ?sec = Inr bk"
    and l: "trust_load C io (tv_legacy V) (tv_trust V) \<lparr> ts_keys = \<lparr> tk_mac = mk, tk_box = bk \<rparr>, ts_peers = [], ts_revoked = [], ts_readonly = False \<rparr> (td_file D) = Inr (st, disk)"
    using assms(4) unfolding open_store_def trust_open_def py_bind_Inr_iff by blast
  have "ts_keys st = \<lparr> tk_mac = mk, tk_box = bk \<rparr>" using trust_load_keys [OF l] by simp
  then have K: "ts_keys \<lparr> ts_keys = \<lparr> tk_mac = mk, tk_box = bk \<rparr>, ts_peers = [], ts_revoked = [], ts_readonly = False \<rparr> = ts_keys st1"
    using assms(3) by simp
  from trust_load_saved [OF assms(1,2) K, of "tv_legacy V'" "tv_trust V'" nonce] show ?thesis
    unfolding open_store_def trust_open_def assms(5,6) k using assms(3) by auto
qed

lemma check_store_cases:
  assumes "open_store C io V D = Inr (st, disk)" "check_store C io V p key invt D = (TofuPinned state via, au, D')"
  shows "\<not> is_revoked p st \<and> dget (ts_peers st) p = None
    \<and> state = (if invt = None \<and> \<not> td_gate_on D then ''trusted'' else ''pending'')
    \<and> via = (if invt = None then None else Some ''invite'')
    \<and> td_ed_secret D' = td_ed_secret D \<and> td_gate_on D' = td_gate_on D
    \<and> (\<exists>fp. trust_fingerprint C key = Some fp \<and> td_file D' = Holds (serialize_envelope C io (te_nonce (tv_trust V))
          (put_peer p (pin_record (tv_now V) key fp state via) st)))"
proof -
  have rv: "\<not> is_revoked p st" using assms by (auto simp: check_store_def split: if_splits)
  obtain v st1 disk1 where v: "verify_peer C io (tv_trust V) p key st disk = (v, st1, disk1)" by (metis prod_cases3)
  have "v = NewPeer" using assms rv v by (cases v) (auto simp: check_store_def)
  then have n: "dget (ts_peers st) p = None" "st1 = st" "disk1 = disk"
    using v by (auto simp: verify_peer_def Let_def simp del: map_of_eq_Some_iff split: option.splits if_splits)
  define D0 where "D0 = D\<lparr>td_file := disk\<rparr>"
  have pin: "pin_new_peer C io V p key invt st D0 = (TofuPinned state via, au, D')"
    using assms rv v \<open>v = NewPeer\<close> n by (simp add: check_store_def D0_def)
  obtain s w D1 e where pre: "(case invt of
         None \<Rightarrow> (if td_gate_on D0 then ''pending'' else ''trusted'', None, D0, None)
       | Some (t, l) \<Rightarrow>
           (case mark_spent io (tv_now V) (tv_ledger_writes V) t l (td_ledger_file D0) of
              (l1, f1, e) \<Rightarrow> (''pending'', Some ''invite'', D0\<lparr>td_ledger := Some l1, td_ledger_file := f1\<rparr>, e))) = (s, w, D1, e)"
    by (metis prod_cases4)
  have D1: "td_ed_secret D1 = td_ed_secret D" "td_gate_on D1 = td_gate_on D" "td_file D1 = disk"
    "s = (if invt = None \<and> \<not> td_gate_on D then ''trusted'' else ''pending'')" "w = (if invt = None then None else Some ''invite'')"
    using pre by (auto simp: D0_def split: option.splits prod.splits)
  obtain err st2 disk2 where pp: "pin_peer C io (tv_trust V) p key s w st disk = (err, st2, disk2)" by (metis prod_cases3)
  have "e = None"
    using pin unfolding pin_new_peer_def pre Let_def prod.case by (cases e) (auto split: py_error.splits)
  then have "err = None \<and> state = s \<and> via = w \<and> D' = D1\<lparr>td_file := disk2\<rparr>"
    using pin pp D1(3) unfolding pin_new_peer_def pre Let_def prod.case
    by (cases err) (auto split: trust_error.splits)
  moreover from this have "\<exists>fp. trust_fingerprint C key = Some fp \<and> disk2 = Holds (serialize_envelope C io (te_nonce (tv_trust V))
          (put_peer p (pin_record (tv_now V) key fp s w) st))"
    using pp by (auto simp: pin_peer_def trust_save_def Let_def split: if_splits option.splits)
  ultimately show ?thesis using rv n(1) D1 by auto
qed



section \<open>An invite is used once\<close>

text \<open>A token is on record in a ledger: its nonce with its expiry.\<close>

definition on_record :: "float_io \<Rightarrow> ledger \<Rightarrow> invite_token \<Rightarrow> bool" where
  "on_record io l t = (\<exists>r. dget l (it_nonce t) = Some r \<and> spent_expiry io r = Inr (it_expires_at t))"

definition remembers :: "float_io \<Rightarrow> time \<Rightarrow> invite_token list \<Rightarrow> ledger \<Rightarrow> bool" where
  "remembers io now acc l = (dwf l \<and> (\<forall>t \<in> set acc. now \<le> it_expires_at t + LEDGER_RETENTION_AFTER_EXPIRY \<longrightarrow> on_record io l t))"

lemma ledger_prune_keeps:
  "ledger_prune io now l = Inr l' \<Longrightarrow> dwf l \<Longrightarrow>
   set (dkeys l') \<subseteq> set (dkeys l) \<and> dwf l' \<and>
   (\<forall>n r x. dget l n = Some r \<longrightarrow> spent_expiry io r = Inr x \<longrightarrow> now - LEDGER_RETENTION_AFTER_EXPIRY \<le> x \<longrightarrow> dget l' n = Some r)"
proof (induction l arbitrary: l')
  case (Cons nr l)
  obtain n r where nr: "nr = (n, r)" by (cases nr)
  from Cons.prems nr obtain x rest where x: "spent_expiry io r = Inr x" "ledger_prune io now l = Inr rest"
    and l': "l' = (if x \<ge> now - LEDGER_RETENTION_AFTER_EXPIRY then (n, r) # rest else rest)"
    by (auto simp: py_bind_Inr_iff)
  have ih: "set (dkeys rest) \<subseteq> set (dkeys l) \<and> dwf rest \<and>
   (\<forall>n r x. dget l n = Some r \<longrightarrow> spent_expiry io r = Inr x \<longrightarrow> now - LEDGER_RETENTION_AFTER_EXPIRY \<le> x \<longrightarrow> dget rest n = Some r)"
    using Cons.IH [OF x(2)] Cons.prems(2) nr by simp
  have "n \<notin> set (dkeys rest)" using ih Cons.prems(2) nr by auto
  then show ?case using ih l' x(1) nr by (auto simp del: map_of_eq_Some_iff)
qed simp

lemma remembers_prune:
  "remembers io now acc l \<Longrightarrow> now \<le> now' \<Longrightarrow> ledger_prune io now' l = Inr l' \<Longrightarrow> remembers io now' acc l'"
  unfolding remembers_def on_record_def using ledger_prune_keeps [of io now' l l'] by fastforce

lemma remembers_later: "remembers io now acc l \<Longrightarrow> now \<le> now' \<Longrightarrow> remembers io now' acc l"
  by (auto simp: remembers_def)

lemma load_saved_ledger: "ledger_load io now (LedgerHolds (ledger_json l)) = ledger_prune io now l"
proof -
  have "records_of (map (\<lambda>(n, r). (n, JObj r)) d) = Some d" for d by (induction d) auto
  then show ?thesis by (simp add: ledger_load_def ledger_json_def)
qed

text \<open>What the file and the memory know of the tokens accepted so far.\<close>

definition ledger_inv :: "float_io \<Rightarrow> time \<Rightarrow> invite_token list \<Rightarrow> trust_daemon \<Rightarrow> bool" where
  "ledger_inv io now acc D =
    ((case td_ledger D of None \<Rightarrow> True | Some l \<Rightarrow> remembers io now acc l)
     \<and> (if acc = [] then (\<forall>t l. ledger_load io t (td_ledger_file D) = Inr l \<longrightarrow> dwf l)
        else \<exists>l. td_ledger_file D = LedgerHolds (ledger_json l) \<and> remembers io now acc l))"

lemma ledger_inv_later: "ledger_inv io now acc D \<Longrightarrow> now \<le> now' \<Longrightarrow> ledger_inv io now' acc D"
  unfolding ledger_inv_def by (cases "acc = []"; cases "td_ledger D") (auto dest: remembers_later)

lemma get_ledger_inv:
  assumes "ledger_inv io now acc D" "get_invite_ledger io now D = Inr (l, D1)"
  shows "ledger_inv io now acc D1 \<and> remembers io now acc l \<and> td_ledger D1 = Some l \<and> td_ledger_file D1 = td_ledger_file D"
proof (cases "td_ledger D")
  case (Some l0)
  then show ?thesis using assms by (auto simp: get_invite_ledger_def ledger_inv_def)
next
  case None
  then have l: "ledger_load io now (td_ledger_file D) = Inr l" "D1 = D\<lparr>td_ledger := Some l\<rparr>"
    using assms(2) by (auto simp: get_invite_ledger_def py_bind_Inr_iff)
  have "remembers io now acc l"
  proof (cases "acc = []")
    case True
    then show ?thesis using assms(1) l(1) by (auto simp: ledger_inv_def remembers_def)
  next
    case False
    then obtain l0 where l0: "td_ledger_file D = LedgerHolds (ledger_json l0)" "remembers io now acc l0"
      using assms(1) by (auto simp: ledger_inv_def)
    then show ?thesis using l(1) remembers_prune by (simp add: load_saved_ledger)
  qed
  then show ?thesis using assms(1) l(2) by (auto simp: ledger_inv_def)
qed

lemma mark_spent_inv:
  assumes "remembers io now acc l" "\<not> is_spent (it_nonce t) l" "now \<le> it_expires_at t + INVITE_CLOCK_SKEW"
    and "mark_spent io now writes t l f = (l', f', e)"
  shows "remembers io now acc l' \<and> (e = None \<longrightarrow> f' = LedgerHolds (ledger_json l') \<and> remembers io now (t # acc) l')
    \<and> (f' = f \<or> f' = LedgerHolds (ledger_json l'))"
proof -
  let ?l1 = "dset (it_nonce t) [(''spent_at'', JFloat now), (''expires_at'', JFloat (it_expires_at t))] l"
  have n: "dget l (it_nonce t) = None" using assms(2) by (simp add: is_spent_def dget_None_iff)
  have r1: "remembers io now (t # acc) ?l1"
  proof -
    have "on_record io ?l1 t" by (simp add: on_record_def spent_expiry_def float_of_def)
    moreover have "on_record io ?l1 t'" if "on_record io l t'" for t'
      using that n by (auto simp: on_record_def simp del: map_of_eq_Some_iff)
    moreover have "dwf ?l1" using assms(1) by (simp add: remembers_def)
    ultimately show ?thesis using assms(1) by (auto simp: remembers_def)
  qed
  have sub: "remembers io now (t # acc) x \<Longrightarrow> remembers io now acc x" for x by (simp add: remembers_def)
  show ?thesis
  proof (cases "ledger_prune io now ?l1")
    case (Inl e0)
    then show ?thesis using assms(4) r1 sub by (auto simp: mark_spent_def Let_def)
  next
    case (Inr l2)
    then have "remembers io now (t # acc) l2" by (rule remembers_prune [OF r1 order_refl])
    then show ?thesis using assms(4) Inr sub by (auto simp: mark_spent_def Let_def split: if_splits)
  qed
qed

text \<open>A run: handshake checks with their clock, and restarts of the daemon, which forget the ledger in
  memory. It yields the tokens that got a peer pinned, latest first.\<close>

datatype join_event =
    Join tofu_env node_id "string option" "string option"
  | RestartDaemon

definition accepted_token :: "(json \<Rightarrow> string) \<Rightarrow> float_io \<Rightarrow> string option \<Rightarrow> tofu_outcome \<Rightarrow> invite_token list" where
  "accepted_token rep io invite outcome = (case outcome of
     TofuPinned state (Some via) \<Rightarrow> (case parse_invite rep io (the invite) of Inr t \<Rightarrow> [t] | Inl e \<Rightarrow> [])
   | _ \<Rightarrow> [])"

fun join_run :: "(json \<Rightarrow> string) \<Rightarrow> crypto \<Rightarrow> float_io \<Rightarrow> join_event list \<Rightarrow> trust_daemon \<Rightarrow> invite_token list \<times> trust_daemon" where
  "join_run rep C io [] D = ([], D)"
| "join_run rep C io (RestartDaemon # es) D = join_run rep C io es (D\<lparr>td_ledger := None\<rparr>)"
| "join_run rep C io (Join V p identity invite # es) D =
     (case check_tofu rep C io V p identity invite D of (outcome, au, D1) \<Rightarrow>
        (case join_run rep C io es D1 of (acc, D2) \<Rightarrow> (acc @ accepted_token rep io invite outcome, D2)))"

fun join_times :: "join_event list \<Rightarrow> time list" where
  "join_times [] = []"
| "join_times (RestartDaemon # es) = join_times es"
| "join_times (Join V p identity invite # es) = tv_now V # join_times es"

text \<open>One handshake keeps the ledger's knowledge, and the token it accepts is new.\<close>

abbreviation token_id :: "invite_token \<Rightarrow> string \<times> real" where
  "token_id t \<equiv> (it_nonce t, it_expires_at t)"

lemma validated_invite:
  assumes "ledger_inv io now acc D" "validate_incoming_invite rep C io now invite D = (iv, D1)"
  shows "ledger_inv io now acc D1"
    and "iv = InviteGood t l \<Longrightarrow> parse_invite rep io (the invite) = Inr t \<and> remembers io now acc l
      \<and> \<not> is_spent (it_nonce t) l \<and> now \<le> it_expires_at t + INVITE_CLOCK_SKEW"
proof -
  show "ledger_inv io now acc D1"
    using assms get_ledger_inv [OF assms(1)]
    by (auto simp: validate_incoming_invite_def split: option.splits sum.splits if_splits)
  show "iv = InviteGood t l \<Longrightarrow> parse_invite rep io (the invite) = Inr t \<and> remembers io now acc l
      \<and> \<not> is_spent (it_nonce t) l \<and> now \<le> it_expires_at t + INVITE_CLOCK_SKEW"
    using assms(2) get_ledger_inv [OF assms(1)]
    by (auto simp: validate_incoming_invite_def check_and_reject_if_spent_def invite_is_expired_def
        split: option.splits sum.splits if_splits)
qed

lemma check_store_ledger:
  assumes "check_store C io V p key invt D = (outcome, au, D')"
  shows "(td_ledger D' = td_ledger D \<and> td_ledger_file D' = td_ledger_file D \<and> (\<forall>s w. outcome = TofuPinned s (Some w) \<longrightarrow> False))
    \<or> (\<exists>t l l1 f1 e. invt = Some (t, l) \<and> mark_spent io (tv_now V) (tv_ledger_writes V) t l (td_ledger_file D) = (l1, f1, e)
        \<and> td_ledger D' = Some l1 \<and> td_ledger_file D' = f1 \<and> (\<forall>s w. outcome = TofuPinned s w \<longrightarrow> e = None))"
proof (cases invt)
  case None
  then show ?thesis using assms
    by (auto simp: check_store_def pin_new_peer_def forget_peer_def Let_def
        split: sum.splits py_error.splits if_splits verdict.splits prod.splits option.splits trust_error.splits)
next
  case (Some tl)
  then show ?thesis using assms
    by (auto simp: check_store_def pin_new_peer_def forget_peer_def Let_def
        split: sum.splits py_error.splits if_splits verdict.splits prod.splits option.splits trust_error.splits)
qed

lemma check_tofu_inv:
  assumes inv: "ledger_inv io (tv_now V) acc D" and c: "check_tofu rep C io V p identity invite D = (outcome, au, D1)"
  shows "ledger_inv io (tv_now V) (accepted_token rep io invite outcome @ acc) D1
    \<and> (\<forall>t \<in> set (accepted_token rep io invite outcome). token_id t \<notin> token_id ` set acc)"
proof -
  have none: "accepted_token rep io invite outcome = []" if "\<forall>s w. outcome = TofuPinned s (Some w) \<longrightarrow> False"
    using that by (auto simp: accepted_token_def split: tofu_outcome.splits option.splits)
  show ?thesis
  proof (cases "identity = None \<or> identity = Some []")
    case True
    then have "outcome = TofuSkipped" "D1 = D" using c by (auto simp: check_tofu_def)
    then show ?thesis using inv none by simp
  next
    case False
    then obtain key where key: "identity = Some key" "key \<noteq> []" by auto
    obtain iv D0 where iv: "validate_incoming_invite rep C io (tv_now V) invite D = (iv, D0)"
      by (cases "validate_incoming_invite rep C io (tv_now V) invite D")
    note v = validated_invite [OF inv iv]
    show ?thesis
    proof (cases iv)
      case NoInvite
      then have "check_store C io V p key None D0 = (outcome, au, D1)" using c key iv by (simp add: check_tofu_def)
      from check_store_ledger [OF this] have "\<forall>s w. outcome = TofuPinned s (Some w) \<longrightarrow> False"
        "td_ledger D1 = td_ledger D0" "td_ledger_file D1 = td_ledger_file D0" by auto
      then show ?thesis using v(1) none by (simp add: ledger_inv_def)
    next
      case (InviteRefused n r)
      then have "outcome = TofuRefused ''invite''" "D1 = D0" using c key iv by (simp_all add: check_tofu_def)
      then show ?thesis using v(1) none by simp
    next
      case (InviteRaised e)
      then have "outcome = TofuRaised e" "D1 = D0" using c key iv by (simp_all add: check_tofu_def)
      then show ?thesis using v(1) none by simp
    next
      case (InviteGood t l)
      note g = v(2) [OF InviteGood]
      have fresh: "token_id t \<notin> token_id ` set acc"
      proof
        assume "token_id t \<in> token_id ` set acc"
        then obtain t' where t': "t' \<in> set acc" "it_nonce t' = it_nonce t" "it_expires_at t' = it_expires_at t" by auto
        then have "on_record io l t'"
          using g by (auto simp: remembers_def INVITE_CLOCK_SKEW_def LEDGER_RETENTION_AFTER_EXPIRY_def)
        then show False using g t'(2) dget_None_iff [of l "it_nonce t"] by (auto simp: on_record_def is_spent_def)
      qed
      have cs: "check_store C io V p key (Some (t, l)) D0 = (outcome, au, D1)"
        using c key iv InviteGood by (simp add: check_tofu_def)
      have tok: "accepted_token rep io invite outcome = [] \<or> accepted_token rep io invite outcome = [t]"
        using g by (auto simp: accepted_token_def split: tofu_outcome.splits option.splits)
      from check_store_ledger [OF cs] show ?thesis
      proof (elim disjE exE conjE, goal_cases)
        case 1
        then show ?case using v(1) none by (simp add: ledger_inv_def)
      next
        case (2 t0 l0 l1 f1 e)
        then have ms: "mark_spent io (tv_now V) (tv_ledger_writes V) t l (td_ledger_file D0) = (l1, f1, e)" by simp
        have m: "remembers io (tv_now V) acc l1" "f1 = td_ledger_file D0 \<or> f1 = LedgerHolds (ledger_json l1)"
          "e = None \<Longrightarrow> f1 = LedgerHolds (ledger_json l1) \<and> remembers io (tv_now V) (t # acc) l1"
          using mark_spent_inv [OF _ _ _ ms] g by blast+
        show ?case
        proof (cases "accepted_token rep io invite outcome = []")
          case True
          have "dwf x" if "acc = []" "f1 = LedgerHolds (ledger_json l1)" "ledger_load io now' f1 = Inr x" for now' x
            using that m(1) ledger_prune_keeps [of io now' l1 x] by (simp add: load_saved_ledger remembers_def)
          then show ?thesis using True v(1) m(1,2) 2 by (auto simp: ledger_inv_def)
        next
          case False
          with none obtain s w where "outcome = TofuPinned s (Some w)" by blast
          then have "e = None" using 2 by blast
          from m(3) [OF this] show ?thesis using False tok fresh 2 by (auto simp: ledger_inv_def)
        qed
      qed
    qed
  qed
qed

lemma join_run_distinct:
  "ledger_inv io now acc0 D \<Longrightarrow> sorted (now # join_times es) \<Longrightarrow> distinct (map token_id acc0) \<Longrightarrow>
   distinct (map token_id (fst (join_run rep C io es D) @ acc0))"
proof (induction rep C io es D arbitrary: now acc0 rule: join_run.induct)
  case (2 rep C io es D)
  have "ledger_inv io now acc0 (D\<lparr>td_ledger := None\<rparr>)" using "2.prems"(1) by (auto simp: ledger_inv_def)
  from "2.IH" [OF this] "2.prems"(2,3) show ?case by simp
next
  case (3 rep C io V p identity invite es D)
  obtain outcome au D1 where c: "check_tofu rep C io V p identity invite D = (outcome, au, D1)" by (metis prod_cases3)
  have "ledger_inv io (tv_now V) acc0 D" using ledger_inv_later [OF "3.prems"(1)] "3.prems"(2) by simp
  note s = check_tofu_inv [OF this c]
  let ?a = "accepted_token rep io invite outcome"
  have "length ?a \<le> 1" by (auto simp: accepted_token_def split: tofu_outcome.splits option.splits sum.splits)
  then have "distinct (map token_id ?a)" by (cases ?a) auto
  then have "distinct (map token_id (?a @ acc0))" using s "3.prems"(3) by auto
  from "3.IH" [OF c [symmetric] refl conjunct1 [OF s] _ this] "3.prems"(2) c show ?case
    by (cases "join_run rep C io es D1") auto
qed simp

text \<open>The spent record of the file is an object, whose keys are distinct.\<close>

definition ledger_file_ok :: "ledger_file \<Rightarrow> bool" where
  "ledger_file_ok f = (case f of LedgerHolds j \<Rightarrow> (case jget j ''spent'' of Some (JObj d) \<Rightarrow> dwf d | _ \<Rightarrow> True) | _ \<Rightarrow> True)"

lemma ledger_file_ok_inv: "ledger_file_ok (td_ledger_file D) \<Longrightarrow> td_ledger D = None \<Longrightarrow> ledger_inv io now [] D"
proof -
  assume ok: "ledger_file_ok (td_ledger_file D)" and n: "td_ledger D = None"
  have keys: "records_of d = Some s \<Longrightarrow> dkeys s = dkeys d" for d s
    by (induction d arbitrary: s rule: records_of.induct) auto
  have "dwf l" if "ledger_load io t (td_ledger_file D) = Inr l" for t l
  proof -
    from that consider "l = []" | d s where "records_of d = Some s" "dwf d" "ledger_prune io t s = Inr l"
      using ok by (auto simp: ledger_load_def ledger_file_ok_def split: ledger_file.splits option.splits json.splits)
    then show ?thesis
      by cases (use ledger_prune_keeps [of io t] keys in \<open>auto\<close>)
  qed
  then show ?thesis using n by (simp add: ledger_inv_def)
qed

text \<open>C11: an invite is used once. Over any sequence of handshake checks with non-decreasing clock
  readings, of daemon restarts in between and of ledger writes that may fail, no token (no nonce with
  its expiry) gets two peers pinned.\<close>

theorem invite_single_use:
  assumes "td_ledger D = None" "ledger_file_ok (td_ledger_file D)" "sorted (join_times es)"
  shows "distinct (map token_id (fst (join_run rep C io es D)))"
proof -
  obtain now where "sorted (now # join_times es)"
    using assms(3) by (cases "join_times es") (auto intro: that)
  from join_run_distinct [OF ledger_file_ok_inv [OF assms(2,1)] this] show ?thesis by simp
qed

section \<open>Concrete daemons\<close>

text \<open>A fresh daemon: no trust file, no ledger. Its secret is its public key here, as in the sample primitives.\<close>

definition sample_daemon :: trust_daemon where
  "sample_daemon = \<lparr> td_node_id = ''node'', td_ed_public = pad 32 [7], td_ed_secret = pad 32 [7], td_gate_on = False,
     td_file = NoFile, td_ledger = None, td_ledger_file = NoLedger, td_clients = [], td_peers = [], td_limiters = [],
     td_gate_last_audit = [], td_blocked_count = 0, td_dropped_count = 0 \<rparr>"

definition sample_tofu_env :: tofu_env where
  "sample_tofu_env = \<lparr> tv_trust = \<lparr> te_now = 0, te_nonce = [], te_writes = True \<rparr>, tv_legacy = [], tv_ledger_writes = True \<rparr>"

definition sample_fresh_store :: trust_store where
  "sample_fresh_store = \<lparr> ts_keys = \<lparr> tk_mac = sha256 sample_crypto (pad 32 [7] @ utf8 ''ironmesh-trust-store-v1''),
     tk_box = sha256 sample_crypto (pad 32 [7] @ utf8 ''ironmesh-trust-store-encryption-v1'') \<rparr>,
     ts_peers = [], ts_revoked = [], ts_readonly = False \<rparr>"

lemma sample_open:
  "open_store sample_crypto io V (sample_daemon\<lparr>td_ledger := l\<rparr>) = Inr (sample_fresh_store, NoFile)"
  by (simp add: open_store_def trust_open_def sample_daemon_def derive_mac_key_def derive_box_key_def derive_key_def
      trust_load_def sample_fresh_store_def)

lemma sample_first_pin:
  assumes "validate_incoming_invite rep sample_crypto io 0 invite sample_daemon = (NoInvite, sample_daemon)"
  shows "\<exists>au D'. check_tofu rep sample_crypto io sample_tofu_env ''bob'' (Some ''AAAA'') invite sample_daemon
     = (TofuPinned ''trusted'' None, au, D')"
proof -
  have "b64decode ''AAAA'' \<noteq> None" by code_simp
  then show ?thesis
    using assms sample_open [of io sample_tofu_env None]
    by (auto simp: check_tofu_def check_store_def is_revoked_def verify_peer_def sample_fresh_store_def pin_new_peer_def
        pin_peer_def trust_states_def trust_fingerprint_def trust_save_def Let_def sample_daemon_def sample_tofu_env_def)
qed


text \<open>A daemon's own invite, presented by two peers.\<close>

theorem invite_single_use_witness:
  "\<exists>t. create_invite sample_crypto sample_io01 (pad 32 [7]) (pad 32 [7]) ''h:1'' None (Some 1) [] 0 [5] = Inr t
     \<and> fst (join_run (\<lambda>_. []) sample_crypto sample_io01
         [Join sample_tofu_env ''bob'' (Some ''AAAA'') (Some (invite_to_string sample_io01 t)), RestartDaemon,
          Join sample_tofu_env ''eve'' (Some ''BBBB'') (Some (invite_to_string sample_io01 t))] sample_daemon) = [t]"
proof -
  obtain t where t: "create_invite sample_crypto sample_io01 (pad 32 [7]) (pad 32 [7]) ''h:1'' None (Some 1) [] 0 [5] = Inr t"
    "it_expires_at t = 1" "it_nonce t = hex_of [5]"
  proof -
    have "pad 32 [7] \<noteq> []" using length_pad [of 32 "[7]"] by fastforce
    moreover have "keys_fingerprint sample_crypto (pad 32 [7]) \<noteq> []" by code_simp
    moreover have "hex_of [5] \<noteq> []" by (simp add: hex_of_def)
    moreover have "SIG_CTX_INVITE \<noteq> []" by (simp add: SIG_CTX_INVITE_def)
    ultimately show ?thesis using that
      by (simp add: create_invite_def Let_def canonical_invite_bytes_def sign_detached_with_context_def INVITE_SIGNED_VERSION_def)
  qed
  have pp: "pad 32 (pad 32 [7]) = pad 32 [7]" by (simp add: pad_def)
  note i = issued_invite [OF sample_crypto_ok(2) _ length_pad t(1), simplified, OF pp [symmetric]]
  let ?s = "invite_to_string sample_io01 t"
  have p: "parse_invite (\<lambda>_. []) sample_io01 ?s = Inr t" by (rule parse_invite_to_string) (use i(3) t(2) in simp_all)
  have ne: "?s \<noteq> []" by (simp add: invite_to_string_def INVITE_PREFIX_def)
  have "validate_incoming_invite (\<lambda>_. []) sample_crypto sample_io01 0 (Some ?s) sample_daemon
      = (InviteGood t [], sample_daemon\<lparr>td_ledger := Some []\<rparr>)"
    using p ne i t
    by (simp add: validate_incoming_invite_def sample_daemon_def get_invite_ledger_def ledger_load_def
        check_and_reject_if_spent_def is_spent_def invite_is_expired_def INVITE_CLOCK_SKEW_def)
  moreover have "b64decode ''AAAA'' \<noteq> None" by code_simp
  moreover have "open_store sample_crypto sample_io01 sample_tofu_env (sample_daemon\<lparr>td_ledger := Some []\<rparr>) = Inr (sample_fresh_store, NoFile)"
    by (rule sample_open)
  ultimately obtain au D1 where c: "check_tofu (\<lambda>_. []) sample_crypto sample_io01 sample_tofu_env ''bob'' (Some ''AAAA'') (Some ?s) sample_daemon
     = (TofuPinned ''pending'' (Some ''invite''), au, D1)"
    by (auto simp: check_tofu_def check_store_def is_revoked_def verify_peer_def sample_fresh_store_def pin_new_peer_def
        pin_peer_def trust_states_def trust_fingerprint_def trust_save_def Let_def sample_daemon_def sample_tofu_env_def
        mark_spent_def spent_expiry_def float_of_def t(2) LEDGER_RETENTION_AFTER_EXPIRY_def)
  let ?es = "[Join sample_tofu_env ''bob'' (Some ''AAAA'') (Some ?s), RestartDaemon,
          Join sample_tofu_env ''eve'' (Some ''BBBB'') (Some ?s)]"
  let ?acc = "fst (join_run (\<lambda>_. []) sample_crypto sample_io01 ?es sample_daemon)"
  have d: "distinct (map token_id ?acc)"
    by (rule invite_single_use) (simp_all add: sample_daemon_def ledger_file_ok_def)
  have tok: "accepted_token (\<lambda>_. []) sample_io01 (Some ?s) x \<in> {[], [t]}" for x
    using p by (auto simp: accepted_token_def split: tofu_outcome.splits option.splits)
  have "accepted_token (\<lambda>_. []) sample_io01 (Some ?s) (TofuPinned ''pending'' (Some ''invite'')) = [t]"
    using p by (simp add: accepted_token_def)
  then have "?acc = [t] \<or> ?acc = [t, t]"
    using c tok by (auto split: prod.splits)
  then have "?acc = [t]" using d by auto
  then show ?thesis using t(1) by blast
qed

section \<open>Revocation reaches the other nodes\<close>

text \<open>The control payload the receiver gets: the type and the sender, then the signed body.\<close>

definition revocation_frame :: "float_io \<Rightarrow> node_id \<Rightarrow> json \<Rightarrow> bytes" where
  "revocation_frame io sender body = utf8 (dumps_compact io (case body of
     JObj d \<Rightarrow> JObj ((''type'', JStr ''REVOCATION'') # (''from'', JStr sender) # d) | j \<Rightarrow> j))"

lemma saved_revocation:
  assumes "secretbox_ok C" "store_ok io st" "open_store C io V D = Inr (st, disk)" "\<not> ts_readonly st" "te_writes (tv_trust V)"
    and "mark_revoked C io (tv_trust V) target revoker x reason st disk = (st1, disk1)"
    and "float_ok io x" "sort_json reason = reason" "wf_json io reason" "td_file D' = disk1" "td_ed_secret D' = td_ed_secret D"
  shows "\<exists>st2. open_store C io V' D' = Inr (st2, disk1) \<and> is_revoked target st2 \<and> get_peer target st2 = None"
proof -
  let ?r = "[(''revoker'', JStr revoker), (''timestamp'', JFloat x), (''reason'', reason)]"
  have st1: "st1 = drop_peer target (st\<lparr>ts_revoked := dset target ?r (ts_revoked st)\<rparr>)"
    and d1: "disk1 = Holds (serialize_envelope C io (te_nonce (tv_trust V)) st1)"
    using assms(4-6) by (auto simp: mark_revoked_def trust_save_def Let_def)
  have "store_ok io st1"
    using assms(2,7-9) unfolding st1 by (auto simp: store_ok_def intro!: records_ok_dset records_ok_dpop)
  moreover have "ts_keys st1 = ts_keys st" by (simp add: st1)
  moreover have "td_file D' = Holds (serialize_envelope C io (te_nonce (tv_trust V)) st1)" using assms(10) d1 by simp
  ultimately obtain st2 where st2: "open_store C io V' D' = Inr (st2, td_file D')" "store_view st2 = store_view st1"
    using open_saved_store [OF assms(1) _ _ assms(3) _ assms(11), of st1 _ V'] by blast
  have "is_revoked target st1" by (simp add: st1 is_revoked_def)
  then have "is_revoked target st2" using store_view_get(3) [OF st2(2)] by blast
  moreover have "dget (ts_peers st1) target = None" by (simp add: st1)
  ultimately show ?thesis using st2 store_view_get(2) [OF st2(2)] assms(10) by (simp add: get_peer_def)
qed



end
