(* ===== verification/Handshake.thy ===== *)
theory Handshake
  imports Trust_Ops
begin

text \<open>
  The connection handshake: handshake.py (\<open>HandshakeMixin\<close>, the client), the server's part of
  it in bridge.py (\<open>_handle_connection\<close>) and \<open>Handshake\<close> of protocol.py.

  \<^item> A connection is a \<open>conn\<close>: its socket number, whether it is a Reticulum link, what the
    link adapter knows (\<open>link_id_hex\<close>, \<open>remote_identity_hash\<close>) and the remote address.
  \<^item> The handlers are cut where they wait for a message (\<open>recv\<close>): one function per stretch
    between two receptions. The daemon may change in between; sends inside a stretch succeed.
  \<^item> Random bytes and ephemeral key pairs are arguments. A claimed node id that is not a string is
    given as an exception; the code would go on with it as a dictionary key.
\<close>

record conn =
  cn_socket :: nat
  cn_rns :: bool
  cn_link_id :: "string option"
  cn_remote_identity :: "string option"
  cn_ip :: string
  cn_address :: string

definition PROTOCOL_VERSION :: string where "PROTOCOL_VERSION = ''ironmesh/0.9''"

section \<open>Protocol versions\<close>

text \<open>\<open>s.split(c, 1)\<close> into two parts, if \<open>c\<close> occurs.\<close>

definition split_once :: "char \<Rightarrow> string \<Rightarrow> (string \<times> string) option" where
  "split_once c s = (if c \<in> set s then Some (takeWhile (\<lambda>x. x \<noteq> c) s, tl (dropWhile (\<lambda>x. x \<noteq> c) s)) else None)"

definition parse_version_str :: "string \<Rightarrow> int \<times> int" where
  "parse_version_str v = (case split_once (CHR ''/'') v of
     None \<Rightarrow> (0, 0)
   | Some (prefix, ver) \<Rightarrow>
       (case split_once (CHR ''.'') ver of
          None \<Rightarrow> (0, 0)
        | Some (major_s, minor_s) \<Rightarrow>
            (case (int_of_str major_s, int_of_str (takeWhile (\<lambda>x. x \<noteq> CHR ''.'') minor_s)) of
               (Some a, Some b) \<Rightarrow> (a, b) | _ \<Rightarrow> (0, 0))))"

definition parse_protocol_version :: "json \<Rightarrow> (int \<times> int) py" where
  "parse_protocol_version v =
    (if \<not> truthy v then Inr (0, 0)
     else case v of JStr s \<Rightarrow> Inr (parse_version_str s) | _ \<Rightarrow> Inl (TypeError ''split''))"

definition version_at_least :: "int \<times> int \<Rightarrow> int \<times> int \<Rightarrow> bool" where
  "version_at_least v w = (fst v > fst w \<or> fst v = fst w \<and> snd v \<ge> snd w)"

definition peer_supports_mesh :: "json \<Rightarrow> bool py" where
  "peer_supports_mesh v = py_bind (parse_protocol_version v) (\<lambda>p. Inr (version_at_least p (0, 4)))"

definition peer_supports_rekey :: "json \<Rightarrow> bool py" where
  "peer_supports_rekey v = py_bind (parse_protocol_version v) (\<lambda>p. Inr (version_at_least p (0, 5)))"

definition peer_supports_hello_ctx :: "json \<Rightarrow> bool py" where
  "peer_supports_hello_ctx v = py_bind (parse_protocol_version v) (\<lambda>p. Inr (version_at_least p (0, 9)))"

section \<open>Passphrase proofs\<close>

definition compute_passphrase_proof :: "crypto \<Rightarrow> string \<Rightarrow> bytes \<Rightarrow> string" where
  "compute_passphrase_proof C passphrase nonce = hex_of (hmac_sha256 C (utf8 passphrase) nonce)"

definition verify_passphrase_proof :: "crypto \<Rightarrow> json \<Rightarrow> string \<Rightarrow> bytes \<Rightarrow> bool py" where
  "verify_passphrase_proof C proof passphrase nonce = compare_digest_str proof (compute_passphrase_proof C passphrase nonce)"

definition skip_channel_binding :: "crypto \<Rightarrow> bytes" where
  "skip_channel_binding C = sha256 C (utf8 ''ironmesh-handshake-skip-channel-binding-v1'')"

section \<open>Binding to the Reticulum link\<close>

text \<open>The long dash of one refusal text is a hyphen here.\<close>

definition lower_char :: "char \<Rightarrow> char" where
  "lower_char c = (let n = of_char c :: nat in
     if 65 \<le> n \<and> n \<le> 90 \<or> 192 \<le> n \<and> n \<le> 222 \<and> n \<noteq> 215 then char_of (n + 32) else c)"

definition link_id_of :: "conn \<Rightarrow> string option" where
  "link_id_of cn = (case cn_link_id cn of Some l \<Rightarrow> if l = [] then None else Some l | None \<Rightarrow> None)"

definition rns_hello_link_binding :: "conn \<Rightarrow> json \<Rightarrow> string option py" where
  "rns_hello_link_binding cn peer_version =
    (if \<not> cn_rns cn then Inr None
     else py_bind (peer_supports_hello_ctx peer_version) (\<lambda>ctx. Inr (if ctx then link_id_of cn else None)))"

datatype link_verdict = LinkOk "string option" | LinkBad string

definition evaluate_rns_hello_binding :: "bool \<Rightarrow> conn \<Rightarrow> (string, json) dict \<Rightarrow> json \<Rightarrow> bool \<Rightarrow> link_verdict py" where
  "evaluate_rns_hello_binding require_binding cn hello peer_version skip_used =
    (case get_or_none hello ''rns_link_id'' of
       claimed \<Rightarrow>
         if \<not> cn_rns cn then
           Inr (if claimed \<noteq> None then LinkBad ''rns_link_id is only valid on the Reticulum transport'' else LinkOk None)
         else (case claimed of
           Some j \<Rightarrow>
             (case j of
                JStr c \<Rightarrow>
                  if c = [] then Inr (LinkBad ''malformed rns_link_id'')
                  else (case link_id_of cn of
                    None \<Rightarrow> Inr (LinkBad ''local RNS link id unavailable - cannot verify the claimed binding'')
                  | Some local \<Rightarrow>
                      if map lower_char c \<noteq> map lower_char local then Inr (LinkBad ''rns_link_id does not match the link the HELLO arrived on'')
                      else Inr (LinkOk (Some c)))
              | _ \<Rightarrow> Inr (LinkBad ''malformed rns_link_id''))
         | None \<Rightarrow>
             if skip_used then Inr (LinkBad ''handshake skip requires the rns_link_id binding'')
             else py_bind (peer_supports_hello_ctx peer_version) (\<lambda>ctx.
               Inr (if ctx then LinkBad ''peers advertising ironmesh/0.9+ must bind the HELLO to the RNS link''
                    else if require_binding then LinkBad ''rns_require_link_binding is enabled and the peer sent no binding''
                    else LinkOk None))))"

section \<open>X25519 binding\<close>

definition hello_x25519_advertisement :: "(bytes \<times> bytes) option \<Rightarrow> (string, json) dict" where
  "hello_x25519_advertisement adv = (case adv of
     None \<Rightarrow> []
   | Some (pub, sig) \<Rightarrow> [(''x25519_public_b64'', JStr (b64encode pub)), (''x25519_binding_signature_b64'', JStr (b64encode sig))])"

definition json_b64 :: "json \<Rightarrow> bytes option" where
  "json_b64 j = (case j of JStr s \<Rightarrow> b64decode s | _ \<Rightarrow> None)"

definition verify_peer_x25519_binding :: "crypto \<Rightarrow> json \<Rightarrow> json \<Rightarrow> json \<Rightarrow> bytes option" where
  "verify_peer_x25519_binding C peer_identity peer_x25519_public peer_x25519_binding =
    (if \<not> truthy peer_identity \<or> \<not> truthy peer_x25519_public \<or> \<not> truthy peer_x25519_binding then None
     else case (json_b64 peer_identity, json_b64 peer_x25519_public, json_b64 peer_x25519_binding) of
       (Some vk, Some pub, Some sig) \<Rightarrow>
         if length vk \<noteq> 32 \<or> length pub \<noteq> 32 \<or> length sig \<noteq> 64 then None
         else if verify_detached_with_context C vk SIG_CTX_X25519_BINDING pub sig = Inr True then Some pub else None
     | _ \<Rightarrow> None)"

section \<open>Messages\<close>

datatype recv = RecvTimeout | RecvClosed | RecvText string

text \<open>How a handler ends: quietly (connection errors, a refused trust check), as a counted handshake
  failure, or with an exception it does not catch.\<close>

datatype hs_end = EndQuiet | EndFailed | EndRaised py_error

definition recv_msg :: "float_io \<Rightarrow> recv \<Rightarrow> hs_end + (string, json) dict" where
  "recv_msg io r = (case r of
     RecvTimeout \<Rightarrow> Inl EndFailed
   | RecvClosed \<Rightarrow> Inl EndQuiet
   | RecvText s \<Rightarrow> (case loads io s of
       None \<Rightarrow> Inl EndFailed
     | Some (JObj d) \<Rightarrow> Inr d
     | Some _ \<Rightarrow> Inl (EndRaised (TypeError ''message is not an object''))))"

text \<open>The signed HELLO of either side; \<open>version\<close> is what the other side advertised.\<close>

definition signed_hello :: "crypto \<Rightarrow> float_io \<Rightarrow> bytes \<Rightarrow> bytes \<Rightarrow> node_id \<Rightarrow> string \<Rightarrow> bytes \<Rightarrow> bytes \<Rightarrow> string option
    \<Rightarrow> json \<Rightarrow> (string, json) dict \<Rightarrow> (string, json) dict py" where
  "signed_hello C io ed_pub ed_sec me name eph_pub nonce link version extra =
    (let eph = b64encode eph_pub; identity = b64encode ed_pub; cb = hex_of nonce in
     py_bind (canonical_hello_bytes io (JStr cb) (JStr eph) (JStr identity) (JStr name) (JStr PROTOCOL_VERSION)
        (case link of None \<Rightarrow> JNull | Some l \<Rightarrow> JStr l)) (\<lambda>canonical.
     py_bind (peer_supports_hello_ctx version) (\<lambda>ctx.
     py_bind (if ctx then sign_detached_with_context C ed_sec SIG_CTX_HELLO canonical else Inr (sign_message C ed_sec canonical)) (\<lambda>signature.
     Inr ([(''type'', JStr ''HELLO''), (''from'', JStr me), (''name'', JStr name), (''ephemeral_public'', JStr eph),
           (''identity_public'', JStr identity), (''protocol_version'', JStr PROTOCOL_VERSION), (''channel_binding'', JStr cb),
           (''signature'', JStr (b64encode signature))]
          @ (case link of None \<Rightarrow> [] | Some l \<Rightarrow> [(''rns_link_id'', JStr l)]) @ extra)))))"

text \<open>The check of a HELLO's signature: the scheme, or \<open>None\<close> if anything on the way fails.\<close>

definition hello_signature_scheme :: "crypto \<Rightarrow> float_io \<Rightarrow> json \<Rightarrow> json \<Rightarrow> json \<Rightarrow> json \<Rightarrow> json \<Rightarrow> string option \<Rightarrow> json \<Rightarrow> string option" where
  "hello_signature_scheme C io identity signature channel_binding eph name link version =
    (case (json_b64 identity, json_b64 signature) of
       (Some vk, Some sig) \<Rightarrow>
         if length vk \<noteq> 32 then None
         else (case canonical_hello_bytes io channel_binding eph identity name version
                 (case link of None \<Rightarrow> JNull | Some l \<Rightarrow> JStr l) of
           Inl e \<Rightarrow> None
         | Inr canonical \<Rightarrow>
             (case peer_supports_hello_ctx version of
                Inl e \<Rightarrow> None
              | Inr True \<Rightarrow> if verify_detached_with_context C vk SIG_CTX_HELLO canonical sig = Inr True then Some ''context-v1'' else None
              | Inr False \<Rightarrow> if verify_signature C vk sig = Inr canonical then Some ''legacy'' else None))
     | _ \<Rightarrow> None)"

section \<open>The daemon's part\<close>

record hs_daemon =
  hd_trust :: trust_daemon
  hd_name :: string
  hd_passphrase :: string
  hd_x25519 :: "(bytes \<times> bytes) option"
  hd_min_version :: string
  hd_skip_enabled :: bool
  hd_require_binding :: bool
  hd_discovered :: "(string \<times> string list) list"
  hd_conn_limiter :: token_bucket
  hd_ip_limiters :: "(string, token_bucket) dict"
  hd_auth :: auth_failures
  hd_sockets :: "(node_id, nat) dict"
  hd_replay :: replay_guard
  hd_pending_invite :: "invite_token option"
  hd_pinned :: "(string, string \<times> string \<times> node_id) dict"
  hd_addresses :: "(string, string) dict"
  hd_successes :: nat
  hd_failures :: nat
  hd_skips_rejected :: nat
  hd_skips_activated :: nat

record hs_env =
  he_now :: time
  he_tofu :: tofu_env
  he_nonce :: bytes
  he_eph_private :: bytes
  he_eph_public :: bytes

abbreviation hd_me :: "hs_daemon \<Rightarrow> node_id" where
  "hd_me D \<equiv> td_node_id (hd_trust D)"

definition count_failure :: "hs_daemon \<Rightarrow> hs_daemon" where
  "count_failure D = D\<lparr>hd_failures := hd_failures D + 1\<rparr>"

text \<open>The trust check sees the connected peers; a mismatch drops what the daemon held of the peer.\<close>

definition hs_check_tofu :: "(json \<Rightarrow> string) \<Rightarrow> crypto \<Rightarrow> float_io \<Rightarrow> tofu_env \<Rightarrow> node_id \<Rightarrow> string option \<Rightarrow> string option
    \<Rightarrow> hs_daemon \<Rightarrow> tofu_outcome \<times> trust_audit list \<times> hs_daemon" where
  "hs_check_tofu rep C io V p identity invite D =
    (case check_tofu rep C io V p identity invite ((hd_trust D)\<lparr>td_clients := dkeys (hd_sockets D)\<rparr>) of
       (outcome, au, T) \<Rightarrow> (outcome, au, D\<lparr>hd_trust := T, hd_sockets := filter (\<lambda>(q, s). q \<in> set (td_clients T)) (hd_sockets D)\<rparr>))"

text \<open>The duplicate check and the registration, under the peer lock, and the transport fields; \<open>None\<close> when the connection is a
  duplicate and dropped. A WebSocket replaces a Reticulum link.\<close>

definition register_peer :: "time \<Rightarrow> conn \<Rightarrow> string \<Rightarrow> node_id \<Rightarrow> peer_state \<Rightarrow> hs_daemon \<Rightarrow> hs_daemon option" where
  "register_peer now cn address p st D =
    (let T = hd_trust D;
         duplicate = (case dget (td_peers T) p of
             Some old \<Rightarrow> is_online old \<and> p \<in> set (dkeys (hd_sockets D)) \<and> \<not> (\<not> cn_rns cn \<and> ps_transport_type old = ''rns'')
           | None \<Rightarrow> False) in
     if duplicate then None
     else (let st1 = (ps_transition now Online st)\<lparr>ps_transport_type := (if cn_rns cn then ''rns'' else ''websocket''),
         ps_ws_address := (if cn_rns cn then ps_ws_address st else Some address)\<rparr> in
       Some (D\<lparr>hd_trust := T\<lparr>td_peers := dset p st1 (td_peers T), td_limiters := (if p \<in> set (td_limiters T) then td_limiters T else td_limiters T @ [p])\<rparr>,
               hd_sockets := dset p (cn_socket cn) (hd_sockets D),
               hd_replay := reset_replay_peer p (hd_replay D)\<rparr>)))"

text \<open>The state of a new peer, filled from its HELLO.\<close>

definition hello_peer_state :: "crypto \<Rightarrow> node_id \<Rightarrow> string \<Rightarrow> bytes \<Rightarrow> bytes \<Rightarrow> string \<Rightarrow> (string, json) dict \<Rightarrow> peer_state" where
  "hello_peer_state C p address session_key eph scheme hello =
    (let get = (\<lambda>k. dget_default JNull hello k); identity = get ''identity_public'' in
     (new_peer_state p address)\<lparr> ps_session_key := Some session_key, ps_ephemeral_public := Some eph,
        ps_identity_public := (if truthy identity then json_b64 identity else None), ps_verified := True,
        ps_hello_sig_scheme := scheme,
        ps_x25519_identity_public := verify_peer_x25519_binding C identity (get ''x25519_public_b64'') (get ''x25519_binding_signature_b64'') \<rparr>)"

text \<open>What the peer's version allows, or the refusal below the configured minimum.\<close>

definition negotiate_version :: "hs_daemon \<Rightarrow> (string, json) dict \<Rightarrow> peer_state \<Rightarrow> peer_state option py" where
  "negotiate_version D hello st =
    (let version = dget_default (JStr ''ironmesh/0.3'') hello ''protocol_version'' in
     py_bind (parse_protocol_version version) (\<lambda>v.
       let low = \<not> version_at_least v (parse_version_str (hd_min_version D)); mesh = version_at_least v (0, 4) in
       Inr (if low then None
            else Some (st\<lparr> ps_protocol_version := (case version of JStr s \<Rightarrow> s | _ \<Rightarrow> []), ps_supports_mesh := mesh,
                   ps_is_relay_capable := mesh,
                   ps_agent_name := py_str (dget_default (dget_default JNull hello ''from'') hello ''name'') \<rparr>))))"

text \<open>The common end of both handshakes after the trust check: version, registration, bookkeeping.
  \<open>address\<close> is what is pinned for the peer's name.\<close>

definition finish_handshake :: "time \<Rightarrow> conn \<Rightarrow> node_id \<Rightarrow> string option \<Rightarrow> (string, json) dict \<Rightarrow> string \<Rightarrow> peer_state \<Rightarrow> hs_daemon
    \<Rightarrow> hs_end option \<times> hs_daemon" where
  "finish_handshake now cn p fingerprint hello address st D = (case negotiate_version D hello st of
     Inl e \<Rightarrow> (Some (EndRaised e), D)
   | Inr None \<Rightarrow> (Some EndQuiet, count_failure D)
   | Inr (Some st1) \<Rightarrow>
       (case register_peer now cn address p st1 D of
          None \<Rightarrow> (Some EndQuiet, D)
        | Some D1 \<Rightarrow>
            (None, D1\<lparr>hd_successes := hd_successes D1 + 1,
                hd_pinned := (case (ps_agent_name st1, fingerprint) of
                   (Some n, Some fp) \<Rightarrow> if n = [] then hd_pinned D1 else dset n (fp, address, p) (hd_pinned D1)
                 | _ \<Rightarrow> hd_pinned D1)\<rparr>)))"

text \<open>The teardown of a live connection: only if it is the one registered for the peer.\<close>

definition teardown :: "time \<Rightarrow> conn \<Rightarrow> node_id \<Rightarrow> hs_daemon \<Rightarrow> bool \<times> hs_daemon" where
  "teardown now cn p D =
    (if dget (hd_sockets D) p \<noteq> Some (cn_socket cn) then (False, D)
     else (True, D\<lparr>hd_sockets := dpop p (hd_sockets D),
            hd_trust := (hd_trust D)\<lparr>td_limiters := removeAll p (td_limiters (hd_trust D)),
              td_peers := (case dget (td_peers (hd_trust D)) p of None \<Rightarrow> td_peers (hd_trust D)
                | Some st \<Rightarrow> dset p ((ps_transition now Offline st)\<lparr>ps_session_key := None\<rparr>) (td_peers (hd_trust D)))\<rparr>\<rparr>))"

section \<open>The server\<close>

datatype server_phase =
    AwaitProof bytes
  | AwaitHello bytes bool
  | Live node_id
  | Closed hs_end

definition peer_advertises_hskip :: "hs_daemon \<Rightarrow> string option \<Rightarrow> bool" where
  "peer_advertises_hskip D ident = (case ident of
     None \<Rightarrow> False
   | Some h \<Rightarrow> h \<noteq> [] \<and> (case dget (hd_discovered D) h of Some fs \<Rightarrow> ''hskip'' \<in> set fs | None \<Rightarrow> False))"

definition handshake_skip_eligible :: "conn \<Rightarrow> hs_daemon \<Rightarrow> bool" where
  "handshake_skip_eligible cn D =
    (hd_skip_enabled D \<and> cn_rns cn \<and> link_id_of cn \<noteq> None \<and> peer_advertises_hskip D (cn_remote_identity cn))"

text \<open>Up to the first message: the rate limits, the address block, the challenge or the skip offer.\<close>

definition server_accept :: "crypto \<Rightarrow> hs_env \<Rightarrow> conn \<Rightarrow> hs_daemon \<Rightarrow> json list \<times> server_phase \<times> hs_daemon" where
  "server_accept C E cn D0 =
    (case tb_consume (he_now E) 1 (hd_conn_limiter D0) of (ok, b) \<Rightarrow>
       let D1 = D0\<lparr>hd_conn_limiter := b\<rparr> in
       if \<not> ok then ([JObj [(''type'', JStr ''RATE_LIMITED''), (''error'', JStr ''Too many connections'')]], Closed EndQuiet, D1)
       else
         (let lim = (case dget (hd_ip_limiters D1) (cn_ip cn) of Some l \<Rightarrow> l | None \<Rightarrow> new_token_bucket (he_now E) (1/2) 5) in
          case tb_consume (he_now E) 1 lim of (ok2, l2) \<Rightarrow>
            let D2 = D1\<lparr>hd_ip_limiters := dset (cn_ip cn) l2 (hd_ip_limiters D1)\<rparr> in
            if \<not> ok2 then ([JObj [(''type'', JStr ''RATE_LIMITED''), (''error'', JStr ''Too many connections from your IP'')]], Closed EndQuiet, D2)
            else
              (case is_ip_blocked default_auth_limits (he_now E) (cn_ip cn) (hd_auth D2) of (blocked, fs) \<Rightarrow>
                 let D3 = D2\<lparr>hd_auth := fs\<rparr> in
                 if blocked then ([JObj [(''type'', JStr ''PASSPHRASE_REJECTED''),
                    (''error'', JStr ''Too many authentication failures. Try again later.'')]], Closed EndQuiet, D3)
                 else if handshake_skip_eligible cn D3 then
                   ([JObj [(''type'', JStr ''SKIP_OFFER''), (''from'', JStr (hd_me D3)),
                      (''channel_binding'', JStr (hex_of (skip_channel_binding C))), (''protocol_version'', JStr PROTOCOL_VERSION)]],
                    AwaitHello (skip_channel_binding C) True, D3)
                 else
                   ([JObj [(''type'', JStr ''PASSPHRASE_CHALLENGE''), (''from'', JStr (hd_me D3)),
                      (''nonce'', JStr (hex_of (he_nonce E))), (''protocol_version'', JStr PROTOCOL_VERSION)]],
                    AwaitProof (he_nonce E), D3))))"

definition rejected_frame :: "node_id \<Rightarrow> string \<Rightarrow> json" where
  "rejected_frame me err = JObj [(''type'', JStr ''PASSPHRASE_REJECTED''), (''from'', JStr me), (''error'', JStr err)]"

definition server_on_proof :: "(json \<Rightarrow> string) \<Rightarrow> crypto \<Rightarrow> float_io \<Rightarrow> hs_env \<Rightarrow> conn \<Rightarrow> bytes \<Rightarrow> recv \<Rightarrow> hs_daemon \<Rightarrow> json list \<times> server_phase \<times> hs_daemon" where
  "server_on_proof rep C io E cn nonce r D = (case recv_msg io r of
     Inl EndFailed \<Rightarrow> ([], Closed EndFailed, count_failure D)
   | Inl e \<Rightarrow> ([], Closed e, D)
   | Inr d \<Rightarrow>
       if dget d ''type'' \<noteq> Some (JStr ''PASSPHRASE_CHALLENGE'') then
         ([rejected_frame (hd_me D) (''Expected PASSPHRASE_CHALLENGE, got '' @ str_of rep (dget_default JNull d ''type''))], Closed EndFailed, count_failure D)
       else (let proof = dget_default JNull d ''proof'' in
         case (if truthy proof then verify_passphrase_proof C proof (hd_passphrase D) nonce else Inr False) of
           Inl e \<Rightarrow> ([], Closed (EndRaised e), D)
         | Inr False \<Rightarrow>
             (let D1 = D\<lparr>hd_auth := snd (record_auth_failure default_auth_limits (he_now E) (cn_ip cn) (hd_auth D))\<rparr> in
              ([rejected_frame (hd_me D) ''Wrong passphrase''], Closed EndFailed, count_failure D1))
         | Inr True \<Rightarrow>
             ([JObj [(''type'', JStr ''PASSPHRASE_VERIFIED''), (''from'', JStr (hd_me D)), (''status'', JStr ''verified''),
                (''server_proof'', JStr (compute_passphrase_proof C (hd_passphrase D) (rev nonce)))]], AwaitHello nonce False, D)))"

definition error_frame :: "string \<Rightarrow> string \<Rightarrow> json" where
  "error_frame err code = JObj [(''type'', JStr ''ERROR''), (''error'', JStr err), (''code'', JStr code)]"

text \<open>What a server makes of a client's HELLO, before anything is sent back.\<close>

datatype hello_verdict =
    HelloBad "json list" hs_end
  | HelloGood node_id "string option" bytes string

definition check_client_hello :: "crypto \<Rightarrow> float_io \<Rightarrow> conn \<Rightarrow> bytes \<Rightarrow> bool \<Rightarrow> hs_daemon \<Rightarrow> (string, json) dict \<Rightarrow> hello_verdict" where
  "check_client_hello C io cn nonce skip D d =
    (let get = (\<lambda>k. dget_default JNull d k); claimed = get ''from''; name = dget_default claimed d ''name'';
         eph = get ''ephemeral_public''; identity = get ''identity_public''; signature = get ''signature'';
         version = dget_default (JStr []) d ''protocol_version'' in
     if get ''type'' \<noteq> JStr ''HELLO'' then HelloBad [] EndFailed
     else if \<not> truthy claimed \<or> \<not> truthy eph then HelloBad [error_frame ''Invalid HELLO: missing ephemeral_public'' ''INVALID_FRAME''] EndFailed
     else case evaluate_rns_hello_binding (hd_require_binding D) cn d version skip of
       Inl e \<Rightarrow> HelloBad [] (EndRaised e)
     | Inr (LinkBad reason) \<Rightarrow> HelloBad [error_frame (''HELLO link binding rejected: '' @ reason) ''AUTH_FAILED''] EndFailed
     | Inr (LinkOk link) \<Rightarrow>
         (case (if \<not> truthy identity then Inr ''unsigned''
                else if \<not> truthy signature then Inl ''HELLO signature required when identity_public is provided''
                else case hello_signature_scheme C io identity signature (JStr (hex_of nonce)) eph name link version of
                  None \<Rightarrow> Inl ''HELLO signature verification failed'' | Some scheme \<Rightarrow> Inr scheme) of
            Inl err \<Rightarrow> HelloBad [error_frame err ''AUTH_FAILED''] EndFailed
          | Inr scheme \<Rightarrow>
              if skip \<and> scheme = ''unsigned'' then HelloBad [error_frame ''handshake skip requires a signed, link-bound HELLO'' ''AUTH_FAILED''] EndFailed
              else (case (if truthy identity then map_option (keys_fingerprint C) (json_b64 identity) else py_str claimed) of
                None \<Rightarrow> HelloBad [] (EndRaised (TypeError ''peer id''))
              | Some p \<Rightarrow>
                  (case json_b64 eph of
                     None \<Rightarrow> HelloBad [] (EndRaised (ValueError ''base64''))
                   | Some eb \<Rightarrow> if length eb \<noteq> 32 then HelloBad [] (EndRaised (ValueError ''public key length''))
                       else HelloGood p (if truthy identity then py_str identity else None) eb scheme))))"

definition server_on_hello :: "(json \<Rightarrow> string) \<Rightarrow> crypto \<Rightarrow> float_io \<Rightarrow> hs_env \<Rightarrow> conn \<Rightarrow> bytes \<Rightarrow> bool \<Rightarrow> recv \<Rightarrow> hs_daemon
    \<Rightarrow> json list \<times> server_phase \<times> hs_daemon" where
  "server_on_hello rep C io E cn nonce skip r D = (case recv_msg io r of
     Inl EndFailed \<Rightarrow> ([], Closed EndFailed, count_failure D)
   | Inl e \<Rightarrow> ([], Closed e, D)
   | Inr d \<Rightarrow>
       (case check_client_hello C io cn nonce skip D d of
          HelloBad out EndFailed \<Rightarrow> (out, Closed EndFailed, count_failure D)
        | HelloBad out e \<Rightarrow> (out, Closed e, D)
        | HelloGood p identity eb scheme \<Rightarrow>
            (let version = dget_default (JStr []) d ''protocol_version'';
                 session_key = ecdh_exchange C (he_eph_private E) eb;
                 T = hd_trust D; invite = dget_default JNull d ''invite_token'' in
             case py_bind (rns_hello_link_binding cn version) (\<lambda>link.
                 signed_hello C io (td_ed_public T) (td_ed_secret T) (hd_me D) (hd_name D) (he_eph_public E) nonce link version
                   (hello_x25519_advertisement (hd_x25519 D))) of
               Inl e \<Rightarrow> ([], Closed (EndRaised e), D)
             | Inr hello \<Rightarrow>
                 if truthy invite \<and> identity \<noteq> None \<and> py_str invite = None then ([JObj hello], Closed EndQuiet, D)
                 else (case hs_check_tofu rep C io (he_tofu E) p identity (if truthy invite then py_str invite else None) D of
                   (TofuRefused reason, au, D1) \<Rightarrow> ([JObj hello], Closed EndQuiet, D1)
                 | (TofuRaised e, au, D1) \<Rightarrow> ([JObj hello], Closed (EndRaised e), D1)
                 | (outcome, au, D1) \<Rightarrow>
                     (let D2 = D1\<lparr>hd_auth := snd (clear_ip_auth_history (cn_ip cn) (hd_auth D1))\<rparr>;
                          st = hello_peer_state C p (cn_address cn) session_key eb scheme d;
                          pin_addr = (case py_str (dget_default (dget_default JNull d ''from'') d ''name'') of
                             Some n \<Rightarrow> dget_default (cn_address cn) (hd_addresses D2) n | None \<Rightarrow> cn_address cn) in
                      case finish_handshake (he_now E) cn p (if identity = None then None else Some p) d pin_addr st D2 of
                        (Some e, D3) \<Rightarrow> ([JObj hello], Closed e, D3)
                      | (None, D3) \<Rightarrow> ([JObj hello], Live p, D3))))))"

section \<open>The client\<close>

text \<open>Every exception of the client's handshake ends in \<open>connect_to_peer\<close>, which gives up: \<open>Aborted\<close>.\<close>

datatype client_phase =
    AwaitVerified bytes json
  | ReadyForHello bytes json bool
  | Connected node_id
  | Aborted

definition reject_skip :: "hs_daemon \<Rightarrow> json list \<times> client_phase \<times> hs_daemon" where
  "reject_skip D = ([], Aborted, D\<lparr>hd_skips_rejected := hd_skips_rejected D + 1\<rparr>)"

definition client_on_first :: "crypto \<Rightarrow> float_io \<Rightarrow> conn \<Rightarrow> recv \<Rightarrow> hs_daemon \<Rightarrow> json list \<times> client_phase \<times> hs_daemon" where
  "client_on_first C io cn r D = (case recv_msg io r of
     Inl e \<Rightarrow> ([], Aborted, D)
   | Inr d \<Rightarrow>
       (let get = (\<lambda>k. dget_default JNull d k); version = dget_default (JStr []) d ''protocol_version'' in
        if get ''type'' = JStr ''SKIP_OFFER'' then
          (let cb = get ''channel_binding'' in
           if \<not> truthy cb then reject_skip D
           else case cb of
             JStr h \<Rightarrow>
               (case bytes_fromhex h of
                  None \<Rightarrow> reject_skip D
                | Some nonce \<Rightarrow>
                    if nonce \<noteq> skip_channel_binding C then reject_skip D
                    else if \<not> cn_rns cn \<or> link_id_of cn = None then reject_skip D
                    else (case peer_supports_hello_ctx version of
                      Inl e \<Rightarrow> ([], Aborted, D)
                    | Inr False \<Rightarrow> reject_skip D
                    | Inr True \<Rightarrow> ([], ReadyForHello nonce version True, D\<lparr>hd_skips_activated := hd_skips_activated D + 1\<rparr>)))
           | _ \<Rightarrow> ([], Aborted, D))
        else if get ''type'' = JStr ''PASSPHRASE_CHALLENGE'' then
          (case get ''nonce'' of
             JStr h \<Rightarrow>
               (case bytes_fromhex h of
                  None \<Rightarrow> ([], Aborted, D)
                | Some nonce \<Rightarrow>
                    ([JObj [(''type'', JStr ''PASSPHRASE_CHALLENGE''), (''from'', JStr (hd_me D)),
                        (''proof'', JStr (compute_passphrase_proof C (hd_passphrase D) nonce))]], AwaitVerified nonce version, D))
           | _ \<Rightarrow> ([], Aborted, D))
        else ([], Aborted, D)))"

definition client_on_verified :: "crypto \<Rightarrow> float_io \<Rightarrow> bytes \<Rightarrow> json \<Rightarrow> recv \<Rightarrow> hs_daemon \<Rightarrow> client_phase" where
  "client_on_verified C io nonce version r D = (case recv_msg io r of
     Inl e \<Rightarrow> Aborted
   | Inr d \<Rightarrow>
       (let server_proof = dget_default JNull d ''server_proof'' in
        if dget d ''type'' \<noteq> Some (JStr ''PASSPHRASE_VERIFIED'') then Aborted
        else if truthy server_proof \<and> verify_passphrase_proof C server_proof (hd_passphrase D) (rev nonce) \<noteq> Inr True then Aborted
        else ReadyForHello nonce version False))"

definition client_hello :: "crypto \<Rightarrow> float_io \<Rightarrow> hs_env \<Rightarrow> conn \<Rightarrow> bytes \<Rightarrow> json \<Rightarrow> hs_daemon \<Rightarrow> (string, json) dict py" where
  "client_hello C io E cn nonce version D =
     py_bind (rns_hello_link_binding cn version) (\<lambda>link.
       signed_hello C io (td_ed_public (hd_trust D)) (td_ed_secret (hd_trust D)) (hd_me D) (hd_name D) (he_eph_public E) nonce link version
         ((case hd_pending_invite D of None \<Rightarrow> [] | Some t \<Rightarrow> [(''invite_token'', JStr (invite_to_string io t))])
          @ hello_x25519_advertisement (hd_x25519 D)))"

text \<open>The server's HELLO: the signature is checked over the channel binding the server names itself.\<close>

definition check_server_hello :: "crypto \<Rightarrow> float_io \<Rightarrow> conn \<Rightarrow> bool \<Rightarrow> hs_daemon \<Rightarrow> (string, json) dict
    \<Rightarrow> (node_id \<times> string option \<times> bytes \<times> string) option" where
  "check_server_hello C io cn skip D d =
    (let get = (\<lambda>k. dget_default JNull d k); claimed = get ''from''; name = dget_default claimed d ''name'';
         eph = get ''ephemeral_public''; identity = get ''identity_public''; signature = get ''signature'';
         version = dget_default (JStr []) d ''protocol_version'' in
     if get ''type'' \<noteq> JStr ''HELLO'' \<or> \<not> truthy eph then None
     else case evaluate_rns_hello_binding (hd_require_binding D) cn d version skip of
       Inr (LinkOk link) \<Rightarrow>
         (case (if \<not> truthy identity then Some ''unsigned''
                else if \<not> truthy signature then None
                else hello_signature_scheme C io identity signature (dget_default (JStr []) d ''channel_binding'') eph name link version) of
            None \<Rightarrow> None
          | Some scheme \<Rightarrow>
              if skip \<and> scheme = ''unsigned'' then None
              else if (case hd_pending_invite D of None \<Rightarrow> False | Some t \<Rightarrow> \<not> invite_matches_identity t (py_str identity)) then None
              else (case (if truthy identity then map_option (keys_fingerprint C) (json_b64 identity) else py_str claimed, json_b64 eph) of
                (Some p, Some eb) \<Rightarrow> if length eb \<noteq> 32 then None
                  else Some (p, if truthy identity then py_str identity else None, eb, scheme)
              | _ \<Rightarrow> None))
     | _ \<Rightarrow> None)"

definition client_on_server_hello :: "(json \<Rightarrow> string) \<Rightarrow> crypto \<Rightarrow> float_io \<Rightarrow> hs_env \<Rightarrow> conn \<Rightarrow> bool \<Rightarrow> recv \<Rightarrow> hs_daemon
    \<Rightarrow> client_phase \<times> hs_daemon" where
  "client_on_server_hello rep C io E cn skip r D = (case recv_msg io r of
     Inl e \<Rightarrow> (Aborted, D)
   | Inr d \<Rightarrow>
       (case check_server_hello C io cn skip D d of
          None \<Rightarrow> (Aborted, D)
        | Some (p, identity, eb, scheme) \<Rightarrow>
            (let session_key = ecdh_exchange C (he_eph_private E) eb in
             case hs_check_tofu rep C io (he_tofu E) p identity None D of
               (TofuRefused reason, au, D1) \<Rightarrow> (Aborted, D1)
             | (TofuRaised e, au, D1) \<Rightarrow> (Aborted, D1)
             | (outcome, au, D1) \<Rightarrow>
                 (case finish_handshake (he_now E) cn p (if identity = None then None else Some p) d (cn_address cn)
                         (hello_peer_state C p (cn_address cn) session_key eb scheme d) D1 of
                    (Some e, D2) \<Rightarrow> (Aborted, D2)
                  | (None, D2) \<Rightarrow> (Connected p, D2\<lparr>hd_addresses := dset p (cn_address cn) (hd_addresses D2)\<rparr>)))))"

text \<open>A whole handshake between two daemons over a transport that delivers every message.\<close>

definition wire_msg :: "float_io \<Rightarrow> json \<Rightarrow> recv" where
  "wire_msg io j = RecvText (dumps_default io j)"

definition honest_handshake :: "(json \<Rightarrow> string) \<Rightarrow> crypto \<Rightarrow> float_io \<Rightarrow> hs_env \<Rightarrow> hs_env \<Rightarrow> conn \<Rightarrow> conn \<Rightarrow> hs_daemon \<Rightarrow> hs_daemon
    \<Rightarrow> ((node_id \<times> hs_daemon) \<times> (node_id \<times> hs_daemon)) option" where
  "honest_handshake rep C io Es Ec cs cc S K =
    (case server_accept C Es cs S of
       ([m1], AwaitProof n, S1) \<Rightarrow>
         (case client_on_first C io cc (wire_msg io m1) K of
            ([m2], AwaitVerified n' v, K1) \<Rightarrow>
              (case server_on_proof rep C io Es cs n (wire_msg io m2) S1 of
                 ([m3], AwaitHello n2 skip, S2) \<Rightarrow>
                   (case client_on_verified C io n' v (wire_msg io m3) K1 of
                      ReadyForHello n3 v' skip' \<Rightarrow>
                        (case client_hello C io Ec cc n3 v' K1 of
                           Inr m4 \<Rightarrow>
                             (case server_on_hello rep C io Es cs n2 skip (wire_msg io (JObj m4)) S2 of
                                ([m5], Live p, S3) \<Rightarrow>
                                  (case client_on_server_hello rep C io Ec cc skip' (wire_msg io m5) K1 of
                                     (Connected q, K2) \<Rightarrow> Some ((p, S3), (q, K2))
                                   | _ \<Rightarrow> None)
                              | _ \<Rightarrow> None)
                         | _ \<Rightarrow> None)
                    | _ \<Rightarrow> None)
               | _ \<Rightarrow> None)
          | _ \<Rightarrow> None)
     | _ \<Rightarrow> None)"

section \<open>Two honest daemons\<close>

lemma version_09: "peer_supports_hello_ctx (JStr PROTOCOL_VERSION) = Inr True" "parse_protocol_version (JStr PROTOCOL_VERSION) = Inr (0, 9)"
proof -
  have "parse_version_str PROTOCOL_VERSION = (0, 9)" by code_simp
  then show "parse_protocol_version (JStr PROTOCOL_VERSION) = Inr (0, 9)" by (simp add: parse_protocol_version_def PROTOCOL_VERSION_def)
  then show "peer_supports_hello_ctx (JStr PROTOCOL_VERSION) = Inr True" by (simp add: peer_supports_hello_ctx_def version_at_least_def)
qed

lemma b64_nonempty: "length bs = 32 \<Longrightarrow> b64encode bs \<noteq> []"
  using b64decode_b64encode [of bs] by (auto simp: b64decode_def)

lemma read_wire_msg: "wf_json io (JObj d) \<Longrightarrow> recv_msg io (wire_msg io (JObj d)) = Inr d"
  using loads_dumps_default [of io "JObj d"] by (simp add: recv_msg_def wire_msg_def)

text \<open>The fields of a HELLO without a link binding, and that its signature verifies.\<close>

definition hello_fields :: "crypto \<Rightarrow> bytes \<Rightarrow> bytes \<Rightarrow> node_id \<Rightarrow> string \<Rightarrow> bytes \<Rightarrow> bytes \<Rightarrow> bytes \<Rightarrow> (string, json) dict \<Rightarrow> (string, json) dict" where
  "hello_fields C ed_pub ed_sec me name eph_pub nonce canonical extra =
    [(''type'', JStr ''HELLO''), (''from'', JStr me), (''name'', JStr name), (''ephemeral_public'', JStr (b64encode eph_pub)),
     (''identity_public'', JStr (b64encode ed_pub)), (''protocol_version'', JStr PROTOCOL_VERSION),
     (''channel_binding'', JStr (hex_of nonce)),
     (''signature'', JStr (b64encode (ed_sign C ed_sec (SIG_CTX_HELLO @ canonical))))] @ extra"

lemma honest_hello:
  assumes "ed25519_ok C" "ed_pub = ed_public C ed_sec" "length ed_pub = 32" "length eph_pub = 32"
  obtains canonical where
    "signed_hello C io ed_pub ed_sec me name eph_pub nonce None (JStr PROTOCOL_VERSION) extra
       = Inr (hello_fields C ed_pub ed_sec me name eph_pub nonce canonical extra)"
    "hello_signature_scheme C io (JStr (b64encode ed_pub)) (JStr (b64encode (ed_sign C ed_sec (SIG_CTX_HELLO @ canonical))))
       (JStr (hex_of nonce)) (JStr (b64encode eph_pub)) (JStr name) None (JStr PROTOCOL_VERSION) = Some ''context-v1''"
proof -
  obtain canonical where c: "canonical_hello_bytes io (JStr (hex_of nonce)) (JStr (b64encode eph_pub)) (JStr (b64encode ed_pub)) (JStr name)
      (JStr PROTOCOL_VERSION) JNull = Inr canonical"
    using b64_nonempty [OF assms(3)] b64_nonempty [OF assms(4)]
    by (simp add: canonical_hello_bytes_def nonempty_str_def is_str_def)
  have "SIG_CTX_HELLO \<noteq> []" by (simp add: SIG_CTX_HELLO_def)
  then have s: "sign_detached_with_context C ed_sec SIG_CTX_HELLO canonical = Inr (ed_sign C ed_sec (SIG_CTX_HELLO @ canonical))"
    by (simp add: sign_detached_with_context_def)
  have "signed_hello C io ed_pub ed_sec me name eph_pub nonce None (JStr PROTOCOL_VERSION) extra
       = Inr (hello_fields C ed_pub ed_sec me name eph_pub nonce canonical extra)"
    by (simp add: signed_hello_def Let_def c version_09 s hello_fields_def)
  moreover have "hello_signature_scheme C io (JStr (b64encode ed_pub)) (JStr (b64encode (ed_sign C ed_sec (SIG_CTX_HELLO @ canonical))))
       (JStr (hex_of nonce)) (JStr (b64encode eph_pub)) (JStr name) None (JStr PROTOCOL_VERSION) = Some ''context-v1''"
    using sign_verify_context [OF assms(1) s, folded assms(2)] assms(3)
    by (simp add: hello_signature_scheme_def json_b64_def b64decode_b64encode c version_09)
  ultimately show ?thesis by (rule that)
qed

text \<open>What may follow the signed fields: an invite and an X25519 advertisement, strings all of them.\<close>

definition hello_extra :: "float_io \<Rightarrow> invite_token option \<Rightarrow> (bytes \<times> bytes) option \<Rightarrow> (string, json) dict" where
  "hello_extra io invite adv =
    (case invite of None \<Rightarrow> [] | Some t \<Rightarrow> [(''invite_token'', JStr (invite_to_string io t))]) @ hello_x25519_advertisement adv"

lemma hello_extra_get:
  "dget (hello_extra io invite adv) ''invite_token'' = map_option (\<lambda>t. JStr (invite_to_string io t)) invite"
  "k \<notin> {''invite_token'', ''x25519_public_b64'', ''x25519_binding_signature_b64''} \<Longrightarrow> dget (hello_extra io invite adv) k = None"
  by (auto simp: hello_extra_def hello_x25519_advertisement_def split: option.splits)

lemma hello_fields_read:
  "recv_msg io (wire_msg io (JObj (hello_fields C ed_pub ed_sec me name eph_pub nonce canonical (hello_extra io invite adv))))
     = Inr (hello_fields C ed_pub ed_sec me name eph_pub nonce canonical (hello_extra io invite adv))"
  by (rule read_wire_msg)
    (auto simp: hello_fields_def hello_extra_def hello_x25519_advertisement_def split: option.split)

lemma invite_string_nonempty: "invite_to_string io t \<noteq> []"
  by (simp add: invite_to_string_def INVITE_PREFIX_def)

lemma hex_proof: "verify_passphrase_proof C (JStr (compute_passphrase_proof C p n)) p n = Inr True"
  using hex_of_ascii by (simp add: verify_passphrase_proof_def compute_passphrase_proof_def compare_digest_str_def)

text \<open>A trust check that passes leaves the peers and does not add connections.\<close>

definition tofu_passes :: "tofu_outcome \<Rightarrow> bool" where
  "tofu_passes outcome = (case outcome of TofuRefused r \<Rightarrow> False | TofuRaised e \<Rightarrow> False | _ \<Rightarrow> True)"

lemma hs_check_tofu_sockets:
  assumes "hs_check_tofu rep C io V p identity invite D = (outcome, au, D1)"
  shows "set (hd_sockets D1) \<subseteq> set (hd_sockets D)"
    "hd_name D1 = hd_name D" "hd_min_version D1 = hd_min_version D" "hd_addresses D1 = hd_addresses D" "hd_auth D1 = hd_auth D"
  using assms by (auto simp: hs_check_tofu_def split: prod.splits)

text \<open>The end of a handshake with a new peer of version 0.9 registers it.\<close>

lemma finish_new_peer:
  assumes "p \<notin> set (dkeys (hd_sockets D))" "\<not> cn_rns cn" "version_at_least (0, 9) (parse_version_str (hd_min_version D))"
    and "dget hello ''protocol_version'' = Some (JStr PROTOCOL_VERSION)"
  shows "\<exists>D' st'. finish_handshake now cn p fp hello address st D = (None, D')
    \<and> dget (td_peers (hd_trust D')) p = Some st' \<and> is_online st' \<and> ps_session_key st' = ps_session_key st
    \<and> ps_identity_public st' = ps_identity_public st \<and> ps_hello_sig_scheme st' = ps_hello_sig_scheme st
    \<and> dget (hd_sockets D') p = Some (cn_socket cn)"
proof -
  let ?st1 = "st\<lparr> ps_protocol_version := PROTOCOL_VERSION, ps_supports_mesh := True, ps_is_relay_capable := True,
                   ps_agent_name := py_str (dget_default (dget_default JNull hello ''from'') hello ''name'') \<rparr>"
  have n: "negotiate_version D hello st = Inr (Some ?st1)"
    using assms(3,4) by (simp add: negotiate_version_def version_09 Let_def version_at_least_def)
  define st2 where "st2 = (ps_transition now Online ?st1)\<lparr>ps_transport_type := ''websocket'', ps_ws_address := Some address\<rparr>"
  have st2: "is_online st2" "ps_session_key st2 = ps_session_key st" "ps_identity_public st2 = ps_identity_public st"
    "ps_hello_sig_scheme st2 = ps_hello_sig_scheme st"
    by (simp_all add: st2_def ps_transition_def is_online_def Let_def)
  define D1 where "D1 = D\<lparr>hd_trust := (hd_trust D)\<lparr>td_peers := dset p st2 (td_peers (hd_trust D)),
      td_limiters := (if p \<in> set (td_limiters (hd_trust D)) then td_limiters (hd_trust D) else td_limiters (hd_trust D) @ [p])\<rparr>,
      hd_sockets := dset p (cn_socket cn) (hd_sockets D), hd_replay := reset_replay_peer p (hd_replay D)\<rparr>"
  have "(case dget (td_peers (hd_trust D)) p of
             Some old \<Rightarrow> is_online old \<and> p \<in> set (dkeys (hd_sockets D)) \<and> \<not> (\<not> cn_rns cn \<and> ps_transport_type old = ''rns'')
           | None \<Rightarrow> False) = False" using assms(1) by (simp split: option.split)
  then have r: "register_peer now cn address p ?st1 D = Some D1"
    unfolding register_peer_def Let_def using assms(2) by (simp only: if_False D1_def st2_def)
  show ?thesis
    unfolding finish_handshake_def n sum.case option.case r using st2 by (simp add: D1_def del: map_of_eq_Some_iff)
qed

lemma hello_fields_get:
  fixes C ed_pub ed_sec me name eph_pub nonce canonical io invite adv
  defines "d \<equiv> hello_fields C ed_pub ed_sec me name eph_pub nonce canonical (hello_extra io invite adv)"
  shows "dget d ''type'' = Some (JStr ''HELLO'')" "dget d ''from'' = Some (JStr me)" "dget d ''name'' = Some (JStr name)"
    "dget d ''ephemeral_public'' = Some (JStr (b64encode eph_pub))" "dget d ''identity_public'' = Some (JStr (b64encode ed_pub))"
    "dget d ''protocol_version'' = Some (JStr PROTOCOL_VERSION)" "dget d ''channel_binding'' = Some (JStr (hex_of nonce))"
    "dget d ''signature'' = Some (JStr (b64encode (ed_sign C ed_sec (SIG_CTX_HELLO @ canonical))))"
    "dget d ''rns_link_id'' = None" "dget d ''invite_token'' = map_option (\<lambda>t. JStr (invite_to_string io t)) invite"
  unfolding d_def by (simp_all add: hello_fields_def hello_extra_get)

abbreviation own_id :: "crypto \<Rightarrow> hs_daemon \<Rightarrow> node_id" where
  "own_id C D \<equiv> keys_fingerprint C (td_ed_public (hd_trust D))"

abbreviation own_key :: "hs_daemon \<Rightarrow> string" where
  "own_key D \<equiv> b64encode (td_ed_public (hd_trust D))"

text \<open>The keys of a daemon, and what it needs to get through a handshake with a 0.9 peer.\<close>

definition daemon_keys_ok :: "crypto \<Rightarrow> hs_daemon \<Rightarrow> bool" where
  "daemon_keys_ok C D = (td_ed_public (hd_trust D) = ed_public C (td_ed_secret (hd_trust D)) \<and> length (td_ed_public (hd_trust D)) = 32
     \<and> hd_me D \<noteq> [] \<and> version_at_least (0, 9) (parse_version_str (hd_min_version D)))"

abbreviation registered :: "node_id \<Rightarrow> bytes \<Rightarrow> bytes \<Rightarrow> nat \<Rightarrow> hs_daemon \<Rightarrow> bool" where
  "registered p key identity socket D \<equiv> (\<exists>st. dget (td_peers (hd_trust D)) p = Some st \<and> is_online st \<and> ps_session_key st = Some key
     \<and> ps_identity_public st = Some identity \<and> ps_hello_sig_scheme st = ''context-v1'' \<and> dget (hd_sockets D) p = Some socket)"

lemma evaluate_websocket:
  "\<not> cn_rns cn \<Longrightarrow> dget d ''rns_link_id'' = None \<Longrightarrow> evaluate_rns_hello_binding b cn d v skip = Inr (LinkOk None)"
  by (simp add: evaluate_rns_hello_binding_def get_or_none_def)

lemma server_takes_honest_hello:
  assumes C: "ed25519_ok C" and S: "daemon_keys_ok C S" and K: "daemon_keys_ok C K" and ws: "\<not> cn_rns cs" "\<not> cn_rns cc"
    and eph: "length (he_eph_public Es) = 32" "length (he_eph_public Ec) = 32"
    and new: "own_id C K \<notin> set (dkeys (hd_sockets S))"
    and tofu: "tofu_passes (fst (hs_check_tofu rep C io (he_tofu Es) (own_id C K) (Some (own_key K))
        (map_option (invite_to_string io) (hd_pending_invite K)) S))"
  shows "\<exists>m4 m5 S'. client_hello C io Ec cc nonce (JStr PROTOCOL_VERSION) K = Inr m4
    \<and> server_on_hello rep C io Es cs nonce False (wire_msg io (JObj m4)) S = ([JObj m5], Live (own_id C K), S')
    \<and> signed_hello C io (td_ed_public (hd_trust S)) (td_ed_secret (hd_trust S)) (hd_me S) (hd_name S) (he_eph_public Es) nonce None
        (JStr PROTOCOL_VERSION) (hello_x25519_advertisement (hd_x25519 S)) = Inr m5
    \<and> registered (own_id C K) (ecdh_exchange C (he_eph_private Es) (he_eph_public Ec)) (td_ed_public (hd_trust K)) (cn_socket cs) S'"
proof -
  let ?TK = "hd_trust K" and ?TS = "hd_trust S"
  have KP: "td_ed_public ?TK = ed_public C (td_ed_secret ?TK)" "length (td_ed_public ?TK) = 32"
    and SP: "td_ed_public ?TS = ed_public C (td_ed_secret ?TS)" "length (td_ed_public ?TS) = 32"
    using K S unfolding daemon_keys_ok_def by blast+
  from honest_hello [OF C KP eph(2), of io "hd_me K" "hd_name K" nonce
      "hello_extra io (hd_pending_invite K) (hd_x25519 K)"] obtain canonical where
    h: "signed_hello C io (td_ed_public ?TK) (td_ed_secret ?TK) (hd_me K) (hd_name K) (he_eph_public Ec) nonce None (JStr PROTOCOL_VERSION)
         (hello_extra io (hd_pending_invite K) (hd_x25519 K))
       = Inr (hello_fields C (td_ed_public ?TK) (td_ed_secret ?TK) (hd_me K) (hd_name K) (he_eph_public Ec) nonce canonical
         (hello_extra io (hd_pending_invite K) (hd_x25519 K)))"
    and sg: "hello_signature_scheme C io (JStr (own_key K)) (JStr (b64encode (ed_sign C (td_ed_secret ?TK) (SIG_CTX_HELLO @ canonical))))
       (JStr (hex_of nonce)) (JStr (b64encode (he_eph_public Ec))) (JStr (hd_name K)) None (JStr PROTOCOL_VERSION) = Some ''context-v1''"
    by blast
  define d where "d = hello_fields C (td_ed_public ?TK) (td_ed_secret ?TK) (hd_me K) (hd_name K) (he_eph_public Ec) nonce canonical
         (hello_extra io (hd_pending_invite K) (hd_x25519 K))"
  note get = hello_fields_get [of C "td_ed_public ?TK" "td_ed_secret ?TK" "hd_me K" "hd_name K" "he_eph_public Ec" nonce canonical io
      "hd_pending_invite K" "hd_x25519 K", folded d_def]
  have m4: "client_hello C io Ec cc nonce (JStr PROTOCOL_VERSION) K = Inr d"
    unfolding client_hello_def rns_hello_link_binding_def d_def using ws h by (simp add: hello_extra_def)
  have rd: "recv_msg io (wire_msg io (JObj d)) = Inr d" unfolding d_def by (rule hello_fields_read)
  have keyK: "td_ed_public ?TK \<noteq> []" "hd_me K \<noteq> []" "ed_sign C (td_ed_secret ?TK) (SIG_CTX_HELLO @ canonical) \<noteq> []" "he_eph_public Ec \<noteq> []"
    using K eph C by (auto simp: daemon_keys_ok_def ed25519_ok_def) (metis list.size(3) zero_neq_numeral)+
  have chk: "check_client_hello C io cs nonce False S d = HelloGood (own_id C K) (Some (own_key K)) (he_eph_public Ec) ''context-v1''"
    using keyK eph sg
    by (simp add: check_client_hello_def Let_def get evaluate_websocket [OF ws(1) get(9)] json_b64_def b64decode_b64encode)
  from honest_hello [OF C SP eph(1), of io "hd_me S" "hd_name S" nonce
      "hello_x25519_advertisement (hd_x25519 S)"] obtain m5 where
    m5: "signed_hello C io (td_ed_public ?TS) (td_ed_secret ?TS) (hd_me S) (hd_name S) (he_eph_public Es) nonce None (JStr PROTOCOL_VERSION)
        (hello_x25519_advertisement (hd_x25519 S)) = Inr m5"
    by blast
  obtain outcome au S1 where t: "hs_check_tofu rep C io (he_tofu Es) (own_id C K) (Some (own_key K))
        (map_option (invite_to_string io) (hd_pending_invite K)) S = (outcome, au, S1)" by (metis prod_cases3)
  note keep = hs_check_tofu_sockets [OF t]
  let ?S2 = "S1\<lparr>hd_auth := snd (clear_ip_auth_history (cn_ip cs) (hd_auth S1))\<rparr>"
  let ?st = "hello_peer_state C (own_id C K) (cn_address cs) (ecdh_exchange C (he_eph_private Es) (he_eph_public Ec)) (he_eph_public Ec) ''context-v1'' d"
  have "own_id C K \<notin> set (dkeys (hd_sockets ?S2))" using new keep(1) by auto
  moreover have "version_at_least (0, 9) (parse_version_str (hd_min_version ?S2))" using S keep(3) by (simp add: daemon_keys_ok_def)
  ultimately obtain S' st' where f: "finish_handshake (he_now Es) cs (own_id C K) (Some (own_id C K)) d
        (dget_default (cn_address cs) (hd_addresses ?S2) (hd_name K)) ?st ?S2 = (None, S')"
      "dget (td_peers (hd_trust S')) (own_id C K) = Some st'" "is_online st'" "ps_session_key st' = ps_session_key ?st"
      "ps_identity_public st' = ps_identity_public ?st" "ps_hello_sig_scheme st' = ps_hello_sig_scheme ?st"
      "dget (hd_sockets S') (own_id C K) = Some (cn_socket cs)"
    using finish_new_peer [OF _ ws(1) _ get(6)] by blast
  have st: "ps_session_key ?st = Some (ecdh_exchange C (he_eph_private Es) (he_eph_public Ec))"
    "ps_identity_public ?st = Some (td_ed_public ?TK)" "ps_hello_sig_scheme ?st = ''context-v1''"
    using keyK by (simp_all add: hello_peer_state_def Let_def get json_b64_def b64decode_b64encode)
  have inv: "(if truthy (dget_default JNull d ''invite_token'') then py_str (dget_default JNull d ''invite_token'') else None)
      = map_option (invite_to_string io) (hd_pending_invite K)"
    "\<not> (truthy (dget_default JNull d ''invite_token'') \<and> py_str (dget_default JNull d ''invite_token'') = None)"
    using invite_string_nonempty by (auto simp: get split: option.splits)
  have reg: "registered (own_id C K) (ecdh_exchange C (he_eph_private Es) (he_eph_public Ec)) (td_ed_public ?TK) (cn_socket cs) S'"
    using f(2-7) st by simp
  have "server_on_hello rep C io Es cs nonce False (wire_msg io (JObj d)) S = ([JObj m5], Live (own_id C K), S')"
    using tofu t f(1) inv
    by (cases outcome) (simp_all add: server_on_hello_def rd chk Let_def rns_hello_link_binding_def ws m5 get(2,3,6) tofu_passes_def)
  then show ?thesis using m4 m5 reg by (intro exI [of _ d] exI [of _ m5] exI [of _ S'] conjI)
qed

lemma client_takes_honest_hello:
  assumes C: "ed25519_ok C" and S: "daemon_keys_ok C S" and K: "daemon_keys_ok C K" and ws: "\<not> cn_rns cc"
    and eph: "length (he_eph_public Es) = 32"
    and m5: "signed_hello C io (td_ed_public (hd_trust S)) (td_ed_secret (hd_trust S)) (hd_me S) (hd_name S) (he_eph_public Es) nonce None
        (JStr PROTOCOL_VERSION) (hello_x25519_advertisement (hd_x25519 S)) = Inr m5"
    and invite: "case hd_pending_invite K of None \<Rightarrow> True | Some t \<Rightarrow> it_inviter_key t = own_key S"
    and new: "own_id C S \<notin> set (dkeys (hd_sockets K))"
    and tofu: "tofu_passes (fst (hs_check_tofu rep C io (he_tofu Ec) (own_id C S) (Some (own_key S)) None K))"
  shows "\<exists>K'. client_on_server_hello rep C io Ec cc False (wire_msg io (JObj m5)) K = (Connected (own_id C S), K')
    \<and> registered (own_id C S) (ecdh_exchange C (he_eph_private Ec) (he_eph_public Es)) (td_ed_public (hd_trust S)) (cn_socket cc) K'"
proof -
  let ?TS = "hd_trust S"
  have SP: "td_ed_public ?TS = ed_public C (td_ed_secret ?TS)" "length (td_ed_public ?TS) = 32"
    using S unfolding daemon_keys_ok_def by blast+
  have x: "hello_x25519_advertisement (hd_x25519 S) = hello_extra io None (hd_x25519 S)" by (simp add: hello_extra_def)
  from honest_hello [OF C SP eph, of io "hd_me S" "hd_name S" nonce "hello_extra io None (hd_x25519 S)"] obtain canonical where
    d: "m5 = hello_fields C (td_ed_public ?TS) (td_ed_secret ?TS) (hd_me S) (hd_name S) (he_eph_public Es) nonce canonical (hello_extra io None (hd_x25519 S))"
    and sg: "hello_signature_scheme C io (JStr (own_key S)) (JStr (b64encode (ed_sign C (td_ed_secret ?TS) (SIG_CTX_HELLO @ canonical))))
       (JStr (hex_of nonce)) (JStr (b64encode (he_eph_public Es))) (JStr (hd_name S)) None (JStr PROTOCOL_VERSION) = Some ''context-v1''"
    using m5 unfolding x by (metis Inr_inject)
  note get = hello_fields_get [of C "td_ed_public ?TS" "td_ed_secret ?TS" "hd_me S" "hd_name S" "he_eph_public Es" nonce canonical io
      None "hd_x25519 S", folded d]
  have rd: "recv_msg io (wire_msg io (JObj m5)) = Inr m5" unfolding d by (rule hello_fields_read)
  have key: "td_ed_public ?TS \<noteq> []" "ed_sign C (td_ed_secret ?TS) (SIG_CTX_HELLO @ canonical) \<noteq> []" "he_eph_public Es \<noteq> []"
    using SP(2) eph C by (auto simp: ed25519_ok_def) (metis list.size(3) zero_neq_numeral)+
  have "py_str (dget_default JNull m5 ''identity_public'') = Some (own_key S)" by (simp add: get)
  then have "(case hd_pending_invite K of None \<Rightarrow> False
      | Some t \<Rightarrow> \<not> invite_matches_identity t (py_str (dget_default JNull m5 ''identity_public''))) = False"
    using invite key by (auto simp: invite_matches_identity_def split: option.splits)
  then have chk: "check_server_hello C io cc False K m5 = Some (own_id C S, Some (own_key S), he_eph_public Es, ''context-v1'')"
    using key eph sg
    by (simp add: check_server_hello_def Let_def get evaluate_websocket [OF ws get(9)] json_b64_def b64decode_b64encode)
  obtain outcome au K1 where t: "hs_check_tofu rep C io (he_tofu Ec) (own_id C S) (Some (own_key S)) None K = (outcome, au, K1)"
    by (metis prod_cases3)
  note keep = hs_check_tofu_sockets [OF t]
  let ?st = "hello_peer_state C (own_id C S) (cn_address cc) (ecdh_exchange C (he_eph_private Ec) (he_eph_public Es)) (he_eph_public Es) ''context-v1'' m5"
  have "own_id C S \<notin> set (dkeys (hd_sockets K1))" using new keep(1) by auto
  moreover have "version_at_least (0, 9) (parse_version_str (hd_min_version K1))" using K keep(3) by (simp add: daemon_keys_ok_def)
  ultimately obtain K' st' where f: "finish_handshake (he_now Ec) cc (own_id C S) (Some (own_id C S)) m5 (cn_address cc) ?st K1 = (None, K')"
      "dget (td_peers (hd_trust K')) (own_id C S) = Some st'" "is_online st'" "ps_session_key st' = ps_session_key ?st"
      "ps_identity_public st' = ps_identity_public ?st" "ps_hello_sig_scheme st' = ps_hello_sig_scheme ?st"
      "dget (hd_sockets K') (own_id C S) = Some (cn_socket cc)"
    using finish_new_peer [OF _ ws _ get(6)] by blast
  have st: "ps_session_key ?st = Some (ecdh_exchange C (he_eph_private Ec) (he_eph_public Es))"
    "ps_identity_public ?st = Some (td_ed_public ?TS)" "ps_hello_sig_scheme ?st = ''context-v1''"
    using key by (simp_all add: hello_peer_state_def Let_def get json_b64_def b64decode_b64encode)
  have reg: "registered (own_id C S) (ecdh_exchange C (he_eph_private Ec) (he_eph_public Es)) (td_ed_public ?TS) (cn_socket cc)
      (K'\<lparr>hd_addresses := dset (own_id C S) (cn_address cc) (hd_addresses K')\<rparr>)"
    using f(2-7) st by simp
  have "client_on_server_hello rep C io Ec cc False (wire_msg io (JObj m5)) K
      = (Connected (own_id C S), K'\<lparr>hd_addresses := dset (own_id C S) (cn_address cc) (hd_addresses K')\<rparr>)"
    using tofu t f(1) by (cases outcome) (simp_all add: client_on_server_hello_def rd chk Let_def tofu_passes_def)
  with reg show ?thesis by blast
qed

text \<open>C13: two honest daemons agree. When the server admits the connection of a client with the same
  passphrase and the trust checks of both sides pass, the handshake over WebSocket completes: each
  registers the other under the fingerprint of its identity key, with that key and its signed HELLO
  verified, and both hold the same session key.\<close>

theorem honest_daemons_agree:
  assumes "ed25519_ok C" "daemon_keys_ok C S" "daemon_keys_ok C K" "\<not> cn_rns cs" "\<not> cn_rns cc"
    and "server_accept C Es cs S = ([challenge], AwaitProof nonce, S1)" "hd_passphrase S = hd_passphrase K"
    and "length (he_eph_public Es) = 32" "length (he_eph_public Ec) = 32"
    and "ecdh_exchange C (he_eph_private Es) (he_eph_public Ec) = ecdh_exchange C (he_eph_private Ec) (he_eph_public Es)"
    and "own_id C K \<notin> set (dkeys (hd_sockets S))" "own_id C S \<notin> set (dkeys (hd_sockets K))"
    and "case hd_pending_invite K of None \<Rightarrow> True | Some t \<Rightarrow> it_inviter_key t = own_key S"
    and "tofu_passes (fst (hs_check_tofu rep C io (he_tofu Es) (own_id C K) (Some (own_key K))
        (map_option (invite_to_string io) (hd_pending_invite K)) S1))"
    and "tofu_passes (fst (hs_check_tofu rep C io (he_tofu Ec) (own_id C S) (Some (own_key S)) None K))"
    and "hmac_ok C"
  shows "\<exists>S' K' key. honest_handshake rep C io Es Ec cs cc S K = Some ((own_id C K, S'), (own_id C S, K'))
    \<and> registered (own_id C K) key (td_ed_public (hd_trust K)) (cn_socket cs) S'
    \<and> registered (own_id C S) key (td_ed_public (hd_trust S)) (cn_socket cc) K'"
proof -
  have acc: "challenge = JObj [(''type'', JStr ''PASSPHRASE_CHALLENGE''), (''from'', JStr (hd_me S)),
                      (''nonce'', JStr (hex_of nonce)), (''protocol_version'', JStr PROTOCOL_VERSION)]"
    "hd_trust S1 = hd_trust S" "hd_passphrase S1 = hd_passphrase S" "hd_sockets S1 = hd_sockets S" "hd_min_version S1 = hd_min_version S"
    "hd_name S1 = hd_name S" "hd_x25519 S1 = hd_x25519 S"
    using assms(6) by (auto simp: server_accept_def Let_def split: prod.splits if_splits)
  let ?m2 = "[(''type'', JStr ''PASSPHRASE_CHALLENGE''), (''from'', JStr (hd_me K)),
     (''proof'', JStr (compute_passphrase_proof C (hd_passphrase K) nonce))]"
  let ?m3 = "[(''type'', JStr ''PASSPHRASE_VERIFIED''), (''from'', JStr (hd_me S1)), (''status'', JStr ''verified''),
     (''server_proof'', JStr (compute_passphrase_proof C (hd_passphrase S1) (rev nonce)))]"
  have r1: "recv_msg io (wire_msg io challenge) = Inr [(''type'', JStr ''PASSPHRASE_CHALLENGE''), (''from'', JStr (hd_me S)),
                      (''nonce'', JStr (hex_of nonce)), (''protocol_version'', JStr PROTOCOL_VERSION)]"
    unfolding acc(1) by (rule read_wire_msg) simp
  have c1: "client_on_first C io cc (wire_msg io challenge) K = ([JObj ?m2], AwaitVerified nonce (JStr PROTOCOL_VERSION), K)"
    by (simp add: client_on_first_def r1 Let_def bytes_fromhex_hex_of)
  have r2: "recv_msg io (wire_msg io (JObj ?m2)) = Inr ?m2" by (rule read_wire_msg) simp
  have h: "verify_passphrase_proof C (JStr (compute_passphrase_proof C (hd_passphrase K) nonce)) (hd_passphrase S1) nonce = Inr True"
    using hex_proof acc(3) assms(7) by simp
  have s2: "server_on_proof rep C io Es cs nonce (wire_msg io (JObj ?m2)) S1 = ([JObj ?m3], AwaitHello nonce False, S1)"
  proof -
    have "compute_passphrase_proof C (hd_passphrase K) nonce \<noteq> []"
    proof -
      have "hmac_sha256 C k m \<noteq> []" for k m using assms(16) unfolding hmac_ok_def by (metis list.size(3) zero_neq_numeral)
      then show ?thesis by (simp add: compute_passphrase_proof_def hex_of_nonempty)
    qed
    then show ?thesis using h by (simp add: server_on_proof_def r2 Let_def)
  qed
  have r3: "recv_msg io (wire_msg io (JObj ?m3)) = Inr ?m3" by (rule read_wire_msg) simp
  have "verify_passphrase_proof C (JStr (compute_passphrase_proof C (hd_passphrase S1) (rev nonce))) (hd_passphrase K) (rev nonce) = Inr True"
    using hex_proof acc(3) assms(7) by simp
  then have c3: "client_on_verified C io nonce (JStr PROTOCOL_VERSION) (wire_msg io (JObj ?m3)) K = ReadyForHello nonce (JStr PROTOCOL_VERSION) False"
    by (simp add: client_on_verified_def r3 Let_def)
  have S1: "daemon_keys_ok C S1" "own_id C K \<notin> set (dkeys (hd_sockets S1))" using assms(2,11) unfolding daemon_keys_ok_def acc by blast+
  obtain m4 m5 S' where s4: "client_hello C io Ec cc nonce (JStr PROTOCOL_VERSION) K = Inr m4"
    "server_on_hello rep C io Es cs nonce False (wire_msg io (JObj m4)) S1 = ([JObj m5], Live (own_id C K), S')"
    "signed_hello C io (td_ed_public (hd_trust S1)) (td_ed_secret (hd_trust S1)) (hd_me S1) (hd_name S1) (he_eph_public Es) nonce None
        (JStr PROTOCOL_VERSION) (hello_x25519_advertisement (hd_x25519 S1)) = Inr m5"
    "registered (own_id C K) (ecdh_exchange C (he_eph_private Es) (he_eph_public Ec)) (td_ed_public (hd_trust K)) (cn_socket cs) S'"
    using server_takes_honest_hello [OF assms(1) S1(1) assms(3,4,5,8,9) S1(2) assms(14)] by blast
  obtain K' where c5: "client_on_server_hello rep C io Ec cc False (wire_msg io (JObj m5)) K = (Connected (own_id C S), K')"
    "registered (own_id C S) (ecdh_exchange C (he_eph_private Ec) (he_eph_public Es)) (td_ed_public (hd_trust S)) (cn_socket cc) K'"
    using client_takes_honest_hello [OF assms(1) S1(1) assms(3,5,8) s4(3), of rep Ec, unfolded acc(2), OF assms(13,12,15)] by blast
  have "honest_handshake rep C io Es Ec cs cc S K = Some ((own_id C K, S'), (own_id C S, K'))"
    by (simp add: honest_handshake_def assms(6) c1 s2 c3 s4(1,2) c5(1))
  then show ?thesis using s4(4) c5(2) assms(10) by metis
qed

section \<open>What the server has checked\<close>

text \<open>What a HELLO that gets a connection live has to be: signed, over the server's nonce, by the identity
  the peer is registered under, or without any identity.\<close>

definition hello_authenticated :: "crypto \<Rightarrow> float_io \<Rightarrow> conn \<Rightarrow> bytes \<Rightarrow> (string, json) dict \<Rightarrow> node_id \<Rightarrow> bool" where
  "hello_authenticated C io cn nonce d p =
    (\<exists>i vk sig link canonical. dget d ''identity_public'' = Some (JStr i) \<and> b64decode i = Some vk \<and> length vk = 32 \<and> p = keys_fingerprint C vk
       \<and> (link = None \<or> cn_rns cn \<and> dget d ''rns_link_id'' = map_option JStr link)
       \<and> canonical_hello_bytes io (JStr (hex_of nonce)) (dget_default JNull d ''ephemeral_public'') (JStr i)
           (dget_default (dget_default JNull d ''from'') d ''name'') (dget_default (JStr []) d ''protocol_version'')
           (case link of None \<Rightarrow> JNull | Some l \<Rightarrow> JStr l) = Inr canonical
       \<and> (verify_detached_with_context C vk SIG_CTX_HELLO canonical sig = Inr True \<or> verify_signature C vk sig = Inr canonical))"

lemma hello_scheme_authenticated:
  assumes "hello_signature_scheme C io identity signature (JStr (hex_of nonce)) eph name link version = Some scheme"
  shows "\<exists>i vk sig canonical. identity = JStr i \<and> b64decode i = Some vk \<and> length vk = 32
    \<and> canonical_hello_bytes io (JStr (hex_of nonce)) eph identity name version (case link of None \<Rightarrow> JNull | Some l \<Rightarrow> JStr l) = Inr canonical
    \<and> (verify_detached_with_context C vk SIG_CTX_HELLO canonical sig = Inr True \<or> verify_signature C vk sig = Inr canonical)
    \<and> scheme \<noteq> ''unsigned''"
  using assms
  by (auto simp: hello_signature_scheme_def json_b64_def split: option.splits json.splits sum.splits if_splits bool.splits)

lemma checked_hello:
  assumes "check_client_hello C io cn nonce skip D d = HelloGood p identity eb scheme"
  shows "json_b64 (dget_default JNull d ''ephemeral_public'') = Some eb \<and> length eb = 32
    \<and> (if identity = None then \<not> truthy (dget_default JNull d ''identity_public'') \<and> \<not> skip \<and> scheme = ''unsigned''
         \<and> py_str (dget_default JNull d ''from'') = Some p
       else truthy (dget_default JNull d ''identity_public'') \<and> dget d ''identity_public'' = map_option JStr identity \<and> hello_authenticated C io cn nonce d p)"
proof -
  let ?get = "\<lambda>k. dget_default JNull d k"
  let ?id = "?get ''identity_public''" and ?sig = "?get ''signature''" and ?eph = "?get ''ephemeral_public''"
  let ?name = "dget_default (?get ''from'') d ''name''" and ?v = "dget_default (JStr []) d ''protocol_version''"
  obtain link where link: "evaluate_rns_hello_binding (hd_require_binding D) cn d ?v skip = Inr (LinkOk link)"
    using assms by (auto simp: check_client_hello_def Let_def split: if_splits sum.splits link_verdict.splits)
  let ?s = "if \<not> truthy ?id then Inr ''unsigned''
                else if \<not> truthy ?sig then Inl ''HELLO signature required when identity_public is provided''
                else case hello_signature_scheme C io ?id ?sig (JStr (hex_of nonce)) ?eph ?name link ?v of
                  None \<Rightarrow> Inl ''HELLO signature verification failed'' | Some scheme \<Rightarrow> Inr scheme"
  have sch: "?s = Inr scheme \<and> \<not> (skip \<and> scheme = ''unsigned'')
     \<and> (if truthy ?id then map_option (keys_fingerprint C) (json_b64 ?id) else py_str (?get ''from'')) = Some p
     \<and> json_b64 ?eph = Some eb \<and> length eb = 32 \<and> identity = (if truthy ?id then py_str ?id else None)"
    using assms link unfolding check_client_hello_def Let_def
    by (auto split: if_splits sum.splits option.splits)
  show ?thesis
  proof (cases "truthy ?id")
    case False
    then show ?thesis using sch by auto
  next
    case True
    then have "hello_signature_scheme C io ?id ?sig (JStr (hex_of nonce)) ?eph ?name link ?v = Some scheme"
      using sch by (auto split: if_splits option.splits)
    from hello_scheme_authenticated [OF this] obtain i vk sg canonical where
      a: "?id = JStr i" "b64decode i = Some vk" "length vk = 32"
        "canonical_hello_bytes io (JStr (hex_of nonce)) ?eph ?id ?name ?v (case link of None \<Rightarrow> JNull | Some l \<Rightarrow> JStr l) = Inr canonical"
        "verify_detached_with_context C vk SIG_CTX_HELLO canonical sg = Inr True \<or> verify_signature C vk sg = Inr canonical"
      by blast
    have i: "dget d ''identity_public'' = Some (JStr i)" using a(1) by (cases "dget d ''identity_public''") auto
    have "link = None \<or> cn_rns cn \<and> dget d ''rns_link_id'' = map_option JStr link"
      using link by (auto simp: evaluate_rns_hello_binding_def get_or_none_def py_bind_Inr_iff split: if_splits option.splits json.splits)
    moreover have "p = keys_fingerprint C vk" using sch a(1,2) True by (simp add: json_b64_def)
    ultimately have "hello_authenticated C io cn nonce d p"
      unfolding hello_authenticated_def using a i by (metis (no_types, lifting))
    then show ?thesis using sch True a(1) i by simp
  qed
qed

lemma skip_eligible_update [simp]:
  "handshake_skip_eligible cn (hd_conn_limiter_update f D) = handshake_skip_eligible cn D"
  "handshake_skip_eligible cn (hd_ip_limiters_update g D) = handshake_skip_eligible cn D"
  "handshake_skip_eligible cn (hd_auth_update h D) = handshake_skip_eligible cn D"
  by (simp_all add: handshake_skip_eligible_def peer_advertises_hskip_def cong: option.case_cong)


section \<open>Peers without an identity\<close>

text \<open>A HELLO that carries neither an identity key nor a signature.\<close>

definition bare_hello :: "node_id \<Rightarrow> bytes \<Rightarrow> (string, json) dict" where
  "bare_hello p eph = [(''type'', JStr ''HELLO''), (''from'', JStr p), (''ephemeral_public'', JStr (b64encode eph)),
     (''protocol_version'', JStr PROTOCOL_VERSION)]"

lemma bare_hello_read: "recv_msg io (wire_msg io (JObj (bare_hello p eph))) = Inr (bare_hello p eph)"
  by (rule read_wire_msg) (simp add: bare_hello_def)

lemma bare_hello_get:
  "dget (bare_hello p eph) ''type'' = Some (JStr ''HELLO'')" "dget (bare_hello p eph) ''from'' = Some (JStr p)"
  "dget (bare_hello p eph) ''ephemeral_public'' = Some (JStr (b64encode eph))" "dget (bare_hello p eph) ''name'' = None"
  "dget (bare_hello p eph) ''protocol_version'' = Some (JStr PROTOCOL_VERSION)" "dget (bare_hello p eph) ''identity_public'' = None"
  "dget (bare_hello p eph) ''rns_link_id'' = None" "dget (bare_hello p eph) ''invite_token'' = None"
  by (simp_all add: bare_hello_def)

lemma no_identity_no_trust_check:
  "\<exists>au D1. hs_check_tofu rep C io V p None invite D = (TofuSkipped, au, D1) \<and> hd_sockets D1 = hd_sockets D
     \<and> hd_min_version D1 = hd_min_version D"
proof -
  have "filter (\<lambda>(q, s). q \<in> set (dkeys (hd_sockets D))) (hd_sockets D) = hd_sockets D" by (rule filter_True) force
  then show ?thesis by (simp add: hs_check_tofu_def check_tofu_def)
qed

text \<open>Whoever knows the passphrase gets live under any node id that is not connected, whatever key is
  pinned for it: the trust check is skipped.\<close>

lemma identityless_hello_bypasses_tofu:
  assumes "ed25519_ok C" "daemon_keys_ok C S" "\<not> cn_rns cs" "length (he_eph_public Es) = 32" "length eph = 32"
    and "p \<noteq> []" "p \<notin> set (dkeys (hd_sockets S))"
  shows "\<exists>out S' st. server_on_hello rep C io Es cs nonce False (wire_msg io (JObj (bare_hello p eph))) S = (out, Live p, S')
    \<and> dget (td_peers (hd_trust S')) p = Some st \<and> is_online st"
proof -
  note get = bare_hello_get [of p eph]
  have chk: "check_client_hello C io cs nonce False S (bare_hello p eph) = HelloGood p None eph ''unsigned''"
    using assms(5,6) b64_nonempty [OF assms(5)]
    by (simp add: check_client_hello_def Let_def get evaluate_websocket [OF assms(3) get(7)] json_b64_def b64decode_b64encode)
  have SP: "td_ed_public (hd_trust S) = ed_public C (td_ed_secret (hd_trust S))" "length (td_ed_public (hd_trust S)) = 32"
    using assms(2) unfolding daemon_keys_ok_def by blast+
  obtain m5 where m5: "signed_hello C io (td_ed_public (hd_trust S)) (td_ed_secret (hd_trust S)) (hd_me S) (hd_name S) (he_eph_public Es) nonce None
      (JStr PROTOCOL_VERSION) (hello_x25519_advertisement (hd_x25519 S)) = Inr m5"
    using honest_hello [OF assms(1) SP assms(4)] by metis
  obtain au S1 where t: "hs_check_tofu rep C io (he_tofu Es) p None None S = (TofuSkipped, au, S1)"
    and k: "hd_sockets S1 = hd_sockets S" "hd_min_version S1 = hd_min_version S"
    using no_identity_no_trust_check by blast
  let ?S2 = "S1\<lparr>hd_auth := snd (clear_ip_auth_history (cn_ip cs) (hd_auth S1))\<rparr>"
  have "p \<notin> set (dkeys (hd_sockets ?S2))" "version_at_least (0, 9) (parse_version_str (hd_min_version ?S2))"
    using k assms(2,7) by (simp_all add: daemon_keys_ok_def)
  then obtain S' st where f: "finish_handshake (he_now Es) cs p None (bare_hello p eph) (dget_default (cn_address cs) (hd_addresses ?S2) p)
      (hello_peer_state C p (cn_address cs) (ecdh_exchange C (he_eph_private Es) eph) eph ''unsigned'' (bare_hello p eph)) ?S2 = (None, S')"
      "dget (td_peers (hd_trust S')) p = Some st" "is_online st"
    using finish_new_peer [OF _ assms(3) _ get(5)] by blast
  have "server_on_hello rep C io Es cs nonce False (wire_msg io (JObj (bare_hello p eph))) S = ([JObj m5], Live p, S')"
    using f(1) by (simp add: server_on_hello_def bare_hello_read chk Let_def rns_hello_link_binding_def assms(3) m5 get t)
  then show ?thesis using f(2,3) by blast
qed

text \<open>The client takes a server that proves nothing: neither the passphrase (an answer without a
  \<open>server_proof\<close> is accepted) nor an identity.\<close>

lemma unauthenticated_server_accepted:
  assumes "daemon_keys_ok C K" "\<not> cn_rns cc" "length eph = 32" "p \<noteq> []" "p \<notin> set (dkeys (hd_sockets K))" "hd_pending_invite K = None"
  shows "client_on_verified C io nonce v (wire_msg io (JObj [(''type'', JStr ''PASSPHRASE_VERIFIED'')])) K = ReadyForHello nonce v False"
    and "\<exists>K' st. client_on_server_hello rep C io Ec cc False (wire_msg io (JObj (bare_hello p eph))) K = (Connected p, K')
      \<and> dget (td_peers (hd_trust K')) p = Some st \<and> is_online st"
proof -
  have "recv_msg io (wire_msg io (JObj [(''type'', JStr ''PASSPHRASE_VERIFIED'')])) = Inr [(''type'', JStr ''PASSPHRASE_VERIFIED'')]"
    by (rule read_wire_msg) simp
  then show "client_on_verified C io nonce v (wire_msg io (JObj [(''type'', JStr ''PASSPHRASE_VERIFIED'')])) K = ReadyForHello nonce v False"
    by (simp add: client_on_verified_def)
  note get = bare_hello_get [of p eph]
  have chk: "check_server_hello C io cc False K (bare_hello p eph) = Some (p, None, eph, ''unsigned'')"
    using assms(3,4,6) b64_nonempty [OF assms(3)]
    by (simp add: check_server_hello_def Let_def get evaluate_websocket [OF assms(2) get(7)] json_b64_def b64decode_b64encode)
  obtain au K1 where t: "hs_check_tofu rep C io (he_tofu Ec) p None None K = (TofuSkipped, au, K1)"
    and k: "hd_sockets K1 = hd_sockets K" "hd_min_version K1 = hd_min_version K"
    using no_identity_no_trust_check by blast
  have "p \<notin> set (dkeys (hd_sockets K1))" "version_at_least (0, 9) (parse_version_str (hd_min_version K1))"
    using k assms(1,5) by (simp_all add: daemon_keys_ok_def)
  then obtain K2 st where f: "finish_handshake (he_now Ec) cc p None (bare_hello p eph) (cn_address cc)
      (hello_peer_state C p (cn_address cc) (ecdh_exchange C (he_eph_private Ec) eph) eph ''unsigned'' (bare_hello p eph)) K1 = (None, K2)"
      "dget (td_peers (hd_trust K2)) p = Some st" "is_online st"
    using finish_new_peer [OF _ assms(2) _ get(5)] by blast
  show "\<exists>K' st. client_on_server_hello rep C io Ec cc False (wire_msg io (JObj (bare_hello p eph))) K = (Connected p, K')
      \<and> dget (td_peers (hd_trust K')) p = Some st \<and> is_online st"
    using f(2,3) by (simp add: client_on_server_hello_def bare_hello_read chk Let_def t f(1))
qed

section \<open>A concrete handshake\<close>

definition sample_hs :: "node_id \<Rightarrow> byte \<Rightarrow> hs_daemon" where
  "sample_hs name key = \<lparr> hd_trust = sample_daemon\<lparr>td_node_id := name, td_ed_public := pad 32 [key], td_ed_secret := pad 32 [key]\<rparr>,
     hd_name = name, hd_passphrase = ''secret'', hd_x25519 = None, hd_min_version = ''ironmesh/0.3'', hd_skip_enabled = False,
     hd_require_binding = False, hd_discovered = [], hd_conn_limiter = new_token_bucket 0 10 20, hd_ip_limiters = [], hd_auth = [],
     hd_sockets = [], hd_replay = new_replay_guard 60 1000, hd_pending_invite = None, hd_pinned = [], hd_addresses = [],
     hd_successes = 0, hd_failures = 0, hd_skips_rejected = 0, hd_skips_activated = 0 \<rparr>"

definition sample_conn :: "nat \<Rightarrow> conn" where
  "sample_conn n = \<lparr> cn_socket = n, cn_rns = False, cn_link_id = None, cn_remote_identity = None, cn_ip = ''10.0.0.1'',
     cn_address = ''10.0.0.1:8765'' \<rparr>"

definition sample_hs_env :: "byte \<Rightarrow> hs_env" where
  "sample_hs_env k = \<lparr> he_now = 0, he_tofu = sample_tofu_env, he_nonce = pad 32 [9], he_eph_private = pad 32 [k], he_eph_public = pad 32 [k] \<rparr>"

lemma sample_keys_ok: "name \<noteq> [] \<Longrightarrow> daemon_keys_ok sample_crypto (sample_hs name key)"
proof -
  have "version_at_least (0, 9) (parse_version_str ''ironmesh/0.3'')" by code_simp
  moreover have "pad 32 (pad 32 [key]) = pad 32 [key]" by (simp add: pad_def)
  ultimately show "name \<noteq> [] \<Longrightarrow> daemon_keys_ok sample_crypto (sample_hs name key)"
    by (simp add: daemon_keys_ok_def sample_hs_def)
qed

lemma sample_trust_passes:
  assumes "b64decode identity \<noteq> None" "identity \<noteq> []"
  shows "tofu_passes (fst (hs_check_tofu rep sample_crypto io sample_tofu_env p (Some identity) None (D\<lparr>hd_trust := hd_trust (sample_hs name key)\<rparr>)))"
proof -
  let ?T = "hd_trust (sample_hs name key)\<lparr>td_clients := dkeys (hd_sockets D)\<rparr>"
  obtain keys where o: "open_store sample_crypto io sample_tofu_env ?T = Inr (sample_fresh_store\<lparr>ts_keys := keys\<rparr>, NoFile)"
    by (simp add: open_store_def trust_open_def sample_hs_def sample_daemon_def trust_load_def sample_fresh_store_def
        derive_mac_key_def derive_box_key_def derive_key_def)
  have v: "validate_incoming_invite rep sample_crypto io t None ?T = (NoInvite, ?T)" for t by (simp add: validate_incoming_invite_def)
  show ?thesis
    using assms o v
    by (auto simp: hs_check_tofu_def tofu_passes_def check_tofu_def check_store_def is_revoked_def verify_peer_def sample_fresh_store_def pin_new_peer_def
        pin_peer_def trust_states_def trust_fingerprint_def trust_save_def Let_def sample_hs_def sample_daemon_def sample_tofu_env_def)
qed

lemma sample_accept:
  "\<exists>m S1. server_accept sample_crypto (sample_hs_env 1) (sample_conn 1) (sample_hs ''srv'' 7) = ([m], AwaitProof (pad 32 [9]), S1)
     \<and> hd_trust S1 = hd_trust (sample_hs ''srv'' 7) \<and> hd_passphrase S1 = ''secret'' \<and> hd_sockets S1 = []
     \<and> hd_min_version S1 = ''ironmesh/0.3''"
  by (simp add: server_accept_def sample_hs_def sample_hs_env_def sample_conn_def new_token_bucket_def tb_consume_def tb_available_def Let_def
      is_ip_blocked_def handshake_skip_eligible_def recent_failures_def default_auth_limits_def)

lemma sample_hs_get [simp]:
  "hd_trust (sample_hs n k) = sample_daemon\<lparr>td_node_id := n, td_ed_public := pad 32 [k], td_ed_secret := pad 32 [k]\<rparr>"
  "hd_passphrase (sample_hs n k) = ''secret''" "hd_sockets (sample_hs n k) = []" "hd_pending_invite (sample_hs n k) = None"
  by (simp_all add: sample_hs_def)

lemma sample_ecdh: "ecdh_exchange sample_crypto (pad 32 [1]) (pad 32 [2]) = ecdh_exchange sample_crypto (pad 32 [2]) (pad 32 [1])"
  by code_simp

lemma sample_hmac_ok: "hmac_ok sample_crypto"
  by (simp add: hmac_ok_def sample_crypto_def)

lemma sample_trust_passes_key:
  assumes "hd_trust D = hd_trust (sample_hs name key)"
  shows "tofu_passes (fst (hs_check_tofu rep sample_crypto io sample_tofu_env p (Some (b64encode (pad 32 [k]))) None D))"
proof -
  have "b64decode (b64encode (pad 32 [k])) \<noteq> None" "b64encode (pad 32 [k]) \<noteq> []"
    by (simp_all add: b64decode_b64encode) (metis length_pad list.size(3) zero_neq_numeral)
  from sample_trust_passes [OF this, where rep = rep and io = io and p = p and D = D and name = name and key = key] show ?thesis
    using assms by (metis hs_daemon.surjective hs_daemon.update_convs(1))
qed

theorem honest_daemons_agree_witness:
  "\<exists>S' K' key. honest_handshake (\<lambda>_. []) sample_crypto sample_io (sample_hs_env 1) (sample_hs_env 2) (sample_conn 1) (sample_conn 2)
      (sample_hs ''srv'' 7) (sample_hs ''cli'' 8)
      = Some ((keys_fingerprint sample_crypto (pad 32 [8]), S'), (keys_fingerprint sample_crypto (pad 32 [7]), K'))
    \<and> registered (keys_fingerprint sample_crypto (pad 32 [8])) key (pad 32 [8]) 1 S'
    \<and> registered (keys_fingerprint sample_crypto (pad 32 [7])) key (pad 32 [7]) 2 K'"
proof -
  obtain m S1 where a: "server_accept sample_crypto (sample_hs_env 1) (sample_conn 1) (sample_hs ''srv'' 7) = ([m], AwaitProof (pad 32 [9]), S1)"
    and S1: "hd_trust S1 = hd_trust (sample_hs ''srv'' 7)" using sample_accept by blast
  have t: "tofu_passes (fst (hs_check_tofu (\<lambda>_. []) sample_crypto sample_io sample_tofu_env p (Some (b64encode (pad 32 [8]))) None S1))" for p
    using S1 by (rule sample_trust_passes_key)
  have t': "tofu_passes (fst (hs_check_tofu (\<lambda>_. []) sample_crypto sample_io sample_tofu_env p (Some (b64encode (pad 32 [7]))) None (sample_hs ''cli'' 8)))" for p
    by (rule sample_trust_passes_key) (rule refl)
  have k: "daemon_keys_ok sample_crypto (sample_hs ''srv'' 7)" "daemon_keys_ok sample_crypto (sample_hs ''cli'' 8)"
    by (rule sample_keys_ok, simp)+
  have c: "cn_rns (sample_conn n) = False" "cn_socket (sample_conn n) = n" for n by (simp_all add: sample_conn_def)
  have e: "he_tofu (sample_hs_env k) = sample_tofu_env" "he_eph_public (sample_hs_env k) = pad 32 [k]" "he_eph_private (sample_hs_env k) = pad 32 [k]" for k
    by (simp_all add: sample_hs_env_def)
  from honest_daemons_agree [OF sample_crypto_ok(2) k _ _ a _ _ _ _ _ _ _ _ _ sample_hmac_ok, of "sample_conn 2" "sample_hs_env 2" "\<lambda>_. []" sample_io] t t' sample_ecdh
  show ?thesis by (simp add: c e sample_daemon_def)
qed


end
