(* ===== verification/Rekey.thy ===== *)
theory Rekey
  imports Handshake
begin

text \<open>
  Rotation of session keys: handshake.py (\<open>_rekey_loop\<close>, \<open>_initiate_rekey\<close>, \<open>_handle_rekey_request\<close>,
  \<open>_handle_rekey_response\<close>) and routing.py (\<open>_begin_rekey_transition\<close>, \<open>_end_rekey_transition\<close>).

  A node is its link, its replay guard, its pending pings and the counter of rotations. Fresh
  ephemeral keys, the request's id and the frame's id are in \<open>rekey_env\<close>. A payload that is not UTF-8
  is treated as one that is not JSON: the code raises there, with the same state.
\<close>

declare map_of_eq_Some_iff [simp del]

record rekey_node =
  rk_link :: link
  rk_replay :: replay_guard
  rk_pings :: "(node_id, time) dict"
  rk_count :: nat

record rekey_env =
  re_send :: send_env
  re_frame_id :: string
  re_private :: bytes
  re_public :: bytes
  re_mono :: time

abbreviation rk_me :: "rekey_node \<Rightarrow> node_id" where
  "rk_me N \<equiv> l_node_id (rk_link N)"

abbreviation rk_peer :: "node_id \<Rightarrow> rekey_node \<Rightarrow> peer_state option" where
  "rk_peer p N \<equiv> dget (l_peers (rk_link N)) p"

section \<open>The two handlers\<close>

definition end_rekey_transition :: "peer_state \<Rightarrow> replay_guard \<Rightarrow> peer_state \<times> replay_guard" where
  "end_rekey_transition st g =
    (st\<lparr>ps_prev_session_key := None, ps_prev_epoch_key := None, ps_rekey_transition_until := 0\<rparr>,
     case ps_prev_epoch_key st of None \<Rightarrow> g | Some e \<Rightarrow> if e = [] then g else reset_replay_peer e g)"

definition epoch_key :: "node_id \<Rightarrow> int \<Rightarrow> string" where
  "epoch_key p n = p @ ''#rekey'' @ show_int n"

definition begin_rekey_transition :: "time \<Rightarrow> node_id \<Rightarrow> peer_state \<Rightarrow> replay_guard \<Rightarrow> peer_state \<times> replay_guard" where
  "begin_rekey_transition tick p st g =
    (case ps_session_key st of
       None \<Rightarrow> (st, g)
     | Some old \<Rightarrow>
         (case (if ps_prev_session_key st \<noteq> None then end_rekey_transition st g else (st, g)) of (st1, g1) \<Rightarrow>
            (let e = epoch_key p (ps_session_rekey_count st1) in
             (st1\<lparr>ps_prev_session_key := Some old, ps_prev_epoch_key := Some e, ps_rekey_transition_until := tick + 30\<rparr>,
              snapshot_replay_peer p e g1))))"

text \<open>What both sides do with a new key.\<close>

definition install_rekey :: "time \<Rightarrow> time \<Rightarrow> node_id \<Rightarrow> bytes \<Rightarrow> peer_state \<Rightarrow> rekey_node \<Rightarrow> rekey_node" where
  "install_rekey wall tick p key st N =
    (case begin_rekey_transition tick p st (rk_replay N) of (st1, g) \<Rightarrow>
       N\<lparr>rk_link := set_peer p (st1\<lparr>ps_session_key := Some key, ps_session_rekey_count := ps_session_rekey_count st1 + 1,
            ps_last_rekey_at := Some wall, ps_next_send_seq := 1\<rparr>) (rk_link N),
         rk_replay := reset_replay_peer p g, rk_pings := dpop p (rk_pings N), rk_count := rk_count N + 1\<rparr>)"

definition rekey_fields :: "float_io \<Rightarrow> bytes \<Rightarrow> (json \<times> json) py" where
  "rekey_fields io payload = (case loads_bytes io payload of
     None \<Rightarrow> Inr (JNull, JStr [])
   | Some (JObj d) \<Rightarrow> Inr (dget_default JNull d ''new_ephemeral_public'', dget_default (JStr []) d ''rekey_id'')
   | Some _ \<Rightarrow> Inl (TypeError ''get''))"

text \<open>\<open>rekey_id[:8]\<close>, in the last log line.\<close>

definition sliceable :: "json \<Rightarrow> py_error option" where
  "sliceable j = (case j of JStr s \<Rightarrow> None | JArr xs \<Rightarrow> None | _ \<Rightarrow> Some (TypeError ''rekey_id''))"

definition x25519_public :: "json \<Rightarrow> bytes py" where
  "x25519_public j = (case json_b64 j of
     None \<Rightarrow> Inl (ValueError ''base64'') | Some pub \<Rightarrow> if length pub = 32 then Inr pub else Inl (ValueError ''public key length''))"

definition rekey_fields_json :: "bytes \<Rightarrow> json \<Rightarrow> (string \<times> json) list" where
  "rekey_fields_json pub rekey_id = [(''new_ephemeral_public'', JStr (b64encode pub)), (''rekey_id'', rekey_id)]"

definition initiate_rekey :: "crypto \<Rightarrow> float_io \<Rightarrow> rekey_env \<Rightarrow> string \<Rightarrow> node_id \<Rightarrow> rekey_node \<Rightarrow> py_error option \<times> rekey_node" where
  "initiate_rekey C io E rekey_id p N = (case rk_peer p N of
     None \<Rightarrow> (None, N)
   | Some st \<Rightarrow>
       (let l = set_peer p (st\<lparr>ps_pending_rekey_private := Some (re_private E), ps_pending_rekey_id := Some rekey_id\<rparr>) (rk_link N) in
        case send_encrypted_control C io (re_send E) (re_frame_id E) p ''REKEY_REQUEST'' (rekey_fields_json (re_public E) (JStr rekey_id)) l of
          (e, l') \<Rightarrow> (e, N\<lparr>rk_link := l'\<rparr>)))"

text \<open>A competing request of our own is abandoned.\<close>

definition abandon_rekey :: "node_id \<Rightarrow> peer_state \<Rightarrow> rekey_node \<Rightarrow> rekey_node" where
  "abandon_rekey p st N = (case ps_pending_rekey_id st of
     None \<Rightarrow> N
   | Some rid \<Rightarrow> N\<lparr>rk_link := set_peer p (st\<lparr>ps_pending_rekey_private := None, ps_pending_rekey_id := None\<rparr>) (rk_link N)\<rparr>)"

definition handle_rekey_request :: "crypto \<Rightarrow> float_io \<Rightarrow> rekey_env \<Rightarrow> node_id \<Rightarrow> bytes \<Rightarrow> rekey_node \<Rightarrow> py_error option \<times> rekey_node" where
  "handle_rekey_request C io E p payload N = (case (rekey_fields io payload, rk_peer p N) of
     (Inl e, _) \<Rightarrow> (Some e, N)
   | (Inr _, None) \<Rightarrow> (None, N)
   | (Inr (pub, rekey_id), Some st) \<Rightarrow>
       if \<not> truthy pub then (None, N)
       else if ps_pending_rekey_id st \<noteq> None \<and> rk_me N < p then (None, N)
       else
         (let N1 = abandon_rekey p st N in
          case x25519_public pub of
            Inl e \<Rightarrow> (Some e, N1)
          | Inr peer_pub \<Rightarrow>
              (case send_encrypted_control C io (re_send E) (re_frame_id E) p ''REKEY_RESPONSE'' (rekey_fields_json (re_public E) rekey_id) (rk_link N1) of
                 (Some e, l) \<Rightarrow> (Some e, N1\<lparr>rk_link := l\<rparr>)
               | (None, l) \<Rightarrow>
                   (case dget (l_peers l) p of
                      None \<Rightarrow> (None, N1\<lparr>rk_link := l\<rparr>)
                    | Some st1 \<Rightarrow> (sliceable rekey_id,
                        install_rekey (se_wall (re_send E)) (re_mono E) p (ecdh_exchange C (re_private E) peer_pub) st1 (N1\<lparr>rk_link := l\<rparr>))))))"

definition handle_rekey_response :: "crypto \<Rightarrow> float_io \<Rightarrow> rekey_env \<Rightarrow> node_id \<Rightarrow> bytes \<Rightarrow> rekey_node \<Rightarrow> py_error option \<times> rekey_node" where
  "handle_rekey_response C io E p payload N = (case (rekey_fields io payload, rk_peer p N) of
     (Inl e, _) \<Rightarrow> (Some e, N)
   | (Inr _, None) \<Rightarrow> (None, N)
   | (Inr (pub, rekey_id), Some st) \<Rightarrow>
       if (case ps_pending_rekey_id st of None \<Rightarrow> JNull | Some s \<Rightarrow> JStr s) \<noteq> rekey_id then (None, N)
       else if \<not> truthy pub then (None, N)
       else (case ps_pending_rekey_private st of
         None \<Rightarrow> (None, N)
       | Some priv \<Rightarrow>
           (case x25519_public pub of
              Inl e \<Rightarrow> (Some e, N)
            | Inr peer_pub \<Rightarrow>
                (sliceable rekey_id,
                 install_rekey (se_wall (re_send E)) (re_mono E) p (ecdh_exchange C priv peer_pub)
                   (st\<lparr>ps_pending_rekey_private := None, ps_pending_rekey_id := None\<rparr>) N))))"

section \<open>The periodic loop\<close>

text \<open>One round over a snapshot of the peers; an exception is counted as a retry.\<close>

definition rekey_due :: "peer_state \<Rightarrow> node_id \<Rightarrow> node_id \<Rightarrow> bool" where
  "rekey_due st p me = (is_online st \<and> ps_session_key st \<notin> {None, Some []} \<and> peer_supports_rekey (JStr (ps_protocol_version st)) = Inr True \<and> me < p)"

fun rekey_round :: "crypto \<Rightarrow> float_io \<Rightarrow> (node_id \<Rightarrow> rekey_env \<times> string) \<Rightarrow> node_id list \<Rightarrow> rekey_node \<Rightarrow> rekey_node" where
  "rekey_round C io envs [] N = N"
| "rekey_round C io envs (p # ps) N = rekey_round C io envs ps (case rk_peer p N of
     None \<Rightarrow> N
   | Some st \<Rightarrow>
       if rekey_due st p (rk_me N) then
         (case initiate_rekey C io (fst (envs p)) (snd (envs p)) p N of
            (None, N1) \<Rightarrow> N1
          | (Some e, N1) \<Rightarrow> (case rk_peer p N1 of None \<Rightarrow> N1
              | Some st1 \<Rightarrow> N1\<lparr>rk_link := set_peer p (ps_record_retry ''rekey_failed'' st1) (rk_link N1)\<rparr>))
       else N)"

definition rekey_loop_round :: "crypto \<Rightarrow> float_io \<Rightarrow> (node_id \<Rightarrow> rekey_env \<times> string) \<Rightarrow> rekey_node \<Rightarrow> rekey_node" where
  "rekey_loop_round C io envs N = rekey_round C io envs (dkeys (l_peers (rk_link N))) N"

section \<open>What a send leaves of a peer\<close>

text \<open>The fields a rotation reads.\<close>

definition rekey_view :: "peer_state \<Rightarrow> bytes option \<times> string option \<times> int \<times> string option" where
  "rekey_view st = (ps_pending_rekey_private st, ps_pending_rekey_id st, ps_session_rekey_count st, ps_prev_epoch_key st)"

lemma rekey_view_transition [simp]: "rekey_view (ps_transition now s st) = rekey_view st"
  by (simp add: rekey_view_def ps_transition_def Let_def)

lemma rekey_view_retry [simp]: "rekey_view (ps_record_retry reason st) = rekey_view st"
  by (simp add: rekey_view_def ps_record_retry_def)

lemma rekey_view_session [simp]: "rekey_view (st\<lparr>ps_session_key := k\<rparr>) = rekey_view st"
  by (simp add: rekey_view_def)

lemma next_sequence_keeps:
  assumes "next_sequence s = (r, s')"
  shows "rekey_view s' = rekey_view s \<and> ps_session_key s' = ps_session_key s \<and> (ps_next_send_seq s \<le> 2 ^ 63 - 1 \<longrightarrow> r = Inr (ps_next_send_seq s))"
  using assms by (auto simp: next_sequence_def Let_def rekey_view_def split: if_splits)

lemma mark_offline_peer:
  "dget (l_peers d) p = Some s \<Longrightarrow>
     \<exists>s'. dget (l_peers (mark_link_offline now p d)) p = Some s' \<and> rekey_view s' = rekey_view s \<and> ps_session_key s' = None"
  by (simp add: mark_link_offline_def Let_def)

lemma send_failed_peer:
  "dget (l_peers d) p = Some s \<Longrightarrow>
     \<exists>s'. dget (l_peers (send_failed now p d)) p = Some s' \<and> rekey_view s' = rekey_view s \<and> (ps_session_key s' = ps_session_key s \<or> ps_session_key s' = None)"
  using mark_offline_peer [of d p s now] by (auto simp: send_failed_def)

lemma send_frame_peer:
  assumes "dget (l_peers d) p = Some s" "send_frame C io env p f d = (r, d')"
  shows "l_node_id d' = l_node_id d \<and> (ps_next_send_seq s \<le> 2 ^ 63 - 1 \<longrightarrow> r = None)
    \<and> (\<exists>s'. dget (l_peers d') p = Some s' \<and> rekey_view s' = rekey_view s
      \<and> (ps_session_key s' = ps_session_key s \<or> ps_session_key s' = None \<and> l_wire d' = l_wire d))"
proof (cases "sendable p d")
  case False
  then show ?thesis using assms send_frame_not_sendable [of p d C io env f] by auto
next
  case True
  then obtain key where s: "ps_session_key s = Some key" "key \<noteq> []" "p \<in> set (l_ws_clients d)"
    using assms(1) by (auto simp: sendable_def)
  obtain x s1 where n: "next_sequence s = (x, s1)" by (cases "next_sequence s")
  note keep = next_sequence_keeps [OF n]
  show ?thesis
  proof (cases x)
    case (Inl e)
    then show ?thesis using assms s n keep by (auto simp: send_frame_def)
  next
    case (Inr sq)
    let ?d1 = "set_peer p s1 d"
    have p1: "dget (l_peers ?d1) p = Some s1" by simp
    have g: "dget (l_peers (?d1\<lparr>l_gate := g\<rparr>)) p = Some s1" for g by (simp add: set_peer_def)
    have w: "l_wire (mark_link_offline now p (?d1\<lparr>l_gate := g\<rparr>)) = l_wire d" "l_wire (send_failed now p (?d1\<lparr>l_gate := g\<rparr>)) = l_wire d"
      "l_node_id (mark_link_offline now p (?d1\<lparr>l_gate := g\<rparr>)) = l_node_id d" "l_node_id (send_failed now p (?d1\<lparr>l_gate := g\<rparr>)) = l_node_id d"
      for now g by (simp_all add: set_peer_def)
    let ?e = "encrypt_and_serialize C io (se_nonce env) key (Some (l_sign_key d))
        (if f_source f = l_node_id d \<and> f_source_signature f = None then Some (l_sign_key d) else None) (f\<lparr>f_sequence := sq\<rparr>)"
    have r0: "send_frame C io env p f d = (case ?e of
                     Inl _ \<Rightarrow> (None, send_failed (se_wall env) p ?d1)
                   | Inr (f2, raw) \<Rightarrow>
                       (case gate_peer_bandwidth (se_mono env) (se_mono_later env) p (int (length raw)) (l_gate ?d1) of
                          (admitted, gate) \<Rightarrow>
                            let d2 = ?d1\<lparr>l_gate := gate\<rparr> in
                            if \<not> admitted then (None, set_peer p (ps_record_retry ''bandwidth_throttled'' s1) d2)
                            else case se_outcome env of
                              SendOk \<Rightarrow> (None, d2\<lparr>l_bytes_sent := l_bytes_sent d2 + int (length raw),
                                               l_wire := l_wire d2 @ [(p, raw)]\<rparr>)
                            | SendTimeout \<Rightarrow> (None, mark_link_offline (se_wall env) p d2)
                            | SendRaises \<Rightarrow> (None, send_failed (se_wall env) p d2)))"
      unfolding send_frame_def using assms(1) s n Inr by (simp add: Let_def)
    show ?thesis
    proof (cases ?e)
      case (Inl x)
      then show ?thesis using r0 assms(2) send_failed_peer [OF p1, of "se_wall env"] keep by fastforce
    next
      case (Inr fr)
      obtain f2 raw where fr: "fr = (f2, raw)" by (cases fr)
      obtain ok g1 where ga: "gate_peer_bandwidth (se_mono env) (se_mono_later env) p (int (length raw)) (l_gate ?d1) = (ok, g1)" by fastforce
      have r1: "(r, d') = (if \<not> ok then (None, set_peer p (ps_record_retry ''bandwidth_throttled'' s1) (?d1\<lparr>l_gate := g1\<rparr>))
          else case se_outcome env of
            SendOk \<Rightarrow> (None, ?d1\<lparr>l_gate := g1, l_bytes_sent := l_bytes_sent d + int (length raw), l_wire := l_wire d @ [(p, raw)]\<rparr>)
          | SendTimeout \<Rightarrow> (None, mark_link_offline (se_wall env) p (?d1\<lparr>l_gate := g1\<rparr>))
          | SendRaises \<Rightarrow> (None, send_failed (se_wall env) p (?d1\<lparr>l_gate := g1\<rparr>)))"
        using r0 assms(2) Inr fr ga by (cases "se_outcome env") (simp_all add: Let_def set_peer_def)
      show ?thesis
      proof (cases ok)
        case False
        then show ?thesis using r1 keep by (simp add: ps_record_retry_def rekey_view_def set_peer_def)
      next
        case True
        then show ?thesis
          using r1 mark_offline_peer [OF g [of g1], of "se_wall env"] send_failed_peer [OF g [of g1], of "se_wall env"] keep w
          by (cases "se_outcome env") (fastforce simp: set_peer_def)+
      qed
    qed
  qed
qed

lemma send_control_peer:
  assumes "dget (l_peers d) p = Some s" "send_encrypted_control C io env rid p t extra d = (r, d')"
  shows "l_node_id d' = l_node_id d \<and> (ps_next_send_seq s \<le> 2 ^ 63 - 1 \<longrightarrow> r = None)
    \<and> (\<exists>s'. dget (l_peers d') p = Some s' \<and> rekey_view s' = rekey_view s
      \<and> (ps_session_key s' = ps_session_key s \<or> ps_session_key s' = None \<and> l_wire d' = l_wire d))"
  using assms(2) unfolding send_encrypted_control_def Let_def by (rule send_frame_peer [OF assms(1)])

section \<open>Agreement\<close>

text \<open>The payload of a control frame.\<close>

definition control_payload :: "float_io \<Rightarrow> node_id \<Rightarrow> string \<Rightarrow> (string \<times> json) list \<Rightarrow> bytes" where
  "control_payload io me t extra = utf8 (dumps_compact io (JObj (fold (\<lambda>(k, v) b. dset k v b) extra [(''type'', JStr t), (''from'', JStr me)])))"

lemma read_rekey_fields:
  "wf_json io rid \<Longrightarrow> rekey_fields io (control_payload io me t (rekey_fields_json pub rid)) = Inr (JStr (b64encode pub), rid)"
  unfolding rekey_fields_def control_payload_def
  by (subst loads_bytes_utf8) (auto simp: rekey_fields_json_def)

lemma x25519_public_encode: "length pub = 32 \<Longrightarrow> x25519_public (JStr (b64encode pub)) = Inr pub"
  by (simp add: x25519_public_def json_b64_def b64decode_b64encode)

lemma epoch_key_neq [simp]: "epoch_key p n \<noteq> p" "p \<noteq> epoch_key p n" "epoch_key p n \<noteq> []"
  by (simp_all add: epoch_key_def)

text \<open>What an installed key looks like.\<close>

definition rekeyed :: "node_id \<Rightarrow> bytes \<Rightarrow> rekey_node \<Rightarrow> bool" where
  "rekeyed p key N = (\<exists>t. rk_peer p N = Some t \<and> ps_session_key t = Some key \<and> ps_next_send_seq t = 1
     \<and> ps_pending_rekey_id t = None \<and> replay_state (rk_replay N) p = empty_replay_peer)"

text \<open>The retiring key stays usable, with its own high-water mark.\<close>

definition retains_epoch :: "node_id \<Rightarrow> bytes \<Rightarrow> replay_peer \<Rightarrow> rekey_node \<Rightarrow> bool" where
  "retains_epoch p old rp N = (\<exists>t e. rk_peer p N = Some t \<and> ps_prev_session_key t = Some old \<and> ps_prev_epoch_key t = Some e
     \<and> e \<noteq> p \<and> replay_state (rk_replay N) e = rp)"

lemma end_transition_other:
  "end_rekey_transition st g = (st1, g1) \<Longrightarrow> ps_prev_epoch_key st \<noteq> Some q \<Longrightarrow>
     ps_session_rekey_count st1 = ps_session_rekey_count st \<and> ps_pending_rekey_id st1 = ps_pending_rekey_id st
     \<and> replay_state g1 q = replay_state g q"
  by (auto simp: end_rekey_transition_def reset_replay_peer_state split: option.splits if_splits)

lemma install_rekeyed:
  assumes "ps_pending_rekey_id st = None" "ps_prev_epoch_key st \<noteq> Some p"
  shows "rekeyed p key (install_rekey wall tick p key st N)
    \<and> (\<forall>old. ps_session_key st = Some old \<longrightarrow> retains_epoch p old (replay_state (rk_replay N) p) (install_rekey wall tick p key st N))"
proof (cases "ps_session_key st")
  case None
  then show ?thesis
    using assms(1) by (simp add: install_rekey_def begin_rekey_transition_def rekeyed_def reset_replay_peer_state)
next
  case (Some old)
  obtain st1 g1 where e: "(if ps_prev_session_key st \<noteq> None then end_rekey_transition st (rk_replay N) else (st, rk_replay N)) = (st1, g1)"
    by fastforce
  then have k: "ps_pending_rekey_id st1 = None" "replay_state g1 p = replay_state (rk_replay N) p"
    using assms end_transition_other by (auto split: if_splits)
  let ?e = "epoch_key p (ps_session_rekey_count st1)"
  have b: "begin_rekey_transition tick p st (rk_replay N) =
      (st1\<lparr>ps_prev_session_key := Some old, ps_prev_epoch_key := Some ?e, ps_rekey_transition_until := tick + 30\<rparr>, snapshot_replay_peer p ?e g1)"
    unfolding begin_rekey_transition_def Some option.case e by (simp add: Let_def)
  show ?thesis
    unfolding install_rekey_def b prod.case
    using k Some by (simp add: rekeyed_def retains_epoch_def reset_replay_peer_state snapshot_replay_peer_state)
qed

lemma abandoned:
  assumes "rk_peer p N = Some st"
  shows "\<exists>st0. rk_peer p (abandon_rekey p st N) = Some st0 \<and> rk_me (abandon_rekey p st N) = rk_me N
    \<and> rk_replay (abandon_rekey p st N) = rk_replay N \<and> l_wire (rk_link (abandon_rekey p st N)) = l_wire (rk_link N)
    \<and> ps_pending_rekey_id st0 = None \<and> ps_prev_epoch_key st0 = ps_prev_epoch_key st \<and> ps_session_key st0 = ps_session_key st
    \<and> ps_next_send_seq st0 = ps_next_send_seq st"
  using assms by (cases "ps_pending_rekey_id st") (simp_all add: abandon_rekey_def)

lemma handle_request_installs:
  assumes "rk_peer p N = Some st" "ps_next_send_seq st \<le> 2 ^ 63 - 1" "ps_prev_epoch_key st \<noteq> Some p"
    and "ps_pending_rekey_id st = None \<or> \<not> rk_me N < p" "length pub = 32"
    and "handle_rekey_request C io E p (control_payload io q t (rekey_fields_json pub (JStr rid))) N = (r, N')"
  shows "r = None \<and> rekeyed p (ecdh_exchange C (re_private E) pub) N' \<and> rk_me N' = rk_me N
    \<and> (\<forall>old. ps_session_key st = Some old \<and> l_wire (rk_link N') \<noteq> l_wire (rk_link N) \<longrightarrow> retains_epoch p old (replay_state (rk_replay N) p) N')"
proof -
  define N1 where "N1 = abandon_rekey p st N"
  obtain st0 where n1: "rk_peer p N1 = Some st0" "rk_me N1 = rk_me N" "rk_replay N1 = rk_replay N" "l_wire (rk_link N1) = l_wire (rk_link N)"
    and st0: "ps_pending_rekey_id st0 = None" "ps_prev_epoch_key st0 = ps_prev_epoch_key st" "ps_session_key st0 = ps_session_key st"
      "ps_next_send_seq st0 = ps_next_send_seq st"
    using abandoned [OF assms(1)] unfolding N1_def by blast
  obtain e l where s: "send_encrypted_control C io (re_send E) (re_frame_id E) p ''REKEY_RESPONSE'' (rekey_fields_json (re_public E) (JStr rid)) (rk_link N1) = (e, l)"
    by fastforce
  from send_control_peer [OF n1(1) s] assms(2) obtain st1 where st1: "e = None" "l_node_id l = rk_me N" "dget (l_peers l) p = Some st1"
      "rekey_view st1 = rekey_view st0" "ps_session_key st1 = ps_session_key st \<or> ps_session_key st1 = None \<and> l_wire l = l_wire (rk_link N)"
    unfolding n1 st0(3,4) by blast
  have "b64encode pub \<noteq> []" using b64_nonempty [OF assms(5)] .
  then have t: "\<not> \<not> truthy (JStr (b64encode pub))" by simp
  have c: "\<not> (ps_pending_rekey_id st \<noteq> None \<and> rk_me N < p)" using assms(4) by (rule disjE) simp_all
  have f: "rekey_fields io (control_payload io q t (rekey_fields_json pub (JStr rid))) = Inr (JStr (b64encode pub), JStr rid)"
    by (rule read_rekey_fields) simp
  have N': "(r, N') = (None, install_rekey (se_wall (re_send E)) (re_mono E) p (ecdh_exchange C (re_private E) pub) st1 (N1\<lparr>rk_link := l\<rparr>))"
    using assms(6) unfolding handle_rekey_request_def f assms(1) prod.case sum.case option.case if_not_P [OF t] if_not_P [OF c]
      Let_def N1_def [symmetric] x25519_public_encode [OF assms(5)] s st1(1) st1(3) sliceable_def json.case by simp
  have "ps_pending_rekey_id st1 = None" "ps_prev_epoch_key st1 \<noteq> Some p" using st1(4) st0(1,2) assms(3) by (simp_all add: rekey_view_def)
  note inst = install_rekeyed [OF this, of "ecdh_exchange C (re_private E) pub" "se_wall (re_send E)" "re_mono E" "N1\<lparr>rk_link := l\<rparr>"]
  have w: "l_wire (rk_link (install_rekey wall tick p key st1 (N1\<lparr>rk_link := l\<rparr>))) = l_wire l"
    "rk_me (install_rekey wall tick p key st1 (N1\<lparr>rk_link := l\<rparr>)) = l_node_id l" for wall tick key
    by (simp_all add: install_rekey_def split: prod.split)
  show ?thesis using N' inst st1(2,5) w n1(3) by auto
qed

text \<open>The initiator remembers its request, whatever becomes of the frame.\<close>

lemma initiate_pending:
  assumes "rk_peer p N = Some st" "ps_next_send_seq st \<le> 2 ^ 63 - 1" "initiate_rekey C io E rid p N = (r, N')"
  shows "r = None \<and> rk_me N' = rk_me N \<and> rk_replay N' = rk_replay N \<and> (\<exists>st'. rk_peer p N' = Some st'
    \<and> ps_pending_rekey_private st' = Some (re_private E) \<and> ps_pending_rekey_id st' = Some rid \<and> ps_prev_epoch_key st' = ps_prev_epoch_key st
    \<and> (ps_session_key st' = ps_session_key st \<or> ps_session_key st' = None \<and> l_wire (rk_link N') = l_wire (rk_link N)))"
proof -
  let ?st = "st\<lparr>ps_pending_rekey_private := Some (re_private E), ps_pending_rekey_id := Some rid\<rparr>"
  let ?l = "set_peer p ?st (rk_link N)"
  obtain e l where s: "send_encrypted_control C io (re_send E) (re_frame_id E) p ''REKEY_REQUEST'' (rekey_fields_json (re_public E) (JStr rid)) ?l = (e, l)"
    by fastforce
  have "dget (l_peers ?l) p = Some ?st" by simp
  from send_control_peer [OF this s] assms(1-3) s show ?thesis
    by (auto simp: initiate_rekey_def rekey_view_def Let_def)
qed

lemma handle_response_installs:
  assumes "rk_peer p N = Some st" "ps_pending_rekey_private st = Some priv" "ps_pending_rekey_id st = Some rid" "ps_prev_epoch_key st \<noteq> Some p"
    and "length pub = 32" "handle_rekey_response C io E p (control_payload io q t (rekey_fields_json pub (JStr rid))) N = (r, N')"
  shows "r = None \<and> rekeyed p (ecdh_exchange C priv pub) N'
    \<and> (\<forall>old. ps_session_key st = Some old \<longrightarrow> retains_epoch p old (replay_state (rk_replay N) p) N')"
proof -
  let ?st = "st\<lparr>ps_pending_rekey_private := None, ps_pending_rekey_id := None\<rparr>"
  have "b64encode pub \<noteq> []" using b64_nonempty [OF assms(5)] .
  then have "(r, N') = (None, install_rekey (se_wall (re_send E)) (re_mono E) p (ecdh_exchange C priv pub) ?st N)"
    using assms by (simp add: handle_rekey_response_def read_rekey_fields x25519_public_encode sliceable_def)
  then show ?thesis using install_rekeyed [of ?st p "ecdh_exchange C priv pub" "se_wall (re_send E)" "re_mono E" N] assms(4) by simp
qed

text \<open>The smaller node id ignores a competing request.\<close>

lemma competing_request_ignored:
  assumes "rk_peer p N = Some st" "ps_pending_rekey_id st = Some rid" "rk_me N < p"
  shows "handle_rekey_request C io E p (control_payload io q t (rekey_fields_json pub (JStr rid'))) N = (None, N)"
proof -
  have "rekey_fields io (control_payload io q t (rekey_fields_json pub (JStr rid'))) = Inr (JStr (b64encode pub), JStr rid')"
    by (rule read_rekey_fields) simp
  then show ?thesis using assms by (simp add: handle_rekey_request_def)
qed

text \<open>C14: a rotation of the session key ends in agreement, also when both sides started one. Node
  \<open>a\<close> sends a request to \<open>b\<close>, \<open>b\<close> answers it and \<open>a\<close> takes the answer; \<open>b\<close> has no request of its own out, or it
  is the one with the larger id, which abandons it, while \<open>a\<close> ignores what \<open>b\<close> asked. Then both hold the same
  new key, both count from one again with a fresh replay state, neither waits for an answer, and
  each can still read frames sealed with the old key, against the high-water mark of the old epoch.\<close>

theorem rekey_agrees:
  assumes "rk_peer b A = Some sA" "rk_peer a B = Some sB" "rk_me A = a" "rk_me B = b"
    and "ps_next_send_seq sA \<le> 2 ^ 63 - 1" "ps_next_send_seq sB \<le> 2 ^ 63 - 1" "ps_prev_epoch_key sA \<noteq> Some b" "ps_prev_epoch_key sB \<noteq> Some a"
    and "length (re_public EA) = 32" "length (re_public EB) = 32"
    and "ecdh_exchange C (re_private EA) (re_public EB) = ecdh_exchange C (re_private EB) (re_public EA)"
    and "ps_pending_rekey_id sB = None \<or> \<not> b < a"
    and "initiate_rekey C io EA rid b A = (r1, A1)"
    and "handle_rekey_request C io EB a (control_payload io a ''REKEY_REQUEST'' (rekey_fields_json (re_public EA) (JStr rid))) B = (r2, B1)"
    and "handle_rekey_response C io EA' b (control_payload io b ''REKEY_RESPONSE'' (rekey_fields_json (re_public EB) (JStr rid))) A1 = (r3, A2)"
  shows "(r1, r2, r3) = (None, None, None) \<and> (\<exists>key. rekeyed b key A2 \<and> rekeyed a key B1)
    \<and> (\<forall>old. ps_session_key sA = Some old \<and> l_wire (rk_link A1) \<noteq> l_wire (rk_link A) \<longrightarrow> retains_epoch b old (replay_state (rk_replay A) b) A2)
    \<and> (\<forall>old. ps_session_key sB = Some old \<and> l_wire (rk_link B1) \<noteq> l_wire (rk_link B) \<longrightarrow> retains_epoch a old (replay_state (rk_replay B) a) B1)
    \<and> (a < b \<longrightarrow> handle_rekey_request C io E b (control_payload io b ''REKEY_REQUEST'' (rekey_fields_json pub (JStr rid'))) A1 = (None, A1))"
proof -
  from initiate_pending [OF assms(1,5,13)] obtain s1 where s1: "r1 = None" "rk_me A1 = a" "rk_replay A1 = rk_replay A" "rk_peer b A1 = Some s1"
    "ps_pending_rekey_private s1 = Some (re_private EA)" "ps_pending_rekey_id s1 = Some rid" "ps_prev_epoch_key s1 = ps_prev_epoch_key sA"
    "ps_session_key s1 = ps_session_key sA \<or> ps_session_key s1 = None \<and> l_wire (rk_link A1) = l_wire (rk_link A)"
    using assms(3) by blast
  have p1: "ps_prev_epoch_key s1 \<noteq> Some b" using s1(7) assms(7) by simp
  note resp = handle_response_installs [OF s1(4,5,6) p1 assms(10,15)]
  have "ps_pending_rekey_id sB = None \<or> \<not> rk_me B < a" using assms(4,12) by simp
  note req = handle_request_installs [OF assms(2,6,8) this assms(9,14)]
  have ignore: "a < b \<longrightarrow> handle_rekey_request C io E b (control_payload io b ''REKEY_REQUEST'' (rekey_fields_json pub (JStr rid'))) A1 = (None, A1)"
    using competing_request_ignored [OF s1(4,6), of C io E b "''REKEY_REQUEST''" pub rid'] s1(2) by simp
  show ?thesis using resp req ignore s1(1,3,8) assms(11) by auto
qed

section \<open>Where a rotation loses the session\<close>

text \<open>The answering side installs its key although the answer never reached the wire (throttled or cut
  off): the other side keeps the old key and cannot read what follows.\<close>

lemma unsent_response_installs_key:
  assumes "rk_peer p N = Some st" "ps_next_send_seq st \<le> 2 ^ 63 - 1" "ps_prev_epoch_key st \<noteq> Some p"
    and "ps_pending_rekey_id st = None" "length pub = 32"
    and "send_encrypted_control C io (re_send E) (re_frame_id E) p ''REKEY_RESPONSE'' (rekey_fields_json (re_public E) (JStr rid)) (rk_link N) = (e, l)"
    and "l_wire l = l_wire (rk_link N)"
  shows "\<exists>N'. handle_rekey_request C io E p (control_payload io q t (rekey_fields_json pub (JStr rid))) N = (None, N')
    \<and> l_wire (rk_link N') = l_wire (rk_link N) \<and> rekeyed p (ecdh_exchange C (re_private E) pub) N'"
proof -
  obtain r N' where h: "handle_rekey_request C io E p (control_payload io q t (rekey_fields_json pub (JStr rid))) N = (r, N')" by fastforce
  have "l_wire (rk_link N') = l_wire (rk_link N)"
  proof -
    have f: "rekey_fields io (control_payload io q t (rekey_fields_json pub (JStr rid))) = Inr (JStr (b64encode pub), JStr rid)"
      by (rule read_rekey_fields) simp
    note s = send_control_peer [OF assms(1,6)]
    have "b64encode pub \<noteq> []" using b64_nonempty [OF assms(5)] .
    then show ?thesis using h assms(1,2,4,6,7) s x25519_public_encode [OF assms(5)]
      by (auto simp: handle_rekey_request_def f abandon_rekey_def install_rekey_def split: prod.splits)
  qed
  then show ?thesis using h handle_request_installs [OF assms(1-3) disjI1 [OF assms(4)] assms(5) h] by simp
qed

text \<open>Two requests in a row: the answer to the first is refused, its id is no longer the pending one, yet the other side
  has already installed the first key and seals the second answer with it.\<close>

lemma second_request_loses_first_answer:
  assumes "rk_peer b A = Some sA" "ps_next_send_seq sA \<le> 2 ^ 63 - 1" "initiate_rekey C io E rid2 b A = (r, A2)" "rid1 \<noteq> rid2"
  shows "handle_rekey_response C io E' b (control_payload io q t (rekey_fields_json pub (JStr rid1))) A2 = (None, A2)"
proof -
  from initiate_pending [OF assms(1-3)] obtain st where st: "rk_peer b A2 = Some st" "ps_pending_rekey_id st = Some rid2" by blast
  have "rekey_fields io (control_payload io q t (rekey_fields_json pub (JStr rid1))) = Inr (JStr (b64encode pub), JStr rid1)"
    by (rule read_rekey_fields) simp
  then show ?thesis using st assms(4) by (simp add: handle_rekey_response_def)
qed

section \<open>A concrete rotation\<close>

definition sample_rekey_node :: "node_id \<Rightarrow> node_id \<Rightarrow> rekey_node" where
  "sample_rekey_node me p = \<lparr> rk_link = sample_link\<lparr>l_node_id := me, l_ws_clients := [],
       l_peers := [(p, (new_peer_state p [])\<lparr>ps_session_key := Some (pad 32 [5])\<rparr>)]\<rparr>,
     rk_replay = new_replay_guard 60 1024, rk_pings = [], rk_count = 0 \<rparr>"

definition sample_rekey_env :: "byte \<Rightarrow> rekey_env" where
  "sample_rekey_env k = \<lparr> re_send = sample_env, re_frame_id = ''f'', re_private = pad 32 [k], re_public = pad 32 [k], re_mono = 0 \<rparr>"

theorem rekey_agrees_witness:
  "\<exists>A1 B1 A2 key. initiate_rekey sample_crypto sample_io (sample_rekey_env 1) ''r'' ''b'' (sample_rekey_node ''a'' ''b'') = (None, A1)
    \<and> handle_rekey_request sample_crypto sample_io (sample_rekey_env 2) ''a''
        (control_payload sample_io ''a'' ''REKEY_REQUEST'' (rekey_fields_json (pad 32 [1]) (JStr ''r''))) (sample_rekey_node ''b'' ''a'') = (None, B1)
    \<and> handle_rekey_response sample_crypto sample_io (sample_rekey_env 1) ''b''
        (control_payload sample_io ''b'' ''REKEY_RESPONSE'' (rekey_fields_json (pad 32 [2]) (JStr ''r''))) A1 = (None, A2)
    \<and> rekeyed ''b'' key A2 \<and> rekeyed ''a'' key B1"
proof -
  let ?A = "sample_rekey_node ''a'' ''b''" and ?B = "sample_rekey_node ''b'' ''a''"
  obtain r1 A1 where 1: "initiate_rekey sample_crypto sample_io (sample_rekey_env 1) ''r'' ''b'' ?A = (r1, A1)" by fastforce
  obtain r2 B1 where 2: "handle_rekey_request sample_crypto sample_io (sample_rekey_env 2) ''a''
        (control_payload sample_io ''a'' ''REKEY_REQUEST'' (rekey_fields_json (re_public (sample_rekey_env 1)) (JStr ''r''))) ?B = (r2, B1)" by fastforce
  obtain r3 A2 where 3: "handle_rekey_response sample_crypto sample_io (sample_rekey_env 1) ''b''
        (control_payload sample_io ''b'' ''REKEY_RESPONSE'' (rekey_fields_json (re_public (sample_rekey_env 2)) (JStr ''r''))) A1 = (r3, A2)" by fastforce
  have n: "rk_peer ''b'' ?A = Some ((new_peer_state ''b'' [])\<lparr>ps_session_key := Some (pad 32 [5])\<rparr>)"
    "rk_peer ''a'' ?B = Some ((new_peer_state ''a'' [])\<lparr>ps_session_key := Some (pad 32 [5])\<rparr>)" "rk_me ?A = ''a''" "rk_me ?B = ''b''"
    by (simp_all add: sample_rekey_node_def)
  have e: "re_public (sample_rekey_env k) = pad 32 [k]" "re_private (sample_rekey_env k) = pad 32 [k]" for k by (simp_all add: sample_rekey_env_def)
  from rekey_agrees [OF n _ _ _ _ _ _ _ _ 1 2 3] 1 2 3 show ?thesis
    using sample_ecdh by (simp add: new_peer_state_def e)
qed

end
