(* ===== verification/Receive.thy ===== *)
theory Receive
  imports Rekey Mesh
begin

text \<open>
  The inbound path of routing.py: from the bytes of a connection (\<open>_handle_message\<close>) through decryption
  and replay protection (\<open>_handle_binary_frame\<close>, \<open>_handle_json_message\<close>) to \<open>_dispatch_message\<close>.

  \<^item> The daemon's link is the one inside its mesh router; with \<open>dm_mesh_on\<close> off only the link of the router is in
    use. The trust operations see the peers and connections of that link.
  \<^item> The clocks, fresh ids, what sends do, the result of queueing a gated message and \<open>gunzip\<close> (zlib) are in
    \<open>rx_env\<close>. Hooks and the sampled lifetimes of messages are left out.
  \<^item> The peer state a handler holds is the one registered for the peer. A fractional sequence number in a JSON
    message is given as an exception.
\<close>

datatype rx_audit =
    AuditRateLimited node_id
  | AuditInnerSource node_id string string string
  | AuditAnnounceBadSig node_id node_id string
  | AuditCapLearned node_id "string list"
  | AuditE2eFailure string string
  | AuditTrust trust_audit

record daemon =
  dm_mesh :: mesh_router
  dm_mesh_on :: bool
  dm_replay :: replay_guard
  dm_pings :: "(node_id, time) dict"
  dm_rekeys :: nat
  dm_trust :: trust_daemon
  dm_x25519 :: "bytes option"
  dm_min_version :: string
  dm_pinned :: "(string \<times> json \<times> bytes option) list"
  dm_caps :: "cap_registry option"
  dm_caps_key :: "bytes option"
  dm_caps_file :: "string option"
  dm_announce_dedup :: "(string, time) dict"
  dm_announce_cache :: "(node_id, bytes \<times> real) dict"
  dm_announce_max_age :: real
  dm_group_seen :: "(bytes, time) dict"
  dm_groups :: "bytes list"
  dm_global_limiter :: "token_bucket option"
  dm_limiters :: "(node_id, token_bucket) dict"
  dm_limit_audit :: time
  dm_history :: "(string \<times> node_id \<times> string \<times> bytes) list"
  dm_bus :: "(string \<times> node_id \<times> string \<times> bytes) list"
  dm_received :: nat
  dm_inner_drops :: nat
  dm_bad_announces :: nat
  dm_audit :: "rx_audit list"

record rx_env =
  rx_wall :: time
  rx_tick :: time
  rx_uuid :: string
  rx_frame_id :: string
  rx_send :: send_env
  rx_send2 :: send_env
  rx_tofu :: tofu_env
  rx_queue :: queue_result
  rx_rekey :: rekey_env
  rx_gunzip :: "bytes \<Rightarrow> bytes option"
  rx_fmt :: "real \<Rightarrow> string"
  rx_caps_write :: bool

abbreviation dm_link :: "daemon \<Rightarrow> link" where
  "dm_link D \<equiv> m_link (dm_mesh D)"

abbreviation dm_me :: "daemon \<Rightarrow> node_id" where
  "dm_me D \<equiv> l_node_id (dm_link D)"

abbreviation dm_peer :: "node_id \<Rightarrow> daemon \<Rightarrow> peer_state option" where
  "dm_peer p D \<equiv> dget (l_peers (dm_link D)) p"

definition put_link :: "link \<Rightarrow> daemon \<Rightarrow> daemon" where
  "put_link l D = D\<lparr>dm_mesh := (dm_mesh D)\<lparr>m_link := l\<rparr>\<rparr>"

definition upd_peer :: "node_id \<Rightarrow> (peer_state \<Rightarrow> peer_state) \<Rightarrow> daemon \<Rightarrow> daemon" where
  "upd_peer p f D = (case dm_peer p D of None \<Rightarrow> D | Some s \<Rightarrow> put_link (set_peer p (f s) (dm_link D)) D)"

definition seen_now :: "time \<Rightarrow> node_id \<Rightarrow> daemon \<Rightarrow> daemon" where
  "seen_now now p = upd_peer p (\<lambda>s. s\<lparr>ps_last_seen := Some now\<rparr>)"

definition dm_log :: "rx_audit list \<Rightarrow> daemon \<Rightarrow> daemon" where
  "dm_log es D = D\<lparr>dm_audit := dm_audit D @ es\<rparr>"

text \<open>The trust operations on the daemon's peers and connections.\<close>

definition trust_view :: "daemon \<Rightarrow> trust_daemon" where
  "trust_view D = (dm_trust D)\<lparr>td_clients := l_ws_clients (dm_link D), td_peers := l_peers (dm_link D)\<rparr>"

definition put_trust :: "trust_daemon \<Rightarrow> daemon \<Rightarrow> daemon" where
  "put_trust T D = put_link ((dm_link D)\<lparr>l_ws_clients := td_clients T, l_peers := td_peers T\<rparr>) (D\<lparr>dm_trust := T\<rparr>)"

section \<open>Who is the source of a frame\<close>

definition live_identity :: "node_id \<Rightarrow> daemon \<Rightarrow> bytes option" where
  "live_identity p D = (case dm_peer p D of
     None \<Rightarrow> None | Some s \<Rightarrow> (case ps_identity_public s of None \<Rightarrow> None | Some k \<Rightarrow> if k = [] then None else Some k))"

fun pinned_identity :: "(string \<times> json \<times> bytes option) list \<Rightarrow> node_id \<Rightarrow> bytes option py" where
  "pinned_identity [] p = Inr None"
| "pinned_identity ((name, stored_fp, pub) # rest) p =
    (case stored_fp of
       JStr fp \<Rightarrow> py_bind (compare_digest_str (JStr fp) p) (\<lambda>same.
         if same \<and> pub \<notin> {None, Some []} then Inr pub else pinned_identity rest p)
     | _ \<Rightarrow> pinned_identity rest p)"

definition lookup_dest_identity :: "node_id \<Rightarrow> daemon \<Rightarrow> bytes option py" where
  "lookup_dest_identity p D = (case live_identity p D of Some k \<Rightarrow> Inr (Some k) | None \<Rightarrow> pinned_identity (dm_pinned D) p)"

text \<open>The trust store's record of the peer; opening the store may rewrite its file.\<close>

definition get_peer_identity_key :: "crypto \<Rightarrow> float_io \<Rightarrow> tofu_env \<Rightarrow> node_id \<Rightarrow> daemon \<Rightarrow> string option py \<times> daemon" where
  "get_peer_identity_key C io V p D = (case live_identity p D of
     Some k \<Rightarrow> (Inr (Some (b64encode k)), D)
   | None \<Rightarrow>
       (case open_store C io V (dm_trust D) of
          Inl e \<Rightarrow> ((case e of ValueError m \<Rightarrow> Inr None | RuntimeError m \<Rightarrow> Inr None | _ \<Rightarrow> Inl e), D)
        | Inr (st, disk) \<Rightarrow>
            (Inr (case get_peer p st of
               Some r \<Rightarrow> (case dget r ''pubkey'' of Some (JStr s) \<Rightarrow> if s = [] then None else Some s | _ \<Rightarrow> None)
             | None \<Rightarrow> None), D\<lparr>dm_trust := (dm_trust D)\<lparr>td_file := disk\<rparr>\<rparr>)))"

definition lookup_source_verify_key :: "crypto \<Rightarrow> float_io \<Rightarrow> tofu_env \<Rightarrow> node_id \<Rightarrow> daemon \<Rightarrow> bytes option py \<times> daemon" where
  "lookup_source_verify_key C io V p D = (case lookup_dest_identity p D of
     Inl e \<Rightarrow> (Inl e, D)
   | Inr (Some pub) \<Rightarrow> (Inr (if length pub = 32 then Some pub else None), D)
   | Inr None \<Rightarrow>
       (case get_peer_identity_key C io V p D of
          (Inl e, D1) \<Rightarrow> (Inl e, D1)
        | (Inr None, D1) \<Rightarrow> (Inr None, D1)
        | (Inr (Some s), D1) \<Rightarrow> (Inr (case b64decode s of Some k \<Rightarrow> if length k = 32 then Some k else None | None \<Rightarrow> None), D1)))"

definition source_sig_required_types :: "string list" where
  "source_sig_required_types = [''MSG'', ''REQ'', ''RESP'', ''CONV'']"

definition inner_source_allow_v1 :: "daemon \<Rightarrow> bool" where
  "inner_source_allow_v1 D = (\<not> version_at_least (parse_version_str (dm_min_version D)) (0, 9))"

definition audit_inner_drop :: "node_id \<Rightarrow> frame \<Rightarrow> string \<Rightarrow> daemon \<Rightarrow> daemon" where
  "audit_inner_drop p f reason D = dm_log [AuditInnerSource p (f_source f) (f_msg_type f) reason] (D\<lparr>dm_inner_drops := dm_inner_drops D + 1\<rparr>)"

text \<open>Whether the frame may be delivered, and the frame with its mark.\<close>

definition verify_inner_source :: "crypto \<Rightarrow> float_io \<Rightarrow> tofu_env \<Rightarrow> node_id \<Rightarrow> frame \<Rightarrow> daemon \<Rightarrow> (bool \<times> frame) py \<times> daemon" where
  "verify_inner_source C io V p f D =
    (if f_msg_type f \<notin> set source_sig_required_types then (Inr (True, f), D)
     else if f_source_signature f = None then
       (if f_source f = p then (Inr (True, f\<lparr>f_source_authenticated := False\<rparr>), D)
        else (Inr (False, f), audit_inner_drop p f ''missing-on-relayed'' D))
     else
       (case lookup_source_verify_key C io V (f_source f) D of
          (Inl e, D1) \<Rightarrow> (Inl e, D1)
        | (Inr None, D1) \<Rightarrow>
            (if f_source f = p then (Inr (True, f\<lparr>f_source_authenticated := False\<rparr>), D1)
             else (Inr (False, f), audit_inner_drop p f ''unknown-source'' D1))
        | (Inr (Some vk), D1) \<Rightarrow>
            (case verify_source_signature C vk (inner_source_allow_v1 D1) f of
               Inl e \<Rightarrow> (Inl e, D1)
             | Inr True \<Rightarrow> (Inr (True, f\<lparr>f_source_authenticated := True\<rparr>), D1)
             | Inr False \<Rightarrow> (Inr (False, f), audit_inner_drop p f ''verification-failed'' D1))))"

section \<open>Control frames\<close>

text \<open>bridge.py \<open>_on_rns_group_message\<close>: a payload is handled once per minute, by its digest.\<close>

definition GROUP_DEDUP_MAX :: nat where "GROUP_DEDUP_MAX = 10000"
definition GROUP_DEDUP_TTL :: real where "GROUP_DEDUP_TTL = 60"

definition on_group_message :: "crypto \<Rightarrow> time \<Rightarrow> bytes \<Rightarrow> daemon \<Rightarrow> daemon" where
  "on_group_message C now payload D =
    (if payload = [] then D
     else (let digest = sha256 C payload;
               seen = dropWhile (\<lambda>(k, t). now - t > GROUP_DEDUP_TTL) (dm_group_seen D) in
       if digest \<in> set (dkeys seen) then D\<lparr>dm_group_seen := dmove_end digest seen\<rparr>
       else D\<lparr>dm_group_seen := od_trim GROUP_DEDUP_MAX (dset digest now seen), dm_groups := dm_groups D @ [payload]\<rparr>))"

definition ANNOUNCE_MAX :: nat where "ANNOUNCE_MAX = 4096"

definition bad_announce :: "rx_audit list \<Rightarrow> daemon \<Rightarrow> daemon" where
  "bad_announce es D = dm_log es (D\<lparr>dm_bad_announces := dm_bad_announces D + 1\<rparr>)"

text \<open>\<open>isinstance(x, (int, float))\<close> and \<open>isinstance(x, int)\<close>.\<close>

definition is_real_json :: "json \<Rightarrow> bool" where
  "is_real_json j = (case j of JInt n \<Rightarrow> True | JFloat r \<Rightarrow> True | JBool b \<Rightarrow> True | _ \<Rightarrow> False)"

definition is_int_json :: "json \<Rightarrow> bool" where
  "is_int_json j = (case j of JInt n \<Rightarrow> True | JBool b \<Rightarrow> True | _ \<Rightarrow> False)"

text \<open>The signed part: \<open>Some\<close> the daemon to go on with, or the daemon that dropped the announcement.\<close>

definition announce_signature_ok :: "crypto \<Rightarrow> float_io \<Rightarrow> string \<Rightarrow> node_id \<Rightarrow> string list \<Rightarrow> json \<Rightarrow> json \<Rightarrow> string \<Rightarrow> bool" where
  "announce_signature_ok C io origin_pub origin caps announced_at version sig_b64 =
    (case (b64decode origin_pub, b64decode sig_b64, py_number announced_at, py_int version) of
       (Some vk, Some sig, Some t, Some v) \<Rightarrow>
         length vk = 32 \<and>
         (case canonical_capability_announce_bytes io (JStr origin) (JArr (map JStr caps)) (JFloat t) (JInt v) of
            Inl e \<Rightarrow> False
          | Inr canonical \<Rightarrow> verify_detached_with_context C vk SIG_CTX_CAPABILITY_ANNOUNCE canonical sig = Inr True)
     | _ \<Rightarrow> False)"

definition check_signed_announce :: "crypto \<Rightarrow> float_io \<Rightarrow> rx_env \<Rightarrow> node_id \<Rightarrow> node_id \<Rightarrow> string list \<Rightarrow> string
    \<Rightarrow> (string, json) dict \<Rightarrow> bytes \<Rightarrow> daemon \<Rightarrow> bool \<times> daemon" where
  "check_signed_announce C io E p origin caps sig_b64 data payload D =
    (case get_peer_identity_key C io (rx_tofu E) origin D of
       (Inl e, D1) \<Rightarrow> (False, D1)
     | (Inr None, D1) \<Rightarrow> (False, bad_announce [AuditAnnounceBadSig p origin ''unknown-origin''] D1)
     | (Inr (Some origin_pub), D1) \<Rightarrow>
         (let announced_at = dget_default JNull data ''announced_at''; version = dget_default JNull data ''version'' in
          if \<not> is_real_json announced_at \<or> \<not> is_int_json version then (False, bad_announce [] D1)
          else (case py_number announced_at of
            None \<Rightarrow> (False, D1)
          | Some t \<Rightarrow>
              if rx_wall E - t > dm_announce_max_age D1 then (False, bad_announce [AuditAnnounceBadSig p origin ''stale''] D1)
              else (let key = origin @ ''|'' @ rx_fmt E t in
                if key \<in> set (dkeys (dm_announce_dedup D1)) then (False, D1\<lparr>dm_announce_dedup := dmove_end key (dm_announce_dedup D1)\<rparr>)
                else (let D2 = D1\<lparr>dm_announce_dedup := od_trim ANNOUNCE_MAX (dset key (rx_wall E) (dm_announce_dedup D1))\<rparr> in
                  if \<not> announce_signature_ok C io origin_pub origin caps announced_at version sig_b64
                  then (False, bad_announce [AuditAnnounceBadSig p origin ''bad-sig''] D2)
                  else (True, D2\<lparr>dm_announce_cache := od_trim ANNOUNCE_MAX (od_put origin (payload, t) (dm_announce_cache D2))\<rparr>))))))"

text \<open>Learning, saving, and the binding of the capability set to the trust record.\<close>

definition learn_announced :: "crypto \<Rightarrow> float_io \<Rightarrow> rx_env \<Rightarrow> node_id \<Rightarrow> string list \<Rightarrow> daemon \<Rightarrow> daemon" where
  "learn_announced C io E origin caps D = (case dm_caps D of
     None \<Rightarrow> D
   | Some reg \<Rightarrow>
       (case learn_remote (rx_wall E) origin (map JStr caps) reg of
          (delta, reg1) \<Rightarrow>
            (let D1 = D\<lparr>dm_caps := Some reg1\<rparr>;
                 D2 = (if delta = 0 then D1
                   else dm_log [AuditCapLearned origin caps]
                     (if rx_caps_write E then D1\<lparr>dm_caps_file := (case caps_save C io (dm_caps_key D1) reg1 of None \<Rightarrow> dm_caps_file D1 | Some t \<Rightarrow> Some t)\<rparr> else D1)) in
             case open_store C io (rx_tofu E) (dm_trust D2) of
               Inl e \<Rightarrow> D2
             | Inr (st, disk) \<Rightarrow>
                 (if get_peer origin st = None then D2\<lparr>dm_trust := (dm_trust D2)\<lparr>td_file := disk\<rparr>\<rparr>
                  else (case observe_announcement C io (rx_tofu E) origin caps st disk of
                    (au, st1, disk1) \<Rightarrow> dm_log (map AuditTrust au) (D2\<lparr>dm_trust := (dm_trust D2)\<lparr>td_file := disk1\<rparr>\<rparr>))))))"

definition apply_cap_announce :: "crypto \<Rightarrow> float_io \<Rightarrow> rx_env \<Rightarrow> node_id \<Rightarrow> node_id \<Rightarrow> json list
    \<Rightarrow> (string, json) dict \<Rightarrow> bytes \<Rightarrow> daemon \<Rightarrow> daemon" where
  "apply_cap_announce C io E p origin js data payload D =
    (if origin = [] then D
     else
       (let caps = take 1024 (filter (\<lambda>c. c \<noteq> []) (List.map_filter py_str js));
            sig = (case dget data ''signature'' of Some (JStr s) \<Rightarrow> s | _ \<Rightarrow> []) in
        if sig = [] \<and> origin \<noteq> p then bad_announce [AuditAnnounceBadSig p origin ''missing-sig''] D
        else (case (if sig = [] then (True, D) else check_signed_announce C io E p origin caps sig data payload D) of
          (ok, D1) \<Rightarrow> if \<not> ok \<or> origin = dm_me D1 then D1 else learn_announced C io E origin caps D1)))"

definition handle_cap_announce :: "crypto \<Rightarrow> float_io \<Rightarrow> rx_env \<Rightarrow> node_id \<Rightarrow> bytes \<Rightarrow> daemon \<Rightarrow> daemon" where
  "handle_cap_announce C io E p payload D =
    (if dm_caps D = None \<or> length payload > 1048576 then D
     else case safe_json_loads io payload MAX_JSON_DEPTH of
       Some (JObj data) \<Rightarrow>
         (case (dget_default (JStr p) data ''origin'', dget_default (JArr []) data ''capabilities'') of
            (JStr origin, JArr js) \<Rightarrow> apply_cap_announce C io E p origin js data payload D
          | _ \<Rightarrow> D)
     | _ \<Rightarrow> D)"

section \<open>Dispatch\<close>

text \<open>\<open>_bounded_gunzip\<close>: never more than \<open>max_out\<close> bytes.\<close>

definition bounded_gunzip :: "(bytes \<Rightarrow> bytes option) \<Rightarrow> bytes \<Rightarrow> nat \<Rightarrow> bytes option" where
  "bounded_gunzip gunzip data max_out = (case gunzip data of
     None \<Rightarrow> None | Some out \<Rightarrow> if length out > max_out then None else Some out)"

definition MAX_DECOMPRESSED_BYTES :: nat where
  "MAX_DECOMPRESSED_BYTES = 4 * MAX_FRAME_BYTES"

definition will_relay :: "frame \<Rightarrow> daemon \<Rightarrow> bool" where
  "will_relay f D = (f_destination f \<notin> {[], dm_me D, ''*''} \<and> dm_mesh_on D)"

definition is_compressed :: "frame \<Rightarrow> bool py" where
  "is_compressed f = (case f_routing f of JObj d \<Rightarrow> Inr (truthy (dget_default JNull d ''compressed'')) | _ \<Rightarrow> Inl (TypeError ''routing''))"

text \<open>The chokepoint: source check, then decompression for frames consumed here. \<open>None\<close> is a dropped frame.\<close>

definition admit_frame :: "crypto \<Rightarrow> float_io \<Rightarrow> rx_env \<Rightarrow> node_id \<Rightarrow> frame \<Rightarrow> daemon \<Rightarrow> frame option py \<times> daemon" where
  "admit_frame C io E p f D =
    (case (if f_e2e_payload f = None then verify_inner_source C io (rx_tofu E) p f D else (Inr (True, f), D)) of
       (Inl e, D1) \<Rightarrow> (Inl e, D1)
     | (Inr (False, f1), D1) \<Rightarrow> (Inr None, D1)
     | (Inr (True, f1), D1) \<Rightarrow>
         if will_relay f1 D1 then (Inr (Some f1), D1)
         else (case is_compressed f1 of
           Inl e \<Rightarrow> (Inl e, D1)
         | Inr False \<Rightarrow> (Inr (Some f1), D1)
         | Inr True \<Rightarrow>
             (case bounded_gunzip (rx_gunzip E) (f_payload f1) MAX_DECOMPRESSED_BYTES of
                None \<Rightarrow> (Inr None, D1)
              | Some out \<Rightarrow> (Inr (Some (f1\<lparr>f_payload := out\<rparr>)), D1))))"

text \<open>The control-plane types handled before anything else.\<close>

definition control_types :: "string list" where
  "control_types = [''ROUTE_ANNOUNCE'', ''ROUTE_UNREACHABLE'', ''GROUP_BROADCAST'', ''CAPABILITY_ANNOUNCE'']"

definition handle_control :: "crypto \<Rightarrow> float_io \<Rightarrow> rx_env \<Rightarrow> node_id \<Rightarrow> frame \<Rightarrow> daemon \<Rightarrow> daemon" where
  "handle_control C io E p f D0 =
    (let D = seen_now (rx_wall E) p D0 in
     if f_msg_type f = ''ROUTE_ANNOUNCE'' then
       (if dm_mesh_on D then D\<lparr>dm_mesh := handle_route_announce io (rx_wall E) p (f_payload f) (dm_mesh D)\<rparr> else D)
     else if f_msg_type f = ''GROUP_BROADCAST'' then on_group_message C (rx_wall E) (f_payload f) D
     else if f_msg_type f = ''CAPABILITY_ANNOUNCE'' then handle_cap_announce C io E p (f_payload f) D
     else D)"

text \<open>Opening an end-to-end payload, with the source check put off until then.\<close>

definition unseal_frame :: "crypto \<Rightarrow> float_io \<Rightarrow> rx_env \<Rightarrow> node_id \<Rightarrow> frame \<Rightarrow> daemon \<Rightarrow> frame option \<times> daemon" where
  "unseal_frame C io E p f D = (case f_e2e_payload f of
     None \<Rightarrow> (Some f, D)
   | Some sealed \<Rightarrow>
       (case unseal_from_source C sealed (td_ed_secret (dm_trust D)) (dm_x25519 D) of
          Inl e \<Rightarrow> (None, dm_log [AuditE2eFailure (f_source f) (f_msg_id f)] D)
        | Inr plain \<Rightarrow>
            (case verify_inner_source C io (rx_tofu E) p (f\<lparr>f_payload := plain\<rparr>) D of
               (Inl e, D1) \<Rightarrow> (None, dm_log [AuditE2eFailure (f_source f) (f_msg_id f)] D1)
             | (Inr (False, f1), D1) \<Rightarrow> (None, D1)
             | (Inr (True, f1), D1) \<Rightarrow> (Some f1, D1))))"

text \<open>History, bus, and the peer's counters.\<close>

definition publish_frame :: "rx_env \<Rightarrow> node_id \<Rightarrow> frame \<Rightarrow> daemon \<Rightarrow> daemon" where
  "publish_frame E p f D =
    (let m = (f_msg_type f, p, f_msg_id f, f_payload f) in
     (upd_peer p (\<lambda>s. s\<lparr>ps_messages_received := ps_messages_received s + 1, ps_last_seen := Some (rx_wall E),
        ps_bytes_received_total := ps_bytes_received_total s + int (length (f_payload f))\<rparr>)
        (D\<lparr>dm_history := dm_history D @ [m], dm_bus := dm_bus D @ [m], dm_received := dm_received D + 1\<rparr>)))"

text \<open>A rotation handler on the daemon.\<close>

definition run_rekey :: "(rekey_node \<Rightarrow> py_error option \<times> rekey_node) \<Rightarrow> daemon \<Rightarrow> py_error option \<times> daemon" where
  "run_rekey h D = (case h \<lparr> rk_link = dm_link D, rk_replay = dm_replay D, rk_pings = dm_pings D, rk_count = dm_rekeys D \<rparr> of
     (e, N) \<Rightarrow> (e, put_link (rk_link N) (D\<lparr>dm_replay := rk_replay N, dm_pings := rk_pings N, dm_rekeys := rk_count N\<rparr>)))"

text \<open>What a delivered frame of a known type does.\<close>

definition after_publish :: "crypto \<Rightarrow> float_io \<Rightarrow> rx_env \<Rightarrow> node_id \<Rightarrow> frame \<Rightarrow> daemon \<Rightarrow> py_error option \<times> daemon" where
  "after_publish C io E p f D =
    (if f_msg_type f = ''KEY_ROTATE'' then (None, upd_peer p (ps_transition (rx_wall E) Handshaking) D)
     else if f_msg_type f = ''REKEY_REQUEST'' then run_rekey (handle_rekey_request C io (rx_rekey E) p (f_payload f)) D
     else if f_msg_type f = ''REKEY_RESPONSE'' then run_rekey (handle_rekey_response C io (rx_rekey E) p (f_payload f)) D
     else if f_msg_type f = ''REVOCATION'' then
       (case handle_revocation C io (rx_tofu E) p (f_payload f) (Option.bind (dm_peer p D) ps_identity_public) (trust_view D) of
          Inl e \<Rightarrow> (Some e, D)
        | Inr (applied, T) \<Rightarrow> (None, put_trust T D))
     else if f_msg_type f = ''PING'' then
       (case send_encrypted_control C io (rx_send E) (rx_frame_id E) p ''PONG'' [] (dm_link D) of (e, l) \<Rightarrow> (e, put_link l D))
     else if f_msg_type f = ''PONG'' then
       (case dget (dm_pings D) p of
          None \<Rightarrow> (None, D)
        | Some sent_at \<Rightarrow> (None, upd_peer p (\<lambda>s. s\<lparr>ps_latency_ms := Some ((rx_tick E - sent_at) * 1000)\<rparr>) (D\<lparr>dm_pings := dpop p (dm_pings D)\<rparr>)))
     else (None, D))"

text \<open>Gate, terminal deduplication, delivery.\<close>

definition deliver_frame :: "crypto \<Rightarrow> float_io \<Rightarrow> rx_env \<Rightarrow> node_id \<Rightarrow> frame \<Rightarrow> daemon \<Rightarrow> py_error option \<times> daemon" where
  "deliver_frame C io E p f D =
    (case gate_inbound C io (rx_tofu E) p (f_msg_type f) (f_msg_id f) (rx_queue E) (trust_view D) of
       (verdict, au, T) \<Rightarrow>
         (let D1 = dm_log (map AuditTrust au) (put_trust T D) in
          if verdict \<noteq> Deliver then (None, seen_now (rx_wall E) p D1)
          else (case (if dm_mesh_on D1 then check_and_add (rx_wall E) (f_source f) (f_msg_id f) (m_dedup (dm_mesh D1)) else (False, m_dedup (dm_mesh D1))) of
            (True, c) \<Rightarrow> (None, seen_now (rx_wall E) p D1)
          | (False, c) \<Rightarrow>
              after_publish C io E p f (publish_frame E p f (D1\<lparr>dm_mesh := (dm_mesh D1)\<lparr>m_dedup := c\<rparr>\<rparr>)))))"

definition dispatch_message :: "crypto \<Rightarrow> float_io \<Rightarrow> rx_env \<Rightarrow> node_id \<Rightarrow> string \<Rightarrow> frame \<Rightarrow> daemon \<Rightarrow> py_error option \<times> daemon" where
  "dispatch_message C io E p transport f0 D0 = (case admit_frame C io E p f0 D0 of
     (Inl e, D) \<Rightarrow> (Some e, D)
   | (Inr None, D) \<Rightarrow> (None, D)
   | (Inr (Some f), D) \<Rightarrow>
       if f_msg_type f \<in> set control_types then (None, handle_control C io E p f D)
       else if will_relay f D then
         (let D1 = seen_now (rx_wall E) p D in
          (None, D1\<lparr>dm_mesh := snd (relay_message C io (rx_send E) (rx_send2 E) (rx_frame_id E) f (Some transport) (dm_mesh D1))\<rparr>))
       else (case unseal_frame C io E p f D of
         (None, D1) \<Rightarrow> (None, D1)
       | (Some f1, D1) \<Rightarrow> deliver_frame C io E p f1 D1))"

section \<open>From the wire\<close>

text \<open>The frame, whether it came under the retiring key, or \<open>None\<close>.\<close>

definition open_frame :: "crypto \<Rightarrow> float_io \<Rightarrow> rx_env \<Rightarrow> bytes \<Rightarrow> bytes \<Rightarrow> peer_state \<Rightarrow> (frame \<times> bool) option" where
  "open_frame C io E raw identity st =
    (let try_key = (\<lambda>key. deserialize_and_decrypt C io (rx_wall E) (rx_uuid E) raw key (Some identity) None) in
     case ps_session_key st of
       None \<Rightarrow> None
     | Some key \<Rightarrow>
         (case try_key key of
            Inr f \<Rightarrow> Some (f, False)
          | Inl e \<Rightarrow>
              (case ps_prev_session_key st of
                 Some prev \<Rightarrow>
                   if rx_tick E < ps_rekey_transition_until st
                   then (case try_key prev of Inr f \<Rightarrow> Some (f, True) | Inl e' \<Rightarrow> None) else None
               | None \<Rightarrow> None)))"

text \<open>An expired rotation is closed before anything else.\<close>

definition retire_rekey :: "rx_env \<Rightarrow> node_id \<Rightarrow> daemon \<Rightarrow> daemon" where
  "retire_rekey E p D = (case dm_peer p D of
     None \<Rightarrow> D
   | Some st \<Rightarrow>
       if ps_prev_session_key st \<noteq> None \<and> rx_tick E \<ge> ps_rekey_transition_until st then
         (case end_rekey_transition st (dm_replay D) of
            (st1, g) \<Rightarrow> put_link (set_peer p st1 (dm_link D)) (D\<lparr>dm_replay := g\<rparr>))
       else D)"

definition handle_binary_frame :: "crypto \<Rightarrow> float_io \<Rightarrow> rx_env \<Rightarrow> node_id \<Rightarrow> string \<Rightarrow> bytes \<Rightarrow> daemon \<Rightarrow> py_error option \<times> daemon" where
  "handle_binary_frame C io E p transport raw D0 =
    (case live_identity p D0 of
       None \<Rightarrow> (None, D0)
     | Some identity \<Rightarrow>
         if length identity \<noteq> 32 then (Some (ValueError ''verify key length''), D0)
         else (let D = retire_rekey E p D0 in
           case dm_peer p D of
             None \<Rightarrow> (None, D)
           | Some st \<Rightarrow>
               (case open_frame C io E raw identity st of
                  None \<Rightarrow> (None, D)
                | Some (f, used_prev) \<Rightarrow>
                    if f_sequence f \<le> 0 then (None, D)
                    else (let replay_key = (if used_prev then (case ps_prev_epoch_key st of None \<Rightarrow> [] | Some e \<Rightarrow> e) else p) in
                      case replay_check (rx_wall E) replay_key (f_sequence f) (f_timestamp f) (dm_replay D) of
                        (Some r, g) \<Rightarrow> (None, D\<lparr>dm_replay := g\<rparr>)
                      | (None, g) \<Rightarrow> dispatch_message C io E p transport f (D\<lparr>dm_replay := g\<rparr>)))))"

definition json_sequence :: "(string, json) dict \<Rightarrow> int py" where
  "json_sequence msg = (case dget_default (JInt 0) msg ''sequence'' of
     JInt n \<Rightarrow> Inr n | JBool b \<Rightarrow> Inr (of_bool b) | _ \<Rightarrow> Inl (TypeError ''sequence''))"

definition json_timestamp :: "time \<Rightarrow> (string, json) dict \<Rightarrow> time py" where
  "json_timestamp now msg = (case py_number (dget_default (JFloat now) msg ''timestamp'') of
     Some t \<Rightarrow> Inr t | None \<Rightarrow> Inl (TypeError ''timestamp''))"

definition handle_json_message :: "crypto \<Rightarrow> float_io \<Rightarrow> rx_env \<Rightarrow> node_id \<Rightarrow> string \<Rightarrow> string \<Rightarrow> daemon \<Rightarrow> py_error option \<times> daemon" where
  "handle_json_message C io E p transport raw D =
    (case (safe_json_loads io (utf8 raw) MAX_JSON_DEPTH, dm_peer p D) of
       (Some (JObj msg), Some st) \<Rightarrow>
         (let encrypted_b64 = dget_default JNull msg ''encrypted_payload'' in
          if \<not> truthy encrypted_b64 then (None, D)
          else (case (json_b64 encrypted_b64, ps_session_key st) of
            (Some encrypted, Some key) \<Rightarrow>
              (case decrypt_message C key encrypted of
                 Inl e \<Rightarrow> (None, D)
               | Inr payload \<Rightarrow>
                   (case json_sequence msg of
                      Inl e \<Rightarrow> (Some e, D)
                    | Inr sequence \<Rightarrow>
                        if sequence \<le> 0 then (None, D)
                        else (case json_timestamp (rx_wall E) msg of
                          Inl e \<Rightarrow> (Some e, D)
                        | Inr timestamp \<Rightarrow>
                            (case replay_check (rx_wall E) p sequence timestamp (dm_replay D) of
                               (Some r, g) \<Rightarrow> (None, D\<lparr>dm_replay := g\<rparr>)
                             | (None, g) \<Rightarrow>
                                 (let D1 = D\<lparr>dm_replay := g\<rparr>; signed = dget_default JNull msg ''signature'' in
                                  if \<not> truthy signed then (None, D1)
                                  else (case (live_identity p D1, json_b64 signed) of
                                    (Some vk, Some sig) \<Rightarrow>
                                      if length vk = 32 \<and> verify_detached C vk encrypted sig = Inr True then
                                        (let msg1 = dset ''msg_id'' (dget_default (JStr (rx_uuid E)) msg ''msg_id'') msg in
                                         case frame_from_json_message io (rx_wall E) (rx_uuid E) (JObj msg1) payload of
                                           Inl e \<Rightarrow> (Some e, D1)
                                         | Inr f \<Rightarrow> dispatch_message C io E p transport (f\<lparr>f_sequence := sequence, f_timestamp := timestamp\<rparr>) D1)
                                      else (None, D1)
                                  | _ \<Rightarrow> (None, D1)))))))
          | _ \<Rightarrow> (None, D)))
     | _ \<Rightarrow> (None, D))"

text \<open>A refused message is answered; what that send raises is swallowed.\<close>

definition notify_rate_limited :: "crypto \<Rightarrow> float_io \<Rightarrow> rx_env \<Rightarrow> node_id \<Rightarrow> daemon \<Rightarrow> daemon" where
  "notify_rate_limited C io E p D =
    put_link (snd (send_encrypted_control C io (rx_send E) (rx_frame_id E) p ''RATE_LIMITED'' [] (dm_link D))) D"

datatype rx_raw = RawText string | RawBytes bytes

definition pass_global_limit :: "rx_env \<Rightarrow> node_id \<Rightarrow> daemon \<Rightarrow> bool \<times> daemon" where
  "pass_global_limit E p D = (case dm_global_limiter D of
     None \<Rightarrow> (True, D)
   | Some b \<Rightarrow>
       (case tb_consume (rx_tick E) 1 b of
          (True, b1) \<Rightarrow> (True, D\<lparr>dm_global_limiter := Some b1\<rparr>)
        | (False, b1) \<Rightarrow>
            (False, if rx_tick E - dm_limit_audit D \<ge> 10
               then dm_log [AuditRateLimited p] (D\<lparr>dm_global_limiter := Some b1, dm_limit_audit := rx_tick E\<rparr>)
               else D\<lparr>dm_global_limiter := Some b1\<rparr>)))"

definition pass_peer_limit :: "rx_env \<Rightarrow> node_id \<Rightarrow> daemon \<Rightarrow> bool \<times> daemon" where
  "pass_peer_limit E p D = (case dget (dm_limiters D) p of
     None \<Rightarrow> (True, D)
   | Some b \<Rightarrow> (case tb_consume (rx_tick E) 1 b of (ok, b1) \<Rightarrow> (ok, D\<lparr>dm_limiters := dset p b1 (dm_limiters D)\<rparr>)))"

definition handle_message :: "crypto \<Rightarrow> float_io \<Rightarrow> rx_env \<Rightarrow> node_id \<Rightarrow> string \<Rightarrow> rx_raw \<Rightarrow> daemon \<Rightarrow> py_error option \<times> daemon" where
  "handle_message C io E p transport raw D = (case dm_peer p D of
     None \<Rightarrow> (None, D)
   | Some st \<Rightarrow>
       if ps_session_key st \<in> {None, Some []} then (None, D)
       else (case pass_global_limit E p D of
         (False, D1) \<Rightarrow> (None, notify_rate_limited C io E p D1)
       | (True, D1) \<Rightarrow>
           (case pass_peer_limit E p D1 of
              (False, D2) \<Rightarrow> (None, notify_rate_limited C io E p D2)
            | (True, D2) \<Rightarrow>
                (case raw of
                   RawText s \<Rightarrow> handle_json_message C io E p transport s D2
                 | RawBytes bs \<Rightarrow>
                     if length bs \<ge> HEADER_SIZE \<and> take 2 bs = FRAME_MAGIC then handle_binary_frame C io E p transport bs D2
                     else (case utf8_decode bs of
                       None \<Rightarrow> (None, D2)
                     | Some s \<Rightarrow> handle_json_message C io E p transport s D2)))))"

end
