(* ===== verification/Delivery.thy ===== *)
theory Delivery
  imports Receive
begin

text \<open>
  What a message has passed before it is published: lemmas on the stages of Receive, and the properties of
  the inbound path they give.
\<close>

section \<open>What the stages leave alone\<close>

text \<open>Nothing was published, and what the later stages consult is as it was. Opening the trust store may
  have rewritten its file.\<close>

definition same_output :: "daemon \<Rightarrow> daemon \<Rightarrow> bool" where
  "same_output D D1 = (dm_bus D1 = dm_bus D \<and> dm_history D1 = dm_history D \<and> dm_received D1 = dm_received D)"

definition same_policy :: "daemon \<Rightarrow> daemon \<Rightarrow> bool" where
  "same_policy D D1 = (dm_mesh_on D1 = dm_mesh_on D \<and> m_dedup (dm_mesh D1) = m_dedup (dm_mesh D) \<and> dm_me D1 = dm_me D
     \<and> dm_pinned D1 = dm_pinned D \<and> dm_min_version D1 = dm_min_version D \<and> dm_x25519 D1 = dm_x25519 D
     \<and> (\<forall>q. live_identity q D1 = live_identity q D))"

definition store_reopened :: "crypto \<Rightarrow> float_io \<Rightarrow> tofu_env \<Rightarrow> daemon \<Rightarrow> daemon \<Rightarrow> bool" where
  "store_reopened C io V D D1 = (dm_trust D1 = dm_trust D \<or>
     (\<exists>st disk. open_store C io V (dm_trust D) = Inr (st, disk) \<and> dm_trust D1 = (dm_trust D)\<lparr>td_file := disk\<rparr>))"

lemma same_output_refl [simp]: "same_output D D"
  by (simp add: same_output_def)

lemma same_output_trans: "same_output D D1 \<Longrightarrow> same_output D1 D2 \<Longrightarrow> same_output D D2"
  by (simp add: same_output_def)

lemma same_policy_refl [simp]: "same_policy D D"
  by (simp add: same_policy_def)

lemma same_policy_trans: "same_policy D D1 \<Longrightarrow> same_policy D1 D2 \<Longrightarrow> same_policy D D2"
  by (simp add: same_policy_def)

lemma same_output_put_link [simp]: "same_output D (put_link l D)"
  by (simp add: same_output_def put_link_def)

lemma same_output_upd_peer [simp]: "same_output D (upd_peer p f D)"
  by (simp add: upd_peer_def split: option.splits)

lemma same_output_seen [simp]: "same_output D (seen_now now p D)"
  by (simp add: seen_now_def)

lemma same_output_log [simp]: "same_output D (dm_log es D)"
  by (simp add: same_output_def dm_log_def)

lemma same_output_put_trust [simp]: "same_output D (put_trust T D)"
  by (simp add: same_output_def put_trust_def put_link_def)

text \<open>Updates of the other components.\<close>

lemma same_output_fields [simp]:
  "same_output D (D\<lparr>dm_mesh := mr\<rparr>)" "same_output D (D\<lparr>dm_trust := T\<rparr>)" "same_output D (D\<lparr>dm_replay := g\<rparr>)"
  "same_output D (D\<lparr>dm_announce_dedup := a\<rparr>)" "same_output D (D\<lparr>dm_announce_cache := c\<rparr>)"
  "same_output D (D\<lparr>dm_caps := k\<rparr>)" "same_output D (D\<lparr>dm_caps_file := kf\<rparr>)" "same_output D (D\<lparr>dm_pings := pg\<rparr>)"
  "same_output D (D\<lparr>dm_global_limiter := gl\<rparr>)" "same_output D (D\<lparr>dm_limiters := ls\<rparr>)"
  "same_output D (D\<lparr>dm_global_limiter := gl, dm_limit_audit := la\<rparr>)"
  "same_output D (D\<lparr>dm_inner_drops := n\<rparr>)" "same_output D (D\<lparr>dm_bad_announces := n\<rparr>)"
  "same_output D (D\<lparr>dm_group_seen := gs\<rparr>)" "same_output D (D\<lparr>dm_group_seen := gs, dm_groups := gg\<rparr>)"
  by (simp_all add: same_output_def)

lemma same_output_bad_announce [simp]: "same_output D (bad_announce es D)"
  unfolding bad_announce_def by (rule same_output_trans [OF _ same_output_log]) simp

lemma audit_inner_drop_same [simp]: "same_output D (audit_inner_drop p f r D)"
  unfolding audit_inner_drop_def by (rule same_output_trans [OF _ same_output_log]) simp

lemma get_peer_identity_key_same:
  "same_output D (snd (get_peer_identity_key C io V p D)) \<and> same_policy D (snd (get_peer_identity_key C io V p D))
   \<and> store_reopened C io V D (snd (get_peer_identity_key C io V p D))"
  by (auto simp: get_peer_identity_key_def same_policy_def store_reopened_def live_identity_def split: option.splits sum.splits)

lemma lookup_source_verify_key_same:
  "same_output D (snd (lookup_source_verify_key C io V p D)) \<and> same_policy D (snd (lookup_source_verify_key C io V p D))
   \<and> store_reopened C io V D (snd (lookup_source_verify_key C io V p D))"
proof -
  have "snd (lookup_source_verify_key C io V p D) \<in> {D, snd (get_peer_identity_key C io V p D)}"
    by (auto simp: lookup_source_verify_key_def split: sum.splits option.splits prod.splits)
  then show ?thesis
    using get_peer_identity_key_same [of D C io V p] by (auto simp: store_reopened_def)
qed

lemma lookup_source_verify_key_cong:
  assumes "same_policy D D1" "dm_trust D1 = dm_trust D"
  shows "fst (lookup_source_verify_key C io V p D1) = fst (lookup_source_verify_key C io V p D)"
proof -
  have "fst (get_peer_identity_key C io V p D1) = fst (get_peer_identity_key C io V p D)"
    using assms by (auto simp: get_peer_identity_key_def same_policy_def split: option.splits sum.splits)
  then show ?thesis
    using assms unfolding lookup_source_verify_key_def
    by (auto simp: lookup_dest_identity_def same_policy_def split: sum.splits option.splits prod.splits)
qed

section \<open>The source check\<close>

text \<open>A user payload is the peer's own and carries no signature that could be checked, or is signed under the
  key the node holds for its source.\<close>

definition source_vouched :: "crypto \<Rightarrow> float_io \<Rightarrow> tofu_env \<Rightarrow> node_id \<Rightarrow> frame \<Rightarrow> daemon \<Rightarrow> bool" where
  "source_vouched C io V p f D = (f_msg_type f \<notin> set source_sig_required_types
     \<or> (f_source f = p \<and> (f_source_signature f = None \<or> fst (lookup_source_verify_key C io V (f_source f) D) = Inr None))
     \<or> (case fst (lookup_source_verify_key C io V (f_source f) D) of
          Inr (Some vk) \<Rightarrow> verify_source_signature C vk (inner_source_allow_v1 D) f = Inr True
        | _ \<Rightarrow> False))"

lemma allow_v1_cong: "same_policy D D1 \<Longrightarrow> inner_source_allow_v1 D1 = inner_source_allow_v1 D"
  by (simp add: inner_source_allow_v1_def same_policy_def)

lemma source_vouched_cong:
  assumes "same_policy D D1" "dm_trust D1 = dm_trust D"
  shows "source_vouched C io V p f D1 = source_vouched C io V p f D"
  unfolding source_vouched_def lookup_source_verify_key_cong [OF assms] allow_v1_cong [OF assms(1)] ..

definition same_but_mark :: "frame \<Rightarrow> frame \<Rightarrow> bool" where
  "same_but_mark f f1 = (\<exists>b. f1 = f\<lparr>f_source_authenticated := b\<rparr>)"

lemma same_but_markD:
  "same_but_mark f f1 \<Longrightarrow> f_msg_type f1 = f_msg_type f \<and> f_msg_id f1 = f_msg_id f \<and> f_payload f1 = f_payload f
     \<and> f_source f1 = f_source f \<and> f_destination f1 = f_destination f \<and> f_e2e_payload f1 = f_e2e_payload f
     \<and> f_routing f1 = f_routing f"
  by (auto simp: same_but_mark_def)

lemma same_but_mark_refl [simp]: "same_but_mark f f"
  by (simp add: same_but_mark_def exI [of _ "f_source_authenticated f"])

lemma verify_inner_source_same:
  "verify_inner_source C io V p f D = (r, D1) \<Longrightarrow> same_output D D1"
  using lookup_source_verify_key_same [of D C io V "f_source f"]
  unfolding verify_inner_source_def
  by (cases "lookup_source_verify_key C io V (f_source f) D"; cases "fst (lookup_source_verify_key C io V (f_source f) D)")
    (auto split: if_splits option.splits sum.splits bool.splits intro: same_output_trans [OF _ audit_inner_drop_same])

lemma verify_inner_source_passes:
  assumes "verify_inner_source C io V p f D = (Inr (True, f1), D1)"
  shows "source_vouched C io V p f D \<and> same_but_mark f f1 \<and> same_policy D D1 \<and> store_reopened C io V D D1"
proof -
  obtain k D2 where k: "lookup_source_verify_key C io V (f_source f) D = (k, D2)" by (cases "lookup_source_verify_key C io V (f_source f) D")
  have D2: "same_policy D D2" "store_reopened C io V D D2"
    using lookup_source_verify_key_same [of D C io V "f_source f"] k by simp_all
  show ?thesis
    using assms D2
    unfolding verify_inner_source_def source_vouched_def k
    by (auto simp: store_reopened_def same_but_mark_def allow_v1_cong split: if_splits option.splits sum.splits bool.splits
        intro: exI [of _ "f_source_authenticated f"])
qed

section \<open>Stages that publish nothing\<close>

lemma on_group_message_same [simp]: "same_output D (on_group_message C now payload D)"
  by (simp add: on_group_message_def Let_def same_output_def)

lemma check_signed_announce_same: "same_output D (snd (check_signed_announce C io E p origin caps sig data payload D))"
proof -
  obtain k D1 where k: "get_peer_identity_key C io (rx_tofu E) origin D = (k, D1)" by (cases "get_peer_identity_key C io (rx_tofu E) origin D")
  have D1: "same_output D D1" using get_peer_identity_key_same [of D C io "rx_tofu E" origin] k by simp
  have "same_output D1 (snd (check_signed_announce C io E p origin caps sig data payload D))"
    unfolding check_signed_announce_def k
    by (auto simp: Let_def bad_announce_def dm_log_def same_output_def split: sum.splits option.splits)
  then show ?thesis using D1 by (rule same_output_trans [rotated])
qed

lemma learn_announced_same [simp]: "same_output D (learn_announced C io E origin caps D)"
  unfolding learn_announced_def Let_def
  by (auto simp: dm_log_def same_output_def split: option.splits sum.splits prod.splits)

lemma apply_cap_announce_same: "same_output D (apply_cap_announce C io E p origin js data payload D)"
proof -
  have last: "same_output D (case r of (ok, D1) \<Rightarrow> if ok \<longrightarrow> origin = dm_me D1 then D1 else learn_announced C io E origin caps D1)"
    if "same_output D (snd r)" for r caps
    using that same_output_trans [OF _ learn_announced_same] by (cases r) simp
  show ?thesis
    unfolding apply_cap_announce_def Let_def
    by (simp add: last check_signed_announce_same del: split_paired_All)
qed

lemma handle_cap_announce_same [simp]: "same_output D (handle_cap_announce C io E p payload D)"
  unfolding handle_cap_announce_def
  by (simp add: apply_cap_announce_same split: option.split json.split)

lemma handle_control_same [simp]: "same_output D (handle_control C io E p f D)"
proof -
  have "same_output (seen_now (rx_wall E) p D) D1 \<Longrightarrow> same_output D D1" for D1
    by (rule same_output_trans [OF same_output_seen])
  then show ?thesis unfolding handle_control_def Let_def by simp
qed

lemma run_rekey_same [simp]: "same_output D (snd (run_rekey h D))"
  by (auto simp: run_rekey_def put_link_def same_output_def split: prod.splits)

lemma after_publish_same [simp]: "same_output D (snd (after_publish C io E p f D))"
  unfolding after_publish_def
  by (auto split: prod.splits sum.splits option.splits intro: same_output_trans [OF _ same_output_upd_peer])

lemma notify_rate_limited_same [simp]: "same_output D (notify_rate_limited C io E p D)"
  by (simp add: notify_rate_limited_def)

lemma pass_limits_same:
  "same_output D (snd (pass_global_limit E p D))" "same_output D (snd (pass_peer_limit E p D))"
  by (auto simp: pass_global_limit_def pass_peer_limit_def same_output_def dm_log_def split: option.splits prod.splits bool.splits)

lemma pass_limits_policy:
  "pass_global_limit E p D = (True, D1) \<Longrightarrow> same_policy D D1 \<and> dm_trust D1 = dm_trust D \<and> dm_link D1 = dm_link D \<and> dm_replay D1 = dm_replay D"
  "pass_peer_limit E p D = (True, D1) \<Longrightarrow> same_policy D D1 \<and> dm_trust D1 = dm_trust D \<and> dm_link D1 = dm_link D \<and> dm_replay D1 = dm_replay D"
  by (auto simp: pass_global_limit_def pass_peer_limit_def same_policy_def live_identity_def split: option.splits prod.splits bool.splits)

lemma retire_rekey_same: "same_output D (retire_rekey E p D)"
  by (auto simp: retire_rekey_def same_output_def put_link_def split: option.splits prod.splits)

lemma retire_rekey_policy: "same_policy D (retire_rekey E p D) \<and> dm_trust (retire_rekey E p D) = dm_trust D"
  by (auto simp: retire_rekey_def same_policy_def put_link_def set_peer_def live_identity_def end_rekey_transition_def
      split: option.splits prod.splits)

section \<open>Frames that arrive\<close>

text \<open>The frame is one the peer's session vouches for: opened under its session key or, inside the grace window
  of a rotation, the previous one, signed by the peer's identity key, and fresh for the replay guard.\<close>

inductive arrives :: "crypto \<Rightarrow> float_io \<Rightarrow> rx_env \<Rightarrow> node_id \<Rightarrow> daemon \<Rightarrow> rx_raw \<Rightarrow> frame \<Rightarrow> bool"
  for C io E p D where
  current:
    "dm_peer p D = Some st \<Longrightarrow> ps_session_key st = Some key \<Longrightarrow> live_identity p D = Some vk \<Longrightarrow> length vk = 32
     \<Longrightarrow> deserialize_and_decrypt C io (rx_wall E) (rx_uuid E) bs key (Some vk) None = Inr f
     \<Longrightarrow> 0 < f_sequence f \<Longrightarrow> fst (replay_check (rx_wall E) p (f_sequence f) (f_timestamp f) (dm_replay (retire_rekey E p D))) = None
     \<Longrightarrow> arrives C io E p D (RawBytes bs) f"
| previous:
    "dm_peer p D = Some st \<Longrightarrow> ps_prev_session_key st = Some key \<Longrightarrow> rx_tick E < ps_rekey_transition_until st
     \<Longrightarrow> live_identity p D = Some vk \<Longrightarrow> length vk = 32
     \<Longrightarrow> deserialize_and_decrypt C io (rx_wall E) (rx_uuid E) bs key (Some vk) None = Inr f
     \<Longrightarrow> 0 < f_sequence f
     \<Longrightarrow> fst (replay_check (rx_wall E) (case ps_prev_epoch_key st of None \<Rightarrow> [] | Some e \<Rightarrow> e) (f_sequence f) (f_timestamp f)
           (dm_replay D)) = None
     \<Longrightarrow> arrives C io E p D (RawBytes bs) f"
| json:
    "dm_peer p D = Some st \<Longrightarrow> ps_session_key st = Some key \<Longrightarrow> live_identity p D = Some vk \<Longrightarrow> length vk = 32
     \<Longrightarrow> raw = RawText s \<or> raw = RawBytes bs \<and> utf8_decode bs = Some s
     \<Longrightarrow> safe_json_loads io (utf8 s) MAX_JSON_DEPTH = Some (JObj msg)
     \<Longrightarrow> json_b64 (dget_default JNull msg ''encrypted_payload'') = Some encrypted
     \<Longrightarrow> decrypt_message C key encrypted = Inr (f_payload f)
     \<Longrightarrow> json_b64 (dget_default JNull msg ''signature'') = Some sig \<Longrightarrow> verify_detached C vk encrypted sig = Inr True
     \<Longrightarrow> 0 < f_sequence f \<Longrightarrow> fst (replay_check (rx_wall E) p (f_sequence f) (f_timestamp f) (dm_replay D)) = None
     \<Longrightarrow> arrives C io E p D raw f"

section \<open>Delivery\<close>

text \<open>The trust store, as it is read when the gate asks it, calls the peer trusted.\<close>

definition gate_admits :: "crypto \<Rightarrow> float_io \<Rightarrow> tofu_env \<Rightarrow> node_id \<Rightarrow> string \<Rightarrow> trust_daemon \<Rightarrow> bool" where
  "gate_admits C io V p ty T = (td_gate_on T \<and> ty \<in> {''MSG'', ''REQ'', ''RESP''} \<and> p \<noteq> td_node_id T \<longrightarrow>
     (case open_store C io V T of Inr (st, disk) \<Rightarrow> get_trust_state p st = JStr ''trusted'' | Inl e \<Rightarrow> False))"

lemma gate_deliver:
  "fst (gate_inbound C io V p ty mid q (trust_view D)) = Deliver \<longleftrightarrow> gate_admits C io V p ty (dm_trust D)"
proof -
  have "open_store C io V (trust_view D) = open_store C io V (dm_trust D)"
    by (simp add: open_store_def trust_view_def)
  then show ?thesis
    unfolding gate_inbound_def gate_admits_def
    by (auto simp: Let_def trust_view_def gated_types_def split: sum.split queue_result.split)
qed

text \<open>Nothing, or the one message, with its body, on the bus and in the history.\<close>

definition published :: "node_id \<Rightarrow> frame \<Rightarrow> bytes \<Rightarrow> daemon \<Rightarrow> daemon \<Rightarrow> bool" where
  "published p f body D D' = (let m = (f_msg_type f, p, f_msg_id f, body) in
     dm_bus D' = dm_bus D @ [m] \<and> dm_history D' = dm_history D @ [m] \<and> dm_received D' = dm_received D + 1)"

definition fresh_here :: "rx_env \<Rightarrow> frame \<Rightarrow> daemon \<Rightarrow> bool" where
  "fresh_here E f D = (dm_mesh_on D \<longrightarrow> \<not> fst (check_and_add (rx_wall E) (f_source f) (f_msg_id f) (m_dedup (dm_mesh D))))"

lemma deliver_frame_publishes:
  assumes "deliver_frame C io E p f D = (e, D')"
  shows "if gate_admits C io (rx_tofu E) p (f_msg_type f) (dm_trust D) \<and> fresh_here E f D
    then published p f (f_payload f) D D' else same_output D D'"
proof -
  obtain v au T where g: "gate_inbound C io (rx_tofu E) p (f_msg_type f) (f_msg_id f) (rx_queue E) (trust_view D) = (v, au, T)"
    using prod_cases3 by blast
  have v: "v = Deliver \<longleftrightarrow> gate_admits C io (rx_tofu E) p (f_msg_type f) (dm_trust D)"
    using gate_deliver [of C io "rx_tofu E" p "f_msg_type f" "f_msg_id f" "rx_queue E" D] g by simp
  define D1 where "D1 = dm_log (map AuditTrust au) (put_trust T D)"
  have D1: "same_output D D1" unfolding D1_def by (rule same_output_trans [OF same_output_put_trust same_output_log])
  let ?c = "check_and_add (rx_wall E) (f_source f) (f_msg_id f) (m_dedup (dm_mesh D))"
  have mesh: "dm_mesh_on D1 = dm_mesh_on D" "m_dedup (dm_mesh D1) = m_dedup (dm_mesh D)"
    by (simp_all add: D1_def dm_log_def put_trust_def put_link_def)
  have eq: "deliver_frame C io E p f D = (if v \<noteq> Deliver then (None, seen_now (rx_wall E) p D1)
      else (case (if dm_mesh_on D then ?c else (False, m_dedup (dm_mesh D))) of
            (True, c) \<Rightarrow> (None, seen_now (rx_wall E) p D1)
          | (False, c) \<Rightarrow> after_publish C io E p f (publish_frame E p f (D1\<lparr>dm_mesh := (dm_mesh D1)\<lparr>m_dedup := c\<rparr>\<rparr>))))"
    unfolding deliver_frame_def g by (simp add: D1_def [symmetric] mesh)
  show ?thesis
  proof (cases "v = Deliver \<and> fresh_here E f D")
    case True
    then obtain c where "deliver_frame C io E p f D = after_publish C io E p f (publish_frame E p f (D1\<lparr>dm_mesh := (dm_mesh D1)\<lparr>m_dedup := c\<rparr>\<rparr>))"
      unfolding eq fresh_here_def by (cases "dm_mesh_on D"; cases ?c) auto
    then have "same_output (publish_frame E p f (D1\<lparr>dm_mesh := (dm_mesh D1)\<lparr>m_dedup := c\<rparr>\<rparr>)) D'"
      using assms after_publish_same by (metis snd_conv)
    then have "published p f (f_payload f) D1 D'"
      by (auto simp: published_def publish_frame_def same_output_def Let_def upd_peer_def put_link_def split: option.splits)
    then show ?thesis using True D1 v by (auto simp: same_output_def published_def)
  next
    case False
    then have "D' = seen_now (rx_wall E) p D1"
      using assms unfolding eq fresh_here_def by (cases "dm_mesh_on D"; cases ?c) (auto split: if_splits)
    then show ?thesis using D1 False v same_output_trans same_output_seen by metis
  qed
qed

text \<open>The frame the source's signature is checked on, and the body that is delivered.\<close>

definition opens_to :: "crypto \<Rightarrow> rx_env \<Rightarrow> daemon \<Rightarrow> frame \<Rightarrow> frame \<Rightarrow> bytes \<Rightarrow> bool" where
  "opens_to C E D f fs body = (case f_e2e_payload f of
     None \<Rightarrow> fs = f \<and> (body = f_payload f \<or> bounded_gunzip (rx_gunzip E) (f_payload f) MAX_DECOMPRESSED_BYTES = Some body)
   | Some sealed \<Rightarrow> unseal_from_source C sealed (td_ed_secret (dm_trust D)) (dm_x25519 D) = Inr body \<and> fs = f\<lparr>f_payload := body\<rparr>)"

definition cleared :: "crypto \<Rightarrow> float_io \<Rightarrow> rx_env \<Rightarrow> node_id \<Rightarrow> frame \<Rightarrow> daemon \<Rightarrow> bytes \<Rightarrow> bool" where
  "cleared C io E p f D body =
    (\<not> will_relay f D \<and> f_msg_type f \<notin> set control_types
     \<and> (\<exists>fs. opens_to C E D f fs body \<and> source_vouched C io (rx_tofu E) p fs D)
     \<and> (\<exists>D1. store_reopened C io (rx_tofu E) D D1 \<and> gate_admits C io (rx_tofu E) p (f_msg_type f) (dm_trust D1))
     \<and> fresh_here E f D)"

lemma cleared_cong:
  assumes "same_policy D D1" "dm_trust D1 = dm_trust D"
  shows "cleared C io E p f D1 body = cleared C io E p f D body"
proof -
  have "will_relay f D1 = will_relay f D" "dm_mesh_on D1 = dm_mesh_on D" "m_dedup (dm_mesh D1) = m_dedup (dm_mesh D)"
    using assms(1) by (auto simp: will_relay_def same_policy_def)
  moreover have "opens_to C E D1 f fs body = opens_to C E D f fs body" for fs
    using assms by (simp add: opens_to_def same_policy_def split: option.split)
  moreover have "store_reopened C io V D1 D2 = store_reopened C io V D D2" for V D2
    using assms(2) by (simp add: store_reopened_def)
  ultimately show ?thesis unfolding cleared_def fresh_here_def source_vouched_cong [OF assms] by simp
qed

lemma admit_frame_same: "same_output D (snd (admit_frame C io E p f D))"
proof -
  have "snd (admit_frame C io E p f D) \<in> {D, snd (verify_inner_source C io (rx_tofu E) p f D)}"
    unfolding admit_frame_def by (auto split: sum.splits prod.splits bool.splits option.splits if_splits)
  moreover have "same_output D (snd (verify_inner_source C io (rx_tofu E) p f D))"
    by (metis verify_inner_source_same surjective_pairing)
  ultimately show ?thesis by (metis empty_iff insert_iff same_output_refl)
qed

lemma admit_frame_passes:
  assumes "admit_frame C io E p f D = (Inr (Some f1), D1)"
  shows "\<exists>f2 body. same_but_mark f f2 \<and> f1 = f2\<lparr>f_payload := body\<rparr>
    \<and> (f_e2e_payload f = None \<longrightarrow> opens_to C E D f f body \<and> source_vouched C io (rx_tofu E) p f D)
    \<and> (f_e2e_payload f \<noteq> None \<longrightarrow> f2 = f \<and> D1 = D)
    \<and> same_policy D D1 \<and> store_reopened C io (rx_tofu E) D D1"
proof (cases "f_e2e_payload f")
  case None
  obtain f2 where v: "verify_inner_source C io (rx_tofu E) p f D = (Inr (True, f2), D1)"
    using assms None unfolding admit_frame_def
    by (auto split: sum.splits prod.splits bool.splits option.splits if_splits)
  have f2: "same_but_mark f f2" using verify_inner_source_passes [OF v] by simp
  have "f1 = f2\<lparr>f_payload := f_payload f1\<rparr> \<and> opens_to C E D f f (f_payload f1)"
    using assms None v same_but_markD [OF f2] unfolding admit_frame_def opens_to_def
    by (auto split: sum.splits bool.splits option.splits if_splits)
  then show ?thesis using None f2 verify_inner_source_passes [OF v] by blast
next
  case (Some sealed)
  then have "D1 = D \<and> (\<exists>body. f1 = f\<lparr>f_payload := body\<rparr>)"
    using assms unfolding admit_frame_def
    by (auto split: sum.splits bool.splits option.splits if_splits intro: exI [of _ "f_payload f"])
  then show ?thesis using Some by (auto simp: store_reopened_def)
qed

lemma unseal_frame_same: "same_output D (snd (unseal_frame C io E p f D))"
  unfolding unseal_frame_def
  using verify_inner_source_same [of C io "rx_tofu E" p _ D] same_output_trans [OF _ same_output_log]
  by (fastforce split: sum.split prod.split bool.split option.split)

text \<open>A sealed frame was not checked yet; the others pass through.\<close>

lemma unseal_frame_passes:
  assumes "unseal_frame C io E p f D = (Some f1, D1)"
  shows "f_e2e_payload f = None \<and> f1 = f \<and> D1 = D \<or>
    (\<exists>body f2. f_e2e_payload f \<noteq> None \<and> same_but_mark (f\<lparr>f_payload := body\<rparr>) f1 \<and> opens_to C E D f (f\<lparr>f_payload := body\<rparr>) body
       \<and> source_vouched C io (rx_tofu E) p (f\<lparr>f_payload := body\<rparr>) D \<and> store_reopened C io (rx_tofu E) D D1 \<and> same_policy D D1)"
proof (cases "f_e2e_payload f")
  case None
  then show ?thesis using assms by (simp add: unseal_frame_def)
next
  case (Some sealed)
  then obtain body where body: "unseal_from_source C sealed (td_ed_secret (dm_trust D)) (dm_x25519 D) = Inr body"
      "verify_inner_source C io (rx_tofu E) p (f\<lparr>f_payload := body\<rparr>) D = (Inr (True, f1), D1)"
    using assms unfolding unseal_frame_def by (auto split: sum.splits prod.splits bool.splits)
  then show ?thesis using Some verify_inner_source_passes [OF body(2)] by (auto simp: opens_to_def)
qed

text \<open>The two stages together: the frame that is delivered is the one admitted, with the body it opens to.\<close>

lemma admit_unseal_passes:
  assumes "admit_frame C io E p f D = (Inr (Some f1), D1)" "unseal_frame C io E p f1 D1 = (Some f2, D2)"
  shows "\<exists>fs. opens_to C E D f fs (f_payload f2) \<and> source_vouched C io (rx_tofu E) p fs D"
    and "f_msg_type f2 = f_msg_type f" "f_msg_id f2 = f_msg_id f" "f_source f2 = f_source f"
    and "f_msg_type f1 = f_msg_type f" "f_destination f1 = f_destination f"
    and "same_policy D D1" "same_policy D D2" "store_reopened C io (rx_tofu E) D D2"
proof -
  obtain fa b where fa: "same_but_mark f fa" "f1 = fa\<lparr>f_payload := b\<rparr>"
      and plain: "f_e2e_payload f = None \<longrightarrow> opens_to C E D f f b \<and> source_vouched C io (rx_tofu E) p f D"
      and sealed: "f_e2e_payload f \<noteq> None \<longrightarrow> fa = f \<and> D1 = D"
      and D1: "same_policy D D1" "store_reopened C io (rx_tofu E) D D1"
    using admit_frame_passes [OF assms(1)] by (elim exE conjE) (rule that; assumption)
  note fields = same_but_markD [OF fa(1)]
  show "f_msg_type f1 = f_msg_type f" "f_destination f1 = f_destination f" "same_policy D D1" using fa fields D1 by simp_all
  have "(\<exists>fs. opens_to C E D f fs (f_payload f2) \<and> source_vouched C io (rx_tofu E) p fs D)
    \<and> f_msg_type f2 = f_msg_type f \<and> f_msg_id f2 = f_msg_id f \<and> f_source f2 = f_source f
    \<and> same_policy D D2 \<and> store_reopened C io (rx_tofu E) D D2"
  proof (cases "f_e2e_payload f")
    case None
    then have "f2 = f1" "D2 = D1" using unseal_frame_passes [OF assms(2)] fa(2) fields by auto
    then show ?thesis using None plain fa fields D1 by auto
  next
    case (Some s)
    then have f1: "f1 = f\<lparr>f_payload := b\<rparr>" "D1 = D" using fa sealed by auto
    then obtain body where body: "same_but_mark (f\<lparr>f_payload := body\<rparr>) f2" "opens_to C E D f1 (f\<lparr>f_payload := body\<rparr>) body"
        "source_vouched C io (rx_tofu E) p (f\<lparr>f_payload := body\<rparr>) D" "store_reopened C io (rx_tofu E) D D2" "same_policy D D2"
      using unseal_frame_passes [OF assms(2)] Some by auto
    have "opens_to C E D f (f\<lparr>f_payload := body\<rparr>) body" using body(2) f1 Some by (simp add: opens_to_def)
    then show ?thesis using body same_but_markD [OF body(1)] by auto
  qed
  then show "\<exists>fs. opens_to C E D f fs (f_payload f2) \<and> source_vouched C io (rx_tofu E) p fs D"
    "f_msg_type f2 = f_msg_type f" "f_msg_id f2 = f_msg_id f" "f_source f2 = f_source f"
    "same_policy D D2" "store_reopened C io (rx_tofu E) D D2" by blast+
qed

lemma dispatch_publishes:
  assumes "dispatch_message C io E p tr f D = (e, D')"
  shows "same_output D D' \<or> (\<exists>body. cleared C io E p f D body \<and> published p f body D D')"
proof -
  obtain r D1 where a: "admit_frame C io E p f D = (r, D1)" by (cases "admit_frame C io E p f D")
  have D1: "same_output D D1" using admit_frame_same [of D C io E p f] a by simp
  show ?thesis
  proof (cases "\<exists>f1 f2 D2. r = Inr (Some f1) \<and> f_msg_type f1 \<notin> set control_types \<and> \<not> will_relay f1 D1
      \<and> unseal_frame C io E p f1 D1 = (Some f2, D2)")
    case False
    have rel: "same_output D1 ((seen_now now p D1)\<lparr>dm_mesh := m\<rparr>)" for m now
      by (simp add: same_output_def seen_now_def upd_peer_def put_link_def split: option.split)
    have "same_output D1 D2" if "unseal_frame C io E p f1 D1 = (None, D2)" for f1 D2
      using unseal_frame_same [of D1 C io E p f1] that by simp
    then have "same_output D1 D'"
      using assms False rel unfolding dispatch_message_def a Let_def
      by (auto split: prod.splits sum.splits option.splits if_splits)
    then show ?thesis using D1 same_output_trans by blast
  next
    case True
    then obtain f1 f2 D2 where r: "r = Inr (Some f1)" and t: "f_msg_type f1 \<notin> set control_types" "\<not> will_relay f1 D1"
        and u: "unseal_frame C io E p f1 D1 = (Some f2, D2)" by blast
    note pass = admit_unseal_passes [OF a [unfolded r] u]
    have "same_output D1 D2" using unseal_frame_same [of D1 C io E p f1] u by simp
    then have out: "same_output D D2" using D1 same_output_trans by blast
    have "deliver_frame C io E p f2 D2 = (e, D')"
      using assms t u unfolding dispatch_message_def a r by simp
    note delivered = deliver_frame_publishes [OF this]
    show ?thesis
    proof (cases "gate_admits C io (rx_tofu E) p (f_msg_type f2) (dm_trust D2) \<and> fresh_here E f2 D2")
      case False
      then show ?thesis using delivered out same_output_trans by auto
    next
      case True
      then have "published p f2 (f_payload f2) D2 D'" using delivered by simp
      then have "published p f (f_payload f2) D D'" using out pass by (simp add: published_def same_output_def)
      moreover have "cleared C io E p f D (f_payload f2)"
        using pass t True unfolding cleared_def fresh_here_def by (auto simp: same_policy_def will_relay_def)
      ultimately show ?thesis by blast
    qed
  qed
qed

section \<open>From the wire to the bus\<close>

definition properly_published :: "crypto \<Rightarrow> float_io \<Rightarrow> rx_env \<Rightarrow> node_id \<Rightarrow> rx_raw \<Rightarrow> daemon \<Rightarrow> daemon \<Rightarrow> bool" where
  "properly_published C io E p raw D D' =
    (\<exists>f body. arrives C io E p D raw f \<and> cleared C io E p f D body \<and> published p f body D D')"

lemma properly_published_cong:
  assumes "same_policy D D1" "dm_trust D1 = dm_trust D" "same_output D D1" "arrives C io E p D raw f"
    "dispatch_message C io E p tr f D1 = (e, D')"
  shows "same_output D D' \<or> properly_published C io E p raw D D'"
  using dispatch_publishes [OF assms(5)]
proof
  assume "same_output D1 D'"
  then show ?thesis using assms(3) same_output_trans by blast
next
  assume "\<exists>body. cleared C io E p f D1 body \<and> published p f body D1 D'"
  moreover have "published p f body D1 D' = published p f body D D'" for body
    using assms(3) by (simp add: published_def same_output_def)
  ultimately show ?thesis
    unfolding properly_published_def cleared_cong [OF assms(1,2)] using assms(4) by blast
qed

lemma retired_peer:
  "dm_peer p (retire_rekey E p D) = map_option (\<lambda>st. if ps_prev_session_key st \<noteq> None \<and> rx_tick E \<ge> ps_rekey_transition_until st
     then st\<lparr>ps_prev_session_key := None, ps_prev_epoch_key := None, ps_rekey_transition_until := 0\<rparr> else st) (dm_peer p D)"
  by (auto simp: retire_rekey_def put_link_def set_peer_def end_rekey_transition_def split: option.splits)

lemma opened_frame_arrives:
  assumes "live_identity p D = Some vk" "length vk = 32" "dm_peer p (retire_rekey E p D) = Some st"
    "open_frame C io E bs vk st = Some (f, used_prev)" "0 < f_sequence f"
    "fst (replay_check (rx_wall E) (if used_prev then (case ps_prev_epoch_key st of None \<Rightarrow> [] | Some e \<Rightarrow> e) else p)
       (f_sequence f) (f_timestamp f) (dm_replay (retire_rekey E p D))) = None"
  shows "arrives C io E p D (RawBytes bs) f"
proof -
  obtain st0 where p0: "dm_peer p D = Some st0"
      and eq: "st = (if ps_prev_session_key st0 \<noteq> None \<and> rx_tick E \<ge> ps_rekey_transition_until st0
        then st0\<lparr>ps_prev_session_key := None, ps_prev_epoch_key := None, ps_rekey_transition_until := 0\<rparr> else st0)"
    using assms(3) unfolding retired_peer by (cases "dm_peer p D") simp_all
  have st0: "dm_peer p D = Some st0" "ps_session_key st = ps_session_key st0" "st = st0 \<or> ps_prev_session_key st = None"
    by (rule p0) (subst eq, simp)+
  show ?thesis
  proof (cases used_prev)
    case False
    then obtain key where key: "ps_session_key st = Some key"
        "deserialize_and_decrypt C io (rx_wall E) (rx_uuid E) bs key (Some vk) None = Inr f"
      using assms(4) by (auto simp: open_frame_def Let_def split: option.splits sum.splits if_splits)
    show ?thesis
      by (rule arrives.current [OF st0(1) key(1) [unfolded st0(2)] assms(1,2) key(2) assms(5)]) (use assms(6) False in simp)
  next
    case True
    then obtain key where key: "ps_prev_session_key st = Some key" "rx_tick E < ps_rekey_transition_until st"
        "deserialize_and_decrypt C io (rx_wall E) (rx_uuid E) bs key (Some vk) None = Inr f"
      using assms(4) by (auto simp: open_frame_def Let_def split: option.splits sum.splits if_splits)
    then have "st = st0" using st0(3) by auto
    then have "retire_rekey E p D = D" using st0(1) key(2) by (simp add: retire_rekey_def)
    then show ?thesis using arrives.previous [OF st0(1)] key assms True \<open>st = st0\<close> by auto
  qed
qed

lemma binary_frame_publishes:
  assumes "handle_binary_frame C io E p tr bs D = (e, D')"
  shows "same_output D D' \<or> properly_published C io E p (RawBytes bs) D D'"
proof -
  let ?R = "retire_rekey E p D"
  note handler = assms [unfolded handle_binary_frame_def Let_def]
  have R: "same_output D ?R" by (rule retire_rekey_same)
  have "properly_published C io E p (RawBytes bs) D D'" if n: "\<not> same_output D D'"
  proof -
    obtain vk where vk: "live_identity p D = Some vk" using n handler by (cases "live_identity p D") auto
    have len: "length vk = 32" using n handler vk by (auto split: if_splits)
    obtain st where st: "dm_peer p ?R = Some st" using n handler vk len R by (cases "dm_peer p ?R") auto
    obtain f u where f: "open_frame C io E bs vk st = Some (f, u)"
      using n handler vk len R st by (cases "open_frame C io E bs vk st") auto
    have seq: "0 < f_sequence f" using n handler vk len R st f by (auto split: if_splits)
    let ?key = "if u then (case ps_prev_epoch_key st of None \<Rightarrow> [] | Some e \<Rightarrow> e) else p"
    obtain r g where g: "replay_check (rx_wall E) ?key (f_sequence f) (f_timestamp f) (dm_replay ?R) = (r, g)" by (rule prod.exhaust)
    have step: "(case r of Some x \<Rightarrow> (None, ?R\<lparr>dm_replay := g\<rparr>) | None \<Rightarrow> dispatch_message C io E p tr f (?R\<lparr>dm_replay := g\<rparr>)) = (e, D')"
      using handler vk len st f seq g by (cases r) auto
    have fresh: "r = None" using n R step by (cases r) (auto simp: same_output_def)
    then have "dispatch_message C io E p tr f (?R\<lparr>dm_replay := g\<rparr>) = (e, D')" using step by simp
    moreover have "arrives C io E p D (RawBytes bs) f"
      using opened_frame_arrives [OF vk len st f seq] g fresh by simp
    moreover have "same_policy D (?R\<lparr>dm_replay := g\<rparr>)" "dm_trust (?R\<lparr>dm_replay := g\<rparr>) = dm_trust D" "same_output D (?R\<lparr>dm_replay := g\<rparr>)"
      using retire_rekey_policy [of D E p] R by (simp_all add: same_policy_def same_output_def live_identity_def)
    ultimately show ?thesis using properly_published_cong n by blast
  qed
  then show ?thesis by blast
qed

lemma json_message_publishes:
  assumes "handle_json_message C io E p tr s D = (e, D')" "raw = RawText s \<or> raw = RawBytes bs \<and> utf8_decode bs = Some s"
  shows "same_output D D' \<or> properly_published C io E p raw D D'"
proof -
  note handler = assms(1) [unfolded handle_json_message_def Let_def]
  have "properly_published C io E p raw D D'" if n: "\<not> same_output D D'"
  proof -
    obtain msg st where m: "safe_json_loads io (utf8 s) MAX_JSON_DEPTH = Some (JObj msg)" "dm_peer p D = Some st"
      using n handler by (cases "safe_json_loads io (utf8 s) MAX_JSON_DEPTH"; cases "dm_peer p D"; cases "the (safe_json_loads io (utf8 s) MAX_JSON_DEPTH)") auto
    let ?enc = "dget_default JNull msg ''encrypted_payload''"
    have enc: "truthy ?enc" using n handler m by (auto split: if_splits)
    obtain encrypted key where k: "json_b64 ?enc = Some encrypted" "ps_session_key st = Some key"
      using n handler m enc by (cases "json_b64 ?enc"; cases "ps_session_key st") auto
    obtain payload where pl: "decrypt_message C key encrypted = Inr payload"
      using n handler m enc k by (cases "decrypt_message C key encrypted") auto
    obtain sq where sq: "json_sequence msg = Inr sq" using n handler m enc k pl by (cases "json_sequence msg") auto
    have pos: "0 < sq" using n handler m enc k pl sq by (auto split: if_splits)
    obtain ts where ts: "json_timestamp (rx_wall E) msg = Inr ts"
      using n handler m enc k pl sq pos by (cases "json_timestamp (rx_wall E) msg") auto
    obtain r g where g: "replay_check (rx_wall E) p sq ts (dm_replay D) = (r, g)" by (rule prod.exhaust)
    have R: "same_output D (D\<lparr>dm_replay := g\<rparr>)" by simp
    have fresh: "r = None" using n handler m enc k pl sq pos ts g by (cases r) auto
    let ?sig = "dget_default JNull msg ''signature''"
    have sg: "truthy ?sig" using n handler m enc k pl sq pos ts g fresh by (auto split: if_splits)
    have id: "live_identity p (D\<lparr>dm_replay := g\<rparr>) = live_identity p D" by (simp add: live_identity_def)
    obtain vk sig where v: "live_identity p D = Some vk" "json_b64 ?sig = Some sig"
      using n handler m enc k pl sq pos ts g fresh sg id by (cases "live_identity p D"; cases "json_b64 ?sig") auto
    have ok: "length vk = 32" "verify_detached C vk encrypted sig = Inr True"
      using n handler m enc k pl sq pos ts g fresh sg id v by (auto split: if_splits)
    let ?msg = "JObj (dset ''msg_id'' (dget_default (JStr (rx_uuid E)) msg ''msg_id'') msg)"
    obtain f where f: "frame_from_json_message io (rx_wall E) (rx_uuid E) ?msg payload = Inr f"
      using n handler m enc k pl sq pos ts g fresh sg id v ok
      by (cases "frame_from_json_message io (rx_wall E) (rx_uuid E) ?msg payload") auto
    let ?f = "f\<lparr>f_sequence := sq, f_timestamp := ts\<rparr>"
    have "dispatch_message C io E p tr ?f (D\<lparr>dm_replay := g\<rparr>) = (e, D')"
      using handler m enc k pl sq pos ts g fresh sg id v ok f by simp
    moreover have "f_payload f = payload" using f by (auto simp: frame_from_json_message_def py_bind_def new_frame_def split: sum.splits)
    then have "arrives C io E p D raw ?f"
      using arrives.json [OF m(2) k(2) v(1) ok(1) assms(2) m(1) k(1) _ v(2) ok(2), of ?f] pl pos g fresh by simp
    moreover have "same_policy D (D\<lparr>dm_replay := g\<rparr>)" by (simp add: same_policy_def live_identity_def)
    ultimately show ?thesis using properly_published_cong [OF _ _ R] n by fastforce
  qed
  then show ?thesis by blast
qed

lemma arrives_mono:
  assumes "arrives C io E p D1 raw f" "dm_link D1 = dm_link D" "dm_replay D1 = dm_replay D"
  shows "arrives C io E p D raw f"
proof -
  have id: "live_identity p D1 = live_identity p D" using assms(2) by (simp add: live_identity_def)
  have rp: "dm_replay (retire_rekey E p D1) = dm_replay (retire_rekey E p D)"
    using assms(2,3) by (simp add: retire_rekey_def put_link_def split: option.split prod.split)
  from assms(1) show ?thesis
  proof cases
    case (current st key vk bs)
    then show ?thesis using arrives.current [where p = p and D = D and st = st and vk = vk] assms(2,3) id rp by simp
  next
    case (previous st key vk bs)
    then show ?thesis using arrives.previous [where p = p and D = D and st = st and vk = vk] assms(2,3) id by simp
  next
    case (json st key vk s bs msg encrypted sig)
    then show ?thesis using arrives.json [where p = p and D = D and st = st and vk = vk] assms(2,3) id by simp
  qed
qed

lemma handle_message_publishes:
  assumes "handle_message C io E p tr raw D = (e, D')" "\<not> same_output D D'"
  shows "properly_published C io E p raw D D' \<and> (\<exists>st. dm_peer p D = Some st \<and> ps_session_key st \<notin> {None, Some []})"
proof -
  note handler = assms(1) [unfolded handle_message_def]
  obtain st where st: "dm_peer p D = Some st" "ps_session_key st \<notin> {None, Some []}"
    using assms(2) handler by (cases "dm_peer p D") (auto split: if_splits)
  obtain ok1 D1 where g: "pass_global_limit E p D = (ok1, D1)" by (rule prod.exhaust)
  have out1: "same_output D D1" using pass_limits_same(1) [where D = D and E = E and p = p] g by simp
  have ok1: "ok1 = True" using assms(2) handler st g out1 same_output_trans notify_rate_limited_same by (cases ok1) auto
  obtain ok2 D2 where l: "pass_peer_limit E p D1 = (ok2, D2)" by (rule prod.exhaust)
  have out2: "same_output D D2" using pass_limits_same(2) [where D = D1 and E = E and p = p] l out1 same_output_trans by (metis snd_conv)
  have ok2: "ok2 = True" using assms(2) handler st g ok1 l out2 same_output_trans notify_rate_limited_same by (cases ok2) auto
  have pol: "same_policy D D2" "dm_trust D2 = dm_trust D" "dm_link D2 = dm_link D" "dm_replay D2 = dm_replay D"
    using pass_limits_policy(1) [OF g [unfolded ok1]] pass_limits_policy(2) [OF l [unfolded ok2]] same_policy_trans by auto
  have n: "\<not> same_output D2 D'" using assms(2) out2 same_output_trans by blast
  note body = handler st g [unfolded ok1] l [unfolded ok2] ok1 ok2
  have "properly_published C io E p raw D2 D'"
  proof (cases raw)
    case (RawText s)
    then show ?thesis using body json_message_publishes [of C io E p tr s D2 e D' raw] n by auto
  next
    case (RawBytes bs)
    then show ?thesis
      using body n binary_frame_publishes [of C io E p tr bs D2 e D'] json_message_publishes [of C io E p tr _ D2 e D' raw bs]
      by (cases "utf8_decode bs") (auto split: if_splits)
  qed
  moreover have "arrives C io E p D2 raw f \<Longrightarrow> arrives C io E p D raw f" for f
    using arrives_mono pol(3,4) by blast
  ultimately show ?thesis
    using st cleared_cong [OF pol(1,2)] out2 unfolding properly_published_def
    by (auto simp: published_def same_output_def)
qed

text \<open>C2: nothing unchecked is published. Whatever bytes a connection hands the daemon, either nothing reaches the
  bus and the history, or exactly one message does, and it arrived in a frame of the peer's live session, signed
  by the peer and fresh for the replay guard; it was addressed here, is no control frame, its source is the
  peer itself or signed it under the key held for it, the gate admits the peer, and with the mesh on it was not
  delivered before. A relayed frame never reaches the bus.\<close>

theorem nothing_unchecked_is_published:
  "case handle_message C io E p tr raw D of (e, D') \<Rightarrow>
     (dm_bus D' = dm_bus D \<and> dm_history D' = dm_history D \<and> dm_received D' = dm_received D)
     \<or> (\<exists>f body. arrives C io E p D raw f \<and> cleared C io E p f D body
         \<and> dm_bus D' = dm_bus D @ [(f_msg_type f, p, f_msg_id f, body)]
         \<and> dm_history D' = dm_history D @ [(f_msg_type f, p, f_msg_id f, body)] \<and> dm_received D' = dm_received D + 1)"
proof -
  obtain e D' where h: "handle_message C io E p tr raw D = (e, D')" by (rule prod.exhaust)
  show ?thesis
    using handle_message_publishes [OF h] unfolding h
    by (auto simp: same_output_def properly_published_def published_def Let_def)
qed

section \<open>From one daemon to the other\<close>

lemma deserialized_header:
  assumes "deserialize_and_decrypt C io now rid raw key vk vs = Inr g"
  shows "HEADER_SIZE \<le> length raw \<and> take 2 raw = FRAME_MAGIC"
  using assms by (auto simp: deserialize_and_decrypt_def split: if_splits)

lemma lookup_live_key:
  "live_identity p D = Some k \<Longrightarrow> length k = 32 \<Longrightarrow> lookup_source_verify_key C io V p D = (Inr (Some k), D)"
  by (simp add: lookup_source_verify_key_def lookup_dest_identity_def)

text \<open>A frame its source sends itself passes the source check at the peer.\<close>

lemma own_frame_admitted:
  assumes "live_identity p D = Some k" "length k = 32" "f_source g = p" "f_e2e_payload g = None" "is_compressed g = Inr False"
    "f_source_signature g \<noteq> None \<Longrightarrow> verify_source_signature C k (inner_source_allow_v1 D) g = Inr True"
  shows "\<exists>g1. same_but_mark g g1 \<and> admit_frame C io E p g D = (Inr (Some g1), D)"
proof -
  have "\<exists>g1. same_but_mark g g1 \<and> verify_inner_source C io (rx_tofu E) p g D = (Inr (True, g1), D)"
    using assms lookup_live_key [OF assms(1,2), of C io "rx_tofu E"]
    by (cases "f_source_signature g")
      (auto simp: verify_inner_source_def same_but_mark_def intro: exI [of _ "f_source_authenticated g"])
  then obtain g1 where "same_but_mark g g1" "verify_inner_source C io (rx_tofu E) p g D = (Inr (True, g1), D)" by blast
  then show ?thesis using assms(4,5) same_but_markD [of g g1] by (auto simp: admit_frame_def is_compressed_def)
qed

lemma own_frame_dispatched:
  assumes "live_identity p D = Some k" "length k = 32" "f_source g = p" "f_e2e_payload g = None" "is_compressed g = Inr False"
    "f_source_signature g \<noteq> None \<Longrightarrow> verify_source_signature C k (inner_source_allow_v1 D) g = Inr True"
    "f_destination g = dm_me D" "f_msg_type g \<notin> set control_types"
    "gate_admits C io (rx_tofu E) p (f_msg_type g) (dm_trust D)" "fresh_here E g D"
    "dispatch_message C io E p tr g D = (e, D')"
  shows "published p g (f_payload g) D D'"
proof -
  obtain g1 where g1: "same_but_mark g g1" "admit_frame C io E p g D = (Inr (Some g1), D)"
    using own_frame_admitted [OF assms(1-6)] by blast
  note fields = same_but_markD [OF g1(1)]
  have "deliver_frame C io E p g1 D = (e, D')"
    using assms(4,7,8,11) g1(2) fields
    by (simp add: dispatch_message_def will_relay_def unseal_frame_def)
  from deliver_frame_publishes [OF this] show ?thesis
    using assms(9,10) fields by (simp add: fresh_here_def published_def)
qed

lemma sign_inner_source_fields:
  assumes "sign_inner_source C sk f = Inr g"
  shows "f_timestamp g = f_timestamp f \<and> f_msg_type g = f_msg_type f \<and> f_e2e_payload g = f_e2e_payload f \<and> f_routing g = f_routing f"
  using assms by (auto simp: sign_inner_source_def split: option.splits sum.splits py_error.splits)

text \<open>What the receiver opens of a frame sent by its source.\<close>

lemma sent_frame_opens:
  assumes laws: "secretbox_ok C" "ed25519_ok C" "sha256_ok C"
    and f: "frame_ok f" "frame_printable io f" "f_flags f = priority_flags (f_priority f)"
    and sent: "send_frame C io env q f A = (r, A')" "l_wire A' = l_wire A @ [(q, raw)]"
    and s: "dget (l_peers A) q = Some s" "ps_session_key s = Some key" "1 \<le> ps_next_send_seq s"
    and own: "f_source f = l_node_id A" "f_source_signature f = None"
  obtains g where "deserialize_and_decrypt C io now rid raw key (Some (ed_public C (l_sign_key A))) None = Inr g"
    and "sign_inner_source C (Some (l_sign_key A)) (f\<lparr>f_sequence := ps_next_send_seq s\<rparr>) = Inr g"
proof -
  obtain sq s1 f2 where n: "next_sequence s = (Inr sq, s1)"
    and ser: "encrypt_and_serialize C io (se_nonce env) key (Some (l_sign_key A))
        (if f_source f = l_node_id A \<and> f_source_signature f = None then Some (l_sign_key A) else None) (f\<lparr>f_sequence := sq\<rparr>) = Inr (f2, raw)"
    using send_frame_wire [OF sent] s(1,2) by auto
  have sq: "sq = ps_next_send_seq s" using n by (simp add: next_sequence_Inr)
  have "frame_ok (f\<lparr>f_sequence := sq\<rparr>)" "frame_printable io (f\<lparr>f_sequence := sq\<rparr>)"
    "f_flags (f\<lparr>f_sequence := sq\<rparr>) = priority_flags (f_priority (f\<lparr>f_sequence := sq\<rparr>))"
    using f s(3) sq by (simp_all add: frame_ok_def frame_printable_def)
  from sealed_frame_reads_back [OF laws this ser] show ?thesis
    using that own sq by auto
qed

text \<open>C1: a message one daemon sends is published by the other. When a message from the node itself reaches the
  wire, and the receiver, its destination, holds the same session key and the sender's identity key, its rate
  limits pass, the sequence number is fresh, the gate admits the sender and the message was not seen before, then
  handling the bytes publishes exactly that message, once, on the bus and in the history.\<close>

theorem sent_message_is_published:
  assumes "secretbox_ok C" "ed25519_ok C" "sha256_ok C"
    and "frame_ok f" "frame_printable io f" "f_flags f = priority_flags (f_priority f)"
    and "send_frame C io env q f A = (r, A')" "l_wire A' = l_wire A @ [(q, raw)]"
    and "dget (l_peers A) q = Some s" "ps_session_key s = Some key" "1 \<le> ps_next_send_seq s" "key \<noteq> []"
    and "f_source f = l_node_id A" "f_source_signature f = None" "f_e2e_payload f = None"
      "is_compressed f = Inr False" "f_msg_type f \<notin> set control_types"
    and "dm_me B = f_destination f" "dm_peer (l_node_id A) B = Some st" "ps_session_key st = Some key"
      "ps_identity_public st = Some (ed_public C (l_sign_key A))" "length (ed_public C (l_sign_key A)) = 32"
    and "pass_global_limit E (l_node_id A) B = (True, B1)" "pass_peer_limit E (l_node_id A) B1 = (True, B2)"
    and "replay_check (rx_wall E) (l_node_id A) (ps_next_send_seq s) (f_timestamp f) (dm_replay (retire_rekey E (l_node_id A) B)) = (None, g)"
    and "gate_admits C io (rx_tofu E) (l_node_id A) (f_msg_type f) (dm_trust B)" "fresh_here E f B"
    and "handle_message C io E (l_node_id A) tr (RawBytes raw) B = (e, B')"
  shows "published (l_node_id A) f (f_payload f) B B'"
proof -
  let ?p = "l_node_id A" and ?vk = "ed_public C (l_sign_key A)"
  obtain h where h: "deserialize_and_decrypt C io (rx_wall E) (rx_uuid E) raw key (Some ?vk) None = Inr h"
      "sign_inner_source C (Some (l_sign_key A)) (f\<lparr>f_sequence := ps_next_send_seq s\<rparr>) = Inr h"
    by (rule sent_frame_opens [OF assms(1-11,13,14)])
  note keeps = sign_inner_source_keeps [OF h(2)] sign_inner_source_fields [OF h(2)]
  have vk: "?vk \<noteq> []" using assms(22) by (metis list.size(3) zero_neq_numeral)
  have pol: "same_policy B B2" "dm_trust B2 = dm_trust B" "dm_link B2 = dm_link B" "dm_replay B2 = dm_replay B"
    using pass_limits_policy(1) [OF assms(23)] pass_limits_policy(2) [OF assms(24)] same_policy_trans by auto
  have out2: "same_output B B2"
    using pass_limits_same(1) [where D = B and E = E and p = ?p] pass_limits_same(2) [where D = B1 and E = E and p = ?p]
      assms(23,24) same_output_trans by (metis snd_conv)
  let ?R = "retire_rekey E ?p B2"
  have R: "dm_replay ?R = dm_replay (retire_rekey E ?p B)" "\<exists>st1. dm_peer ?p ?R = Some st1 \<and> ps_session_key st1 = Some key"
    using pol(3,4) assms(19,20) by (simp_all add: retire_rekey_def put_link_def set_peer_def end_rekey_transition_def split: option.split prod.split)
  then obtain st1 where st1: "dm_peer ?p ?R = Some st1" "ps_session_key st1 = Some key" by blast
  let ?D = "?R\<lparr>dm_replay := g\<rparr>"
  have live: "live_identity ?p B2 = Some ?vk" using pol(3) assms(19,21) vk by (simp add: live_identity_def)
  have "open_frame C io E raw ?vk st1 = Some (h, False)" using h(1) st1(2) by (simp add: open_frame_def)
  then have d: "dispatch_message C io E ?p tr h ?D = (e, B')"
    using assms(12,19,20,22-25,28) deserialized_header [OF h(1)] live st1(1) R(1) keeps pol(3) assms(11)
    by (simp add: handle_message_def handle_binary_frame_def Let_def)
  have D: "same_policy B ?D" "dm_trust ?D = dm_trust B" "same_output B ?D"
    using retire_rekey_policy [of B2 E ?p] retire_rekey_same [of B2 E ?p] pol(1,2) out2
    by (auto simp: same_policy_def same_output_def live_identity_def)
  have "published ?p h (f_payload h) ?D B'"
  proof (rule own_frame_dispatched [OF _ assms(22) _ _ _ _ _ _ _ _ d])
    show "live_identity ?p ?D = Some ?vk" using live retire_rekey_policy [of B2 E ?p] by (simp add: same_policy_def live_identity_def)
    show "f_source_signature h \<noteq> None \<Longrightarrow> verify_source_signature C ?vk (inner_source_allow_v1 ?D) h = Inr True"
      using sign_inner_source_verifies [OF h(2) _ assms(2)] assms(14) by simp
    show "fresh_here E h ?D" using assms(27) D(1) keeps by (simp add: fresh_here_def same_policy_def)
  qed (use keeps assms(13,15-18,26) D in \<open>simp_all add: is_compressed_def same_policy_def\<close>)
  then show ?thesis using D(3) keeps by (simp add: published_def same_output_def)
qed

text \<open>Bob, who holds carol's session and identity; carol's message to him.\<close>

definition sample_message :: frame where
  "sample_message = new_frame 0 ''rid'' ''MSG'' [104, 105] (Some ''m1'') ''carol'' ''bob'' (JStr (mp_value NORMAL)) 7"

definition sample_receiver :: daemon where
  "sample_receiver = \<lparr> dm_mesh = sample_router\<lparr>m_link := sample_link\<lparr>l_node_id := ''bob'',
       l_peers := [(''carol'', (new_peer_state ''carol'' [])\<lparr>ps_session_key := Some [1], ps_identity_public := Some (pad 32 [2])\<rparr>)]\<rparr>\<rparr>,
     dm_mesh_on = False, dm_replay = new_replay_guard 30 8, dm_pings = [], dm_rekeys = 0,
     dm_trust = sample_daemon\<lparr>td_gate_on := False\<rparr>, dm_x25519 = None, dm_min_version = ''0.9.0'', dm_pinned = [],
     dm_caps = None, dm_caps_key = None, dm_caps_file = None, dm_announce_dedup = [], dm_announce_cache = [],
     dm_announce_max_age = 60, dm_group_seen = [], dm_groups = [], dm_global_limiter = None, dm_limiters = [],
     dm_limit_audit = 0, dm_history = [], dm_bus = [], dm_received = 0, dm_inner_drops = 0, dm_bad_announces = 0,
     dm_audit = [] \<rparr>"

definition sample_rx_env :: rx_env where
  "sample_rx_env = \<lparr> rx_wall = 0, rx_tick = 0, rx_uuid = ''u'', rx_frame_id = ''r'', rx_send = sample_env, rx_send2 = sample_env,
     rx_tofu = sample_tofu_env, rx_queue = QueueFailed, rx_rekey = sample_rekey_env 1, rx_gunzip = (\<lambda>_. None),
     rx_fmt = (\<lambda>_. []), rx_caps_write = False \<rparr>"

lemma sample_message_ok:
  "frame_ok sample_message" "frame_printable sample_io sample_message"
  "f_flags sample_message = priority_flags (f_priority sample_message)"
  by (simp_all add: sample_message_def new_frame_def frame_ok_def frame_printable_def MAX_JSON_DEPTH_def)

lemma sample_message_seals:
  "\<exists>f' data. encrypt_and_serialize sample_crypto sample_io [] [1] (Some [2]) (Some [2]) sample_message = Inr (f', data)"
proof -
  have "case sign_inner_source sample_crypto (Some [2]) sample_message of Inl e \<Rightarrow> False
      | Inr g \<Rightarrow> length (utf8 (dumps_compact sample_io (frame_to_dict g))) < 700" by code_simp
  then obtain g where g: "sign_inner_source sample_crypto (Some [2]) sample_message = Inr g"
      and n: "length (utf8 (dumps_compact sample_io (frame_to_dict g))) < 700" (is "?n < _")
    by (cases "sign_inner_source sample_crypto (Some [2]) sample_message") auto
  have "?n + 40 \<le> MAX_FRAME_BYTES" using n by (simp add: MAX_FRAME_BYTES_def)
  moreover have "length (encrypt_message sample_crypto [1] [] (utf8 (dumps_compact sample_io (frame_to_dict g)))) = ?n + 40"
    using sample_crypto_ok(1) by (simp add: encrypt_message_def secretbox_ok_def)
  moreover have "f_sequence g = 7" "f_timestamp g = 0"
    using sign_inner_source_keeps [OF g] sign_inner_source_fields [OF g] by (simp_all add: sample_message_def new_frame_def)
  ultimately show ?thesis
    by (simp add: encrypt_and_serialize_def g Let_def frame_header_def to_bytes_def trunc_int_def)
qed

lemma sample_message_sent:
  "\<exists>raw d'. send_frame sample_crypto sample_io sample_env ''bob'' sample_message sample_link = (None, d')
     \<and> l_wire d' = l_wire sample_link @ [(''bob'', raw)]"
proof -
  obtain f' data where e: "encrypt_and_serialize sample_crypto sample_io [] [1] (Some [2]) (Some [2]) sample_message = Inr (f', data)"
    using sample_message_seals by blast
  have s: "sample_message\<lparr>f_sequence := 7\<rparr> = sample_message" "f_source sample_message = ''carol''" "f_source_signature sample_message = None"
    by (simp_all add: sample_message_def new_frame_def)
  show ?thesis
    using e by (simp add: send_frame_def sample_link_def sample_env_def next_sequence_def s Let_def set_peer_def
        gate_peer_bandwidth_def gate_open_def)
qed

theorem sent_message_is_published_witness:
  "\<exists>raw e B'. handle_message sample_crypto sample_io sample_rx_env ''carol'' ''ws'' (RawBytes raw) sample_receiver = (e, B')
     \<and> dm_bus B' = [(''MSG'', ''carol'', ''m1'', [104, 105])]"
proof -
  obtain raw d' where s: "send_frame sample_crypto sample_io sample_env ''bob'' sample_message sample_link = (None, d')"
    "l_wire d' = l_wire sample_link @ [(''bob'', raw)]" using sample_message_sent by blast
  obtain e B' where h: "handle_message sample_crypto sample_io sample_rx_env ''carol'' ''ws'' (RawBytes raw) sample_receiver = (e, B')"
    by (rule prod.exhaust)
  let ?st = "(new_peer_state ''carol'' [])\<lparr>ps_session_key := Some [1], ps_identity_public := Some (pad 32 [2])\<rparr>"
  have p: "dget (l_peers sample_link) ''bob'' = Some ((new_peer_state ''bob'' [])\<lparr>ps_session_key := Some [1], ps_next_send_seq := 7\<rparr>)"
    by (simp add: sample_link_def)
  have me: "l_node_id sample_link = ''carol''" "l_sign_key sample_link = [2]" by (simp_all add: sample_link_def)
  have st: "dm_peer ''carol'' sample_receiver = Some ?st" by (simp add: sample_receiver_def)
  note msg = sample_message_def new_frame_def
  have retired: "retire_rekey sample_rx_env ''carol'' sample_receiver = sample_receiver"
    by (simp add: retire_rekey_def sample_receiver_def new_peer_state_def)
  obtain g where r: "replay_check (rx_wall sample_rx_env) ''carol'' 7 0 (dm_replay sample_receiver) = (None, g)"
    by (simp add: sample_receiver_def sample_rx_env_def new_replay_guard_def replay_check_def ensure_replay_peer_def
        replay_state_def empty_replay_peer_def MAX_SEQUENCE_def Let_def)
  have "published ''carol'' sample_message (f_payload sample_message) sample_receiver B'"
  proof (rule sent_message_is_published [OF sample_crypto_ok(1-3) sample_message_ok s p, of "[1]" sample_receiver ?st sample_rx_env
        sample_receiver sample_receiver, unfolded me])
    show "handle_message sample_crypto sample_io sample_rx_env ''carol'' ''ws'' (RawBytes raw) sample_receiver = (e, B')" by (rule h)
    show "dm_peer ''carol'' sample_receiver = Some ?st" by (rule st)
    show "replay_check (rx_wall sample_rx_env) ''carol'' (ps_next_send_seq ((new_peer_state ''bob'' [])\<lparr>ps_session_key := Some [1], ps_next_send_seq := 7\<rparr>))
        (f_timestamp sample_message) (dm_replay (retire_rekey sample_rx_env ''carol'' sample_receiver)) = (None, g)"
      using r by (simp add: retired msg)
  qed (simp_all add: msg is_compressed_def control_types_def sample_receiver_def pass_global_limit_def pass_peer_limit_def
      gate_admits_def fresh_here_def sample_daemon_def)
  then have "dm_bus B' = [(''MSG'', ''carol'', ''m1'', [104, 105])]" by (simp add: published_def msg sample_receiver_def Let_def)
  then show ?thesis using h by blast
qed

section \<open>What the inbound path lets through\<close>

text \<open>Messages of a conversation must be signed by their source, but the pending-trust gate does not cover them.\<close>

lemma conversation_not_gated:
  "''CONV'' \<in> set source_sig_required_types \<and> gate_inbound C io V p ''CONV'' mid q T = (Deliver, [], T)"
  by (simp add: source_sig_required_types_def gate_inbound_def gated_types_def)

text \<open>The signature of a JSON message covers the ciphertext alone. Whoever has seen one message accepted can send its
  ciphertext and signature again under a higher sequence number and a new timestamp: it passes the replay guard
  and the signature, and is dispatched.\<close>

lemma json_replay_is_dispatched:
  assumes "dm_peer p D = Some st" "ps_session_key st = Some key" "live_identity p D = Some vk" "length vk = 32"
    "dget msg ''encrypted_payload'' = Some (JStr enc64)" "enc64 \<noteq> []" "b64decode enc64 = Some encrypted"
    "decrypt_message C key encrypted = Inr payload"
    "dget msg ''signature'' = Some (JStr sig64)" "sig64 \<noteq> []" "b64decode sig64 = Some sig" "verify_detached C vk encrypted sig = Inr True"
    "safe_json_loads io (utf8 s) MAX_JSON_DEPTH = Some (JObj (dset ''sequence'' (JInt n) (dset ''timestamp'' (JFloat t) msg)))"
    "0 < n" "replay_check (rx_wall E) p n t (dm_replay D) = (None, g)"
    "frame_from_json_message io (rx_wall E) (rx_uuid E) (JObj (dset ''msg_id'' (dget_default (JStr (rx_uuid E)) msg ''msg_id'')
       (dset ''sequence'' (JInt n) (dset ''timestamp'' (JFloat t) msg)))) payload = Inr f"
  shows "handle_json_message C io E p tr s D
    = dispatch_message C io E p tr (f\<lparr>f_sequence := n, f_timestamp := t\<rparr>) (D\<lparr>dm_replay := g\<rparr>)"
proof -
  have id: "live_identity p (D\<lparr>dm_replay := g\<rparr>) = Some vk" using assms(3) by (simp add: live_identity_def)
  show ?thesis
    using assms id
    by (simp add: handle_json_message_def Let_def json_b64_def json_sequence_def json_timestamp_def)
qed

lemma dset_new: "k \<notin> set (dkeys d) \<Longrightarrow> dset k v d = d @ [(k, v)]"
  by (induction d) auto

lemma od_trim_new: "k \<notin> set (dkeys d) \<Longrightarrow> 0 < n \<Longrightarrow> k \<in> set (dkeys (od_trim n (dset k v d)))"
  by (simp add: dset_new od_trim_drop drop_map [symmetric])

text \<open>An announcement is remembered before its signature is checked. A forged one with the time of a genuine one,
  sent first, makes the node drop the genuine one as seen, whoever brings it.\<close>

lemma forged_announce_blocks_genuine:
  assumes "live_identity origin D = Some k" "rx_wall E - t \<le> dm_announce_max_age D"
    "dget data ''announced_at'' = Some (JFloat t)" "dget data ''version'' = Some (JInt v)"
    "dget data2 ''announced_at'' = Some (JFloat t)" "rx_fmt E2 = rx_fmt E"
    "check_signed_announce C io E p origin caps forged data payload D = (ok, D1)"
  shows "fst (check_signed_announce C io E2 q origin caps2 genuine data2 payload2 D1) = False"
proof -
  let ?key = "origin @ ''|'' @ rx_fmt E t"
  have id: "get_peer_identity_key C io V origin D = (Inr (Some (b64encode k)), D)" for V
    using assms(1) by (simp add: get_peer_identity_key_def)
  have "?key \<in> set (dkeys (dm_announce_dedup D1)) \<and> live_identity origin D1 = Some k"
  proof (cases "?key \<in> set (dkeys (dm_announce_dedup D))")
    case True
    then have "D1 = D\<lparr>dm_announce_dedup := dmove_end ?key (dm_announce_dedup D)\<rparr>"
      using assms(2-4,7) by (simp add: check_signed_announce_def Let_def id is_real_json_def is_int_json_def)
    then show ?thesis using True assms(1) by (simp add: live_identity_def)
  next
    case False
    then have "dm_announce_dedup D1 = od_trim ANNOUNCE_MAX (dset ?key (rx_wall E) (dm_announce_dedup D)) \<and> dm_link D1 = dm_link D"
      using assms(2-4,7)
      by (auto simp: check_signed_announce_def Let_def id is_real_json_def is_int_json_def bad_announce_def dm_log_def split: if_splits)
    then show ?thesis
      using od_trim_new [OF False] assms(1) by (simp add: live_identity_def ANNOUNCE_MAX_def)
  qed
  then have "?key \<in> set (dkeys (dm_announce_dedup D1))" "get_peer_identity_key C io V origin D1 = (Inr (Some (b64encode k)), D1)" for V
    by (simp_all add: get_peer_identity_key_def)
  then show ?thesis
    using assms(5,6) by (simp add: check_signed_announce_def Let_def is_real_json_def is_int_json_def py_number.simps)
qed

end
