(* ===== verification/Message_Store.thy ===== *)
theory Message_Store
  imports Sending
begin

text \<open>
  store.py: message history, the offline queue, the queue of messages that wait for a trust decision, and the
  encryption of payloads at rest. A table is the list of its rows in the order of their row ids; each SQL statement
  is the list function it denotes. Of rows that an \<open>ORDER BY\<close> leaves tied the one inserted first comes first.

  Statements see each other's effects at once; commits, which decide what a crash leaves, are not modelled. A store
  that has been opened has a storage key of 32 bytes or none. The time, the nonces and argon2id are arguments.
\<close>

section \<open>Payloads at rest\<close>

definition STORAGE_V2_MAGIC :: bytes where
  "STORAGE_V2_MAGIC = utf8 ''IMSTOREv2'' @ [0]"

definition starts_with_magic :: "bytes \<Rightarrow> bool" where
  "starts_with_magic p = (take (length STORAGE_V2_MAGIC) p = STORAGE_V2_MAGIC)"

definition derive_legacy_storage_key :: "crypto \<Rightarrow> string \<Rightarrow> bytes" where
  "derive_legacy_storage_key C passphrase = sha256 C (utf8 (passphrase @ ''ironmesh-storage-v1''))"

definition encrypt_payload :: "crypto \<Rightarrow> bytes option \<Rightarrow> bytes \<Rightarrow> bytes \<Rightarrow> bytes" where
  "encrypt_payload C key nonce payload = (case key of
     None \<Rightarrow> payload
   | Some k \<Rightarrow> if k = [] \<or> payload = [] then payload else STORAGE_V2_MAGIC @ box_encrypt C k nonce payload)"

definition decrypt_payload :: "crypto \<Rightarrow> bytes option \<Rightarrow> bytes option \<Rightarrow> bytes \<Rightarrow> bytes" where
  "decrypt_payload C key legacy payload = (case key of
     None \<Rightarrow> payload
   | Some k \<Rightarrow>
       if k = [] \<or> payload = [] then payload
       else if starts_with_magic payload then
         (case box_decrypt C k (drop (length STORAGE_V2_MAGIC) payload) of Some m \<Rightarrow> m | None \<Rightarrow> payload)
       else (case legacy of
         None \<Rightarrow> payload
       | Some l \<Rightarrow> if l = [] then payload else (case box_decrypt C l payload of Some m \<Rightarrow> m | None \<Rightarrow> payload)))"

text \<open>One payload of the one-shot upgrade: the new value, and whether it was re-encrypted or left as unreadable.\<close>

definition upgrade_payload :: "crypto \<Rightarrow> bytes \<Rightarrow> bytes \<Rightarrow> bytes \<Rightarrow> bytes \<Rightarrow> bytes \<times> bool option" where
  "upgrade_payload C key legacy nonce p =
    (if p = [] \<or> starts_with_magic p then (p, None)
     else case box_decrypt C legacy p of
       None \<Rightarrow> (p, Some False)
     | Some m \<Rightarrow> (encrypt_payload C (Some key) nonce m, Some True))"

fun upgrade_payloads :: "crypto \<Rightarrow> bytes \<Rightarrow> bytes \<Rightarrow> bytes list \<Rightarrow> bytes list \<Rightarrow> (bytes \<times> bool option) list" where
  "upgrade_payloads C key legacy nonces [] = []"
| "upgrade_payloads C key legacy nonces (p # ps) =
    upgrade_payload C key legacy (if nonces = [] then [] else hd nonces) p # upgrade_payloads C key legacy (drop 1 nonces) ps"

section \<open>The tables\<close>

record history_row =
  hr_msg_id :: string
  hr_source :: string
  hr_display :: string
  hr_destination :: string
  hr_type :: string
  hr_payload :: bytes
  hr_timestamp :: time
  hr_priority :: string
  hr_direction :: string

record queue_row =
  qr_peer :: node_id
  qr_msg_id :: string
  qr_source :: string
  qr_type :: string
  qr_payload :: bytes
  qr_priority :: string
  qr_created :: time
  qr_delivered :: "time option"

record held_row =
  he_source :: node_id
  he_msg_id :: string
  he_type :: string
  he_payload :: bytes
  he_priority :: string
  he_queued :: time

record peer_row =
  pr_node :: node_id
  pr_identity :: "string option"
  pr_fingerprint :: "string option"
  pr_first_seen :: time
  pr_last_seen :: time
  pr_address :: "string option"

record message_store =
  ms_key :: "bytes option"
  ms_legacy :: "bytes option"
  ms_cap :: int
  ms_meta :: "(string, string) dict"
  ms_history :: "history_row list"
  ms_queue :: "queue_row list"
  ms_held :: "held_row list"
  ms_peers :: "peer_row list"
  ms_dropped :: nat
  ms_evicted :: nat
  ms_held_evicted :: nat

definition upgrade_storage_format :: "crypto \<Rightarrow> bytes list \<Rightarrow> message_store \<Rightarrow> message_store" where
  "upgrade_storage_format C nonces S = (case (ms_key S, ms_legacy S) of
     (Some key, Some legacy) \<Rightarrow>
       if dget (ms_meta S) ''storage_format'' = Some ''aead-v2'' then S
       else
         (let h = upgrade_payloads C key legacy nonces (map hr_payload (ms_history S));
              q = upgrade_payloads C key legacy (drop (length h) nonces) (map qr_payload (ms_queue S));
              d = upgrade_payloads C key legacy (drop (length h + length q) nonces) (map he_payload (ms_held S));
              marks = map snd (h @ q @ d);
              S1 = S\<lparr>ms_history := map2 (\<lambda>r u. r\<lparr>hr_payload := fst u\<rparr>) (ms_history S) h,
                     ms_queue := map2 (\<lambda>r u. r\<lparr>qr_payload := fst u\<rparr>) (ms_queue S) q,
                     ms_held := map2 (\<lambda>r u. r\<lparr>he_payload := fst u\<rparr>) (ms_held S) d\<rparr> in
          if Some True \<in> set marks \<or> Some False \<notin> set marks
          then S1\<lparr>ms_meta := dset ''storage_format'' ''aead-v2'' (ms_meta S)\<rparr> else S1)
   | _ \<Rightarrow> S)"

section \<open>History\<close>

definition store_message :: "crypto \<Rightarrow> time \<Rightarrow> bytes \<Rightarrow> string \<Rightarrow> string \<Rightarrow> string \<Rightarrow> string \<Rightarrow> string \<Rightarrow> bytes \<Rightarrow> string \<Rightarrow> string
    \<Rightarrow> message_store \<Rightarrow> message_store" where
  "store_message C now nonce msg_id source display destination msg_type payload direction priority S =
    S\<lparr>ms_history := filter (\<lambda>r. hr_msg_id r \<noteq> msg_id) (ms_history S) @
      [\<lparr> hr_msg_id = msg_id, hr_source = source, hr_display = display, hr_destination = destination, hr_type = msg_type,
         hr_payload = encrypt_payload C (ms_key S) nonce payload, hr_timestamp = now, hr_priority = priority,
         hr_direction = direction \<rparr>]\<rparr>"

text \<open>\<open>LIMIT n\<close>; a negative limit is none.\<close>

definition sql_limit :: "int \<Rightarrow> 'a list \<Rightarrow> 'a list" where
  "sql_limit n xs = (if n < 0 then xs else take (nat n) xs)"

definition get_messages :: "crypto \<Rightarrow> string option \<Rightarrow> time option \<Rightarrow> int \<Rightarrow> message_store \<Rightarrow> history_row list" where
  "get_messages C peer since limit S =
    map (\<lambda>r. r\<lparr>hr_payload := decrypt_payload C (ms_key S) (ms_legacy S) (hr_payload r)\<rparr>)
      (sql_limit limit (sort_key (\<lambda>r. - hr_timestamp r)
        (filter (\<lambda>r. (peer \<in> {None, Some []} \<or> hr_source r = the peer \<or> hr_destination r = the peer)
                   \<and> (since \<in> {None, Some 0} \<or> hr_timestamp r > the since)) (ms_history S))))"

definition prune_old :: "time \<Rightarrow> int \<Rightarrow> message_store \<Rightarrow> nat \<times> message_store" where
  "prune_old now days S = (let old = (\<lambda>r. hr_timestamp r < now - real_of_int (days * 86400)) in
     (length (filter old (ms_history S)), S\<lparr>ms_history := filter (\<lambda>r. \<not> old r) (ms_history S)\<rparr>))"

section \<open>The offline queue\<close>

text \<open>\<open>_PRIORITY_RANK\<close> with its default, and the rank of the SQL \<open>CASE\<close>, where an unknown priority is \<open>NULL\<close>: it sorts
  before every rank, and after every rank when descending.\<close>

definition priority_rank :: "string \<Rightarrow> nat" where
  "priority_rank p = (if p = ''CRITICAL'' then 0 else if p = ''HIGH'' then 1 else if p = ''NORMAL'' then 2
     else if p = ''LOW'' then 3 else 2)"

definition sql_rank :: "string \<Rightarrow> int" where
  "sql_rank p = (if p \<in> {''CRITICAL'', ''HIGH'', ''NORMAL'', ''LOW''} then int (priority_rank p) else -1)"

definition undelivered :: "node_id \<Rightarrow> message_store \<Rightarrow> queue_row list" where
  "undelivered p S = filter (\<lambda>r. qr_peer r = p \<and> qr_delivered r = None) (ms_queue S)"

definition drop_queued :: "node_id \<Rightarrow> string \<Rightarrow> queue_row list \<Rightarrow> queue_row list" where
  "drop_queued p msg_id = filter (\<lambda>r. \<not> (qr_peer r = p \<and> qr_msg_id r = msg_id))"

definition victims :: "node_id \<Rightarrow> message_store \<Rightarrow> queue_row list" where
  "victims p S = sort_key (\<lambda>r. - sql_rank (qr_priority r)) (sort_key qr_created (undelivered p S))"

definition evict_to_make_room :: "node_id \<Rightarrow> string \<Rightarrow> message_store \<Rightarrow> bool \<times> message_store" where
  "evict_to_make_room p priority S = (case victims p S of
     [] \<Rightarrow> (False, S)
   | v # vs \<Rightarrow>
       if priority_rank (qr_priority v) < priority_rank priority then (False, S)
       else (True, S\<lparr>ms_queue := drop_queued p (qr_msg_id v) (ms_queue S), ms_evicted := ms_evicted S + 1\<rparr>))"

definition queue_for_peer :: "crypto \<Rightarrow> time \<Rightarrow> bytes \<Rightarrow> node_id \<Rightarrow> string \<Rightarrow> string \<Rightarrow> string \<Rightarrow> bytes \<Rightarrow> string
    \<Rightarrow> message_store \<Rightarrow> bool \<times> message_store" where
  "queue_for_peer C now nonce p msg_id source msg_type payload priority S0 =
    (case (if ms_cap S0 > 0 \<and> int (length (undelivered p S0)) \<ge> ms_cap S0 then evict_to_make_room p priority S0 else (True, S0)) of
       (False, S) \<Rightarrow> (False, S\<lparr>ms_dropped := ms_dropped S + 1\<rparr>)
     | (True, S) \<Rightarrow>
         (True, S\<lparr>ms_queue := drop_queued p msg_id (ms_queue S) @
           [\<lparr> qr_peer = p, qr_msg_id = msg_id, qr_source = source, qr_type = msg_type,
              qr_payload = encrypt_payload C (ms_key S) nonce payload, qr_priority = priority, qr_created = now,
              qr_delivered = None \<rparr>]\<rparr>))"

definition get_pending_for_peer :: "crypto \<Rightarrow> node_id \<Rightarrow> message_store \<Rightarrow> pending_msg list" where
  "get_pending_for_peer C p S =
    map (\<lambda>r. \<lparr> pm_msg_id = qr_msg_id r, pm_source = qr_source r, pm_msg_type = qr_type r,
               pm_payload = decrypt_payload C (ms_key S) (ms_legacy S) (qr_payload r), pm_priority = qr_priority r \<rparr>)
      (sort_key (\<lambda>r. sql_rank (qr_priority r)) (sort_key qr_created (undelivered p S)))"

definition mark_delivered :: "time \<Rightarrow> node_id \<Rightarrow> string \<Rightarrow> message_store \<Rightarrow> message_store" where
  "mark_delivered now p msg_id S =
    S\<lparr>ms_queue := map (\<lambda>r. if qr_peer r = p \<and> qr_msg_id r = msg_id then r\<lparr>qr_delivered := Some now\<rparr> else r) (ms_queue S)\<rparr>"

definition cleanup_old_pending :: "time \<Rightarrow> real \<Rightarrow> message_store \<Rightarrow> nat \<times> message_store" where
  "cleanup_old_pending now max_age S =
    (let cutoff = now - max_age;
         expired = (\<lambda>r. qr_created r < cutoff \<and> qr_delivered r = None);
         done_old = (\<lambda>r. case qr_delivered r of None \<Rightarrow> False | Some t \<Rightarrow> t < cutoff) in
     (length (filter expired (ms_queue S)), S\<lparr>ms_queue := filter (\<lambda>r. \<not> expired r \<and> \<not> done_old r) (ms_queue S)\<rparr>))"

section \<open>Messages that wait for a trust decision\<close>

definition held_of :: "node_id \<Rightarrow> message_store \<Rightarrow> held_row list" where
  "held_of p S = filter (\<lambda>r. he_source r = p) (ms_held S)"

text \<open>The insert of a \<open>(source, msg_id)\<close> that is there fails, after the eviction.\<close>

definition queue_pending_trust :: "crypto \<Rightarrow> time \<Rightarrow> bytes \<Rightarrow> node_id \<Rightarrow> string \<Rightarrow> string \<Rightarrow> bytes \<Rightarrow> string \<Rightarrow> int
    \<Rightarrow> message_store \<Rightarrow> bool \<times> message_store" where
  "queue_pending_trust C now nonce p msg_id msg_type payload priority cap S0 =
    (let S = (if cap > 0 \<and> int (length (held_of p S0)) \<ge> cap
              then S0\<lparr>ms_held := (case sort_key he_queued (held_of p S0) of
                       [] \<Rightarrow> ms_held S0 | v # vs \<Rightarrow> remove1 v (ms_held S0)), ms_held_evicted := ms_held_evicted S0 + 1\<rparr>
              else S0) in
     if \<exists>r\<in>set (ms_held S). he_source r = p \<and> he_msg_id r = msg_id then (False, S)
     else (True, S\<lparr>ms_held := ms_held S @
       [\<lparr> he_source = p, he_msg_id = msg_id, he_type = msg_type, he_payload = encrypt_payload C (ms_key S) nonce payload,
          he_priority = priority, he_queued = now \<rparr>]\<rparr>))"

definition drain_pending_trust :: "crypto \<Rightarrow> node_id \<Rightarrow> message_store \<Rightarrow> held_row list \<times> message_store" where
  "drain_pending_trust C p S =
    (map (\<lambda>r. r\<lparr>he_payload := decrypt_payload C (ms_key S) (ms_legacy S) (he_payload r)\<rparr>) (sort_key he_queued (held_of p S)),
     S\<lparr>ms_held := filter (\<lambda>r. he_source r \<noteq> p) (ms_held S)\<rparr>)"

definition discard_pending_trust :: "node_id \<Rightarrow> message_store \<Rightarrow> nat \<times> message_store" where
  "discard_pending_trust p S = (length (held_of p S), S\<lparr>ms_held := filter (\<lambda>r. he_source r \<noteq> p) (ms_held S)\<rparr>)"

definition pending_trust_count_for :: "node_id \<Rightarrow> message_store \<Rightarrow> nat" where
  "pending_trust_count_for p S = length (held_of p S)"

definition pending_trust_summary :: "message_store \<Rightarrow> (node_id \<times> nat \<times> time \<times> time) list" where
  "pending_trust_summary S =
    sort_key (\<lambda>(p, n, oldest, newest). oldest)
      (map (\<lambda>p. (p, length (held_of p S), Min (set (map he_queued (held_of p S))), Max (set (map he_queued (held_of p S)))))
        (sort (remdups (map he_source (ms_held S)))))"

section \<open>Peers\<close>

definition coalesce :: "'a option \<Rightarrow> 'a option \<Rightarrow> 'a option" where
  "coalesce a b = (case a of None \<Rightarrow> b | Some x \<Rightarrow> a)"

definition upsert_peer :: "time \<Rightarrow> node_id \<Rightarrow> string option \<Rightarrow> string option \<Rightarrow> string option \<Rightarrow> message_store \<Rightarrow> message_store" where
  "upsert_peer now p identity address fingerprint S =
    S\<lparr>ms_peers := (if p \<in> set (map pr_node (ms_peers S))
       then map (\<lambda>r. if pr_node r = p
              then r\<lparr>pr_identity := coalesce identity (pr_identity r), pr_fingerprint := coalesce fingerprint (pr_fingerprint r),
                     pr_last_seen := now, pr_address := coalesce address (pr_address r)\<rparr> else r) (ms_peers S)
       else ms_peers S @ [\<lparr> pr_node = p, pr_identity = identity, pr_fingerprint = fingerprint, pr_first_seen = now,
                            pr_last_seen = now, pr_address = address \<rparr>])\<rparr>"

definition find_peer_row :: "node_id \<Rightarrow> message_store \<Rightarrow> peer_row option" where
  "find_peer_row p S = find (\<lambda>r. pr_node r = p) (ms_peers S)"

definition get_all_peer_rows :: "message_store \<Rightarrow> peer_row list" where
  "get_all_peer_rows S = sort_key (\<lambda>r. - pr_last_seen r) (ms_peers S)"

definition get_peer_count :: "message_store \<Rightarrow> nat" where
  "get_peer_count S = length (ms_peers S)"

section \<open>What is stored reads back\<close>

lemma starts_with_magic_append [simp]: "starts_with_magic (STORAGE_V2_MAGIC @ x)"
  by (simp add: starts_with_magic_def)

lemma magic_nonempty [simp]: "STORAGE_V2_MAGIC \<noteq> []"
  by (simp add: STORAGE_V2_MAGIC_def)

lemma decrypt_encrypt_payload: "secretbox_ok C \<Longrightarrow> decrypt_payload C key legacy (encrypt_payload C key nonce p) = p"
  by (auto simp: encrypt_payload_def decrypt_payload_def secretbox_ok_def split: option.split)

lemma upgrade_payload_reads:
  assumes "secretbox_ok C" "key \<noteq> []" "legacy \<noteq> []"
  shows "decrypt_payload C (Some key) (Some legacy) (fst (upgrade_payload C key legacy nonce p)) = decrypt_payload C (Some key) (Some legacy) p"
proof (cases "p = [] \<or> starts_with_magic p \<or> box_decrypt C legacy p = None")
  case True
  then show ?thesis by (auto simp: upgrade_payload_def)
next
  case False
  then obtain m where "box_decrypt C legacy p = Some m" by blast
  then show ?thesis
    using False assms decrypt_encrypt_payload [OF assms(1)] by (simp add: upgrade_payload_def) (simp add: decrypt_payload_def)
qed

lemma length_upgrade_payloads [simp]: "length (upgrade_payloads C key legacy ns ps) = length ps"
  by (induction C key legacy ns ps rule: upgrade_payloads.induct) simp_all

lemma upgrade_payloads_reads:
  assumes "secretbox_ok C" "key \<noteq> []" "legacy \<noteq> []"
  shows "map (decrypt_payload C (Some key) (Some legacy) \<circ> fst) (upgrade_payloads C key legacy ns ps)
    = map (decrypt_payload C (Some key) (Some legacy)) ps"
  using assms by (induction C key legacy ns ps rule: upgrade_payloads.induct) (simp_all add: upgrade_payload_reads)

text \<open>Rows that agree but for payloads reading the same: filters, sorts and limits that ignore the payload commute with reading.\<close>

lemma sort_key_map: "(\<And>x. k (g x) = k x) \<Longrightarrow> sort_key k (map g xs) = map g (sort_key k xs)"
proof (induction xs)
  case (Cons x xs)
  have "insort_key k (g x) (map g ys) = map g (insort_key k x ys)" for ys
    by (induction ys) (simp_all add: Cons.prems)
  then show ?case using Cons by simp
qed simp

lemma map2_reads:
  assumes "map f (map fst us) = map f (map pay rows)" "length us = length rows"
    "\<And>r p. g (upd r p) = put r (f p)" "\<And>r. g r = put r (f (pay r))"
  shows "map g (map2 (\<lambda>r u. upd r (fst u)) rows us) = map g rows"
  using assms(1,2)
proof (induction rows arbitrary: us)
  case (Cons r rows)
  then show ?case by (cases us) (simp_all add: assms(3) assms(4) [of r])
qed simp

definition read_history :: "crypto \<Rightarrow> message_store \<Rightarrow> history_row list" where
  "read_history C S = map (\<lambda>r. r\<lparr>hr_payload := decrypt_payload C (ms_key S) (ms_legacy S) (hr_payload r)\<rparr>) (ms_history S)"

definition read_queue :: "crypto \<Rightarrow> message_store \<Rightarrow> queue_row list" where
  "read_queue C S = map (\<lambda>r. r\<lparr>qr_payload := decrypt_payload C (ms_key S) (ms_legacy S) (qr_payload r)\<rparr>) (ms_queue S)"

definition read_held :: "crypto \<Rightarrow> message_store \<Rightarrow> held_row list" where
  "read_held C S = map (\<lambda>r. r\<lparr>he_payload := decrypt_payload C (ms_key S) (ms_legacy S) (he_payload r)\<rparr>) (ms_held S)"

lemma get_messages_reads:
  "get_messages C peer since limit S = sql_limit limit (sort_key (\<lambda>r. - hr_timestamp r)
     (filter (\<lambda>r. (peer \<in> {None, Some []} \<or> hr_source r = the peer \<or> hr_destination r = the peer)
       \<and> (since \<in> {None, Some 0} \<or> hr_timestamp r > the since)) (read_history C S)))"
  by (simp add: get_messages_def read_history_def sort_key_map filter_map o_def sql_limit_def take_map)

lemma get_pending_reads:
  "get_pending_for_peer C p S =
    map (\<lambda>r. \<lparr> pm_msg_id = qr_msg_id r, pm_source = qr_source r, pm_msg_type = qr_type r, pm_payload = qr_payload r, pm_priority = qr_priority r \<rparr>)
      (sort_key (\<lambda>r. sql_rank (qr_priority r)) (sort_key qr_created (filter (\<lambda>r. qr_peer r = p \<and> qr_delivered r = None) (read_queue C S))))"
  by (simp add: get_pending_for_peer_def read_queue_def undelivered_def sort_key_map filter_map o_def)

lemma drain_reads:
  "fst (drain_pending_trust C p S) = sort_key he_queued (filter (\<lambda>r. he_source r = p) (read_held C S))"
  by (simp add: drain_pending_trust_def read_held_def held_of_def sort_key_map filter_map o_def)

lemma upgrade_tables:
  assumes "ms_key S = Some key" "ms_legacy S = Some legacy" "dget (ms_meta S) ''storage_format'' \<noteq> Some ''aead-v2''"
  shows "ms_history (upgrade_storage_format C ns S)
      = map2 (\<lambda>r u. r\<lparr>hr_payload := fst u\<rparr>) (ms_history S) (upgrade_payloads C key legacy ns (map hr_payload (ms_history S)))"
    "ms_queue (upgrade_storage_format C ns S) = map2 (\<lambda>r u. r\<lparr>qr_payload := fst u\<rparr>) (ms_queue S)
      (upgrade_payloads C key legacy (drop (length (ms_history S)) ns) (map qr_payload (ms_queue S)))"
    "ms_held (upgrade_storage_format C ns S) = map2 (\<lambda>r u. r\<lparr>he_payload := fst u\<rparr>) (ms_held S)
      (upgrade_payloads C key legacy (drop (length (ms_history S) + length (ms_queue S)) ns) (map he_payload (ms_held S)))"
  using assms by (simp_all add: upgrade_storage_format_def Let_def)

lemma upgrade_reads:
  assumes "secretbox_ok C" "\<And>k. ms_key S = Some k \<Longrightarrow> k \<noteq> []" "\<And>k. ms_legacy S = Some k \<Longrightarrow> k \<noteq> []"
  shows "read_history C (upgrade_storage_format C ns S) = read_history C S"
    "read_queue C (upgrade_storage_format C ns S) = read_queue C S"
    "read_held C (upgrade_storage_format C ns S) = read_held C S"
proof -
  let ?S = "upgrade_storage_format C ns S"
  have keep: "ms_key ?S = ms_key S" "ms_legacy ?S = ms_legacy S"
    by (auto simp: upgrade_storage_format_def Let_def split: option.split)
  have "read_history C ?S = read_history C S \<and> read_queue C ?S = read_queue C S \<and> read_held C ?S = read_held C S"
  proof (cases "\<exists>key legacy. ms_key S = Some key \<and> ms_legacy S = Some legacy \<and> dget (ms_meta S) ''storage_format'' \<noteq> Some ''aead-v2''")
    case False
    then have "?S = S" by (auto simp: upgrade_storage_format_def split: option.split)
    then show ?thesis by simp
  next
    case True
    then obtain key legacy where k: "ms_key S = Some key" "ms_legacy S = Some legacy" "dget (ms_meta S) ''storage_format'' \<noteq> Some ''aead-v2''" by blast
    then have ne: "key \<noteq> []" "legacy \<noteq> []" using assms by auto
    note reads = upgrade_payloads_reads [OF assms(1) ne]
    show ?thesis
      unfolding read_history_def read_queue_def read_held_def keep k(1,2) upgrade_tables [OF k]
      by (intro conjI map2_reads [where pay = hr_payload and put = "\<lambda>r p. r\<lparr>hr_payload := p\<rparr>"]
          map2_reads [where pay = qr_payload and put = "\<lambda>r p. r\<lparr>qr_payload := p\<rparr>"]
          map2_reads [where pay = he_payload and put = "\<lambda>r p. r\<lparr>he_payload := p\<rparr>"]) (simp_all add: reads)
  qed
  then show "read_history C ?S = read_history C S" "read_queue C ?S = read_queue C S" "read_held C ?S = read_held C S" by auto
qed

definition stored_payloads :: "message_store \<Rightarrow> bytes list" where
  "stored_payloads S = map hr_payload (ms_history S) @ map qr_payload (ms_queue S) @ map he_payload (ms_held S)"

definition stranded :: "crypto \<Rightarrow> bytes \<Rightarrow> bytes \<Rightarrow> bool" where
  "stranded C legacy p = (p \<noteq> [] \<and> \<not> starts_with_magic p \<and> box_decrypt C legacy p \<noteq> None)"

lemma upgrade_payloads_done:
  "key \<noteq> [] \<Longrightarrow> u \<in> set (upgrade_payloads C key legacy ns ps) \<Longrightarrow> \<not> stranded C legacy (fst u)"
  by (induction C key legacy ns ps rule: upgrade_payloads.induct)
    (auto simp: upgrade_payload_def stranded_def encrypt_payload_def split: option.splits if_splits)

lemma map_map2_snd: "length us = length rows \<Longrightarrow> (\<And>r p. pay (upd r p) = p) \<Longrightarrow> map pay (map2 (\<lambda>r u. upd r (fst u)) rows us) = map fst us"
  by (induction rows arbitrary: us) (auto simp: length_Suc_conv Suc_length_conv)

lemma upgrade_strands_nothing:
  assumes "ms_key S = Some key" "key \<noteq> []" "ms_legacy S = Some legacy" "dget (ms_meta S) ''storage_format'' \<noteq> Some ''aead-v2''"
    "p \<in> set (stored_payloads (upgrade_storage_format C ns S))"
  shows "\<not> stranded C legacy p"
proof -
  let ?S = "upgrade_storage_format C ns S"
  have "map hr_payload (ms_history ?S) = map fst (upgrade_payloads C key legacy ns (map hr_payload (ms_history S)))"
    "map qr_payload (ms_queue ?S) = map fst (upgrade_payloads C key legacy (drop (length (ms_history S)) ns) (map qr_payload (ms_queue S)))"
    "map he_payload (ms_held ?S)
      = map fst (upgrade_payloads C key legacy (drop (length (ms_history S) + length (ms_queue S)) ns) (map he_payload (ms_held S)))"
    unfolding upgrade_tables [OF assms(1,3,4)] by (rule map_map2_snd; simp)+
  then have "p \<in> fst ` (set (upgrade_payloads C key legacy ns (map hr_payload (ms_history S)))
      \<union> set (upgrade_payloads C key legacy (drop (length (ms_history S)) ns) (map qr_payload (ms_queue S)))
      \<union> set (upgrade_payloads C key legacy (drop (length (ms_history S) + length (ms_queue S)) ns) (map he_payload (ms_held S))))"
    using assms(5) by (auto simp: stored_payloads_def)
  then show ?thesis using upgrade_payloads_done [OF assms(2)] by blast
qed

text \<open>C10: the storage upgrade loses nothing and leaves nothing behind. Opening a database of an earlier release
  with the new key changes no answer: the history under every filter, every peer's offline queue and every held
  message read as before; and no payload is left that only the old fast key opens.\<close>

theorem storage_upgrade_preserves:
  assumes "secretbox_ok C" "ms_key S = Some key" "key \<noteq> []" "ms_legacy S = Some legacy" "legacy \<noteq> []"
  shows "get_messages C peer since limit (upgrade_storage_format C ns S) = get_messages C peer since limit S
    \<and> get_pending_for_peer C p (upgrade_storage_format C ns S) = get_pending_for_peer C p S
    \<and> fst (drain_pending_trust C p (upgrade_storage_format C ns S)) = fst (drain_pending_trust C p S)
    \<and> (dget (ms_meta S) ''storage_format'' \<noteq> Some ''aead-v2'' \<longrightarrow>
         (\<forall>x\<in>set (stored_payloads (upgrade_storage_format C ns S)). x = [] \<or> starts_with_magic x \<or> box_decrypt C legacy x = None))"
proof -
  have reads: "read_history C (upgrade_storage_format C ns S) = read_history C S"
    "read_queue C (upgrade_storage_format C ns S) = read_queue C S" "read_held C (upgrade_storage_format C ns S) = read_held C S"
    using upgrade_reads [of C S ns] assms by auto
  moreover have "x = [] \<or> starts_with_magic x \<or> box_decrypt C legacy x = None"
    if "dget (ms_meta S) ''storage_format'' \<noteq> Some ''aead-v2''" "x \<in> set (stored_payloads (upgrade_storage_format C ns S))" for x
    using upgrade_strands_nothing [OF assms(2,3,4) that] by (auto simp: stranded_def)
  ultimately show ?thesis by (simp add: get_messages_reads get_pending_reads drain_reads)
qed

text \<open>A database with one message of an earlier release.\<close>

definition new_store :: "bytes option \<Rightarrow> bytes option \<Rightarrow> int \<Rightarrow> message_store" where
  "new_store key legacy cap = \<lparr> ms_key = key, ms_legacy = legacy, ms_cap = cap, ms_meta = [], ms_history = [], ms_queue = [],
     ms_held = [], ms_peers = [], ms_dropped = 0, ms_evicted = 0, ms_held_evicted = 0 \<rparr>"

definition sample_legacy_row :: history_row where
  "sample_legacy_row = \<lparr> hr_msg_id = ''m'', hr_source = ''a'', hr_display = ''a'', hr_destination = ''b'', hr_type = ''MSG'',
     hr_payload = box_encrypt sample_crypto (pad 32 [2]) [] [104, 105], hr_timestamp = 0, hr_priority = ''NORMAL'', hr_direction = ''inbound'' \<rparr>"

theorem storage_upgrade_preserves_witness:
  "map hr_payload (get_messages sample_crypto None None 10 (upgrade_storage_format sample_crypto []
     ((new_store (Some (pad 32 [1])) (Some (pad 32 [2])) 5)\<lparr>ms_history := [sample_legacy_row]\<rparr>))) = [[104, 105]]"
proof -
  let ?S = "(new_store (Some (pad 32 [1])) (Some (pad 32 [2])) 5)\<lparr>ms_history := [sample_legacy_row]\<rparr>"
  have k: "ms_key ?S = Some (pad 32 [1])" "pad 32 [1] \<noteq> []" "ms_legacy ?S = Some (pad 32 [2])" "pad 32 [2] \<noteq> []"
    using length_pad [of 32 "[1]"] length_pad [of 32 "[2]"] by (auto simp: new_store_def simp del: length_pad)
  have "map hr_payload (get_messages sample_crypto None None 10 ?S) = [[104, 105]]"
    by code_simp
  then show ?thesis using storage_upgrade_preserves [OF sample_crypto_ok(1) k, of None None 10] by simp
qed

section \<open>The offline queue\<close>

lemma stable_head:
  assumes "sort_key f (sort_key g xs) = v # vs" "x \<in> set xs"
  shows "f v \<le> f x" "f x = f v \<Longrightarrow> g v \<le> g x"
proof -
  have x: "x \<in> set (v # vs)" using assms by (metis set_sort)
  have "sorted (map f (v # vs))" using assms(1) by (metis sorted_sort_key)
  then show le: "f v \<le> f x" using x by auto
  assume eq: "f x = f v"
  have "v # filter (\<lambda>y. f y = f v) vs = filter (\<lambda>y. f y = f v) (sort_key g xs)"
    using sort_key_stable [of f "f v" "sort_key g xs"] assms(1) by simp
  then have "sorted (map g (v # filter (\<lambda>y. f y = f v) vs))"
    using sorted_filter [of g "sort_key g xs"] by simp
  then show "g v \<le> g x" using x eq by auto
qed

lemma hd_sort_key_in: "sort_key f (sort_key g xs) = v # vs \<Longrightarrow> v \<in> set xs"
  by (metis list.set_intros(1) set_sort)

definition known_priority :: "string \<Rightarrow> bool" where
  "known_priority p = (p \<in> {''CRITICAL'', ''HIGH'', ''NORMAL'', ''LOW''})"

text \<open>No message is queued twice for a peer.\<close>

definition queue_distinct :: "message_store \<Rightarrow> bool" where
  "queue_distinct S = distinct (map (\<lambda>r. (qr_peer r, qr_msg_id r)) (ms_queue S))"

lemma drop_queued_gone: "(p, m) \<notin> set (map (\<lambda>r. (qr_peer r, qr_msg_id r)) (drop_queued p m rows))"
  by (auto simp: drop_queued_def)

lemma distinct_drop_queued: "distinct (map (\<lambda>r. (qr_peer r, qr_msg_id r)) rows) \<Longrightarrow> distinct (map (\<lambda>r. (qr_peer r, qr_msg_id r)) (drop_queued p m rows))"
  by (simp add: drop_queued_def distinct_map_filter)

lemma evict_result:
  assumes "evict_to_make_room p priority S = (True, S1)"
  obtains v where "v \<in> set (undelivered p S)" "priority_rank priority \<le> priority_rank (qr_priority v)"
    "S1 = S\<lparr>ms_queue := drop_queued p (qr_msg_id v) (ms_queue S), ms_evicted := ms_evicted S + 1\<rparr>"
    "\<forall>x\<in>set (undelivered p S). sql_rank (qr_priority x) \<le> sql_rank (qr_priority v)
       \<and> (sql_rank (qr_priority x) = sql_rank (qr_priority v) \<longrightarrow> qr_created v \<le> qr_created x)"
proof -
  obtain v vs where v: "victims p S = v # vs" using assms by (cases "victims p S") (auto simp: evict_to_make_room_def)
  show ?thesis
  proof (rule that)
    show "v \<in> set (undelivered p S)" by (rule hd_sort_key_in [OF v [unfolded victims_def]])
    show "\<forall>x\<in>set (undelivered p S). sql_rank (qr_priority x) \<le> sql_rank (qr_priority v)
       \<and> (sql_rank (qr_priority x) = sql_rank (qr_priority v) \<longrightarrow> qr_created v \<le> qr_created x)"
      using stable_head [OF v [unfolded victims_def]] by fastforce
  qed (use assms v in \<open>auto simp: evict_to_make_room_def split: if_splits\<close>)
qed

lemma evict_refused:
  assumes "evict_to_make_room p priority S = (False, S1)"
  shows "S1 = S \<and> (\<forall>x\<in>set (undelivered p S). known_priority (qr_priority x) \<longrightarrow>
    (\<forall>y\<in>set (undelivered p S). known_priority (qr_priority y)) \<longrightarrow> priority_rank (qr_priority x) < priority_rank priority)"
proof (cases "victims p S")
  case Nil
  then have "undelivered p S = []" by (metis victims_def set_empty2 set_sort list.set(1))
  then show ?thesis using assms Nil by (simp add: evict_to_make_room_def)
next
  case (Cons v vs)
  then have v: "v \<in> set (undelivered p S)" "\<forall>x\<in>set (undelivered p S). sql_rank (qr_priority x) \<le> sql_rank (qr_priority v)"
    using hd_sort_key_in [OF Cons [unfolded victims_def]] stable_head(1) [OF Cons [unfolded victims_def]] by simp_all
  have "priority_rank (qr_priority v) < priority_rank priority" "S1 = S"
    using assms Cons by (auto simp: evict_to_make_room_def split: if_splits)
  moreover have "sql_rank x = int (priority_rank x)" if "known_priority x" for x
    using that by (simp add: sql_rank_def known_priority_def)
  ultimately show ?thesis using v by fastforce
qed

lemma undelivered_update:
  "undelivered q (S\<lparr>ms_queue := rows, ms_evicted := n\<rparr>) = filter (\<lambda>r. qr_peer r = q \<and> qr_delivered r = None) rows"
  "undelivered q (S\<lparr>ms_queue := rows\<rparr>) = filter (\<lambda>r. qr_peer r = q \<and> qr_delivered r = None) rows"
  by (simp_all add: undelivered_def)

lemma filter_drop_queued:
  "filter (\<lambda>r. qr_peer r = q \<and> qr_delivered r = None) (drop_queued p m rows)
    = filter (\<lambda>r. q = p \<longrightarrow> qr_msg_id r \<noteq> m) (filter (\<lambda>r. qr_peer r = q \<and> qr_delivered r = None) rows)"
  by (auto simp: drop_queued_def intro: filter_cong)

text \<open>The victim of an eviction: of the lowest priority waiting, not above the newcomer's, and the oldest of those.\<close>

definition fair_victim :: "string \<Rightarrow> queue_row list \<Rightarrow> queue_row \<Rightarrow> bool" where
  "fair_victim priority rows v = (v \<in> set rows \<and> priority_rank priority \<le> priority_rank (qr_priority v)
     \<and> (\<forall>x\<in>set rows. priority_rank (qr_priority x) < priority_rank (qr_priority v)
          \<or> priority_rank (qr_priority x) = priority_rank (qr_priority v) \<and> qr_created v \<le> qr_created x))"

lemma sql_rank_known: "known_priority p \<Longrightarrow> sql_rank p = int (priority_rank p)"
  by (simp add: sql_rank_def known_priority_def)

lemma make_room_cases:
  assumes "\<forall>r\<in>set (undelivered p S). known_priority (qr_priority r)" "evict_to_make_room p priority S = (ok, S1)"
  obtains "\<not> ok" "S1 = S" "\<forall>r\<in>set (undelivered p S). priority_rank (qr_priority r) < priority_rank priority"
  | v where "ok" "fair_victim priority (undelivered p S) v"
      "S1 = S\<lparr>ms_queue := drop_queued p (qr_msg_id v) (ms_queue S), ms_evicted := ms_evicted S + 1\<rparr>"
proof (cases ok)
  case True
  then obtain v where v: "v \<in> set (undelivered p S)" "priority_rank priority \<le> priority_rank (qr_priority v)"
      "S1 = S\<lparr>ms_queue := drop_queued p (qr_msg_id v) (ms_queue S), ms_evicted := ms_evicted S + 1\<rparr>"
      "\<forall>x\<in>set (undelivered p S). sql_rank (qr_priority x) \<le> sql_rank (qr_priority v)
         \<and> (sql_rank (qr_priority x) = sql_rank (qr_priority v) \<longrightarrow> qr_created v \<le> qr_created x)"
    using evict_result assms(2) by metis
  then have "fair_victim priority (undelivered p S) v"
    using assms(1) unfolding fair_victim_def by (fastforce simp: sql_rank_known)
  then show ?thesis using that(2) True v(3) by blast
next
  case False
  then show ?thesis using evict_refused [of p priority S S1] assms that(1) by auto
qed

definition queued_row :: "crypto \<Rightarrow> time \<Rightarrow> bytes \<Rightarrow> node_id \<Rightarrow> string \<Rightarrow> string \<Rightarrow> string \<Rightarrow> bytes \<Rightarrow> string \<Rightarrow> message_store \<Rightarrow> queue_row" where
  "queued_row C now nonce p msg_id source msg_type payload priority S =
    \<lparr> qr_peer = p, qr_msg_id = msg_id, qr_source = source, qr_type = msg_type,
      qr_payload = encrypt_payload C (ms_key S) nonce payload, qr_priority = priority, qr_created = now, qr_delivered = None \<rparr>"

definition has_room :: "node_id \<Rightarrow> message_store \<Rightarrow> bool" where
  "has_room p S = (ms_cap S \<le> 0 \<or> int (length (undelivered p S)) < ms_cap S)"

lemma queue_for_peer_eq:
  "queue_for_peer C now nonce p msg_id source msg_type payload priority S =
    (case (if has_room p S then (True, S) else evict_to_make_room p priority S) of
       (False, S1) \<Rightarrow> (False, S1\<lparr>ms_dropped := ms_dropped S1 + 1\<rparr>)
     | (True, S1) \<Rightarrow> (True, S1\<lparr>ms_queue := drop_queued p msg_id (ms_queue S1) @
           [queued_row C now nonce p msg_id source msg_type payload priority S1]\<rparr>))"
  unfolding queue_for_peer_def queued_row_def by (cases "has_room p S") (auto simp: has_room_def)

lemma queued_undelivered:
  "undelivered q (S\<lparr>ms_queue := drop_queued p m rows @ [queued_row C now nonce p m source ty payload priority S0]\<rparr>)
    = filter (\<lambda>r. q = p \<longrightarrow> qr_msg_id r \<noteq> m) (filter (\<lambda>r. qr_peer r = q \<and> qr_delivered r = None) rows)
      @ (if q = p then [queued_row C now nonce p m source ty payload priority S0] else [])"
  by (simp add: undelivered_update filter_drop_queued queued_row_def)



section \<open>Bounds that hold in every reachable store\<close>

datatype store_op =
    Queue time bytes node_id string string string bytes string
  | Delivered time node_id string
  | Cleanup time real
  | Record time bytes string string string string string bytes string string
  | Prune time int
  | Hold time bytes node_id string string bytes string
  | Drain node_id
  | Discard node_id
  | Upgrade "bytes list"

fun store_step :: "crypto \<Rightarrow> int \<Rightarrow> store_op \<Rightarrow> message_store \<Rightarrow> message_store" where
  "store_step C hc (Queue now n p m src ty pl pr) S = snd (queue_for_peer C now n p m src ty pl pr S)"
| "store_step C hc (Delivered now p m) S = mark_delivered now p m S"
| "store_step C hc (Cleanup now age) S = snd (cleanup_old_pending now age S)"
| "store_step C hc (Record now n m src dis dst ty pl dir pr) S = store_message C now n m src dis dst ty pl dir pr S"
| "store_step C hc (Prune now days) S = snd (prune_old now days S)"
| "store_step C hc (Hold now n p m ty pl pr) S = snd (queue_pending_trust C now n p m ty pl pr hc S)"
| "store_step C hc (Drain p) S = snd (drain_pending_trust C p S)"
| "store_step C hc (Discard p) S = snd (discard_pending_trust p S)"
| "store_step C hc (Upgrade ns) S = upgrade_storage_format C ns S"

abbreviation queue_key :: "queue_row \<Rightarrow> node_id \<times> string" where
  "queue_key r \<equiv> (qr_peer r, qr_msg_id r)"

abbreviation held_key :: "held_row \<Rightarrow> node_id \<times> string" where
  "held_key r \<equiv> (he_source r, he_msg_id r)"

definition queue_inv :: "message_store \<Rightarrow> bool" where
  "queue_inv S = (distinct (map queue_key (ms_queue S)) \<and> (0 < ms_cap S \<longrightarrow> (\<forall>p. int (length (undelivered p S)) \<le> ms_cap S)))"

definition held_inv :: "int \<Rightarrow> message_store \<Rightarrow> bool" where
  "held_inv hc S = (distinct (map held_key (ms_held S)) \<and> (\<forall>p. int (length (held_of p S)) \<le> hc))"

lemma queue_inv_queue_for_peer:
  assumes "queue_inv S"
  shows "queue_inv (snd (queue_for_peer C now n p m src ty pl pr S))"
proof -
  obtain ok S1 where e: "(if has_room p S then (True, S) else evict_to_make_room p pr S) = (ok, S1)" by (rule prod.exhaust)
  have cap: "ms_cap S1 = ms_cap S"
    using e by (auto simp: evict_to_make_room_def split: if_splits list.splits)
  have d1: "distinct (map queue_key (ms_queue S1))"
    using assms e distinct_drop_queued by (auto simp: queue_inv_def evict_to_make_room_def split: if_splits list.splits)
  show ?thesis
  proof (cases ok)
    case False
    then show ?thesis
      using assms e by (auto simp: queue_for_peer_eq evict_to_make_room_def queue_inv_def undelivered_def split: if_splits list.splits)
  next
    case True
    let ?row = "queued_row C now n p m src ty pl pr S1"
    have r: "snd (queue_for_peer C now n p m src ty pl pr S) = S1\<lparr>ms_queue := drop_queued p m (ms_queue S1) @ [?row]\<rparr>"
      using True e unfolding queue_for_peer_eq e by simp
    have d: "distinct (map queue_key (drop_queued p m (ms_queue S1) @ [?row]))"
      using distinct_drop_queued [OF d1, of p m] drop_queued_gone [of p m "ms_queue S1"] by (simp add: queued_row_def)
    have less: "int (length (undelivered p S1)) < ms_cap S" if "0 < ms_cap S"
    proof (cases "has_room p S")
      case True
      then show ?thesis using e that by (auto simp: has_room_def)
    next
      case False
      then obtain v where v: "v \<in> set (undelivered p S)" "S1 = S\<lparr>ms_queue := drop_queued p (qr_msg_id v) (ms_queue S), ms_evicted := ms_evicted S + 1\<rparr>"
        using e True evict_result by (metis (full_types))
      then have "undelivered p S1 = filter (\<lambda>r. qr_msg_id r \<noteq> qr_msg_id v) (undelivered p S)"
        by (simp add: undelivered_update filter_drop_queued) (simp add: undelivered_def)
      then have "length (undelivered p S1) < length (undelivered p S)"
        using length_filter_less [OF v(1), of "\<lambda>r. qr_msg_id r \<noteq> qr_msg_id v"] by simp
      moreover have "int (length (undelivered p S)) \<le> ms_cap S" using assms that by (simp add: queue_inv_def)
      ultimately show ?thesis by linarith
    qed
    have other: "length (undelivered q S1) \<le> length (undelivered q S)" for q
      using e by (auto simp: evict_to_make_room_def undelivered_update filter_drop_queued undelivered_def [symmetric]
          simp del: filter_filter split: if_splits list.splits)
    show ?thesis
      unfolding r queue_inv_def
    proof (intro conjI impI allI)
      show "distinct (map queue_key (ms_queue (S1\<lparr>ms_queue := drop_queued p m (ms_queue S1) @ [?row]\<rparr>)))" using d by simp
      fix q assume "0 < ms_cap (S1\<lparr>ms_queue := drop_queued p m (ms_queue S1) @ [?row]\<rparr>)"
      then have pos: "0 < ms_cap S" by (simp add: cap)
      have "length (undelivered q (S1\<lparr>ms_queue := drop_queued p m (ms_queue S1) @ [?row]\<rparr>)) \<le> length (undelivered q S1) + (if q = p then 1 else 0)"
        unfolding queued_undelivered undelivered_def [symmetric] by (simp add: le_trans [OF length_filter_le])
      moreover have "int (length (undelivered q S)) \<le> ms_cap S" using assms pos by (simp add: queue_inv_def)
      ultimately show "int (length (undelivered q (S1\<lparr>ms_queue := drop_queued p m (ms_queue S1) @ [?row]\<rparr>)))
          \<le> ms_cap (S1\<lparr>ms_queue := drop_queued p m (ms_queue S1) @ [?row]\<rparr>)"
        using less [OF pos] other [of q] by (auto simp: cap split: if_splits)
    qed
  qed
qed

lemma held_inv_queue_pending_trust:
  assumes "held_inv hc S" "0 < hc"
  shows "held_inv hc (snd (queue_pending_trust C now n p m ty pl pr hc S))"
proof -
  define S1 where "S1 = (if int (length (held_of p S)) \<ge> hc
    then S\<lparr>ms_held := (case sort_key he_queued (held_of p S) of [] \<Rightarrow> ms_held S | v # vs \<Rightarrow> remove1 v (ms_held S)),
           ms_held_evicted := ms_held_evicted S + 1\<rparr> else S)"
  have S1: "distinct (map held_key (ms_held S1)) \<and> (\<forall>q. length (held_of q S1) \<le> length (held_of q S)) \<and> int (length (held_of p S1)) < hc"
  proof (cases "int (length (held_of p S)) \<ge> hc")
    case False
    then show ?thesis using assms by (simp add: S1_def held_inv_def)
  next
    case True
    then have "held_of p S \<noteq> []" using assms(2) by auto
    then obtain v vs where v: "sort_key he_queued (held_of p S) = v # vs"
      by (metis length_0_conv length_sort neq_Nil_conv)
    then have "v \<in> set (held_of p S)" by (metis list.set_intros(1) set_sort)
    then have vp: "v \<in> set (ms_held S)" "he_source v = p" by (simp_all add: held_of_def)
    have held: "ms_held S1 = remove1 v (ms_held S)" using True v by (simp add: S1_def)
    have of: "held_of q S1 = remove1 v (held_of q S)" for q by (simp add: held_of_def held filter_remove1)
    have "distinct (map held_key (ms_held S1))"
      using assms(1) unfolding held held_inv_def by (simp add: distinct_map inj_on_def)
    moreover have "length (held_of p S1) < length (held_of p S)"
      unfolding of using \<open>v \<in> set (held_of p S)\<close> by (simp add: length_remove1) (meson diff_Suc_less length_pos_if_in_set)
    moreover have "int (length (held_of p S)) \<le> hc" using assms(1) by (simp add: held_inv_def)
    ultimately show ?thesis by (auto simp: of length_remove1)
  qed
  have r: "snd (queue_pending_trust C now n p m ty pl pr hc S)
    = (if \<exists>r\<in>set (ms_held S1). he_source r = p \<and> he_msg_id r = m then S1
       else S1\<lparr>ms_held := ms_held S1 @ [\<lparr> he_source = p, he_msg_id = m, he_type = ty, he_payload = encrypt_payload C (ms_key S1) n pl,
          he_priority = pr, he_queued = now \<rparr>]\<rparr>)"
    using assms(2) unfolding queue_pending_trust_def Let_def S1_def by simp
  have le: "int (length (held_of q S1)) \<le> hc" for q
  proof -
    have "length (held_of q S1) \<le> length (held_of q S)" "int (length (held_of q S)) \<le> hc"
      using S1 assms(1) by (simp_all add: held_inv_def)
    then show ?thesis by linarith
  qed
  show ?thesis
    unfolding r using S1 le by (auto simp: held_inv_def held_of_def)
qed

lemma payloads_only:
  assumes "length us = length rows"
  shows "(\<And>r p. key (upd r p) = key r) \<Longrightarrow> map key (map2 (\<lambda>r u. upd r (fst u)) rows us) = map key rows"
    "(\<And>r p. P (upd r p) = P r) \<Longrightarrow> length (filter P (map2 (\<lambda>r u. upd r (fst u)) rows us)) = length (filter P rows)"
  using assms by (induction rows us rule: list_induct2') simp_all

lemma upgrade_invs:
  "queue_inv S \<Longrightarrow> queue_inv (upgrade_storage_format C ns S)" "held_inv hc S \<Longrightarrow> held_inv hc (upgrade_storage_format C ns S)"
proof -
  let ?S = "upgrade_storage_format C ns S"
  have eq: "map queue_key (ms_queue ?S) = map queue_key (ms_queue S) \<and> map held_key (ms_held ?S) = map held_key (ms_held S)
    \<and> (\<forall>p. length (undelivered p ?S) = length (undelivered p S) \<and> length (held_of p ?S) = length (held_of p S)) \<and> ms_cap ?S = ms_cap S"
  proof (cases "\<exists>key legacy. ms_key S = Some key \<and> ms_legacy S = Some legacy \<and> dget (ms_meta S) ''storage_format'' \<noteq> Some ''aead-v2''")
    case False
    then have "?S = S" by (auto simp: upgrade_storage_format_def split: option.split)
    then show ?thesis by simp
  next
    case True
    then obtain key legacy where k: "ms_key S = Some key" "ms_legacy S = Some legacy" "dget (ms_meta S) ''storage_format'' \<noteq> Some ''aead-v2''" by blast
    have "ms_cap ?S = ms_cap S" using k by (simp add: upgrade_storage_format_def Let_def)
    then show ?thesis
      unfolding undelivered_def held_of_def upgrade_tables [OF k]
      by (intro conjI allI payloads_only(1) [where upd = "\<lambda>r p. qr_payload_update (\<lambda>_. p) r"] payloads_only(1) [where upd = "\<lambda>r p. he_payload_update (\<lambda>_. p) r"]
          payloads_only(2) [where upd = "\<lambda>r p. qr_payload_update (\<lambda>_. p) r"] payloads_only(2) [where upd = "\<lambda>r p. he_payload_update (\<lambda>_. p) r"]) simp_all
  qed
  then show "queue_inv S \<Longrightarrow> queue_inv ?S" "held_inv hc S \<Longrightarrow> held_inv hc ?S" by (simp_all add: queue_inv_def held_inv_def)
qed

lemma length_filter_filter: "length (filter R (filter P xs)) \<le> length (filter R xs)"
  by (induction xs) auto

lemma queue_inv_mono:
  assumes "queue_inv S" "distinct (map queue_key (ms_queue S1))" "ms_cap S1 = ms_cap S"
    "\<And>q. length (undelivered q S1) \<le> length (undelivered q S)"
  shows "queue_inv S1"
proof -
  have "int (length (undelivered q S1)) \<le> ms_cap S" if "0 < ms_cap S" for q
    using assms(1) assms(4) [of q] that unfolding queue_inv_def by (meson of_nat_mono order_trans)
  then show ?thesis using assms(2,3) by (simp add: queue_inv_def)
qed

lemma queue_inv_step:
  "queue_inv S \<Longrightarrow> queue_inv (store_step C hc op S)"
proof (cases op)
  case (Delivered now p m)
  assume S: "queue_inv S"
  have "map queue_key (ms_queue (mark_delivered now p m S)) = map queue_key (ms_queue S)" by (simp add: mark_delivered_def)
  moreover have "length (undelivered q (mark_delivered now p m S)) \<le> length (undelivered q S)" for q
  proof -
    have le: "length (filter P (map f rows)) \<le> length (filter P rows)" if "\<And>r. P (f r) \<Longrightarrow> P r" for P f and rows :: "queue_row list"
      using that by (induction rows) auto
    have rows: "ms_queue (mark_delivered now p m S)
        = map (\<lambda>r. if qr_peer r = p \<and> qr_msg_id r = m then r\<lparr>qr_delivered := Some now\<rparr> else r) (ms_queue S)"
      by (simp add: mark_delivered_def)
    show ?thesis unfolding undelivered_def rows by (rule le) (simp split: if_splits)
  qed
  moreover have "ms_cap (mark_delivered now p m S) = ms_cap S" by (simp add: mark_delivered_def)
  moreover have "distinct (map queue_key (ms_queue S))" using S by (simp add: queue_inv_def)
  ultimately have "queue_inv (mark_delivered now p m S)" by (intro queue_inv_mono [OF S]) (simp_all only:)
  then show ?thesis using Delivered by simp
next
  case (Cleanup now age)
  assume S: "queue_inv S"
  obtain P where P: "store_step C hc op S = S\<lparr>ms_queue := filter P (ms_queue S)\<rparr>" using Cleanup by (simp add: cleanup_old_pending_def Let_def)
  have "length (undelivered q (S\<lparr>ms_queue := filter P (ms_queue S)\<rparr>)) \<le> length (undelivered q S)" for q
    by (simp add: undelivered_def length_filter_filter del: filter_filter)
  moreover have "distinct (map queue_key (filter P (ms_queue S)))" using S by (simp add: queue_inv_def distinct_map_filter)
  ultimately show ?thesis unfolding P by (intro queue_inv_mono [OF S]) simp_all
next
  case (Queue now n p m src ty pl pr)
  assume "queue_inv S"
  then show ?thesis using Queue by (simp add: queue_inv_queue_for_peer)
next
  case (Upgrade ns)
  assume "queue_inv S"
  then show ?thesis using Upgrade by (simp add: upgrade_invs)
qed (simp_all add: queue_inv_def undelivered_def store_message_def prune_old_def queue_pending_trust_def drain_pending_trust_def
    discard_pending_trust_def Let_def)

lemma held_inv_filter:
  assumes "held_inv hc S"
  shows "held_inv hc (S\<lparr>ms_held := filter P (ms_held S)\<rparr>)"
proof -
  have "length (held_of q (S\<lparr>ms_held := filter P (ms_held S)\<rparr>)) \<le> length (held_of q S)" for q
    unfolding held_of_def by (simp add: length_filter_filter del: filter_filter)
  then have "int (length (held_of q (S\<lparr>ms_held := filter P (ms_held S)\<rparr>))) \<le> hc" for q
    using assms unfolding held_inv_def by (meson of_nat_mono order_trans)
  then show ?thesis using assms by (simp add: held_inv_def distinct_map_filter)
qed

lemma held_inv_same: "held_inv hc S \<Longrightarrow> ms_held S1 = ms_held S \<Longrightarrow> held_inv hc S1"
  by (simp add: held_inv_def held_of_def)

lemma queue_for_peer_held: "ms_held (snd (queue_for_peer C now n p m src ty pl pr S)) = ms_held S"
proof -
  have "ms_held (snd (evict_to_make_room p pr S)) = ms_held S"
    by (simp add: evict_to_make_room_def split: list.split)
  then show ?thesis
    unfolding queue_for_peer_eq by (cases "evict_to_make_room p pr S"; cases "fst (evict_to_make_room p pr S)") simp_all
qed

lemma held_inv_step:
  assumes "held_inv hc S" "0 < hc"
  shows "held_inv hc (store_step C hc op S)"
proof (cases op)
  case (Hold now n p m ty pl pr)
  then show ?thesis using held_inv_queue_pending_trust [OF assms] by simp
next
  case (Upgrade ns)
  then show ?thesis using assms by (simp add: upgrade_invs)
next
  case (Queue now n p m src ty pl pr)
  then show ?thesis using held_inv_same [OF assms(1)] by (simp add: queue_for_peer_held)
qed (use assms held_inv_filter [OF assms(1)] held_inv_same [OF assms(1)] in \<open>simp_all add: drain_pending_trust_def
    discard_pending_trust_def store_message_def prune_old_def mark_delivered_def cleanup_old_pending_def Let_def\<close>)

text \<open>Whatever the daemon does with the store, no peer has more than the cap waiting, none more held messages than the
  gate's cap, and no message twice.\<close>

lemma store_bounded:
  assumes "0 < hc"
  shows "queue_inv (fold (store_step C hc) ops (new_store key legacy cap))" "held_inv hc (fold (store_step C hc) ops (new_store key legacy cap))"
proof -
  have "queue_inv (fold (store_step C hc) ops S) \<and> held_inv hc (fold (store_step C hc) ops S)" if "queue_inv S" "held_inv hc S" for S
    using that by (induction ops arbitrary: S) (auto simp: queue_inv_step held_inv_step [OF _ assms])
  moreover have "queue_inv (new_store key legacy cap)" "held_inv hc (new_store key legacy cap)"
    using assms by (simp_all add: new_store_def queue_inv_def held_inv_def undelivered_def held_of_def)
  ultimately show "queue_inv (fold (store_step C hc) ops (new_store key legacy cap))"
    "held_inv hc (fold (store_step C hc) ops (new_store key legacy cap))" by blast+
qed

section \<open>Where the store loses messages\<close>

text \<open>History rows are keyed by the message id alone, which the sender chooses: a later message of anyone replaces an
  earlier one with the same id.\<close>

lemma foreign_message_replaces_history:
  "\<forall>r\<in>set (ms_history (store_message C now n msg_id src dis dst ty pl dir pr S)). hr_msg_id r = msg_id \<longrightarrow> hr_source r = src \<and> hr_timestamp r = now"
  by (auto simp: store_message_def)

text \<open>A held message that comes in again at the cap is not stored twice, but the oldest message held for its sender is
  evicted all the same.\<close>

lemma duplicate_evicts_oldest:
  assumes "0 < hc" "int (length (held_of p S)) \<ge> hc" "sort_key he_queued (held_of p S) = v # vs"
    "r \<in> set (ms_held S)" "he_source r = p" "he_msg_id r = m" "r \<noteq> v"
  shows "queue_pending_trust C now n p m ty pl pr hc S
    = (False, S\<lparr>ms_held := remove1 v (ms_held S), ms_held_evicted := ms_held_evicted S + 1\<rparr>)"
  using assms by (auto simp: queue_pending_trust_def Let_def in_set_remove1)

text \<open>Queueing a message again at the cap evicts another one, although it replaces its own row.\<close>

lemma requeue_evicts_other:
  assumes "\<not> has_room p S" "victims p S = v # vs" "priority_rank pr \<le> priority_rank (qr_priority v)"
    "r \<in> set (undelivered p S)" "qr_msg_id r = m" "qr_msg_id v \<noteq> m"
  shows "undelivered p (snd (queue_for_peer C now n p m src ty pl pr S))
    = filter (\<lambda>x. qr_msg_id x \<noteq> m) (filter (\<lambda>x. qr_msg_id x \<noteq> qr_msg_id v) (undelivered p S))
      @ [queued_row C now n p m src ty pl pr S]"
  using assms(1-3) unfolding undelivered_def [of p S]
  by (simp add: queue_for_peer_eq evict_to_make_room_def queued_undelivered filter_drop_queued not_less del: filter_filter)
    (simp add: queued_row_def)

text \<open>Messages of high priority are not always admitted: a queue full of critical ones refuses them.\<close>

lemma high_priority_refused:
  assumes "\<not> has_room p S" "\<forall>r\<in>set (undelivered p S). qr_priority r = ''CRITICAL''" "undelivered p S \<noteq> []"
  shows "fst (queue_for_peer C now n p m src ty pl ''HIGH'' S) = False"
proof -
  obtain v vs where v: "victims p S = v # vs" using assms(3) by (metis victims_def length_0_conv length_sort neq_Nil_conv)
  then have "qr_priority v = ''CRITICAL''" using assms(2) hd_sort_key_in [OF v [unfolded victims_def]] by blast
  then show ?thesis using assms(1) v by (simp add: queue_for_peer_eq evict_to_make_room_def priority_rank_def)
qed

text \<open>A priority the table does not know counts as normal for the newcomer, but the query puts its row before critical
  ones, and never makes it a victim before a known one.\<close>

lemma unknown_priority_goes_first:
  "\<not> known_priority a \<Longrightarrow> known_priority b \<Longrightarrow> priority_rank a = 2 \<and> sql_rank a < sql_rank b"
  by (auto simp: known_priority_def sql_rank_def priority_rank_def)

end
