(* ===== verification/Outbound.thy ===== *)
theory Outbound
  imports Delivery Message_Store "HOL-Library.Multiset"
begin

text \<open>
  The outbound path of routing.py: \<open>send_message\<close> (direct, routed, queued), the end-to-end seal and the strict mode
  that strips the plaintext, \<open>unified_peers\<close>, \<open>send_to_name\<close> and \<open>send_to_capability\<close>.

  \<^item> The message ids, nonces, clocks, gzip and what sends do are in \<open>out_env\<close>; hooks and logging are left out.
  \<^item> Waiting for a Reticulum peer to come online, and the LXMF send, are parameters: the daemon as it is when the
    peer is online, and whether LXMF took the message.
\<close>

declare map_of_eq_Some_iff [simp del]

record out_env =
  oe_msg_id :: string
  oe_now :: time
  oe_mono :: time
  oe_nonce :: bytes
  oe_queue_nonce :: bytes
  oe_seal :: bytes
  oe_gzip :: "bytes \<Rightarrow> bytes option"
  oe_send :: send_env
  oe_send2 :: send_env
  oe_online :: "daemon option"
  oe_lxmf :: bool

record rns_entry =
  rn_name :: "string option"
  rn_node :: "node_id option"
  rn_dest :: "string option"
  rn_hops :: "int option"
  rn_features :: "json list"

record sender =
  sd_daemon :: daemon
  sd_store :: message_store
  sd_name :: string
  sd_strict :: bool
  sd_max_hops :: int
  sd_lora_max :: int
  sd_discovered :: "rns_entry list"
  sd_rns_up :: bool
  sd_lxmf_up :: bool
  sd_sent :: nat
  sd_delivered :: nat
  sd_failed :: nat
  sd_oversized :: nat
  sd_cap_attempted :: nat
  sd_cap_no_match :: nat
  sd_cap_succeeded :: nat

abbreviation sd_me :: "sender \<Rightarrow> node_id" where
  "sd_me S \<equiv> dm_me (sd_daemon S)"

abbreviation sd_peer :: "node_id \<Rightarrow> sender \<Rightarrow> peer_state option" where
  "sd_peer p S \<equiv> dm_peer p (sd_daemon S)"

definition upd_sd_peer :: "node_id \<Rightarrow> (peer_state \<Rightarrow> peer_state) \<Rightarrow> sender \<Rightarrow> sender" where
  "upd_sd_peer p f S = S\<lparr>sd_daemon := upd_peer p f (sd_daemon S)\<rparr>"

definition retry_peer :: "node_id \<Rightarrow> string \<Rightarrow> sender \<Rightarrow> sender" where
  "retry_peer p reason = upd_sd_peer p (ps_record_retry reason)"

section \<open>The frame\<close>

text \<open>The end-to-end seal; a destination without a usable key goes without.\<close>

definition e2e_seal :: "crypto \<Rightarrow> out_env \<Rightarrow> node_id \<Rightarrow> bytes \<Rightarrow> sender \<Rightarrow> bytes option py" where
  "e2e_seal C E to payload S = py_bind (lookup_dest_identity to (sd_daemon S)) (\<lambda>key.
     case key of
       None \<Rightarrow> Inr None
     | Some pub \<Rightarrow>
         if to = sd_me S then Inr None
         else (case seal_to_destination C (oe_seal E) payload pub (Option.bind (sd_peer to S) ps_x25519_identity_public) of
           Inl e \<Rightarrow> Inr None
         | Inr sealed \<Rightarrow> Inr (Some sealed)))"

text \<open>Payload shrunk for a LoRa peer: the payload to send, whether it is compressed, whether it was over the limit.\<close>

definition lora_shrink :: "out_env \<Rightarrow> node_id \<Rightarrow> bytes option \<Rightarrow> bytes \<Rightarrow> sender \<Rightarrow> bytes \<times> bool \<times> bool" where
  "lora_shrink E to sealed payload S =
    (case sd_peer to S of
       Some st \<Rightarrow>
         if sealed = None \<and> ps_transport_type st = ''rns'' \<and> 0 < sd_lora_max S \<and> int (length payload) > sd_lora_max S
         then (case oe_gzip E payload of
                 Some shrunk \<Rightarrow> if int (length shrunk) \<le> sd_lora_max S then (shrunk, True, True) else (payload, False, True)
               | None \<Rightarrow> (payload, False, True))
         else (payload, False, False)
     | None \<Rightarrow> (payload, False, False))"

definition routing_pop :: "string \<Rightarrow> json \<Rightarrow> json" where
  "routing_pop k j = (case j of JObj d \<Rightarrow> JObj (dpop k d) | _ \<Rightarrow> j)"

definition maybe_strip_e2e_plaintext :: "crypto \<Rightarrow> bytes \<Rightarrow> frame \<Rightarrow> sender \<Rightarrow> frame py" where
  "maybe_strip_e2e_plaintext C plaintext f S =
    (if f_e2e_payload f = None \<or> \<not> sd_strict S then Inr f
     else py_bind (canonical_inner_source_bytes (f_source f) (f_destination f) (f_msg_id f) plaintext) (\<lambda>canon.
       py_bind (sign_detached_with_context C (l_sign_key (dm_link (sd_daemon S))) SIG_CTX_FRAME_INNER_SOURCE canon) (\<lambda>sig.
         Inr (f\<lparr>f_source_signature := Some sig, f_source_sig_scheme := Some SOURCE_SIG_SCHEME_V2, f_payload := [],
                f_routing := routing_pop ''compressed'' (f_routing f)\<rparr>))))"

definition outgoing_frame :: "out_env \<Rightarrow> node_id \<Rightarrow> string \<Rightarrow> string \<Rightarrow> bytes option \<Rightarrow> bytes \<Rightarrow> bool \<Rightarrow> sender \<Rightarrow> frame" where
  "outgoing_frame E to msg_type priority sealed payload compressed S =
    (new_frame (oe_now E) (oe_msg_id E) msg_type payload (Some (oe_msg_id E)) (sd_me S) to (JStr priority) 0)
      \<lparr>f_e2e_payload := sealed, f_ttl := sd_max_hops S,
       f_routing := JObj (if compressed then [(''compressed'', JBool True)] else [])\<rparr>"

section \<open>Sending\<close>

datatype send_route = SentDirect | SentVia node_id | QueuedOffline | QueueRefused

definition send_on :: "crypto \<Rightarrow> float_io \<Rightarrow> send_env \<Rightarrow> node_id \<Rightarrow> frame \<Rightarrow> sender \<Rightarrow> py_error option \<times> sender" where
  "send_on C io env p f S = (case send_frame C io env p f (dm_link (sd_daemon S)) of
     (e, l) \<Rightarrow> (e, S\<lparr>sd_daemon := put_link l (sd_daemon S)\<rparr>))"

definition count_sent :: "sender \<Rightarrow> sender" where
  "count_sent S = S\<lparr>sd_sent := sd_sent S + 1, sd_delivered := sd_delivered S + 1\<rparr>"

definition ready_direct :: "node_id \<Rightarrow> sender \<Rightarrow> bool" where
  "ready_direct to S = (to \<in> set (l_ws_clients (dm_link (sd_daemon S))) \<and>
     (case sd_peer to S of None \<Rightarrow> False | Some st \<Rightarrow> ps_session_key st \<notin> {None, Some []}))"

text \<open>The three ways in their order. \<open>None\<close> of the first two: the next one is tried.\<close>

definition try_direct :: "crypto \<Rightarrow> float_io \<Rightarrow> out_env \<Rightarrow> node_id \<Rightarrow> frame \<Rightarrow> bytes \<Rightarrow> sender \<Rightarrow> send_route option \<times> sender" where
  "try_direct C io E to f payload S =
    (if \<not> ready_direct to S then (None, S)
     else case send_on C io (oe_send E) to f S of
       (None, S1) \<Rightarrow> (Some SentDirect, count_sent (upd_sd_peer to (\<lambda>s. s\<lparr>ps_messages_sent := ps_messages_sent s + 1,
                        ps_bytes_sent_total := ps_bytes_sent_total s + int (length payload)\<rparr>) S1))
     | (Some e, S1) \<Rightarrow> (None, retry_peer to ''direct_send_failed'' S1))"

definition try_routed :: "crypto \<Rightarrow> float_io \<Rightarrow> out_env \<Rightarrow> node_id \<Rightarrow> frame \<Rightarrow> bytes \<Rightarrow> sender \<Rightarrow> send_route option \<times> sender" where
  "try_routed C io E to f payload S =
    (if \<not> dm_mesh_on (sd_daemon S) then (None, S)
     else case mesh_get_route (oe_mono E) to (dm_mesh (sd_daemon S)) of
       (hop, m) \<Rightarrow>
         (let S1 = S\<lparr>sd_daemon := (sd_daemon S)\<lparr>dm_mesh := m\<rparr>\<rparr> in
          case hop of
            None \<Rightarrow> (None, S1)
          | Some h \<Rightarrow>
              if h = to then (None, S1)
              else case send_on C io (oe_send2 E) h f S1 of
                (None, S2) \<Rightarrow> (Some (SentVia h), count_sent (upd_sd_peer h (\<lambda>s. s\<lparr>ps_bytes_sent_total :=
                                 ps_bytes_sent_total s + int (length payload)\<rparr>) S2))
              | (Some e, S2) \<Rightarrow> (None, retry_peer to ''routed_send_failed'' (retry_peer h ''routed_send_failed'' S2))))"

definition queue_offline :: "crypto \<Rightarrow> out_env \<Rightarrow> node_id \<Rightarrow> string \<Rightarrow> bytes \<Rightarrow> string \<Rightarrow> sender \<Rightarrow> send_route \<times> sender" where
  "queue_offline C E to msg_type payload priority S0 =
    (let S = retry_peer to ''queued_offline'' (S0\<lparr>sd_failed := sd_failed S0 + 1\<rparr>) in
     case queue_for_peer C (oe_now E) (oe_queue_nonce E) to (oe_msg_id E) (sd_me S) msg_type payload priority (sd_store S) of
       (True, st) \<Rightarrow> (QueuedOffline, S\<lparr>sd_store := st\<rparr>)
     | (False, st) \<Rightarrow> (QueueRefused, retry_peer to ''queue_full_dropped'' (S\<lparr>sd_store := st\<rparr>)))"

definition send_out :: "crypto \<Rightarrow> float_io \<Rightarrow> out_env \<Rightarrow> node_id \<Rightarrow> string \<Rightarrow> string \<Rightarrow> frame \<Rightarrow> bytes \<Rightarrow> sender \<Rightarrow> send_route \<times> sender" where
  "send_out C io E to msg_type priority f payload S = (case try_direct C io E to f payload S of
     (Some r, S1) \<Rightarrow> (r, S1)
   | (None, S1) \<Rightarrow>
       (case try_routed C io E to f payload S1 of
          (Some r, S2) \<Rightarrow> (r, S2)
        | (None, S2) \<Rightarrow> queue_offline C E to msg_type payload priority S2))"

text \<open>The frame, the payload it was built from, and whether that was over the LoRa limit.\<close>

definition prepare_frame :: "crypto \<Rightarrow> out_env \<Rightarrow> node_id \<Rightarrow> string \<Rightarrow> bytes \<Rightarrow> string \<Rightarrow> sender \<Rightarrow> (frame \<times> bytes) py \<times> bool" where
  "prepare_frame C E to msg_type payload priority S = (case e2e_seal C E to payload S of
     Inl e \<Rightarrow> (Inl e, False)
   | Inr sealed \<Rightarrow>
       (case lora_shrink E to sealed payload S of
          (body, compressed, oversized) \<Rightarrow>
            (py_bind (maybe_strip_e2e_plaintext C payload (outgoing_frame E to msg_type priority sealed body compressed S) S)
               (\<lambda>f. Inr (f, body)), oversized)))"

definition send_message :: "crypto \<Rightarrow> float_io \<Rightarrow> out_env \<Rightarrow> node_id \<Rightarrow> string \<Rightarrow> bytes \<Rightarrow> string \<Rightarrow> sender \<Rightarrow> send_route py \<times> sender" where
  "send_message C io E to msg_type payload priority S0 =
    (let S = S0\<lparr>sd_store := store_message C (oe_now E) (oe_nonce E) (oe_msg_id E) (sd_me S0) (sd_name S0) to msg_type payload
                  ''outbound'' priority (sd_store S0)\<rparr> in
     case prepare_frame C E to msg_type payload priority S of
       (r, oversized) \<Rightarrow>
         (let S1 = (if oversized then S\<lparr>sd_oversized := sd_oversized S + 1\<rparr> else S) in
          case r of
            Inl e \<Rightarrow> (Inl e, S1)
          | Inr (f, body) \<Rightarrow> (case send_out C io E to msg_type priority f body S1 of (route, S2) \<Rightarrow> (Inr route, S2))))"

section \<open>By name and by capability\<close>

definition online_by_name :: "string \<Rightarrow> sender \<Rightarrow> node_id option" where
  "online_by_name name S = (if name = [] then None
     else map_option fst (find (\<lambda>(p, st). is_online st \<and> ps_agent_name st = Some name) (l_peers (dm_link (sd_daemon S)))))"

definition discovered_by_name :: "string \<Rightarrow> sender \<Rightarrow> rns_entry option" where
  "discovered_by_name name S = (if name = [] then None else find (\<lambda>e. rn_name e = Some name) (sd_discovered S))"

record unified_peer =
  up_node :: node_id
  up_name :: "string option"
  up_via :: "string list"
  up_transport :: "string option"
  up_dest :: "string option"
  up_hops :: "int option"
  up_rtt :: "real option"
  up_bps :: "real option"

text \<open>A connected peer; \<open>or\<close> skips a round-trip time of zero.\<close>

definition connected_entry :: "node_id \<Rightarrow> peer_state \<Rightarrow> unified_peer" where
  "connected_entry p st = \<lparr> up_node = p, up_name = ps_agent_name st, up_via = [ps_transport_type st],
     up_transport = Some (ps_transport_type st), up_dest = ps_rns_dest_hash st, up_hops = ps_rns_hops st,
     up_rtt = (if ps_rns_estimated_rtt_ms st \<in> {None, Some 0} then ps_latency_ms st else ps_rns_estimated_rtt_ms st),
     up_bps = ps_rns_estimated_bps st \<rparr>"

text \<open>\<open>setdefault\<close> on keys that every entry has changes nothing.\<close>

definition add_discovered :: "rns_entry \<Rightarrow> (node_id, unified_peer) dict \<Rightarrow> (node_id, unified_peer) dict" where
  "add_discovered e out = (case rn_node e of
     None \<Rightarrow> out
   | Some p \<Rightarrow>
       if p = [] then out
       else (case dget out p of
         Some u \<Rightarrow> dset p (if ''rns_announce'' \<in> set (up_via u) then u else u\<lparr>up_via := up_via u @ [''rns_announce'']\<rparr>) out
       | None \<Rightarrow> dset p \<lparr> up_node = p, up_name = rn_name e, up_via = [''rns_announce''], up_transport = None,
                          up_dest = rn_dest e, up_hops = rn_hops e, up_rtt = None, up_bps = None \<rparr> out))"

definition unified_peers :: "sender \<Rightarrow> unified_peer list" where
  "unified_peers S = map snd (fold add_discovered (sd_discovered S)
     (map (\<lambda>(p, st). (p, connected_entry p st)) (filter (\<lambda>(p, st). is_online st) (l_peers (dm_link (sd_daemon S))))))"

record send_receipt =
  sr_transport :: string
  sr_target :: string
  sr_msg_id :: "string option"
  sr_tier :: nat

definition receipt_of :: "string \<Rightarrow> node_id \<Rightarrow> nat \<Rightarrow> out_env \<Rightarrow> send_route py \<times> sender \<Rightarrow> send_receipt py \<times> sender" where
  "receipt_of transport p tier E r = (case r of
     (Inl e, S) \<Rightarrow> (Inl e, S)
   | (Inr route, S) \<Rightarrow> (Inr \<lparr> sr_transport = transport, sr_target = p, sr_msg_id = Some (oe_msg_id E), sr_tier = tier \<rparr>, S))"

text \<open>Tier two waits for the peer: the daemon once it is online with a key, or the deadline.\<close>

definition wait_online :: "out_env \<Rightarrow> string \<Rightarrow> sender \<Rightarrow> (node_id \<times> sender) option" where
  "wait_online E name S = (case discovered_by_name name S of
     None \<Rightarrow> None
   | Some e \<Rightarrow>
       (case (rn_dest e, rn_node e, oe_online E) of
          (Some d, Some p, Some D) \<Rightarrow>
            if sd_rns_up S \<and> d \<noteq> [] \<and> p \<noteq> [] \<and> (case dm_peer p D of None \<Rightarrow> False | Some st \<Rightarrow> is_online st \<and> ps_session_key st \<notin> {None, Some []})
            then Some (p, S\<lparr>sd_daemon := D\<rparr>) else None
        | _ \<Rightarrow> None))"

definition is_hex_digit :: "char \<Rightarrow> bool" where
  "is_hex_digit c = (c \<in> set ''0123456789abcdefABCDEF'')"

text \<open>\<open>int(clean, 16)\<close> of 32 or 64 characters: hexadecimal digits, or a sign or \<open>0x\<close> before them, with single
  underscores between digits.\<close>

fun hex_tail :: "string \<Rightarrow> bool" where
  "hex_tail [] = True"
| "hex_tail (c # cs) = (if c = CHR ''_'' then (case cs of [] \<Rightarrow> False | d # ds \<Rightarrow> is_hex_digit d \<and> hex_tail ds) else is_hex_digit c \<and> hex_tail cs)"

definition reads_as_hex :: "string \<Rightarrow> bool" where
  "reads_as_hex s =
    (let u = (case s of c # cs \<Rightarrow> if c = CHR ''+'' \<or> c = CHR ''-'' then cs else s | [] \<Rightarrow> s);
         v = (if take 2 u = ''0x'' \<or> take 2 u = ''0X'' then (case drop 2 u of c # cs \<Rightarrow> if c = CHR ''_'' then cs else drop 2 u | [] \<Rightarrow> []) else u) in
     v \<noteq> [] \<and> is_hex_digit (hd v) \<and> hex_tail v)"

definition looks_like_lxmf_hash :: "string \<Rightarrow> bool" where
  "looks_like_lxmf_hash value =
    (let clean = filter (\<lambda>c. c \<noteq> CHR '':'' \<and> c \<noteq> CHR '' '') (py_strip value) in
     length clean \<in> {32, 64} \<and> reads_as_hex (py_strip clean))"

definition send_to_name :: "crypto \<Rightarrow> float_io \<Rightarrow> out_env \<Rightarrow> string \<Rightarrow> bytes \<Rightarrow> string \<Rightarrow> string \<Rightarrow> sender \<Rightarrow> send_receipt py \<times> sender" where
  "send_to_name C io E name payload msg_type priority S = (case online_by_name name S of
     Some p \<Rightarrow>
       (case send_message C io E p msg_type payload priority S of
          (r, S1) \<Rightarrow> receipt_of (case sd_peer p S1 of Some st \<Rightarrow> ps_transport_type st | None \<Rightarrow> ''websocket'') p 1 E (r, S1))
   | None \<Rightarrow>
       (case wait_online E name S of
          Some (p, S1) \<Rightarrow> receipt_of ''rns'' p 2 E (send_message C io E p msg_type payload priority S1)
        | None \<Rightarrow>
            if sd_lxmf_up S \<and> looks_like_lxmf_hash name \<and> oe_lxmf E
            then (Inr \<lparr> sr_transport = ''lxmf'', sr_target = name, sr_msg_id = None, sr_tier = 3 \<rparr>, S)
            else (Inl (ValueError ''No reachable transport''), S)))"

definition capability_candidates :: "string \<Rightarrow> sender \<Rightarrow> (node_id \<times> string) list" where
  "capability_candidates pattern S = (case dm_caps (sd_daemon S) of
     None \<Rightarrow> []
   | Some reg \<Rightarrow> filter (\<lambda>(p, cap). p \<noteq> sd_me S) (find_caps pattern reg))"

text \<open>The sort key of \<open>first\<close>: online before offline, then by measured round-trip time, unmeasured last. The shuffle of
  \<open>random\<close> is an argument.\<close>

definition candidate_rtt :: "sender \<Rightarrow> node_id \<times> string \<Rightarrow> real option" where
  "candidate_rtt S c = (case sd_peer (fst c) S of None \<Rightarrow> None | Some st \<Rightarrow> if is_online st then ps_latency_ms st else None)"

definition candidate_online :: "sender \<Rightarrow> node_id \<times> string \<Rightarrow> bool" where
  "candidate_online S c = (case sd_peer (fst c) S of None \<Rightarrow> False | Some st \<Rightarrow> is_online st)"

definition rank_candidates :: "((node_id \<times> string) list \<Rightarrow> (node_id \<times> string) list) \<Rightarrow> string \<Rightarrow> (node_id \<times> string) list
    \<Rightarrow> sender \<Rightarrow> (node_id \<times> string) list" where
  "rank_candidates shuffle strategy cs S =
    (if cs = [] then []
     else if strategy = ''random'' then shuffle cs
     else if strategy = ''all'' then cs
     else sort_key (\<lambda>c. if candidate_online S c then 0 else 1 :: nat)
       (sort_key (\<lambda>c. if candidate_rtt S c = None then 1 else 0 :: nat) (sort_key (\<lambda>c. case candidate_rtt S c of None \<Rightarrow> 0 | Some r \<Rightarrow> r) cs)))"

text \<open>A candidate is addressed by its agent name, if it has one.\<close>

definition candidate_target :: "sender \<Rightarrow> node_id \<Rightarrow> string" where
  "candidate_target S p = (case Option.bind (sd_peer p S) ps_agent_name of Some n \<Rightarrow> if n = [] then p else n | None \<Rightarrow> p)"

fun try_candidates :: "crypto \<Rightarrow> float_io \<Rightarrow> (nat \<Rightarrow> out_env) \<Rightarrow> bytes \<Rightarrow> string \<Rightarrow> string \<Rightarrow> (node_id \<times> string) list \<Rightarrow> sender
    \<Rightarrow> (string \<times> send_receipt) option \<times> sender" where
  "try_candidates C io E payload msg_type priority [] S = (None, S)"
| "try_candidates C io E payload msg_type priority ((p, cap) # cs) S =
    (case send_to_name C io (E (length cs)) (candidate_target S p) payload msg_type priority S of
       (Inr r, S1) \<Rightarrow> (Some (cap, r), S1\<lparr>sd_cap_succeeded := sd_cap_succeeded S1 + 1\<rparr>)
     | (Inl e, S1) \<Rightarrow> try_candidates C io E payload msg_type priority cs S1)"

fun fan_out :: "crypto \<Rightarrow> float_io \<Rightarrow> (nat \<Rightarrow> out_env) \<Rightarrow> bytes \<Rightarrow> string \<Rightarrow> string \<Rightarrow> (node_id \<times> string) list \<Rightarrow> sender
    \<Rightarrow> (string \<times> send_receipt py) list \<times> sender" where
  "fan_out C io E payload msg_type priority [] S = ([], S)"
| "fan_out C io E payload msg_type priority ((p, cap) # cs) S =
    (case send_to_name C io (E (length cs)) (candidate_target S p) payload msg_type priority S of
       (r, S1) \<Rightarrow> (case fan_out C io E payload msg_type priority cs S1 of (rs, S2) \<Rightarrow> ((cap, r) # rs, S2)))"

definition send_to_capability :: "crypto \<Rightarrow> float_io \<Rightarrow> (nat \<Rightarrow> out_env) \<Rightarrow> ((node_id \<times> string) list \<Rightarrow> (node_id \<times> string) list) \<Rightarrow> string
    \<Rightarrow> bytes \<Rightarrow> string \<Rightarrow> string \<Rightarrow> string \<Rightarrow> sender \<Rightarrow> (string \<times> send_receipt py) list py \<times> sender" where
  "send_to_capability C io E shuffle pattern payload msg_type priority strategy S0 =
    (let S = S0\<lparr>sd_cap_attempted := sd_cap_attempted S0 + 1\<rparr>;
         cs = capability_candidates pattern S;
         ordered = rank_candidates shuffle strategy cs S in
     if cs = [] then (Inl (ValueError ''No peer advertises a matching capability''), S\<lparr>sd_cap_no_match := sd_cap_no_match S + 1\<rparr>)
     else if strategy = ''all'' then
       (case fan_out C io E payload msg_type priority ordered S of
          (rs, S1) \<Rightarrow>
            if \<forall>(cap, r)\<in>set rs. (case r of Inl e \<Rightarrow> True | Inr x \<Rightarrow> False) then (Inl (ValueError ''All candidates failed''), S1)
            else (Inr rs, S1\<lparr>sd_cap_succeeded := sd_cap_succeeded S1 + 1\<rparr>))
     else
       (case try_candidates C io E payload msg_type priority ordered S of
          (Some (cap, r), S1) \<Rightarrow> (Inr [(cap, Inr r)], S1)
        | (None, S1) \<Rightarrow> (Inl (ValueError ''No reachable peer for capability''), S1)))"

section \<open>What a hop sees\<close>

lemma send_frame_numbered:
  "dget (l_peers d) p = Some s \<Longrightarrow> next_sequence s = (Inr n, s1) \<Longrightarrow> fst (send_frame C io env p f d) = None"
  by (simp add: send_frame_def Let_def split: option.split sum.split prod.split send_outcome.split)

lemma send_frame_raises:
  assumes "send_frame C io env p f d = (Some e, d')"
  shows "d' = d"
proof (cases "\<exists>s n s1. dget (l_peers d) p = Some s \<and> next_sequence s = (Inr n, s1)")
  case True
  then obtain s n s1 where "dget (l_peers d) p = Some s" "next_sequence s = (Inr n, s1)" by blast
  from send_frame_numbered [OF this, of C io env f] show ?thesis using assms by simp
next
  case False
  have "sendable p d" using assms send_frame_not_sendable by fastforce
  then obtain s k where s: "dget (l_peers d) p = Some s" "ps_session_key s = Some k" "k \<noteq> []" "p \<in> set (l_ws_clients d)"
    by (auto simp: sendable_def)
  then obtain e' s1 where n: "next_sequence s = (Inl e', s1)"
    using False by (cases "next_sequence s"; cases "fst (next_sequence s)") auto
  have "send_frame C io env p f d = (Some e', d)"
    unfolding send_frame_def s(1) option.case unfolding s(2) n option.case prod.case sum.case using s(3,4) by simp
  then show ?thesis using assms by simp
qed

lemma probe_breaker_link: "m_link (snd (probe_breaker now p m)) = m_link m"
  by (simp add: probe_breaker_def split: prod.split)

lemma mesh_get_route_link: "m_link (snd (mesh_get_route now dst m)) = m_link m"
proof -
  obtain direct m1 where d: "(if dst \<in> set (l_ws_clients (m_link m)) then (case probe_breaker now dst m of (opened, m1) \<Rightarrow> (\<not> opened, m1))
      else (False, m)) = (direct, m1)" by (rule prod.exhaust)
  then have "m_link m1 = m_link m" using probe_breaker_link [of now dst m] by (auto split: if_splits prod.splits)
  then show ?thesis
    unfolding mesh_get_route_def d Let_def using probe_breaker_link [of now _ m1]
    by (simp split: option.split prod.split) (metis snd_conv)
qed

lemma dm_link_put_link [simp]: "dm_link (put_link l D) = l"
  by (simp add: put_link_def)

lemma retry_peer_link:
  "l_wire (dm_link (sd_daemon (retry_peer p r S))) = l_wire (dm_link (sd_daemon S))"
  "l_node_id (dm_link (sd_daemon (retry_peer p r S))) = l_node_id (dm_link (sd_daemon S))"
  "l_sign_key (dm_link (sd_daemon (retry_peer p r S))) = l_sign_key (dm_link (sd_daemon S))"
  by (simp_all add: retry_peer_def upd_sd_peer_def upd_peer_def put_link_def set_peer_def split: option.split)

lemma retry_peer_peer:
  "dget (l_peers (dm_link (sd_daemon (retry_peer p r S)))) q
    = (if q = p then map_option (ps_record_retry r) (sd_peer q S) else sd_peer q S)"
  by (simp add: retry_peer_def upd_sd_peer_def upd_peer_def put_link_def set_peer_def split: option.split)

lemma upd_sd_peer_wire [simp]: "l_wire (dm_link (sd_daemon (upd_sd_peer p f S))) = l_wire (dm_link (sd_daemon S))"
  by (simp add: upd_sd_peer_def upd_peer_def put_link_def set_peer_def split: option.split)

text \<open>What a link of the sender shows a hop: the same node, key and session.\<close>

definition same_session :: "node_id \<Rightarrow> link \<Rightarrow> link \<Rightarrow> bool" where
  "same_session h d d1 = (l_node_id d1 = l_node_id d \<and> l_sign_key d1 = l_sign_key d
     \<and> (\<forall>s. dget (l_peers d) h = Some s \<longrightarrow> (\<exists>s1. dget (l_peers d1) h = Some s1
          \<and> ps_session_key s1 = ps_session_key s \<and> ps_next_send_seq s1 = ps_next_send_seq s)))"

lemma same_session_refl [simp]: "same_session h d d"
  by (simp add: same_session_def)

lemma same_session_retry: "same_session h (dm_link (sd_daemon S)) (dm_link (sd_daemon (retry_peer p r S)))"
  by (auto simp: same_session_def retry_peer_link retry_peer_peer ps_record_retry_def)

lemma try_direct_wire:
  assumes "try_direct C io E to f body S = (route, S1)"
  shows "if route = None then (\<forall>h. same_session h (dm_link (sd_daemon S)) (dm_link (sd_daemon S1)))
      \<and> l_wire (dm_link (sd_daemon S1)) = l_wire (dm_link (sd_daemon S))
    else \<exists>d'. send_frame C io (oe_send E) to f (dm_link (sd_daemon S)) = (None, d') \<and> l_wire (dm_link (sd_daemon S1)) = l_wire d'"
proof (cases "ready_direct to S")
  case False
  then show ?thesis using assms by (simp add: try_direct_def)
next
  case True
  obtain e d' where e: "send_frame C io (oe_send E) to f (dm_link (sd_daemon S)) = (e, d')" by (rule prod.exhaust)
  show ?thesis
  proof (cases e)
    case None
    then show ?thesis using assms True e by (auto simp: try_direct_def send_on_def count_sent_def)
  next
    case (Some x)
    then have "d' = dm_link (sd_daemon S)" using e send_frame_raises by simp
    then have "S1 = retry_peer to ''direct_send_failed'' S" "route = None"
      using assms True e Some by (auto simp: try_direct_def send_on_def put_link_def)
    then show ?thesis using same_session_retry by (simp add: retry_peer_link)
  qed
qed

lemma try_routed_wire:
  assumes "try_routed C io E to f body S = (route, S1)"
  shows "if route = None then l_wire (dm_link (sd_daemon S1)) = l_wire (dm_link (sd_daemon S))
    else \<exists>h d'. send_frame C io (oe_send2 E) h f (dm_link (sd_daemon S)) = (None, d') \<and> l_wire (dm_link (sd_daemon S1)) = l_wire d'"
proof -
  obtain hop m where m: "mesh_get_route (oe_mono E) to (dm_mesh (sd_daemon S)) = (hop, m)" by (rule prod.exhaust)
  have link: "m_link m = dm_link (sd_daemon S)" using mesh_get_route_link [of "oe_mono E" to "dm_mesh (sd_daemon S)"] m by simp
  show ?thesis
  proof (cases "dm_mesh_on (sd_daemon S) \<and> hop \<noteq> None \<and> hop \<noteq> Some to")
    case False
    then show ?thesis using assms m link by (auto simp: try_routed_def split: if_splits)
  next
    case True
    then obtain h where h: "hop = Some h" "h \<noteq> to" by auto
    obtain e d' where e: "send_frame C io (oe_send2 E) h f (dm_link (sd_daemon S)) = (e, d')" by (rule prod.exhaust)
    show ?thesis
    proof (cases e)
      case None
      then show ?thesis
        using assms True m h e link by (auto simp: try_routed_def send_on_def count_sent_def intro!: exI [of _ h] exI [of _ d'])
    next
      case (Some x)
      then have "d' = dm_link (sd_daemon S)" using e send_frame_raises by simp
      then show ?thesis
        using assms True m h e link Some by (auto simp: try_routed_def send_on_def retry_peer_link)
    qed
  qed
qed

lemma send_out_wire:
  assumes "send_out C io E to ty pr f body S = (route, S')"
    "l_wire (dm_link (sd_daemon S')) = l_wire (dm_link (sd_daemon S)) @ [w]"
  shows "\<exists>env h d d'. same_session h (dm_link (sd_daemon S)) d \<and> send_frame C io env h f d = (None, d') \<and> l_wire d' = l_wire d @ [w]"
proof -
  obtain r1 S1 where 1: "try_direct C io E to f body S = (r1, S1)" by (rule prod.exhaust)
  note d1 = try_direct_wire [OF 1]
  show ?thesis
  proof (cases r1)
    case (Some r)
    then obtain d' where "send_frame C io (oe_send E) to f (dm_link (sd_daemon S)) = (None, d')"
        "l_wire (dm_link (sd_daemon S')) = l_wire d'"
      using assms(1) d1 1 by (auto simp: send_out_def)
    then show ?thesis using assms(2) same_session_refl by metis
  next
    case None
    obtain r2 S2 where 2: "try_routed C io E to f body S1 = (r2, S2)" by (rule prod.exhaust)
    note d2 = try_routed_wire [OF 2]
    show ?thesis
    proof (cases r2)
      case (Some r)
      then obtain h d' where "send_frame C io (oe_send2 E) h f (dm_link (sd_daemon S1)) = (None, d')"
          "l_wire (dm_link (sd_daemon S')) = l_wire d'"
        using assms(1) d2 1 2 None by (auto simp: send_out_def)
      moreover have "\<forall>h. same_session h (dm_link (sd_daemon S)) (dm_link (sd_daemon S1))"
        "l_wire (dm_link (sd_daemon S1)) = l_wire (dm_link (sd_daemon S))" using d1 None by simp_all
      ultimately show ?thesis using assms(2) by metis
    next
      case None2: None
      have "l_wire (dm_link (sd_daemon (snd (queue_offline C E to ty body pr S2)))) = l_wire (dm_link (sd_daemon S2))"
        by (auto simp: queue_offline_def Let_def retry_peer_link split: prod.split bool.split)
      then show ?thesis using assms d1 d2 1 2 None None2 by (simp add: send_out_def)
    qed
  qed
qed

lemma set_peer_wire: "l_wire (set_peer p s d) = l_wire d" "l_wire (send_failed w p d) = l_wire d" "l_wire (mark_link_offline w p d) = l_wire d"
  by (simp_all add: set_peer_def send_failed_def mark_link_offline_def Let_def split: option.split)

lemma send_frame_to:
  assumes "send_frame C io env p f d = (r, d')" "l_wire d' = l_wire d @ [w]"
  shows "fst w = p"
proof -
  have "l_wire d' = l_wire d \<or> (\<exists>raw. l_wire d' = l_wire d @ [(p, raw)])"
  proof (cases "sendable p d")
    case False
    then show ?thesis using assms(1) send_frame_not_sendable by fastforce
  next
    case True
    then obtain s key where s: "dget (l_peers d) p = Some s" "ps_session_key s = Some key" "key \<noteq> []" "p \<in> set (l_ws_clients d)"
      by (auto simp: sendable_def)
    obtain x s1 where n: "next_sequence s = (x, s1)" by (rule prod.exhaust)
    show ?thesis
    proof (cases x)
      case (Inl e)
      then show ?thesis using assms(1) s n by (simp add: send_frame_def)
    next
      case (Inr sq)
      let ?e = "encrypt_and_serialize C io (se_nonce env) key (Some (l_sign_key d))
        (if f_source f = l_node_id d \<and> f_source_signature f = None then Some (l_sign_key d) else None) (f\<lparr>f_sequence := sq\<rparr>)"
      show ?thesis
      proof (cases ?e)
        case (Inl e)
        then show ?thesis using assms(1) s n Inr by (simp add: send_frame_def Let_def) (auto simp: set_peer_wire)
      next
        case e: (Inr fr)
        then show ?thesis
          using assms(1) s n Inr by (cases fr) (auto simp: send_frame_def Let_def set_peer_wire split: prod.splits if_splits send_outcome.splits)
      qed
    qed
  qed
  then show ?thesis using assms(2) by auto
qed

text \<open>The frame of a message to a node whose sealing key is known, in strict mode.\<close>

lemma strict_frame:
  assumes "sd_strict S" "lookup_dest_identity to (sd_daemon S) = Inr (Some pub)" "length pub = 32" "to \<noteq> sd_me S"
    "Option.bind (sd_peer to S) ps_x25519_identity_public = Some xpk" "length xpk = 32"
    "prepare_frame C E to ty payload pr S = (Inr (f, body), over)"
  obtains canon sig where "canonical_inner_source_bytes (sd_me S) to (f_msg_id f) payload = Inr canon"
    "sign_detached_with_context C (l_sign_key (dm_link (sd_daemon S))) SIG_CTX_FRAME_INNER_SOURCE canon = Inr sig"
    "f = (outgoing_frame E to ty pr (Some (seal_encrypt C xpk (oe_seal E) payload)) payload False S)
       \<lparr>f_source_signature := Some sig, f_source_sig_scheme := Some SOURCE_SIG_SCHEME_V2, f_payload := [], f_routing := JObj []\<rparr>"
    "over = False"
proof -
  have seal: "e2e_seal C E to payload S = Inr (Some (seal_encrypt C xpk (oe_seal E) payload))"
    using assms by (simp add: e2e_seal_def seal_to_destination_def py_bind_def)
  have shrink: "lora_shrink E to (Some sealed) payload S = (payload, False, False)" for sealed
    by (simp add: lora_shrink_def split: option.split)
  let ?f = "outgoing_frame E to ty pr (Some (seal_encrypt C xpk (oe_seal E) payload)) payload False S"
  have fields: "f_source ?f = sd_me S" "f_destination ?f = to" "f_e2e_payload ?f \<noteq> None" "f_routing ?f = JObj []"
    by (simp_all add: outgoing_frame_def new_frame_def)
  obtain canon sig where c: "canonical_inner_source_bytes (sd_me S) to (f_msg_id ?f) payload = Inr canon"
      "sign_detached_with_context C (l_sign_key (dm_link (sd_daemon S))) SIG_CTX_FRAME_INNER_SOURCE canon = Inr sig"
      "f = ?f\<lparr>f_source_signature := Some sig, f_source_sig_scheme := Some SOURCE_SIG_SCHEME_V2, f_payload := [], f_routing := JObj []\<rparr>"
    using assms(1,7) by (auto simp: prepare_frame_def seal shrink maybe_strip_e2e_plaintext_def fields py_bind_def routing_pop_def split: sum.splits)
  show ?thesis by (rule that [OF _ c(2,3)]) (use c assms(7) in \<open>auto simp: prepare_frame_def seal shrink\<close>)
qed


text \<open>Carol in strict mode, with a session to bob and his sealing key.\<close>

definition sample_out_env :: out_env where
  "sample_out_env = \<lparr> oe_msg_id = ''m1'', oe_now = 0, oe_mono = 0, oe_nonce = [], oe_queue_nonce = [], oe_seal = [],
     oe_gzip = (\<lambda>_. None), oe_send = sample_env, oe_send2 = sample_env, oe_online = None, oe_lxmf = False \<rparr>"

definition sample_sender :: sender where
  "sample_sender = \<lparr>
     sd_daemon = sample_receiver\<lparr>dm_mesh := (dm_mesh sample_receiver)\<lparr>m_link := sample_link\<lparr>
       l_peers := [(''bob'', (new_peer_state ''bob'' [])\<lparr>ps_session_key := Some [1], ps_next_send_seq := 7,
         ps_identity_public := Some (pad 32 [3]), ps_x25519_identity_public := Some (pad 32 [9])\<rparr>)]\<rparr>\<rparr>\<rparr>,
     sd_store = \<lparr> ms_key = None, ms_legacy = None, ms_cap = 8, ms_meta = [], ms_history = [], ms_queue = [], ms_held = [],
       ms_peers = [], ms_dropped = 0, ms_evicted = 0, ms_held_evicted = 0 \<rparr>,
     sd_name = ''carol'', sd_strict = True, sd_max_hops = 8, sd_lora_max = 0, sd_discovered = [], sd_rns_up = False,
     sd_lxmf_up = False, sd_sent = 0, sd_delivered = 0, sd_failed = 0, sd_oversized = 0, sd_cap_attempted = 0,
     sd_cap_no_match = 0, sd_cap_succeeded = 0 \<rparr>"

lemma prepare_frame_store: "prepare_frame C E to ty payload pr (S\<lparr>sd_store := st\<rparr>) = prepare_frame C E to ty payload pr S"
proof -
  have d: "sd_daemon (S\<lparr>sd_store := st\<rparr>) = sd_daemon S" "sd_lora_max (S\<lparr>sd_store := st\<rparr>) = sd_lora_max S"
    "sd_max_hops (S\<lparr>sd_store := st\<rparr>) = sd_max_hops S" "sd_strict (S\<lparr>sd_store := st\<rparr>) = sd_strict S" by simp_all
  show ?thesis
    unfolding prepare_frame_def e2e_seal_def lora_shrink_def outgoing_frame_def maybe_strip_e2e_plaintext_def d by (rule refl)
qed

text \<open>A message to a connected peer is counted as delivered as soon as the frame went to the transport.\<close>

lemma send_message_direct:
  assumes "prepare_frame C E to ty payload pr S = (Inr (f, body), False)" "ready_direct to S"
    "send_frame C io (oe_send E) to f (dm_link (sd_daemon S)) = (None, d')"
  shows "\<exists>S'. send_message C io E to ty payload pr S = (Inr SentDirect, S') \<and> l_wire (dm_link (sd_daemon S')) = l_wire d'
    \<and> sd_sent S' = sd_sent S + 1 \<and> sd_delivered S' = sd_delivered S + 1 \<and> ms_queue (sd_store S') = ms_queue (sd_store S)"
proof -
  define S1 where "S1 = S\<lparr>sd_store := store_message C (oe_now E) (oe_nonce E) (oe_msg_id E) (sd_me S) (sd_name S) to ty payload ''outbound'' pr (sd_store S)\<rparr>"
  have d: "sd_daemon S1 = sd_daemon S" "sd_sent S1 = sd_sent S" "sd_delivered S1 = sd_delivered S"
    "ms_queue (sd_store S1) = ms_queue (sd_store S)" by (simp_all add: S1_def store_message_def)
  have p: "prepare_frame C E to ty payload pr S1 = (Inr (f, body), False)" using assms(1) by (simp add: S1_def prepare_frame_store)
  have r: "ready_direct to S1" using assms(2) by (simp add: ready_direct_def d)
  let ?S' = "count_sent (upd_sd_peer to (\<lambda>s. s\<lparr>ps_messages_sent := ps_messages_sent s + 1,
      ps_bytes_sent_total := ps_bytes_sent_total s + int (length body)\<rparr>) (S1\<lparr>sd_daemon := put_link d' (sd_daemon S1)\<rparr>))"
  have "try_direct C io E to f body S1 = (Some SentDirect, ?S')"
    using r assms(3) by (simp add: try_direct_def send_on_def d)
  then have "send_message C io E to ty payload pr S = (Inr SentDirect, ?S')"
    using p by (simp add: send_message_def Let_def send_out_def flip: S1_def)
  moreover have "l_wire (dm_link (sd_daemon ?S')) = l_wire d'" by (simp add: count_sent_def)
  moreover have "sd_sent ?S' = sd_sent S + 1" "sd_delivered ?S' = sd_delivered S + 1" "ms_queue (sd_store ?S') = ms_queue (sd_store S)"
    by (simp_all add: count_sent_def upd_sd_peer_def d)
  ultimately show ?thesis by blast
qed

lemma sample_prepared:
  "\<exists>f. prepare_frame sample_crypto sample_out_env ''bob'' ''MSG'' [104, 105] ''normal'' sample_sender = (Inr (f, [104, 105]), False)
     \<and> length (utf8 (dumps_compact sample_io (frame_to_dict (f\<lparr>f_sequence := 7\<rparr>)))) < 900
     \<and> f_source_signature f \<noteq> None \<and> f_timestamp f = 0"
proof -
  have "case prepare_frame sample_crypto sample_out_env ''bob'' ''MSG'' [104, 105] ''normal'' sample_sender of
      (Inr (f, b), over) \<Rightarrow> b = [104, 105] \<and> \<not> over \<and> f_source_signature f \<noteq> None \<and> f_timestamp f = 0
        \<and> length (utf8 (dumps_compact sample_io (frame_to_dict (f\<lparr>f_sequence := 7\<rparr>)))) < 900
    | _ \<Rightarrow> False" by code_simp
  then show ?thesis by (auto split: prod.splits sum.splits)
qed


section \<open>What the path loses and misdirects\<close>

lemma send_frame_failed_wire:
  assumes "dget (l_peers d) p = Some s" "next_sequence s = (Inr n, s1)" "se_outcome env \<noteq> SendOk"
  shows "\<exists>d'. send_frame C io env p f d = (None, d') \<and> l_wire d' = l_wire d"
proof (cases "sendable p d")
  case False
  then show ?thesis using send_frame_not_sendable by fastforce
next
  case True
  then obtain key where k: "ps_session_key s = Some key" "key \<noteq> []" "p \<in> set (l_ws_clients d)"
    using assms(1) by (auto simp: sendable_def)
  let ?e = "encrypt_and_serialize C io (se_nonce env) key (Some (l_sign_key d))
    (if f_source f = l_node_id d \<and> f_source_signature f = None then Some (l_sign_key d) else None) (f\<lparr>f_sequence := n\<rparr>)"
  show ?thesis
  proof (cases ?e)
    case (Inl e)
    then show ?thesis using assms k by (simp add: send_frame_def Let_def set_peer_wire)
  next
    case e: (Inr fr)
    then show ?thesis
      using assms k by (cases fr) (auto simp: send_frame_def Let_def set_peer_wire split: prod.split send_outcome.split)
  qed
qed

text \<open>A direct send that fails in the transport is reported as delivered: \<open>send_frame\<close> does not raise, so neither a
  route nor the offline queue is tried, and the message is nowhere.\<close>

lemma failed_direct_send_is_lost:
  assumes "prepare_frame C E to ty payload pr S = (Inr (f, body), False)" "ready_direct to S"
    "sd_peer to S = Some s" "next_sequence s = (Inr n, s1)" "se_outcome (oe_send E) \<noteq> SendOk"
  shows "\<exists>S'. send_message C io E to ty payload pr S = (Inr SentDirect, S') \<and> sd_delivered S' = sd_delivered S + 1
    \<and> l_wire (dm_link (sd_daemon S')) = l_wire (dm_link (sd_daemon S)) \<and> ms_queue (sd_store S') = ms_queue (sd_store S)"
proof -
  obtain d' where d: "send_frame C io (oe_send E) to f (dm_link (sd_daemon S)) = (None, d')" "l_wire d' = l_wire (dm_link (sd_daemon S))"
    using send_frame_failed_wire [OF assms(3-5)] by blast
  show ?thesis using send_message_direct [OF assms(1,2) d(1)] d(2) by auto
qed

text \<open>A candidate for a capability is addressed by name. With a second peer of that name the message goes to the first
  of them; without a name the node is not found at all.\<close>

lemma capability_message_misdirected:
  assumes "candidate_target S p = n" "online_by_name n S = Some q"
    "send_message C io (E 0) q ty payload pr S = (Inr route, S1)"
  shows "\<exists>r S2. try_candidates C io E payload ty pr [(p, cap)] S = (Some (cap, r), S2) \<and> sr_target r = q"
  using assms by (auto simp: send_to_name_def receipt_of_def)

lemma unnamed_candidate_unreachable:
  assumes "Option.bind (sd_peer p S) ps_agent_name = None" "online_by_name p S = None" "discovered_by_name p S = None" "\<not> sd_lxmf_up S"
  shows "try_candidates C io E payload ty pr [(p, cap)] S = (None, S)"
  using assms by (simp add: candidate_target_def send_to_name_def wait_online_def)

text \<open>The order \<open>first\<close> tries candidates in is a rearrangement of them with the online peers first.\<close>

lemma ranked_online_first:
  assumes "strategy \<noteq> ''random''" "strategy \<noteq> ''all''"
  shows "mset (rank_candidates shuffle strategy cs S) = mset cs
    \<and> sorted (map (\<lambda>c. if candidate_online S c then 0 else 1 :: nat) (rank_candidates shuffle strategy cs S))"
  using assms by (simp add: rank_candidates_def)

lemma candidates_exclude_self: "(sd_me S, cap) \<notin> set (capability_candidates pattern S)"
  by (simp add: capability_candidates_def split: option.split)

text \<open>A message that found no hop is queued for its destination with the payload the frame had, which for a LoRa peer
  may be the compressed one, without the mark that says so.\<close>

lemma compressed_message_queued:
  assumes "\<not> ready_direct to S" "\<not> dm_mesh_on (sd_daemon S)"
    "queue_for_peer C (oe_now E) (oe_queue_nonce E) to (oe_msg_id E) (sd_me S) ty body pr (sd_store S) = (True, st)"
  shows "\<exists>S'. send_out C io E to ty pr f body S = (QueuedOffline, S') \<and> sd_store S' = st"
  using assms by (simp add: send_out_def try_direct_def try_routed_def queue_offline_def Let_def retry_peer_def upd_sd_peer_def
      upd_peer_def put_link_def set_peer_def split: option.split)

end
