(* ===== verification/Upkeep.thy ===== *)
theory Upkeep
  imports Outbound
begin

text \<open>
  The background tasks of bridge.py: finding peers (mDNS and Reticulum announcements), dialling them again, transport
  failover, heartbeats, the long-drop watchdog, the queue flush, group broadcasts and capability announcements.

  \<^item> A dial is an output: where the task asks for a connection. What comes of it is the handshake's business.
  \<^item> Each loop is the body of one round; sleeping between rounds is left out. Clocks, random jitter, what the
    transports report and what sends do are arguments.
\<close>

unbundle bit_operations_syntax

section \<open>Addresses\<close>

fun split_char :: "char \<Rightarrow> string \<Rightarrow> string list" where
  "split_char c [] = [[]]"
| "split_char c (x # xs) = (if x = c then [] # split_char c xs
    else (case split_char c xs of [] \<Rightarrow> [[x]] | w # ws \<Rightarrow> (x # w) # ws))"

fun octets_to_int :: "string list \<Rightarrow> int \<Rightarrow> int option" where
  "octets_to_int [] n = Some n"
| "octets_to_int (p # ps) n = (case int_of_str p of
     None \<Rightarrow> None
   | Some v \<Rightarrow> if v < 0 \<or> v > 255 then None else octets_to_int ps (push_bit 8 n OR v))"

definition ipv4_to_int :: "string \<Rightarrow> int option" where
  "ipv4_to_int ip = (let parts = split_char CHR ''.'' ip in if length parts \<noteq> 4 then None else octets_to_int parts 0)"

definition subnet_prefix :: "int \<Rightarrow> int" where
  "subnet_prefix n = n AND 0xFFFFFF00"

definition local_subnet_prefixes :: "string list \<Rightarrow> int list" where
  "local_subnet_prefixes ips = map subnet_prefix (List.map_filter ipv4_to_int ips)"

definition select_closest_subnet_address :: "string list \<Rightarrow> int list \<Rightarrow> string" where
  "select_closest_subnet_address candidates prefixes =
    (if candidates = [] then []
     else if length candidates = 1 \<or> prefixes = [] then hd candidates
     else (case find (\<lambda>ip. case ipv4_to_int ip of None \<Rightarrow> False | Some n \<Rightarrow> subnet_prefix n \<in> set prefixes) candidates of
       Some ip \<Rightarrow> ip | None \<Rightarrow> hd candidates))"

text \<open>\<open>rsplit(c, 1)\<close> of a string that has the character.\<close>

fun rsplit_once :: "char \<Rightarrow> string \<Rightarrow> (string \<times> string) option" where
  "rsplit_once c [] = None"
| "rsplit_once c (x # xs) = (case rsplit_once c xs of
     Some (a, b) \<Rightarrow> Some (x # a, b)
   | None \<Rightarrow> if x = c then Some ([], xs) else None)"

datatype dial = DialWs string int | DialRns string

text \<open>Host and port of an address; \<open>None\<close> is a \<open>ValueError\<close>.\<close>

definition parse_address :: "string \<Rightarrow> dial option" where
  "parse_address addr = (case rsplit_once CHR '':'' addr of
     None \<Rightarrow> None
   | Some (host, port) \<Rightarrow> map_option (DialWs host) (int_of_str port))"

section \<open>State\<close>

record upkeep =
  uk_sender :: sender
  uk_allowed :: "string list option"
  uk_open_discovery :: bool
  uk_pinned :: "(string, string) dict"
  uk_addresses :: "(string, string) dict"
  uk_hashes :: "(node_id, string) dict"
  uk_claims :: "(string, time) dict"
  uk_backoff :: "(node_id, nat \<times> time) dict"
  uk_interval :: time
  uk_threshold :: int
  uk_long_drops :: nat
  uk_alerts :: "(node_id \<times> int) list"
  uk_broadcasts :: nat
  uk_dials :: "dial list"

abbreviation uk_daemon :: "upkeep \<Rightarrow> daemon" where
  "uk_daemon U \<equiv> sd_daemon (uk_sender U)"

abbreviation uk_link :: "upkeep \<Rightarrow> link" where
  "uk_link U \<equiv> dm_link (uk_daemon U)"

abbreviation uk_peers :: "upkeep \<Rightarrow> (node_id, peer_state) dict" where
  "uk_peers U \<equiv> l_peers (uk_link U)"

definition put_uk_daemon :: "daemon \<Rightarrow> upkeep \<Rightarrow> upkeep" where
  "put_uk_daemon D U = U\<lparr>uk_sender := (uk_sender U)\<lparr>sd_daemon := D\<rparr>\<rparr>"

definition upd_uk_peer :: "node_id \<Rightarrow> (peer_state \<Rightarrow> peer_state) \<Rightarrow> upkeep \<Rightarrow> upkeep" where
  "upd_uk_peer p f U = put_uk_daemon (upd_peer p f (uk_daemon U)) U"

definition dial_peer :: "dial \<Rightarrow> upkeep \<Rightarrow> upkeep" where
  "dial_peer d U = U\<lparr>uk_dials := uk_dials U @ [d]\<rparr>"

section \<open>Claims and backoff\<close>

definition try_claim_reconnect :: "time \<Rightarrow> string \<Rightarrow> upkeep \<Rightarrow> bool \<times> upkeep" where
  "try_claim_reconnect now key U =
    (if (case dget (uk_claims U) key of None \<Rightarrow> False | Some started \<Rightarrow> now - started < 60) then (False, U)
     else (True, U\<lparr>uk_claims := dset key now (uk_claims U)\<rparr>))"

definition release_reconnect :: "string \<Rightarrow> upkeep \<Rightarrow> upkeep" where
  "release_reconnect key U = U\<lparr>uk_claims := dpop key (uk_claims U)\<rparr>"

definition reset_backoff :: "node_id \<Rightarrow> upkeep \<Rightarrow> upkeep" where
  "reset_backoff p U = U\<lparr>uk_backoff := dpop p (uk_backoff U), uk_claims := dpop p (uk_claims U)\<rparr>"

section \<open>Finding peers\<close>

definition yields_to :: "string \<Rightarrow> string \<Rightarrow> bool" where
  "yields_to me other = (me \<noteq> [] \<and> other \<noteq> [] \<and> me > other)"

definition name_online :: "string \<Rightarrow> upkeep \<Rightarrow> bool" where
  "name_online name U = (\<exists>(p, st)\<in>set (uk_peers U). is_online st \<and> ps_agent_name st = Some name)"

definition discovery_allowed :: "string \<Rightarrow> upkeep \<Rightarrow> bool" where
  "discovery_allowed name U = (case uk_allowed U of Some ns \<Rightarrow> name \<in> set ns | None \<Rightarrow> uk_open_discovery U)"

definition already_online :: "string \<Rightarrow> upkeep \<Rightarrow> bool" where
  "already_online name U = ((case dget (uk_peers U) name of Some st \<Rightarrow> is_online st | None \<Rightarrow> False) \<or> name_online name U)"

definition on_peer_discovered :: "time \<Rightarrow> string \<Rightarrow> string list \<Rightarrow> string \<Rightarrow> int \<Rightarrow> int list \<Rightarrow> upkeep \<Rightarrow> upkeep" where
  "on_peer_discovered now name addresses ip port prefixes U =
    (if name = sd_name (uk_sender U) then U
     else if \<not> discovery_allowed name U then U
     else
       (let candidates = (if addresses = [] then [ip] else addresses);
            chosen = (if length candidates > 1 then select_closest_subnet_address candidates prefixes else hd candidates);
            addr = chosen @ '':'' @ show_int port;
            U1 = (if dget (uk_pinned U) name = None then U else U\<lparr>uk_pinned := dset name addr (uk_pinned U)\<rparr>) in
        if already_online name U then U1
        else
          (let U2 = U1\<lparr>uk_addresses := dset name addr (uk_addresses U1)\<rparr> in
           if yields_to (sd_name (uk_sender U)) name then U2
           else (case try_claim_reconnect now name U2 of
             (ok, U3) \<Rightarrow> if ok then dial_peer (DialWs chosen port) U3 else U3))))"

text \<open>One round of the discovery loop over the known addresses.\<close>

definition discover_one :: "string \<times> string \<Rightarrow> upkeep \<Rightarrow> upkeep" where
  "discover_one e U = (case e of (name, addr) \<Rightarrow>
     if name_online name U \<or> yields_to (sd_name (uk_sender U)) name then U
     else (case parse_address addr of None \<Rightarrow> U | Some d \<Rightarrow> dial_peer d U))"

definition discover_round :: "upkeep \<Rightarrow> upkeep" where
  "discover_round U = fold discover_one (uk_addresses U) U"

text \<open>A Reticulum announcement: the application data as the announce handler read it.\<close>

record announce_data =
  ad_name :: "string option"
  ad_version :: "string option"
  ad_node :: "string option"
  ad_caps :: "json list"
  ad_features :: "json list"

definition note_entry :: "string \<Rightarrow> announce_data \<Rightarrow> int option \<Rightarrow> rns_entry list \<Rightarrow> rns_entry list" where
  "note_entry dest a hops es =
    (let e = \<lparr> rn_name = ad_name a, rn_node = ad_node a, rn_dest = Some dest, rn_hops = hops, rn_features = ad_features a \<rparr> in
     if \<exists>x\<in>set es. rn_dest x = Some dest then map (\<lambda>x. if rn_dest x = Some dest then e else x) es else es @ [e])"

definition on_rns_peer_announced :: "time \<Rightarrow> string \<Rightarrow> announce_data \<Rightarrow> int option \<Rightarrow> upkeep \<Rightarrow> upkeep" where
  "on_rns_peer_announced now dest a hops U =
    (let U1 = U\<lparr>uk_sender := (uk_sender U)\<lparr>sd_discovered := note_entry dest a hops (sd_discovered (uk_sender U))\<rparr>\<rparr> in
     case ad_node a of
       None \<Rightarrow> U1
     | Some p \<Rightarrow>
         if p = [] \<or> dget (uk_peers U1) p = None then U1
         else (upd_uk_peer p (\<lambda>s. s\<lparr>ps_rns_announced_at := Some now, ps_rns_capabilities := ad_caps a, ps_rns_features := ad_features a,
                 ps_rns_announced_version := ad_version a, ps_rns_hops := hops,
                 ps_rns_dest_hash := (if ps_rns_dest_hash s \<in> {None, Some []} then Some dest else ps_rns_dest_hash s)\<rparr>) U1)
              \<lparr>uk_hashes := (if dget (uk_hashes U1) p = None then dset p dest (uk_hashes U1) else uk_hashes U1)\<rparr>)"

text \<open>A sample of link metrics; \<open>None\<close> is a key that is missing.\<close>

record link_stats =
  ls_mtu :: "int option option"
  ls_mdu :: "int option option"
  ls_bps :: "real option option"
  ls_rssi :: "real option option"
  ls_snr :: "real option option"
  ls_q :: "real option option"

definition stat_or :: "'a option option \<Rightarrow> 'a option \<Rightarrow> 'a option" where
  "stat_or new old = (case new of None \<Rightarrow> old | Some v \<Rightarrow> v)"

definition on_rns_link_stats :: "node_id \<Rightarrow> link_stats \<Rightarrow> upkeep \<Rightarrow> upkeep" where
  "on_rns_link_stats p x = upd_uk_peer p (\<lambda>s. s\<lparr>
     ps_rns_link_mtu := stat_or (ls_mtu x) (ps_rns_link_mtu s), ps_rns_link_mdu := stat_or (ls_mdu x) (ps_rns_link_mdu s),
     ps_rns_estimated_bps := stat_or (ls_bps x) (ps_rns_estimated_bps s), ps_rns_rssi := stat_or (ls_rssi x) (ps_rns_rssi s),
     ps_rns_snr := stat_or (ls_snr x) (ps_rns_snr s), ps_rns_q := stat_or (ls_q x) (ps_rns_q s)\<rparr>)"

section \<open>Dialling again\<close>

text \<open>\<open>5.0 * (2 ** attempts)\<close> raises when the power exceeds every float.\<close>

definition backoff_delay :: "nat \<Rightarrow> real \<Rightarrow> real py" where
  "backoff_delay attempts jitter =
    (if attempts \<ge> 1024 then Inl OverflowError else Inr (min (5 * 2 ^ attempts) 300 + jitter))"

definition opt_str :: "string option \<Rightarrow> string option" where
  "opt_str x = (if x = Some [] then None else x)"

definition rns_hash_of :: "node_id \<Rightarrow> peer_state \<Rightarrow> upkeep \<Rightarrow> string option" where
  "rns_hash_of p st U = (case opt_str (dget (uk_hashes U) p) of Some h \<Rightarrow> Some h | None \<Rightarrow> opt_str (ps_rns_dest_hash st))"

definition ws_address_of :: "peer_state \<Rightarrow> string option" where
  "ws_address_of st = (case opt_str (ps_ws_address st) of Some a \<Rightarrow> Some a | None \<Rightarrow> opt_str (Some (ps_address st)))"

definition is_rns_address :: "string \<Rightarrow> bool" where
  "is_rns_address a = (take 4 a = ''rns:'')"

definition dial_rns :: "string option \<Rightarrow> upkeep \<Rightarrow> upkeep" where
  "dial_rns h U = (case h of Some d \<Rightarrow> if sd_rns_up (uk_sender U) then dial_peer (DialRns d) U else U | None \<Rightarrow> U)"

definition redial :: "node_id \<Rightarrow> peer_state \<Rightarrow> upkeep \<Rightarrow> upkeep" where
  "redial p st U = (case ws_address_of st of
     Some a \<Rightarrow> (if is_rns_address a then dial_rns (rns_hash_of p st U) U
       else (case parse_address a of Some d \<Rightarrow> dial_peer d U | None \<Rightarrow> dial_rns (rns_hash_of p st U) U))
   | None \<Rightarrow> dial_rns (rns_hash_of p st U) U)"

definition reconnect_one :: "time \<Rightarrow> time \<Rightarrow> real \<Rightarrow> node_id \<Rightarrow> peer_state \<Rightarrow> upkeep \<Rightarrow> py_error option \<times> upkeep" where
  "reconnect_one now clk jitter p st U =
    (if ps_status st \<noteq> Offline \<or> yields_to (sd_name (uk_sender U)) (case ps_agent_name st of Some n \<Rightarrow> n | None \<Rightarrow> []) then (None, U)
     else (case try_claim_reconnect clk p U of
       (False, U1) \<Rightarrow> (None, U1)
     | (True, U1) \<Rightarrow>
         (case (case dget (uk_backoff U1) p of Some b \<Rightarrow> b | None \<Rightarrow> (0, 0)) of
            (attempts, next_at) \<Rightarrow>
              if now < next_at then (None, release_reconnect p U1)
              else (case backoff_delay attempts jitter of
                Inl e \<Rightarrow> (Some e, U1)
              | Inr delay \<Rightarrow> (None, redial p st (U1\<lparr>uk_backoff := dset p (attempts + 1, now + delay) (uk_backoff U1)\<rparr>))))))"

text \<open>The loop has no handler: an exception ends the task.\<close>

fun reconnect_peers :: "time \<Rightarrow> (node_id \<Rightarrow> time) \<Rightarrow> (node_id \<Rightarrow> real) \<Rightarrow> (node_id \<times> peer_state) list \<Rightarrow> upkeep \<Rightarrow> py_error option \<times> upkeep" where
  "reconnect_peers now clk jitter [] U = (None, U)"
| "reconnect_peers now clk jitter ((p, st) # ps) U = (case reconnect_one now (clk p) (jitter p) p st U of
     (Some e, U1) \<Rightarrow> (Some e, U1)
   | (None, U1) \<Rightarrow> reconnect_peers now clk jitter ps U1)"

definition reconnect_round :: "time \<Rightarrow> (node_id \<Rightarrow> time) \<Rightarrow> (node_id \<Rightarrow> real) \<Rightarrow> upkeep \<Rightarrow> py_error option \<times> upkeep" where
  "reconnect_round now clk jitter U = reconnect_peers now clk jitter (uk_peers U) U"

text \<open>Failover after a disconnect, up to the dial; \<open>failover_end\<close> is the rest, when the dial has returned.\<close>

definition failover_start :: "time \<Rightarrow> node_id \<Rightarrow> upkeep \<Rightarrow> bool \<times> upkeep" where
  "failover_start now p U = (case dget (uk_peers U) p of
     None \<Rightarrow> (False, U)
   | Some st \<Rightarrow>
       if is_online st then (False, U)
       else (case try_claim_reconnect now p U of
         (False, U1) \<Rightarrow> (False, U1)
       | (True, U1) \<Rightarrow> (True,
           if ps_transport_type st = ''websocket'' then dial_rns (rns_hash_of p st U1) U1
           else if ps_transport_type st = ''rns'' then
             (case opt_str (ps_ws_address st) of
                Some a \<Rightarrow> if is_rns_address a then U1 else (case parse_address a of Some d \<Rightarrow> dial_peer d U1 | None \<Rightarrow> U1)
              | None \<Rightarrow> U1)
           else U1)))"

definition failover_end :: "node_id \<Rightarrow> upkeep \<Rightarrow> upkeep" where
  "failover_end p U = (case dget (uk_peers U) p of
     Some st \<Rightarrow> if is_online st then U else release_reconnect p U | None \<Rightarrow> release_reconnect p U)"

section \<open>Heartbeats\<close>

record beat_env =
  be_wall :: time
  be_mono :: time
  be_silence :: "time option"
  be_rand :: string
  be_send :: send_env

definition drop_peer :: "time \<Rightarrow> node_id \<Rightarrow> upkeep \<Rightarrow> upkeep" where
  "drop_peer now p U =
    (let U1 = upd_uk_peer p (\<lambda>s. (ps_transition now Offline s)\<lparr>ps_session_key := None\<rparr>) U;
         D = uk_daemon U1;
         l = dm_link D in
     put_uk_daemon ((put_link (l\<lparr>l_ws_clients := removeAll p (l_ws_clients l)\<rparr>) D)\<lparr>dm_pings := dpop p (dm_pings D)\<rparr>) U1)"

definition ping_peer :: "crypto \<Rightarrow> float_io \<Rightarrow> beat_env \<Rightarrow> node_id \<Rightarrow> upkeep \<Rightarrow> upkeep" where
  "ping_peer C io E p U =
    (let D = (uk_daemon U)\<lparr>dm_pings := dset p (be_mono E) (dm_pings (uk_daemon U))\<rparr> in
     case send_encrypted_control C io (be_send E) (be_rand E) p ''PING'' [] (dm_link D) of
       (None, l) \<Rightarrow> put_uk_daemon (seen_now (be_wall E) p (put_link l D)) U
     | (Some e, l) \<Rightarrow> drop_peer (be_wall E) p (put_uk_daemon (put_link l D) U))"

definition heartbeat_peer :: "crypto \<Rightarrow> float_io \<Rightarrow> beat_env \<Rightarrow> node_id \<Rightarrow> upkeep \<Rightarrow> upkeep" where
  "heartbeat_peer C io E p U = (case dget (uk_peers U) p of
     None \<Rightarrow> U
   | Some st \<Rightarrow>
       if \<not> is_online st then U
       else if ps_transport_type st = ''rns'' then
         (if (case be_silence E of Some t \<Rightarrow> p \<in> set (l_ws_clients (uk_link U)) \<and> t > uk_interval U * 3 | None \<Rightarrow> False)
          then drop_peer (be_wall E) p U
          else if be_mono E - (case dget (dm_pings (uk_daemon U)) p of Some t \<Rightarrow> t | None \<Rightarrow> 0) < uk_interval U * 5 then U
          else ping_peer C io E p U)
       else ping_peer C io E p U)"

definition heartbeat_round :: "crypto \<Rightarrow> float_io \<Rightarrow> (node_id \<Rightarrow> beat_env) \<Rightarrow> upkeep \<Rightarrow> upkeep" where
  "heartbeat_round C io E U = fold (\<lambda>p. heartbeat_peer C io (E p) p) (dkeys (uk_peers U)) U"

section \<open>The long-drop watchdog\<close>

definition watch_peer :: "time \<Rightarrow> node_id \<Rightarrow> upkeep \<Rightarrow> upkeep" where
  "watch_peer now p U = (case dget (uk_peers U) p of
     None \<Rightarrow> U
   | Some st \<Rightarrow>
       (case ps_offline_since st of
          None \<Rightarrow> U
        | Some since \<Rightarrow>
            if is_online st \<or> ps_long_drop_alerted st \<or> now - since < of_int (uk_threshold U) then U
            else (upd_uk_peer p (\<lambda>s. s\<lparr>ps_long_drop_alerted := True\<rparr>) U)
                   \<lparr>uk_long_drops := uk_long_drops U + 1, uk_alerts := uk_alerts U @ [(p, trunc_int (now - since))]\<rparr>))"

definition watchdog_round :: "time \<Rightarrow> upkeep \<Rightarrow> upkeep" where
  "watchdog_round now U = (if uk_threshold U \<le> 0 then U else fold (watch_peer now) (dkeys (uk_peers U)) U)"

section \<open>Queue flush and cleanup\<close>

definition flush_peer :: "crypto \<Rightarrow> float_io \<Rightarrow> time \<Rightarrow> (nat \<Rightarrow> send_env \<times> string) \<Rightarrow> node_id \<Rightarrow> sender \<Rightarrow> sender" where
  "flush_peer C io now envs p S =
    (let st = flush_pending C io envs p (get_pending_for_peer C p (sd_store S))
                \<lparr> fl_link = dm_link (sd_daemon S), fl_delivered = [], fl_messages_sent = 0, fl_messages_delivered = 0 \<rparr> in
     S\<lparr>sd_daemon := put_link (fl_link st) (sd_daemon S), sd_store := fold (mark_delivered now p) (fl_delivered st) (sd_store S),
       sd_sent := sd_sent S + nat (fl_messages_sent st), sd_delivered := sd_delivered S + nat (fl_messages_delivered st)\<rparr>)"

definition flush_round :: "crypto \<Rightarrow> float_io \<Rightarrow> time \<Rightarrow> (node_id \<Rightarrow> nat \<Rightarrow> send_env \<times> string) \<Rightarrow> upkeep \<Rightarrow> upkeep" where
  "flush_round C io now envs U = fold (\<lambda>p U. case dget (uk_peers U) p of
       Some st \<Rightarrow> if is_online st \<and> p \<in> set (l_ws_clients (uk_link U)) then U\<lparr>uk_sender := flush_peer C io now (envs p) p (uk_sender U)\<rparr> else U
     | None \<Rightarrow> U) (dkeys (uk_peers U)) U"

definition cleanup_round :: "time \<Rightarrow> upkeep \<Rightarrow> upkeep" where
  "cleanup_round now U = U\<lparr>uk_sender := (uk_sender U)\<lparr>sd_store :=
     snd (prune_old now 30 (snd (cleanup_old_pending now 86400 (sd_store (uk_sender U)))))\<rparr>\<rparr>"

section \<open>Group broadcasts\<close>

record broadcast_result =
  br_local :: bool
  br_sent :: nat
  br_skipped :: nat

definition rns_group_peers :: "rns_entry list \<Rightarrow> node_id list" where
  "rns_group_peers es = List.map_filter (\<lambda>e. if JStr ''group'' \<in> set (rn_features e) then opt_str (rn_node e) else None) es"

text \<open>The peers a broadcast fans out to and the number it skips; the sends are started and run afterwards.\<close>

definition broadcast_targets :: "upkeep \<Rightarrow> node_id list \<times> nat" where
  "broadcast_targets U =
    (let group = rns_group_peers (sd_discovered (uk_sender U));
         online = map fst (filter (\<lambda>(p, st). is_online st \<and> p \<noteq> sd_me (uk_sender U)) (uk_peers U));
         chosen = filter (\<lambda>p. group = [] \<or> p \<in> set group) online in
     (chosen, length online - length chosen))"

definition broadcast_via_rns_group :: "crypto \<Rightarrow> float_io \<Rightarrow> (node_id \<Rightarrow> out_env) \<Rightarrow> bool \<Rightarrow> bytes \<Rightarrow> upkeep \<Rightarrow> broadcast_result \<times> upkeep" where
  "broadcast_via_rns_group C io E segment payload U =
    (if payload = [] then (\<lparr> br_local = False, br_sent = 0, br_skipped = 0 \<rparr>, U)
     else (case broadcast_targets U of
       (targets, skipped) \<Rightarrow>
         (let local = (sd_rns_up (uk_sender U) \<and> segment);
              S = fold (\<lambda>p S. snd (send_message C io (E p) p ''GROUP_BROADCAST'' payload ''NORMAL'' S)) targets (uk_sender U) in
          (\<lparr> br_local = local, br_sent = length targets, br_skipped = skipped \<rparr>,
           U\<lparr>uk_sender := S, uk_broadcasts := uk_broadcasts U + (if local \<or> targets \<noteq> [] then 1 else 0)\<rparr>))))"

section \<open>Capability announcements\<close>

definition build_signed_announce :: "crypto \<Rightarrow> float_io \<Rightarrow> time \<Rightarrow> bytes \<Rightarrow> node_id \<Rightarrow> string list \<Rightarrow> bytes py" where
  "build_signed_announce C io now sk origin caps =
    py_bind (canonical_capability_announce_bytes io (JStr origin) (JArr (map JStr caps)) (JFloat now) (JInt CAPABILITY_ANNOUNCE_SIGNED_VERSION))
      (\<lambda>canonical. py_bind (sign_detached_with_context C sk SIG_CTX_CAPABILITY_ANNOUNCE canonical) (\<lambda>sig.
        Inr (utf8 (dumps_compact io (JObj [(''origin'', JStr origin), (''capabilities'', JArr (map JStr caps)), (''announced_at'', JFloat now),
          (''version'', JInt CAPABILITY_ANNOUNCE_SIGNED_VERSION), (''signature'', JStr (b64encode sig))])))))"

text \<open>What a round announces and the cache after it: the own capabilities freshly signed, then the cached
  announcements of others that are still fresh.\<close>

definition round_announcements :: "crypto \<Rightarrow> float_io \<Rightarrow> time \<Rightarrow> cap_registry \<Rightarrow> daemon \<Rightarrow> ((node_id \<times> bytes) list \<times> daemon) py" where
  "round_announcements C io now reg D =
    (let me = dm_me D;
         caps = all_caps reg;
         own = (case dget caps me of Some cs \<Rightarrow> cs | None \<Rightarrow> []) in
     py_bind (if own = [] then Inr ([], dm_announce_cache D)
              else py_bind (build_signed_announce C io now (l_sign_key (dm_link D)) me own) (\<lambda>b.
                Inr ([(me, b)], dmove_end me (dset me (b, now) (dm_announce_cache D)))))
       (\<lambda>(mine, cache). Inr (mine @ map (\<lambda>(o', b, t). (o', b))
            (filter (\<lambda>(o', b, t). o' \<noteq> me \<and> now - t \<le> dm_announce_max_age D \<and> dget caps o' \<notin> {None, Some []}) cache),
          D\<lparr>dm_announce_cache := filter (\<lambda>(o', b, t). o' = me \<or> now - t \<le> dm_announce_max_age D) cache\<rparr>)))"

definition announce_to :: "crypto \<Rightarrow> float_io \<Rightarrow> (node_id \<Rightarrow> node_id \<Rightarrow> send_env \<times> string) \<Rightarrow> node_id \<times> bytes \<Rightarrow> node_id \<Rightarrow> daemon \<Rightarrow> daemon" where
  "announce_to C io E ann p D = (case dget (l_peers (dm_link D)) p of
     None \<Rightarrow> D
   | Some st \<Rightarrow>
       if \<not> is_online st \<or> p \<notin> set (l_ws_clients (dm_link D)) \<or> p = fst ann then D
       else (case E (fst ann) p of (env, rid) \<Rightarrow>
         put_link (snd (send_frame C io env p
           (new_frame (se_wall env) rid ''CAPABILITY_ANNOUNCE'' (snd ann) None (dm_me D) p (JStr (mp_value NORMAL)) 0) (dm_link D))) D))"

definition announce_round :: "crypto \<Rightarrow> float_io \<Rightarrow> time \<Rightarrow> (node_id \<Rightarrow> node_id \<Rightarrow> send_env \<times> string) \<Rightarrow> daemon \<Rightarrow> daemon" where
  "announce_round C io now E D = (case dm_caps D of
     None \<Rightarrow> D
   | Some reg \<Rightarrow>
       (let D1 = (case round_announcements C io now reg D of
              Inl e \<Rightarrow> D
            | Inr (anns, D1) \<Rightarrow> fold (\<lambda>ann D. fold (announce_to C io E ann) (dkeys (l_peers (dm_link D))) D) anns D1) in
        D1\<lparr>dm_caps_file := (case caps_save C io (dm_caps_key D1) reg of None \<Rightarrow> dm_caps_file D1 | Some t \<Rightarrow> Some t)\<rparr>))"

definition advertise_capability :: "crypto \<Rightarrow> float_io \<Rightarrow> time \<Rightarrow> string \<Rightarrow> daemon \<Rightarrow> daemon" where
  "advertise_capability C io now cap D = (case dm_caps D of
     None \<Rightarrow> D
   | Some reg \<Rightarrow>
       (let reg1 = advertise_local now cap reg in
        D\<lparr>dm_caps := Some reg1, dm_caps_file := (case caps_save C io (dm_caps_key D) reg1 of None \<Rightarrow> dm_caps_file D | Some t \<Rightarrow> Some t)\<rparr>))"

definition find_capability :: "string \<Rightarrow> daemon \<Rightarrow> (node_id \<times> string) list" where
  "find_capability pattern D = (case dm_caps D of None \<Rightarrow> [] | Some reg \<Rightarrow> find_caps pattern reg)"

section \<open>Claims are exclusive\<close>

datatype claim_op = Claim time string | Release string | Reset string

fun claim_step :: "claim_op \<Rightarrow> upkeep \<Rightarrow> upkeep" where
  "claim_step (Claim t k) U = snd (try_claim_reconnect t k U)"
| "claim_step (Release k) U = release_reconnect k U"
| "claim_step (Reset k) U = reset_backoff k U"

text \<open>An operation that leaves the claim made on \<open>k\<close> at \<open>t1\<close> alone: other keys, and attempts within the minute.\<close>

fun claim_kept :: "time \<Rightarrow> string \<Rightarrow> claim_op \<Rightarrow> bool" where
  "claim_kept t1 k (Claim t k') = (k' \<noteq> k \<or> t < t1 + 60)"
| "claim_kept t1 k (Release k') = (k' \<noteq> k)"
| "claim_kept t1 k (Reset k') = (k' \<noteq> k)"

lemma claim_held:
  assumes "dget (uk_claims U) k = Some t1" "list_all (claim_kept t1 k) ops"
  shows "dget (uk_claims (fold claim_step ops U)) k = Some t1"
  using assms
proof (induction ops arbitrary: U)
  case (Cons op ops)
  have "dget (uk_claims (claim_step op U)) k = Some t1"
    using Cons.prems by (cases op) (auto simp: try_claim_reconnect_def release_reconnect_def reset_backoff_def)
  then show ?case using Cons by simp
qed simp

text \<open>C38: a reconnect is claimed by one task at a time. After a granted claim, whatever other claims are made, released
  or reset and however often the same key is tried within the minute, the next attempt on the key is granted exactly
  when 60 seconds have passed.\<close>

theorem reconnect_claims_exclusive:
  assumes "try_claim_reconnect t1 k U = (True, U1)" "list_all (claim_kept t1 k) ops"
  shows "fst (try_claim_reconnect t2 k (fold claim_step ops U1)) \<longleftrightarrow> t2 \<ge> t1 + 60"
proof -
  have "dget (uk_claims U1) k = Some t1" using assms(1) by (auto simp: try_claim_reconnect_def split: if_splits)
  from claim_held [OF this assms(2)] show ?thesis by (auto simp: try_claim_reconnect_def)
qed

section \<open>The watchdog alerts once per drop\<close>

lemma uk_peers_put [simp]:
  "uk_daemon (put_uk_daemon D U) = D" "uk_threshold (put_uk_daemon D U) = uk_threshold U" "uk_alerts (put_uk_daemon D U) = uk_alerts U"
  "uk_interval (put_uk_daemon D U) = uk_interval U" "uk_dials (put_uk_daemon D U) = uk_dials U"
  by (simp_all add: put_uk_daemon_def)

lemma upd_uk_peer_get [simp]:
  "dget (uk_peers (upd_uk_peer p f U)) q = (if q = p then map_option f (dget (uk_peers U) q) else dget (uk_peers U) q)"
  by (simp add: upd_uk_peer_def upd_peer_def put_link_def set_peer_def split: option.split)

lemma upd_uk_peer_rest [simp]:
  "uk_threshold (upd_uk_peer p f U) = uk_threshold U" "uk_alerts (upd_uk_peer p f U) = uk_alerts U"
  by (simp_all add: upd_uk_peer_def)

datatype watch_event = Tick time | Moved time node_id peer_status

fun watch_step :: "watch_event \<Rightarrow> upkeep \<Rightarrow> upkeep" where
  "watch_step (Tick now) U = watchdog_round now U"
| "watch_step (Moved now p st) U = upd_uk_peer p (ps_transition now st) U"

definition alerts_for :: "node_id \<Rightarrow> upkeep \<Rightarrow> nat" where
  "alerts_for p U = length (filter (\<lambda>a. fst a = p) (uk_alerts U))"

text \<open>Down since \<open>t0\<close>, with or without its alert.\<close>

definition down_since :: "node_id \<Rightarrow> time \<Rightarrow> int \<Rightarrow> bool \<Rightarrow> upkeep \<Rightarrow> bool" where
  "down_since p t0 limit alerted U = (uk_threshold U = limit \<and> (\<exists>s. dget (uk_peers U) p = Some s \<and> ps_offline_since s = Some t0
     \<and> ps_status s \<noteq> Online \<and> ps_long_drop_alerted s = alerted))"

lemma watch_peer_down:
  assumes "down_since p t0 limit b U"
  shows "down_since p t0 limit (b \<or> q = p \<and> t - t0 \<ge> of_int limit) (watch_peer t q U)
    \<and> alerts_for p (watch_peer t q U) = alerts_for p U + (if q = p \<and> t - t0 \<ge> of_int limit \<and> \<not> b then 1 else 0)"
proof -
  obtain s where s: "dget (uk_peers U) p = Some s" "ps_offline_since s = Some t0" "ps_status s \<noteq> Online" "ps_long_drop_alerted s = b"
    "uk_threshold U = limit" using assms by (auto simp: down_since_def)
  show ?thesis
    using s by (auto simp: watch_peer_def down_since_def alerts_for_def is_online_def split: option.split)
qed

lemma watch_peers_down:
  "down_since p t0 limit b U \<Longrightarrow> down_since p t0 limit (b \<or> p \<in> set qs \<and> t - t0 \<ge> of_int limit) (fold (watch_peer t) qs U)
    \<and> alerts_for p (fold (watch_peer t) qs U) = alerts_for p U + (if p \<in> set qs \<and> t - t0 \<ge> of_int limit \<and> \<not> b then 1 else 0)"
proof (induction qs arbitrary: U b)
  case (Cons q qs)
  note w = watch_peer_down [OF Cons.prems, of q t]
  from Cons.IH [OF conjunct1 [OF w]] conjunct2 [OF w] show ?case
    by (cases "q = p"; cases b; cases "t - t0 \<ge> of_int limit") (simp_all del: fold_simps add: fold_Cons)
qed simp

lemma watch_step_down:
  assumes "down_since p t0 limit b U" "0 < limit" "\<And>t. e \<noteq> Moved t p Online"
  shows "down_since p t0 limit (b \<or> (\<exists>t. e = Tick t \<and> t - t0 \<ge> of_int limit)) (watch_step e U)
    \<and> alerts_for p (watch_step e U) = alerts_for p U + (if \<not> b \<and> (\<exists>t. e = Tick t \<and> t - t0 \<ge> of_int limit) then 1 else 0)"
proof (cases e)
  case (Tick t)
  have "p \<in> set (dkeys (uk_peers U))" "uk_threshold U = limit"
    using assms(1) dget_Some_key by (auto simp: down_since_def)
  then show ?thesis using watch_peers_down [OF assms(1), of "dkeys (uk_peers U)" t] assms(2) Tick by (simp add: watchdog_round_def)
next
  case (Moved t q st)
  obtain s where s: "dget (uk_peers U) p = Some s" "ps_offline_since s = Some t0" "ps_status s \<noteq> Online" "ps_long_drop_alerted s = b"
    "uk_threshold U = limit" using assms(1) by (auto simp: down_since_def)
  have "st \<noteq> Online" if "q = p" using assms(3) Moved that by auto
  then have "ps_offline_since (ps_transition t st s) = Some t0" "ps_status (ps_transition t st s) \<noteq> Online"
      "ps_long_drop_alerted (ps_transition t st s) = b" if "q = p"
    using s that by (simp_all add: ps_transition_def Let_def)
  then show ?thesis using s Moved by (cases "q = p") (simp_all add: down_since_def alerts_for_def)
qed

lemma watch_run_down:
  assumes "down_since p t0 limit b U" "0 < limit" "\<And>t. Moved t p Online \<notin> set es"
  shows "alerts_for p (fold watch_step es U) = alerts_for p U + (if \<not> b \<and> (\<exists>t. Tick t \<in> set es \<and> t - t0 \<ge> of_int limit) then 1 else 0)"
  using assms
proof (induction es arbitrary: U b)
  case (Cons e es)
  have "\<And>t. e \<noteq> Moved t p Online" using Cons.prems(3) by auto
  note w = watch_step_down [OF Cons.prems(1,2) this]
  have "\<And>t. Moved t p Online \<notin> set es" using Cons.prems(3) by auto
  note ih = Cons.IH [OF conjunct1 [OF w] Cons.prems(2) this]
  show ?case using ih conjunct2 [OF w] by (cases e) auto
qed simp


section \<open>One side dials\<close>

lemma discovered_dials:
  assumes "sd_name (uk_sender U) \<noteq> name" "discovery_allowed name U" "\<not> already_online name U" "dget (uk_claims U) name = None"
  shows "uk_dials (on_peer_discovered t name addresses ip port prefixes U) = uk_dials U \<longleftrightarrow> yields_to (sd_name (uk_sender U)) name"
  using assms by (auto simp: on_peer_discovered_def Let_def try_claim_reconnect_def dial_peer_def)


text \<open>Daemons of the same name never find each other.\<close>

lemma namesakes_never_dial: "on_peer_discovered t (sd_name (uk_sender U)) as ip port pre U = U"
  by (simp add: on_peer_discovered_def)

text \<open>The discovery loop dials without a claim, also while another task is connecting to the peer.\<close>

lemma discover_ignores_claims:
  assumes "\<not> name_online name U" "\<not> yields_to (sd_name (uk_sender U)) name" "parse_address addr = Some d"
    "try_claim_reconnect t name U = (False, U)"
  shows "uk_dials (discover_one (name, addr) U) = uk_dials U @ [d]"
  using assms by (simp add: discover_one_def dial_peer_def)

section \<open>Dialling again and again\<close>

lemma backoff_bounds:
  assumes "backoff_delay attempts jitter = Inr d" "0 \<le> jitter" "jitter \<le> 2"
  shows "5 \<le> d \<and> d \<le> 302"
proof -
  have "(1::real) \<le> 2 ^ attempts" by simp
  then have "(5::real) \<le> min (5 * 2 ^ attempts) 300" "min (5 * 2 ^ attempts) 300 \<le> (300::real)" by simp_all
  moreover have "d = min (5 * 2 ^ attempts) 300 + jitter" using assms(1) by (auto simp: backoff_delay_def split: if_splits)
  ultimately show ?thesis using assms(2,3) by linarith
qed

text \<open>After 1024 failed attempts on one peer the power of two is no float: the exception ends the reconnect task, no
  later peer of the round is dialled.\<close>

lemma backoff_overflow_ends_reconnects:
  assumes "ps_status st = Offline" "ps_agent_name st = None" "dget (uk_backoff U) p = Some (attempts, next_at)" "1024 \<le> attempts"
    "next_at \<le> now" "dget (uk_claims U) p = None"
  shows "\<exists>U1. reconnect_peers now clk jitter ((p, st) # ps) U = (Some OverflowError, U1) \<and> uk_dials U1 = uk_dials U"
  using assms by (simp add: reconnect_one_def yields_to_def try_claim_reconnect_def backoff_delay_def)

section \<open>Heartbeats that nobody answers\<close>

text \<open>What a heartbeat does to a websocket peer does not depend on whether its last ping was ever answered.\<close>

lemma uk_put_put [simp]: "put_uk_daemon D (put_uk_daemon D' U) = put_uk_daemon D U"
  by (simp add: put_uk_daemon_def)

lemma put_link_pings [simp]: "put_link l (D\<lparr>dm_pings := x\<rparr>) = (put_link l D)\<lparr>dm_pings := x\<rparr>"
  by (simp add: put_link_def)

lemma upd_peer_pings [simp]: "upd_peer p f (D\<lparr>dm_pings := x\<rparr>) = (upd_peer p f D)\<lparr>dm_pings := x\<rparr>"
  by (simp add: upd_peer_def split: option.split)

lemma upd_peer_dm_pings [simp]: "dm_pings (upd_peer p f D) = dm_pings D" "dm_pings (put_link l D) = dm_pings D"
  by (simp_all add: upd_peer_def put_link_def split: option.split)

lemma dm_link_pings [simp]: "dm_link (D\<lparr>dm_pings := x\<rparr>) = dm_link D"
  by simp

lemma unanswered_ping_ignored:
  assumes "dget (uk_peers U) p = Some st" "ps_transport_type st \<noteq> ''rns''"
  shows "uk_link (heartbeat_peer C io E p (put_uk_daemon ((uk_daemon U)\<lparr>dm_pings := pings\<rparr>) U)) = uk_link (heartbeat_peer C io E p U)"
proof -
  have "uk_link (ping_peer C io E p (put_uk_daemon ((uk_daemon U)\<lparr>dm_pings := pings\<rparr>) U)) = uk_link (ping_peer C io E p U)"
    by (simp add: ping_peer_def drop_peer_def upd_uk_peer_def seen_now_def Let_def split: prod.split option.split)
  then show ?thesis using assms by (simp add: heartbeat_peer_def)
qed

section \<open>Broadcasts\<close>

lemma map_filter_simps' [simp]:
  "List.map_filter f [] = []" "List.map_filter f (x # xs) = (case f x of None \<Rightarrow> List.map_filter f xs | Some y \<Rightarrow> y # List.map_filter f xs)"
  by (simp_all add: List.map_filter_def split: option.split)

text \<open>When nobody has declared the feature, everybody gets the broadcast.\<close>

lemma broadcast_reaches_undeclared:
  assumes "rns_group_peers (sd_discovered (uk_sender U)) = []"
  shows "broadcast_targets U = (map fst (filter (\<lambda>(p, st). is_online st \<and> p \<noteq> sd_me (uk_sender U)) (uk_peers U)), 0)"
  using assms by (simp add: broadcast_targets_def)

lemma broadcast_to_declared:
  assumes "broadcast_targets U = (targets, n)" "rns_group_peers (sd_discovered (uk_sender U)) \<noteq> []"
  shows "set targets \<subseteq> set (rns_group_peers (sd_discovered (uk_sender U)))"
  using assms by (auto simp: broadcast_targets_def Let_def)

text \<open>In strict mode the body of a broadcast travels sealed, but receivers handle broadcasts before they unseal: they
  see an empty one and drop it.\<close>

lemma strict_group_broadcast_lost:
  assumes "sd_strict S" "lookup_dest_identity to (sd_daemon S) = Inr (Some pub)" "length pub = 32" "to \<noteq> sd_me S"
    "Option.bind (sd_peer to S) ps_x25519_identity_public = Some xpk" "length xpk = 32"
    "prepare_frame C E to ''GROUP_BROADCAST'' payload pr S = (Inr (f, body), over)"
  shows "dm_groups (handle_control C io V p f D) = dm_groups D"
proof -
  obtain canon sig where "f = (outgoing_frame E to ''GROUP_BROADCAST'' pr (Some (seal_encrypt C xpk (oe_seal E) payload)) payload False S)
       \<lparr>f_source_signature := Some sig, f_source_sig_scheme := Some SOURCE_SIG_SCHEME_V2, f_payload := [], f_routing := JObj []\<rparr>"
    by (rule strict_frame [OF assms])
  then have "f_payload f = []" "f_msg_type f = ''GROUP_BROADCAST''" by (simp_all add: outgoing_frame_def new_frame_def)
  then show ?thesis
    by (simp add: handle_control_def on_group_message_def seen_now_def upd_peer_def put_link_def split: option.split)
qed

section \<open>The nearest address\<close>

definition dotted :: "nat \<times> nat \<times> nat \<times> nat \<Rightarrow> string" where
  "dotted x = (case x of (a, b, c, d) \<Rightarrow> show_nat a @ ''.'' @ show_nat b @ ''.'' @ show_nat c @ ''.'' @ show_nat d)"

definition octets_ok :: "nat \<times> nat \<times> nat \<times> nat \<Rightarrow> bool" where
  "octets_ok x = (case x of (a, b, c, d) \<Rightarrow> a < 256 \<and> b < 256 \<and> c < 256 \<and> d < 256)"

definition ipv4_value :: "nat \<times> nat \<times> nat \<times> nat \<Rightarrow> int" where
  "ipv4_value x = (case x of (a, b, c, d) \<Rightarrow> ((int a * 256 + int b) * 256 + int c) * 256 + int d)"

definition same_subnet :: "nat \<times> nat \<times> nat \<times> nat \<Rightarrow> nat \<times> nat \<times> nat \<times> nat \<Rightarrow> bool" where
  "same_subnet x y = (case (x, y) of ((a, b, c, d), (a', b', c', d')) \<Rightarrow> a = a' \<and> b = b' \<and> c = c')"

lemma is_digit_code: "is_digit c \<longleftrightarrow> 48 \<le> (of_char c :: nat) \<and> (of_char c :: nat) \<le> 57"
  by (simp add: is_digit_def less_eq_char_def)

lemma digits_value_read: "\<forall>c\<in>set s. is_digit c \<Longrightarrow> digits_value s acc = Some (foldl (\<lambda>a c. 10 * a + digit_val c) acc s)"
  by (induction s arbitrary: acc) auto

lemma digit_not_sign: "is_digit c \<Longrightarrow> \<not> int_space c \<and> c \<noteq> CHR ''-'' \<and> c \<noteq> CHR ''+'' \<and> c \<noteq> CHR ''.'' \<and> c \<noteq> CHR '':''"
  by (auto simp: is_digit_code int_space_def Let_def)

lemma strip_digits: "\<forall>c\<in>set s. is_digit c \<Longrightarrow> strip_ws s = s"
proof -
  assume s: "\<forall>c\<in>set s. is_digit c"
  have "dropWhile int_space t = t" if "\<forall>c\<in>set t. is_digit c" for t
    using that digit_not_sign by (cases t) auto
  then show ?thesis using s by (simp add: strip_ws_def)
qed

lemma octet_reads: "int_of_str (show_nat n) = Some (int n)" "CHR ''.'' \<notin> set (show_nat n)" "CHR '':'' \<notin> set (show_nat n)"
proof -
  note d = show_nat_digits [of n]
  obtain c t where ct: "show_nat n = c # t" using show_nat_nonempty [of n] by (cases "show_nat n") auto
  have c: "is_digit c" using d ct by auto
  have "digits_value (show_nat n) 0 = Some n"
    using digits_value_read [OF d] read_nat_show_nat [of n] by (simp add: read_nat_def)
  then show "int_of_str (show_nat n) = Some (int n)"
    using digit_not_sign [OF c] c by (simp add: int_of_str_def strip_digits [OF d]) (simp add: ct)
  show "CHR ''.'' \<notin> set (show_nat n)" "CHR '':'' \<notin> set (show_nat n)" using d digit_not_sign by blast+
qed

text \<open>The discovery loop reads back the address the mDNS callback wrote down.\<close>

lemma rsplit_once_append: "c \<notin> set b \<Longrightarrow> rsplit_once c (a @ c # b) = Some (a, b)"
proof (induction a)
  case Nil
  have "rsplit_once c b = None" if "c \<notin> set b" for b using that by (induction b) auto
  then show ?case using Nil by simp
qed simp

lemma recorded_address_dials: "0 \<le> port \<Longrightarrow> parse_address (host @ '':'' @ show_int port) = Some (DialWs host port)"
  by (simp add: parse_address_def show_int_def rsplit_once_append octet_reads)

lemma split_char_plain: "c \<notin> set w \<Longrightarrow> split_char c w = [w]"
  by (induction w) auto

lemma split_char_append: "c \<notin> set w \<Longrightarrow> split_char c (w @ c # r) = w # split_char c r"
  by (induction w) auto

lemma shift_or_byte: "(0::int) \<le> v \<Longrightarrow> v < 256 \<Longrightarrow> push_bit 8 n OR v = n * 256 + v"
proof -
  assume v: "0 \<le> v" "v < 256"
  have t: "take_bit 8 v = v" using v by (simp add: take_bit_int_eq_self)
  have "push_bit 8 n OR v = push_bit 8 n + v"
  proof (rule disjunctive_add [symmetric])
    fix i show "\<not> bit (push_bit 8 n) i \<or> \<not> bit v i"
      using bit_take_bit_iff [of 8 v i] by (auto simp: t bit_push_bit_iff)
  qed
  then show ?thesis by (simp add: push_bit_eq_mult)
qed

lemma ipv4_to_int_dotted: "octets_ok x \<Longrightarrow> ipv4_to_int (dotted x) = Some (ipv4_value x)"
  by (cases x) (simp add: octets_ok_def dotted_def ipv4_to_int_def ipv4_value_def Let_def split_char_append split_char_plain
      octet_reads shift_or_byte)

lemma ipv4_value_bounds: "octets_ok x \<Longrightarrow> 0 \<le> ipv4_value x \<and> ipv4_value x < 2 ^ 32"
  by (cases x) (simp add: octets_ok_def ipv4_value_def)

lemma subnet_prefix_eq:
  assumes "0 \<le> n" "n < 2 ^ 32"
  shows "subnet_prefix n = n div 256 * 256"
proof -
  have t: "take_bit 32 n = n" using assms by (simp add: take_bit_int_eq_self)
  have m: "(0xFFFFFF00::int) = push_bit 8 (mask 24)" by (simp add: push_bit_eq_mult mask_eq_exp_minus_1)
  have "subnet_prefix n = push_bit 8 (drop_bit 8 n)"
  proof (rule bit_eqI)
    fix i
    show "bit (subnet_prefix n) i = bit (push_bit 8 (drop_bit 8 n)) i"
      using bit_take_bit_iff [of 32 n i]
      by (auto simp: t subnet_prefix_def m bit_and_iff bit_push_bit_iff bit_mask_iff bit_drop_bit_eq)
  qed
  then show ?thesis by (simp add: push_bit_eq_mult drop_bit_eq_div)
qed

lemma radix_eq: "c < 256 \<Longrightarrow> c' < 256 \<Longrightarrow> (x::int) * 256 + int c = y * 256 + int c' \<longleftrightarrow> x = y \<and> c = c'"
proof -
  assume c: "c < 256" "c' < 256"
  have "(z * 256 + int e) div 256 = z" "(z * 256 + int e) mod 256 = int e" if "e < 256" for z e using that by simp_all
  then show ?thesis using c by (metis of_nat_eq_iff)
qed

lemma same_prefix_iff:
  assumes "octets_ok x" "octets_ok y"
  shows "subnet_prefix (ipv4_value x) = subnet_prefix (ipv4_value y) \<longleftrightarrow> same_subnet x y"
proof -
  have d: "ipv4_value z div 256 = (case z of (a, b, c, d) \<Rightarrow> (int a * 256 + int b) * 256 + int c)" if "octets_ok z" for z
  proof (cases z)
    case (fields a b c e)
    have "(x * 256 + int e) div 256 = x" if "e < 256" for x using that by simp
    then show ?thesis using that fields by (simp only: ipv4_value_def octets_ok_def prod.case)
  qed
  have "subnet_prefix (ipv4_value x) = subnet_prefix (ipv4_value y) \<longleftrightarrow> ipv4_value x div 256 = ipv4_value y div 256"
    using ipv4_value_bounds [OF assms(1)] ipv4_value_bounds [OF assms(2)] by (simp add: subnet_prefix_eq)
  also have "\<dots> \<longleftrightarrow> same_subnet x y"
  proof (cases x; cases y)
    fix a b c e a' b' c' e' assume xy: "x = (a, b, c, e)" "y = (a', b', c', e')"
    have "a < 256" "b < 256" "c < 256" "a' < 256" "b' < 256" "c' < 256" using assms xy by (simp_all add: octets_ok_def)
    then have "((int a * 256 + int b) * 256 + int c = (int a' * 256 + int b') * 256 + int c') \<longleftrightarrow> a = a' \<and> b = b' \<and> c = c'"
      using radix_eq [of c c' "int a * 256 + int b" "int a' * 256 + int b'"] radix_eq [of b b' "int a" "int a'"] by auto
    moreover have "ipv4_value x div 256 = (int a * 256 + int b) * 256 + int c" "ipv4_value y div 256 = (int a' * 256 + int b') * 256 + int c'"
      using d [OF assms(1)] d [OF assms(2)] by (simp_all only: xy prod.case)
    ultimately show ?thesis by (simp only: xy same_subnet_def prod.case)
  qed
  finally show ?thesis .
qed

lemma find_map_some: "find P (map f xs) = map_option f (find (\<lambda>x. P (f x)) xs)"
  by (induction xs) auto

text \<open>Among the addresses a peer announces the daemon dials the first that shares its first three octets with one of
  its own, and otherwise the first.\<close>

lemma closest_subnet_choice:
  assumes "cs \<noteq> []" "list_all octets_ok cs" "list_all octets_ok ls"
  shows "select_closest_subnet_address (map dotted cs) (local_subnet_prefixes (map dotted ls))
    = dotted (case find (\<lambda>c. list_ex (same_subnet c) ls) cs of Some c \<Rightarrow> c | None \<Rightarrow> hd cs)"
proof -
  have mf: "List.map_filter ipv4_to_int (map dotted ls) = map ipv4_value ls"
    using assms(3) by (induction ls) (auto simp: ipv4_to_int_dotted)
  have pre: "local_subnet_prefixes (map dotted ls) = map (\<lambda>l. subnet_prefix (ipv4_value l)) ls"
    by (simp add: local_subnet_prefixes_def mf)
  have P: "(case ipv4_to_int (dotted c) of None \<Rightarrow> False | Some n \<Rightarrow> subnet_prefix n \<in> set (local_subnet_prefixes (map dotted ls)))
      = list_ex (same_subnet c) ls" if "c \<in> set cs" for c
  proof -
    have c: "octets_ok c" using that assms(2) by (simp add: list_all_iff)
    have "subnet_prefix (ipv4_value c) \<in> (\<lambda>l. subnet_prefix (ipv4_value l)) ` set ls \<longleftrightarrow> (\<exists>l\<in>set ls. same_subnet c l)"
      using assms(3) same_prefix_iff [OF c] by (auto simp: list_all_iff image_iff)
    then show ?thesis by (simp add: ipv4_to_int_dotted [OF c] pre list_ex_iff)
  qed
  have f: "find (\<lambda>ip. case ipv4_to_int ip of None \<Rightarrow> False | Some n \<Rightarrow> subnet_prefix n \<in> set (local_subnet_prefixes (map dotted ls))) (map dotted cs)
      = map_option dotted (find (\<lambda>c. list_ex (same_subnet c) ls) cs)"
    unfolding find_map_some by (rule arg_cong [where f = "map_option dotted"], rule find_cong) (simp_all add: P)
  show ?thesis
  proof (cases "length cs = 1 \<or> ls = []")
    case True
    then have "(case find (\<lambda>c. list_ex (same_subnet c) ls) cs of Some c \<Rightarrow> c | None \<Rightarrow> hd cs) = hd cs"
    proof
      assume "length cs = 1"
      then obtain x where "cs = [x]" by (auto simp: length_Suc_conv)
      then show ?thesis by simp
    next
      assume "ls = []"
      then show ?thesis by (simp add: find_None_iff split: option.split) (simp add: find_Some_iff)
    qed
    then show ?thesis using True assms(1) by (auto simp: select_closest_subnet_address_def pre hd_map)
  next
    case False
    then have "local_subnet_prefixes (map dotted ls) \<noteq> []" by (simp add: pre)
    then show ?thesis
      using False assms(1) f by (simp add: select_closest_subnet_address_def hd_map split: option.split)
  qed
qed

section \<open>Announcements are accepted\<close>

lemma od_trim_put: "0 < n \<Longrightarrow> dget (od_trim n (od_put k v d)) k = Some v"
proof -
  assume n: "0 < n"
  let ?d = "AList.delete k (dset k v d)"
  have "od_put k v d = ?d @ [(k, v)]" by (simp add: od_put_def dmove_end_def)
  then have "od_trim n (od_put k v d) = drop (Suc (length ?d) - n) ?d @ [(k, v)]"
    using n by (simp add: od_trim_drop)
  moreover have "set (drop (Suc (length ?d) - n) ?d) \<subseteq> set ?d" by (rule set_drop_subset)
  with AList.delete_notin_dom [of k "dset k v d"] have "k \<notin> fst ` set (drop (Suc (length ?d) - n) ?d)" by blast
  then have "dget (drop (Suc (length ?d) - n) ?d) k = None" by (simp only: map_of_eq_None_iff not_False_eq_True)
  ultimately show ?thesis by (simp add: dget_append del: map_of_append)
qed

text \<open>The body of a signed announcement.\<close>

definition announce_fields :: "time \<Rightarrow> node_id \<Rightarrow> string list \<Rightarrow> bytes \<Rightarrow> (string, json) dict" where
  "announce_fields now origin caps sig = [(''origin'', JStr origin), (''capabilities'', JArr (map JStr caps)), (''announced_at'', JFloat now),
     (''version'', JInt CAPABILITY_ANNOUNCE_SIGNED_VERSION), (''signature'', JStr (b64encode sig))]"

lemma built_announce:
  assumes "build_signed_announce C io now sk origin caps = Inr payload"
  obtains canonical sig where
    "canonical_capability_announce_bytes io (JStr origin) (JArr (map JStr caps)) (JFloat now) (JInt CAPABILITY_ANNOUNCE_SIGNED_VERSION) = Inr canonical"
    "sign_detached_with_context C sk SIG_CTX_CAPABILITY_ANNOUNCE canonical = Inr sig"
    "payload = utf8 (dumps_compact io (JObj (announce_fields now origin caps sig)))" "origin \<noteq> []" "\<forall>c\<in>set caps. c \<noteq> []"
  using assms
  by (auto simp: build_signed_announce_def py_bind_Inr_iff announce_fields_def canonical_capability_announce_bytes_def nonempty_str_def
      split: if_splits option.splits)

lemma announce_fields_get:
  "dget (announce_fields now origin caps sig) ''origin'' = Some (JStr origin)"
  "dget (announce_fields now origin caps sig) ''capabilities'' = Some (JArr (map JStr caps))"
  "dget (announce_fields now origin caps sig) ''announced_at'' = Some (JFloat now)"
  "dget (announce_fields now origin caps sig) ''version'' = Some (JInt CAPABILITY_ANNOUNCE_SIGNED_VERSION)"
  "dget (announce_fields now origin caps sig) ''signature'' = Some (JStr (b64encode sig))"
  by (simp_all add: announce_fields_def)

lemma announce_fields_read:
  "float_ok io now \<Longrightarrow> safe_json_loads io (utf8 (dumps_compact io (JObj (announce_fields now origin caps sig)))) MAX_JSON_DEPTH
    = Some (JObj (announce_fields now origin caps sig))"
proof -
  assume "float_ok io now"
  then have "wf_json io (JObj (announce_fields now origin caps sig))" by (auto simp: announce_fields_def)
  moreover have "json_depth (JObj (announce_fields now origin caps sig)) \<le> MAX_JSON_DEPTH"
    by (simp add: announce_fields_def MAX_JSON_DEPTH_def foldr_max_le)
  ultimately show ?thesis by (rule safe_json_loads_dumps)
qed

lemma caps_kept: "\<forall>c\<in>set caps. c \<noteq> [] \<Longrightarrow> filter (\<lambda>c. c \<noteq> []) (List.map_filter py_str (map JStr caps)) = caps"
  by (induction caps) (auto simp: py_str.simps)


section \<open>The theorems on a small daemon\<close>

definition sample_upkeep :: upkeep where
  "sample_upkeep = \<lparr> uk_sender = sample_sender, uk_allowed = None, uk_open_discovery = True, uk_pinned = [], uk_addresses = [],
     uk_hashes = [], uk_claims = [], uk_backoff = [], uk_interval = 30, uk_threshold = 300, uk_long_drops = 0, uk_alerts = [],
     uk_broadcasts = 0, uk_dials = [] \<rparr>"

theorem reconnect_claims_exclusive_witness:
  "\<not> fst (try_claim_reconnect 59 ''bob'' (fold claim_step [Claim 5 ''bob'', Release ''eve'', Claim 30 ''eve''] (snd (try_claim_reconnect 0 ''bob'' sample_upkeep))))"
proof -
  have "try_claim_reconnect 0 ''bob'' sample_upkeep = (True, snd (try_claim_reconnect 0 ''bob'' sample_upkeep))"
    by (simp add: try_claim_reconnect_def sample_upkeep_def)
  from reconnect_claims_exclusive [OF this, of "[Claim 5 ''bob'', Release ''eve'', Claim 30 ''eve'']" 59] show ?thesis by simp
qed




end
