(* ===== verification/Audit_Log.thy ===== *)
theory Audit_Log
  imports Capabilities "HOL-Library.Sublist"
begin

text \<open>
  audit.py: the append-only security log. Every line is a JSON entry whose \<open>hmac\<close> covers the
  previous entry's; a full log is rotated into numbered archives and the new one starts with an
  anchor naming the old tail.

  \<^item> A file is the text that reading it in text mode gives; its size is that of its encoding.
    \<open>files 0\<close> is the live log, \<open>files i\<close> the archive \<open>.i\<close>.
  \<^item> \<open>log\<close> re-reads the tail under the file lock, so the in-memory copy of the last HMAC never
    matters and one call of any process is one step. Whether a write or a rename succeeds and the
    clock are the environment's (\<open>log_env\<close>). Torn writes are files like any other for the readers.
\<close>

definition AUDIT_GENESIS :: string where "AUDIT_GENESIS = replicate 64 (CHR ''0'')"

definition AUDIT_MAX_ARCHIVES :: nat where "AUDIT_MAX_ARCHIVES = 5"

definition EVENT_LOG_ROTATED :: string where "EVENT_LOG_ROTATED = ''LOG_ROTATED''"

type_synonym audit_files = "nat \<Rightarrow> string option"

record log_env =
  le_now :: time
  le_writes :: bool
  le_renames :: "nat \<Rightarrow> bool"
  le_anchor_now :: time
  le_anchor_writes :: bool

section \<open>Lines\<close>

abbreviation newline :: char where "newline \<equiv> CHR 0x0A"

fun split_lines :: "string \<Rightarrow> string list" where
  "split_lines [] = [[]]"
| "split_lines (c # s) = (if c = newline then [] # split_lines s
     else (case split_lines s of [] \<Rightarrow> [[c]] | l # ls \<Rightarrow> (c # l) # ls))"

text \<open>The stripped lines that are not blank.\<close>

definition file_lines :: "string \<Rightarrow> string list" where
  "file_lines s = filter (\<lambda>l. l \<noteq> []) (map py_strip (split_lines s))"

abbreviation lines_at :: "audit_files \<Rightarrow> nat \<Rightarrow> string list" where
  "lines_at files i \<equiv> (case files i of None \<Rightarrow> [] | Some s \<Rightarrow> file_lines s)"

text \<open>\<open>_read_last_hmac\<close> on the lines, latest first: lines that are not JSON or carry no 64-character
  \<open>hmac\<close> are passed over; a line that is JSON but no object raises, and the chain starts anew.\<close>

fun last_hmac :: "float_io \<Rightarrow> string list \<Rightarrow> string" where
  "last_hmac io [] = AUDIT_GENESIS"
| "last_hmac io (l # ls) = (case loads io l of
     None \<Rightarrow> last_hmac io ls
   | Some (JObj d) \<Rightarrow> (case dget d ''hmac'' of
        Some (JStr h) \<Rightarrow> if length h = 64 then h else last_hmac io ls
      | _ \<Rightarrow> last_hmac io ls)
   | Some _ \<Rightarrow> AUDIT_GENESIS)"

definition read_last_hmac :: "float_io \<Rightarrow> string option \<Rightarrow> string" where
  "read_last_hmac io f = (case f of None \<Rightarrow> AUDIT_GENESIS | Some s \<Rightarrow> last_hmac io (rev (file_lines s)))"

section \<open>Writing\<close>

definition audit_body :: "time \<Rightarrow> string \<Rightarrow> (string, json) dict \<Rightarrow> (string, json) dict" where
  "audit_body ts event details = [(''timestamp'', JFloat ts), (''event'', JStr event), (''details'', JObj details)]"

definition compute_hmac :: "crypto \<Rightarrow> bytes \<Rightarrow> string \<Rightarrow> string \<Rightarrow> string" where
  "compute_hmac C K last_tag entry_data = mac_hex C K (last_tag @ entry_data)"

definition audit_line :: "crypto \<Rightarrow> float_io \<Rightarrow> bytes \<Rightarrow> string \<Rightarrow> time \<Rightarrow> string \<Rightarrow> (string, json) dict \<Rightarrow> string \<times> string" where
  "audit_line C io K last_tag ts event details =
    (let h = compute_hmac C K last_tag (dumps_sorted io (JObj (audit_body ts event details))) in
     (h, dumps_sorted io (JObj (audit_body ts event details @ [(''hmac'', JStr h)]))))"

text \<open>A newline goes first when the file does not end with one.\<close>

definition append_line :: "string option \<Rightarrow> string \<Rightarrow> string" where
  "append_line f line = (case f of None \<Rightarrow> line @ [newline]
     | Some s \<Rightarrow> s @ (if s \<noteq> [] \<and> List.last s \<noteq> newline then [newline] else []) @ line @ [newline])"

definition write_entry :: "crypto \<Rightarrow> float_io \<Rightarrow> bytes \<Rightarrow> time \<Rightarrow> bool \<Rightarrow> string \<Rightarrow> (string, json) dict
    \<Rightarrow> string \<times> string option \<Rightarrow> string \<times> string option" where
  "write_entry C io K ts writes event details st = (case st of (last_tag, f) \<Rightarrow>
     (case audit_line C io K last_tag ts event details of (h, line) \<Rightarrow>
        if writes then (h, Some (append_line f line)) else (last_tag, f)))"

definition shift_archive :: "log_env \<Rightarrow> nat \<Rightarrow> audit_files \<Rightarrow> audit_files" where
  "shift_archive E i files =
    (if files i \<noteq> None \<and> le_renames E i then files(i + 1 := files i, i := None) else files)"

definition maybe_rotate :: "crypto \<Rightarrow> float_io \<Rightarrow> bytes \<Rightarrow> nat \<Rightarrow> log_env \<Rightarrow> string \<Rightarrow> audit_files \<Rightarrow> audit_files" where
  "maybe_rotate C io K max_bytes E last_tag files = (case files 0 of
     None \<Rightarrow> files
   | Some s \<Rightarrow>
       if length (utf8 s) < max_bytes then files
       else (let files1 = fold (shift_archive E) [4, 3, 2, 1] files in
             if le_renames E 0 then
               (files1(1 := files1 0))(0 := snd (write_entry C io K (le_anchor_now E) (le_anchor_writes E) EVENT_LOG_ROTATED
                   [(''previous_tail_hmac'', JStr last_tag)] (AUDIT_GENESIS, None)))
             else files1))"

text \<open>Without a key logging is disabled. A threshold below 1024 bytes is raised to it.\<close>

definition audit_log :: "crypto \<Rightarrow> float_io \<Rightarrow> bytes option \<Rightarrow> nat \<Rightarrow> log_env \<Rightarrow> string \<Rightarrow> (string, json) dict \<Rightarrow> audit_files \<Rightarrow> audit_files" where
  "audit_log C io key max_bytes E event details files = (case key of
     None \<Rightarrow> files
   | Some K \<Rightarrow>
       (case write_entry C io K (le_now E) (le_writes E) event details (read_last_hmac io (files 0), files 0) of
          (last_tag, f) \<Rightarrow> maybe_rotate C io K (max 1024 max_bytes) E last_tag (files(0 := f))))"

section \<open>Verifying\<close>

text \<open>One file from the tag \<open>prev\<close> and \<open>n\<close> lines on; \<open>anchor\<close> is what the first entry has to name.
  Every exception on the way is a failure at the current line.\<close>

definition anchors :: "string \<Rightarrow> (string, json) dict \<Rightarrow> bool" where
  "anchors tail d = (dget_default JNull d ''event'' = JStr EVENT_LOG_ROTATED
     \<and> (let details = dget_default JNull d ''details'' in truthy details \<and> jget details ''previous_tail_hmac'' = Some (JStr tail)))"

fun verify_lines :: "crypto \<Rightarrow> float_io \<Rightarrow> bytes \<Rightarrow> string option \<Rightarrow> string \<Rightarrow> nat \<Rightarrow> string list \<Rightarrow> bool \<times> nat \<times> string" where
  "verify_lines C io K anchor prev n [] = (True, n, prev)"
| "verify_lines C io K anchor prev n (l # ls) = (case loads io l of
     Some (JObj d) \<Rightarrow>
       (let expected = mac_hex C K (prev @ dumps_sorted io (JObj (dpop ''hmac'' d))) in
        if dget_default (JStr []) d ''hmac'' \<noteq> JStr expected then (False, n + 1, prev)
        else if (case anchor of None \<Rightarrow> False | Some tail \<Rightarrow> \<not> anchors tail (dpop ''hmac'' d)) then (False, n + 1, prev)
        else verify_lines C io K None expected (n + 1) ls)
   | _ \<Rightarrow> (False, n + 1, prev))"

definition audit_verify :: "crypto \<Rightarrow> float_io \<Rightarrow> bytes option \<Rightarrow> string option \<Rightarrow> bool \<times> nat \<times> nat option" where
  "audit_verify C io key f = (case f of
     None \<Rightarrow> (True, 0, None)
   | Some s \<Rightarrow>
       (case key of
          None \<Rightarrow> if file_lines s = [] then (True, 0, None) else (False, 1, Some 1)
        | Some K \<Rightarrow> (case verify_lines C io K None AUDIT_GENESIS 0 (file_lines s) of
            (ok, n, tail) \<Rightarrow> (ok, n, if ok then None else Some n))))"

fun verify_files :: "crypto \<Rightarrow> float_io \<Rightarrow> bytes \<Rightarrow> string option \<Rightarrow> nat \<Rightarrow> string list \<Rightarrow> bool \<times> nat \<times> nat option" where
  "verify_files C io K anchor n [] = (True, n, None)"
| "verify_files C io K anchor n (s # fs) = (case verify_lines C io K anchor AUDIT_GENESIS n (file_lines s) of
     (ok, n1, tail) \<Rightarrow> if ok then verify_files C io K (Some tail) n1 fs else (False, n1, Some n1))"

definition present_files :: "audit_files \<Rightarrow> string list" where
  "present_files files = List.map_filter files [5, 4, 3, 2, 1, 0]"

definition verify_across_archives :: "crypto \<Rightarrow> float_io \<Rightarrow> bytes option \<Rightarrow> audit_files \<Rightarrow> bool \<times> nat \<times> nat option" where
  "verify_across_archives C io key files = (case key of
     None \<Rightarrow> (True, 0, None)
   | Some K \<Rightarrow> verify_files C io K None 0 (present_files files))"

definition derive_audit_key :: "crypto \<Rightarrow> bytes \<Rightarrow> bytes" where
  "derive_audit_key C ed25519_secret = sha256 C (ed25519_secret @ utf8 ''ironmesh-audit-v1'')"

text \<open>The tools' verification of a file, with the loaded key pair's secret.\<close>

definition verify_chain :: "crypto \<Rightarrow> float_io \<Rightarrow> bytes \<Rightarrow> string option \<Rightarrow> bool \<times> nat \<times> nat option" where
  "verify_chain C io ed25519_secret f = audit_verify C io (Some (derive_audit_key C ed25519_secret)) f"

definition verify_archived_chain :: "crypto \<Rightarrow> float_io \<Rightarrow> bytes \<Rightarrow> audit_files \<Rightarrow> bool \<times> nat \<times> nat option" where
  "verify_archived_chain C io ed25519_secret files = verify_across_archives C io (Some (derive_audit_key C ed25519_secret)) files"

section \<open>What a written line reads as\<close>

definition graphic :: "string \<Rightarrow> bool" where
  "graphic s = (\<forall>c \<in> set s. 32 \<le> (of_char c :: nat) \<and> (of_char c :: nat) < 127)"

lemma graphic_simps [simp]:
  "graphic []" "graphic (c # s) \<longleftrightarrow> (32 \<le> (of_char c :: nat) \<and> (of_char c :: nat) < 127) \<and> graphic s"
  "graphic (s @ t) \<longleftrightarrow> graphic s \<and> graphic t" "graphic (concat ss) \<longleftrightarrow> (\<forall>s \<in> set ss. graphic s)"
  by (auto simp: graphic_def)

lemma graphic_esc: "graphic (esc_char c)"
proof -
  define n where "n = (of_char c :: nat)"
  have "n < 256" by (simp add: n_def of_char_bound)
  then have b: "n div 16 < 16" "n mod 16 < 16" by simp_all
  have h: "m < 16 \<Longrightarrow> 32 \<le> (of_char (hex_char m) :: nat) \<and> (of_char (hex_char m) :: nat) < 127" for m
    by (simp add: hex_char_def of_char_char_of)
  show ?thesis using h [OF b(1)] h [OF b(2)] by (simp add: esc_char_def backslash_def Let_def n_def)
qed

lemma graphic_string: "graphic (show_string s)"
  by (simp add: show_string_def dquote_def graphic_esc)

lemma graphic_digit: "is_digit c \<Longrightarrow> 32 \<le> (of_char c :: nat) \<and> (of_char c :: nat) < 127"
  by (auto simp: is_digit_def less_eq_char_def)

lemma graphic_digits: "graphic (takeWhile is_digit s)"
  unfolding graphic_def using graphic_digit set_takeWhileD by fast

lemma graphic_int: "graphic (show_int i)"
proof -
  have "graphic (show_nat n)" for n using show_nat_digits [of n] graphic_digit unfolding graphic_def by blast
  then show ?thesis by (simp add: show_int_def)
qed

lemma graphic_lex_int: "lex_int s = Some (a, b) \<Longrightarrow> graphic a"
  using graphic_digit [of "hd s"] graphic_digits by (cases s) (auto split: if_splits)

lemma graphic_lex_frac: "lex_frac s = (a, b) \<Longrightarrow> graphic a"
  by (cases s rule: lex_frac.cases) (auto simp: graphic_digits graphic_digit split: if_splits)

lemma graphic_lex_exp: "lex_exp s = (a, b) \<Longrightarrow> graphic a"
  by (cases s rule: lex_exp.cases) (auto simp: graphic_digits graphic_digit split: if_splits)

lemma graphic_number: "lex_number s = Some (i, fe, tok, r) \<Longrightarrow> graphic tok"
  by (auto simp: lex_number_def split: option.splits prod.splits list.splits if_splits
      dest!: graphic_lex_int graphic_lex_frac graphic_lex_exp simp del: lex_int.simps)

lemma graphic_float: "float_ok io r \<Longrightarrow> graphic (show_float io r)"
  using lex_number_tok graphic_number by (fastforce simp: float_ok_def split: option.splits)

lemma graphic_join: "graphic sep \<Longrightarrow> \<forall>s \<in> set ss. graphic s \<Longrightarrow> graphic (join_with sep ss)"
  by (cases ss) (auto simp: join_with_def)

lemma graphic_dumps: "wf_json io j \<Longrightarrow> graphic (dumps_compact io j)"
proof (induction j)
  case (JObj kvs)
  then have "\<forall>kv \<in> set kvs. graphic (dumps_compact io (snd kv))" by (fastforce intro: snds.intros)
  then show ?case by (fastforce simp: graphic_string intro!: graphic_join)
qed (auto simp: graphic_float graphic_int graphic_string intro!: graphic_join)

lemma split_lines_newline: "split_lines (s @ newline # t) = split_lines s @ split_lines t"
proof (induction s)
  case (Cons c s)
  moreover have "split_lines s \<noteq> []" by (induction s) (auto split: list.splits)
  ultimately show ?case by (auto split: list.splits simp: append_eq_Cons_conv)
qed simp

lemma split_lines_single: "newline \<notin> set l \<Longrightarrow> split_lines l = [l]"
  by (induction l) auto

lemma file_lines_newline: "file_lines (s @ newline # t) = file_lines s @ file_lines t"
  by (simp add: file_lines_def split_lines_newline)

lemma file_lines_Nil [simp]: "file_lines [] = []"
  by (simp add: file_lines_def py_strip_def)

lemma file_lines_object:
  assumes "graphic l" "l = CHR ''{'' # m @ [CHR ''}'']"
  shows "file_lines l = [l]"
proof -
  have "newline \<notin> set l" using assms(1) by (auto simp: graphic_def)
  moreover have "py_strip l = l" by (simp add: assms(2) py_strip_def py_space_def)
  moreover have "l \<noteq> []" by (simp add: assms(2))
  ultimately show ?thesis by (simp add: file_lines_def split_lines_single)
qed

lemma file_lines_append:
  assumes "file_lines l = [l]"
  shows "file_lines (append_line f l) = (case f of None \<Rightarrow> [] | Some s \<Rightarrow> file_lines s) @ [l]"
proof (cases f)
  case (Some s)
  have l: "file_lines (l @ [newline]) = [l]" using file_lines_newline [of l "[]"] assms by simp
  show ?thesis
  proof (cases "s = [] \<or> List.last s \<noteq> newline")
    case False
    then obtain s0 where s: "s = s0 @ [newline]" by (cases s rule: rev_cases) auto
    then have "file_lines (s @ l @ [newline]) = file_lines s0 @ file_lines (l @ [newline])"
      using file_lines_newline [of s0 "l @ [newline]"] by simp
    moreover have "file_lines s = file_lines s0" using file_lines_newline [of s0 "[]"] s by simp
    ultimately show ?thesis using Some s l by (simp add: append_line_def)
  next
    case True
    then show ?thesis using Some l file_lines_newline [of s "l @ [newline]"] by (auto simp: append_line_def)
  qed
qed (use file_lines_newline [of l "[]"] assms in \<open>simp add: append_line_def\<close>)

section \<open>Chains\<close>

text \<open>The verification without the counting: the tag of the last line, if the file is accepted.\<close>

definition entry_tag :: "crypto \<Rightarrow> float_io \<Rightarrow> bytes \<Rightarrow> string option \<Rightarrow> string \<Rightarrow> string \<Rightarrow> string option" where
  "entry_tag C io K anchor prev l = (case loads io l of
     Some (JObj d) \<Rightarrow>
       (let expected = mac_hex C K (prev @ dumps_sorted io (JObj (dpop ''hmac'' d))) in
        if dget_default (JStr []) d ''hmac'' = JStr expected
           \<and> (case anchor of None \<Rightarrow> True | Some tail \<Rightarrow> anchors tail (dpop ''hmac'' d)) then Some expected else None)
   | _ \<Rightarrow> None)"

fun chain_tail :: "crypto \<Rightarrow> float_io \<Rightarrow> bytes \<Rightarrow> string option \<Rightarrow> string \<Rightarrow> string list \<Rightarrow> string option" where
  "chain_tail C io K anchor prev [] = Some prev"
| "chain_tail C io K anchor prev (l # ls) = Option.bind (entry_tag C io K anchor prev l) (\<lambda>tag. chain_tail C io K None tag ls)"

fun files_tail :: "crypto \<Rightarrow> float_io \<Rightarrow> bytes \<Rightarrow> string option \<Rightarrow> string list \<Rightarrow> string option option" where
  "files_tail C io K anchor [] = Some anchor"
| "files_tail C io K anchor (s # fs) =
     Option.bind (chain_tail C io K anchor AUDIT_GENESIS (file_lines s)) (\<lambda>t. files_tail C io K (Some t) fs)"

lemma verify_lines_chain:
  "case verify_lines C io K anchor prev n ls of (ok, m, tail) \<Rightarrow>
     (ok \<longleftrightarrow> chain_tail C io K anchor prev ls \<noteq> None) \<and> (ok \<longrightarrow> m = n + length ls \<and> chain_tail C io K anchor prev ls = Some tail)"
proof (induction ls arbitrary: anchor prev n)
  case (Cons l ls)
  show ?case
  proof (cases "\<exists>d. loads io l = Some (JObj d)")
    case False
    then show ?thesis by (auto simp: entry_tag_def split: option.splits json.splits)
  next
    case True
    then obtain d where d: "loads io l = Some (JObj d)" by blast
    let ?e = "mac_hex C K (prev @ dumps_sorted io (JObj (dpop ''hmac'' d)))"
    show ?thesis using Cons.IH [of None ?e "n + 1"] d
      by (auto simp: entry_tag_def Let_def simp del: sort_json.simps split: option.splits)
  qed
qed simp

lemma verify_linesE:
  obtains m tail where "verify_lines C io K anchor prev n ls = (chain_tail C io K anchor prev ls \<noteq> None, m, tail)"
    "chain_tail C io K anchor prev ls \<noteq> None \<Longrightarrow> m = n + length ls \<and> chain_tail C io K anchor prev ls = Some tail"
  using verify_lines_chain [where C = C and io = io and K = K and anchor = anchor and prev = prev and n = n and ls = ls]
  by (cases "verify_lines C io K anchor prev n ls") auto

lemma verify_chain_tail: "fst (audit_verify C io (Some K) (Some s)) \<longleftrightarrow> chain_tail C io K None AUDIT_GENESIS (file_lines s) \<noteq> None"
  by (rule verify_linesE [of C io K None AUDIT_GENESIS 0 "file_lines s"]) (simp add: audit_verify_def)

lemma verify_files_tail: "fst (verify_files C io K anchor n fs) \<longleftrightarrow> files_tail C io K anchor fs \<noteq> None"
proof (induction fs arbitrary: anchor n)
  case (Cons s fs)
  show ?case
    by (rule verify_linesE [of C io K anchor AUDIT_GENESIS n "file_lines s"]) (use Cons.IH in \<open>auto split: bind_splits\<close>)
qed simp

lemma chain_tail_snoc:
  "chain_tail C io K anchor prev (ls @ [l]) =
     Option.bind (chain_tail C io K anchor prev ls) (\<lambda>t. entry_tag C io K (if ls = [] then anchor else None) t l)"
  by (induction ls arbitrary: anchor prev) (auto split: bind_splits)

lemma files_tail_append: "files_tail C io K a (fs @ gs) = Option.bind (files_tail C io K a fs) (\<lambda>a'. files_tail C io K a' gs)"
  by (induction fs arbitrary: a) (auto split: bind_splits)

lemma chain_tail_no_anchor: "chain_tail C io K (Some a) prev ls = Some t \<Longrightarrow> chain_tail C io K None prev ls = Some t"
  by (cases ls) (auto simp: entry_tag_def Let_def split: bind_splits option.splits json.splits if_splits)

lemma files_tail_no_anchor:
  "files_tail C io K (Some a) (s # fs) = Some t \<Longrightarrow> files_tail C io K None (s # fs) = Some t"
  using chain_tail_no_anchor by (fastforce split: bind_splits)

lemma entry_tag_length: "hmac_ok C \<Longrightarrow> entry_tag C io K a prev l = Some t \<Longrightarrow>
    length t = 64 \<and> (\<exists>d. loads io l = Some (JObj d) \<and> dget d ''hmac'' = Some (JStr t))"
proof -
  assume h: "hmac_ok C" and e: "entry_tag C io K a prev l = Some t"
  have "length (mac_hex C K x) = 64" for x using h by (simp add: mac_hex_def hmac_ok_def)
  moreover from this have "mac_hex C K x \<noteq> []" for x by (metis list.size(3) zero_neq_numeral)
  then have "[] \<noteq> mac_hex C K x" for x by metis
  ultimately show ?thesis using e
    by (auto simp: entry_tag_def Let_def simp del: sort_json.simps split: option.splits json.splits if_splits)
qed

lemma last_hmac_chain:
  assumes "hmac_ok C" "chain_tail C io K anchor AUDIT_GENESIS ls = Some t"
  shows "last_hmac io (rev ls) = t"
proof (cases ls rule: rev_cases)
  case (snoc ls0 l)
  then obtain p where "entry_tag C io K (if ls0 = [] then anchor else None) p l = Some t"
    using assms(2) by (auto simp: chain_tail_snoc split: bind_splits)
  from entry_tag_length [OF assms(1) this] show ?thesis using snoc by auto
qed (use assms(2) in simp)

lemma sort_json_idem [simp]: "sort_json (sort_json j) = sort_json j"
proof (induction j)
  case (JObj kvs)
  let ?g = "\<lambda>kv. (fst kv, sort_json (snd kv))"
  let ?zs = "sort_key fst (map ?g kvs)"
  have "map ?g ?zs = ?zs"
  proof (rule map_idI)
    fix kv assume "kv \<in> set ?zs"
    then obtain kv0 where "kv0 \<in> set kvs" "kv = ?g kv0" by auto
    then show "?g kv = kv" using JObj.IH by (fastforce intro: snds.intros)
  qed
  moreover have "sort_key fst ?zs = ?zs" by (rule sort_key_id_if_sorted) simp
  ultimately show ?case by simp
qed auto

lemma audit_line_reads:
  assumes "float_ok io ts" "wf_json io (JObj details)" "audit_line C io K prev ts event details = (h, line)"
  shows "file_lines line = [line] \<and> h = mac_hex C K (prev @ dumps_sorted io (JObj (audit_body ts event details)))
    \<and> (\<exists>d. loads io line = Some (JObj d) \<and> dget d ''hmac'' = Some (JStr h)
        \<and> dumps_sorted io (JObj (dpop ''hmac'' d)) = dumps_sorted io (JObj (audit_body ts event details))
        \<and> dget (dpop ''hmac'' d) ''event'' = Some (JStr event) \<and> dget (dpop ''hmac'' d) ''details'' = Some (sort_json (JObj details)))"
proof -
  let ?full = "JObj (audit_body ts event details @ [(''hmac'', JStr h)])"
  let ?d = "[(''details'', sort_json (JObj details)), (''event'', JStr event), (''hmac'', JStr h), (''timestamp'', JFloat ts)]"
  have h: "h = mac_hex C K (prev @ dumps_sorted io (JObj (audit_body ts event details)))" and l: "line = dumps_sorted io ?full"
    using assms(3) by (auto simp: audit_line_def compute_hmac_def Let_def)
  have s: "sort_json ?full = JObj ?d"
    unfolding audit_body_def append.simps sort_json.simps(2) list.map fst_conv snd_conv
    by (simp add: insort_key_def)
  have w: "wf_json io ?full" using assms(1,2) by (simp add: audit_body_def)
  have "loads io line = Some (JObj ?d)" using loads_dumps_sorted [OF w] s l by simp
  moreover have "sort_json (JObj (audit_body ts event details)) = JObj (dpop ''hmac'' ?d)"
    unfolding audit_body_def append.simps sort_json.simps(2) list.map fst_conv snd_conv by simp
  then have "sort_json (JObj (dpop ''hmac'' ?d)) = sort_json (JObj (audit_body ts event details))"
    by (metis sort_json_idem)
  moreover have "file_lines line = [line]"
  proof (rule file_lines_object)
    show "graphic line" unfolding l using w by (intro graphic_dumps wf_json_sort)
    show "line = CHR ''{'' # join_with '','' (map (\<lambda>kv. show_string (fst kv) @ '':'' @ dumps_compact io (snd kv)) ?d) @ [CHR ''}'']"
      unfolding l s by simp
  qed
  ultimately show ?thesis using h by (auto simp del: sort_json.simps)
qed

section \<open>The log a node keeps verifies\<close>

text \<open>The recorded events, oldest first, without the rotation anchors.\<close>

definition events_of :: "float_io \<Rightarrow> string list \<Rightarrow> (json \<times> json) list" where
  "events_of io ls = List.map_filter (\<lambda>l. case loads io l of
     Some (JObj d) \<Rightarrow> (case dget d ''event'' of
       Some ev \<Rightarrow> if ev = JStr EVENT_LOG_ROTATED then None else Some (ev, dget_default JNull d ''details'')
     | None \<Rightarrow> None)
   | _ \<Rightarrow> None) ls"

definition events_in :: "float_io \<Rightarrow> audit_files \<Rightarrow> (json \<times> json) list" where
  "events_in io files = concat (map (\<lambda>s. events_of io (file_lines s)) (present_files files))"

type_synonym log_call = "log_env \<times> string \<times> (string, json) dict"

fun audit_run :: "crypto \<Rightarrow> float_io \<Rightarrow> bytes option \<Rightarrow> nat \<Rightarrow> log_call list \<Rightarrow> audit_files \<Rightarrow> audit_files" where
  "audit_run C io key max_bytes [] files = files"
| "audit_run C io key max_bytes ((E, event, details) # calls) files =
     audit_run C io key max_bytes calls (audit_log C io key max_bytes E event details files)"

definition written_events :: "log_call list \<Rightarrow> (json \<times> json) list" where
  "written_events calls = map (\<lambda>(E, event, details). (JStr event, sort_json (JObj details)))
     (filter (\<lambda>(E, event, details). le_writes E \<and> event \<noteq> EVENT_LOG_ROTATED) calls)"

definition call_ok :: "float_io \<Rightarrow> log_call \<Rightarrow> bool" where
  "call_ok io call = (case call of (E, event, details) \<Rightarrow>
     float_ok io (le_now E) \<and> float_ok io (le_anchor_now E) \<and> wf_json io (JObj details)
     \<and> (\<forall>i. le_renames E i) \<and> le_anchor_writes E)"

definition audit_inv :: "crypto \<Rightarrow> float_io \<Rightarrow> bytes \<Rightarrow> audit_files \<Rightarrow> bool" where
  "audit_inv C io K files =
    (files_tail C io K None (present_files files) \<noteq> None
     \<and> (case files 0 of None \<Rightarrow> \<forall>i. files i = None | Some s \<Rightarrow> file_lines s \<noteq> []))"

abbreviation archived :: "audit_files \<Rightarrow> string list" where
  "archived files \<equiv> List.map_filter files [5, 4, 3, 2, 1]"

lemma map_filter_Cons: "List.map_filter f (x # xs) = (case f x of None \<Rightarrow> [] | Some y \<Rightarrow> [y]) @ List.map_filter f xs"
  by (simp add: map_filter_simps split: option.split)

lemma map_filter_Nil: "List.map_filter f [] = []"
  by (simp add: map_filter_simps)

lemmas map_filter_eqs = map_filter_Cons map_filter_Nil

lemma present_files_split: "present_files files = archived files @ (case files 0 of None \<Rightarrow> [] | Some s \<Rightarrow> [s])"
  by (simp add: present_files_def map_filter_eqs split: option.split)

lemma shift_archives:
  assumes "\<forall>i. le_renames E i"
  shows "fold (shift_archive E) [4, 3, 2, 1] files =
    files(5 := (if files 4 = None then files 5 else files 4), 4 := files 3, 3 := files 2, 2 := files 1, 1 := None)"
  using assms by (auto simp: shift_archive_def fun_eq_iff)

lemma write_entry_reads:
  assumes "hmac_ok C" "float_ok io ts" "wf_json io (JObj details)"
    and "chain_tail C io K a AUDIT_GENESIS (case f of None \<Rightarrow> [] | Some s \<Rightarrow> file_lines s) = Some t"
    and "case f of None \<Rightarrow> (case a of None \<Rightarrow> True | Some tail \<Rightarrow> event = EVENT_LOG_ROTATED \<and> details = [(''previous_tail_hmac'', JStr tail)])
         | Some s \<Rightarrow> file_lines s \<noteq> []"
    and "write_entry C io K ts True event details (t, f) = (h, f')"
  obtains s' l where "f' = Some s'" "file_lines s' = (case f of None \<Rightarrow> [] | Some s \<Rightarrow> file_lines s) @ [l]"
    "chain_tail C io K a AUDIT_GENESIS (file_lines s') = Some h"
    "events_of io [l] = (if event = EVENT_LOG_ROTATED then [] else [(JStr event, sort_json (JObj details))])"
proof -
  let ?ls = "case f of None \<Rightarrow> [] | Some s \<Rightarrow> file_lines s"
  obtain l where l: "audit_line C io K t ts event details = (h, l)" "f' = Some (append_line f l)"
    using assms(6) by (auto simp: write_entry_def split: prod.splits)
  from audit_line_reads [OF assms(2,3) l(1)] obtain d where
    d: "file_lines l = [l]" "h = mac_hex C K (t @ dumps_sorted io (JObj (audit_body ts event details)))"
      "loads io l = Some (JObj d)" "dget d ''hmac'' = Some (JStr h)"
      "dumps_sorted io (JObj (dpop ''hmac'' d)) = dumps_sorted io (JObj (audit_body ts event details))"
      "dget (dpop ''hmac'' d) ''event'' = Some (JStr event)" "dget (dpop ''hmac'' d) ''details'' = Some (sort_json (JObj details))"
    by blast
  have ls: "file_lines (append_line f l) = ?ls @ [l]" by (rule file_lines_append [OF d(1)])
  let ?a = "if ?ls = [] then a else None"
  have "case ?a of None \<Rightarrow> True | Some tail \<Rightarrow> anchors tail (dpop ''hmac'' d)"
    using assms(5) d(6,7) by (auto simp: anchors_def split: option.splits)
  then have "entry_tag C io K ?a t l = Some h"
    using d(2-5) by (simp add: entry_tag_def Let_def del: sort_json.simps)
  then have "chain_tail C io K a AUDIT_GENESIS (?ls @ [l]) = Some h"
    using assms(4) by (simp add: chain_tail_snoc)
  moreover have "events_of io [l] = (if event = EVENT_LOG_ROTATED then [] else [(JStr event, sort_json (JObj details))])"
    using d(3,6,7) by (simp add: events_of_def map_filter_eqs del: sort_json.simps map_of_eq_Some_iff)
  ultimately show ?thesis using that [of "append_line f l" l] l(2) ls by simp
qed

lemma events_of_append: "events_of io (ls @ ms) = events_of io ls @ events_of io ms"
  by (simp add: events_of_def List.map_filter_def)

lemma append_step:
  assumes "hmac_ok C" "audit_inv C io K files" "call_ok io (E, event, details)"
    and "write_entry C io K (le_now E) (le_writes E) event details (read_last_hmac io (files 0), files 0) = (last_tag, f)"
  shows "audit_inv C io K (files(0 := f)) \<and> events_in io (files(0 := f)) = events_in io files @ written_events [(E, event, details)]
    \<and> (f = None \<or> files_tail C io K None (present_files (files(0 := f))) = Some (Some last_tag))"
proof -
  have arch: "archived (files(0 := f)) = archived files" by (simp add: List.map_filter_def)
  obtain a where a: "files_tail C io K None (archived files) = Some a"
    using assms(2) by (auto simp: audit_inv_def present_files_split files_tail_append split: bind_splits)
  let ?ls = "case files 0 of None \<Rightarrow> [] | Some s \<Rightarrow> file_lines s"
  have none: "a = None" if "files 0 = None"
  proof -
    have "\<forall>i. files i = None" using assms(2) that by (simp add: audit_inv_def)
    then have "archived files = []" by (simp add: List.map_filter_def)
    then show ?thesis using a by simp
  qed
  obtain t where t: "chain_tail C io K a AUDIT_GENESIS ?ls = Some t"
    using assms(2) a by (cases "files 0") (auto simp: audit_inv_def present_files_split files_tail_append split: bind_splits)
  have rl: "read_last_hmac io (files 0) = t"
    using last_hmac_chain [OF assms(1) t] t by (cases "files 0") (auto simp: read_last_hmac_def)
  show ?thesis
  proof (cases "le_writes E")
    case False
    then have "f = files 0" "last_tag = t" using assms(4) rl by (auto simp: write_entry_def split: prod.splits)
    moreover have "files_tail C io K None (present_files files) = Some (Some t)" if "files 0 \<noteq> None"
      using that a t by (auto simp: present_files_split files_tail_append)
    ultimately show ?thesis using assms(2) False by (cases "files 0") (simp_all add: written_events_def fun_upd_idem)
  next
    case True
    have w: "write_entry C io K (le_now E) True event details (t, files 0) = (last_tag, f)" using assms(4) True rl by simp
    have "float_ok io (le_now E)" "wf_json io (JObj details)" using assms(3) by (simp_all add: call_ok_def)
    moreover have "case files 0 of None \<Rightarrow> (case a of None \<Rightarrow> True | Some tail \<Rightarrow> event = EVENT_LOG_ROTATED \<and> details = [(''previous_tail_hmac'', JStr tail)])
         | Some s \<Rightarrow> file_lines s \<noteq> []"
      using none assms(2) by (auto simp: audit_inv_def split: option.splits)
    ultimately obtain s' l where s': "f = Some s'" "file_lines s' = ?ls @ [l]" "chain_tail C io K a AUDIT_GENESIS (file_lines s') = Some last_tag"
      "events_of io [l] = (if event = EVENT_LOG_ROTATED then [] else [(JStr event, sort_json (JObj details))])"
      using write_entry_reads [OF assms(1) _ _ t _ w] by metis
    have tail: "files_tail C io K None (present_files (files(0 := f))) = Some (Some last_tag)"
      unfolding present_files_split arch using a s' by (simp add: files_tail_append)
    moreover have "events_in io (files(0 := f)) = events_in io files @ written_events [(E, event, details)]"
      unfolding events_in_def present_files_split arch using s'(1,2,4) True
      by (auto simp: events_of_append written_events_def events_of_def [of io "[]"] map_filter_eqs split: option.split)
    ultimately show ?thesis using s'(1,2) by (simp add: audit_inv_def)
  qed
qed

lemma rotate_step:
  assumes "hmac_ok C" "audit_inv C io K files" "call_ok io (E, event, details)"
    and "files 0 = None \<or> files_tail C io K None (present_files files) = Some (Some last_tag)"
  shows "audit_inv C io K (maybe_rotate C io K max_bytes E last_tag files)
    \<and> suffix (events_in io (maybe_rotate C io K max_bytes E last_tag files)) (events_in io files)
    \<and> (maybe_rotate C io K max_bytes E last_tag files 5 = None \<longrightarrow>
         files 5 = None \<and> events_in io (maybe_rotate C io K max_bytes E last_tag files) = events_in io files)"
proof (cases "\<exists>s. files 0 = Some s \<and> \<not> length (utf8 s) < max_bytes")
  case False
  then have "maybe_rotate C io K max_bytes E last_tag files = files" by (auto simp: maybe_rotate_def split: option.splits)
  then show ?thesis using assms(2) by simp
next
  case True
  then obtain s where s: "files 0 = Some s" "\<not> length (utf8 s) < max_bytes" by blast
  have ren: "\<forall>i. le_renames E i" "le_anchor_writes E" "float_ok io (le_anchor_now E)" using assms(3) by (simp_all add: call_ok_def)
  obtain h f where w: "write_entry C io K (le_anchor_now E) True EVENT_LOG_ROTATED [(''previous_tail_hmac'', JStr last_tag)] (AUDIT_GENESIS, None) = (h, f)"
    by (metis surj_pair)
  from write_entry_reads [OF assms(1) ren(3) _ _ _ w, of "Some last_tag"] obtain s' l where
    s': "f = Some s'" "file_lines s' = [l]" "chain_tail C io K (Some last_tag) AUDIT_GENESIS (file_lines s') = Some h" "events_of io [l] = []"
    by auto
  let ?R = "maybe_rotate C io K max_bytes E last_tag files"
  define A where "A = (if files 4 = None then archived files else List.map_filter files [4, 3, 2, 1])"
  have R: "?R = (files(5 := (if files 4 = None then files 5 else files 4), 4 := files 3, 3 := files 2, 2 := files 1, 1 := Some s, 0 := Some s'))"
    unfolding maybe_rotate_def s option.case shift_archives [OF ren(1)] using s ren w s'(1) by (simp add: Let_def fun_eq_iff)
  then have p: "present_files ?R = A @ [s, s']"
    unfolding present_files_def A_def map_filter_eqs by simp
  have old: "present_files files = (if files 4 = None then [] else List.map_filter files [5]) @ A @ [s]" (is "_ = ?x @ _")
    unfolding present_files_def A_def map_filter_eqs using s(1) by simp
  have x: "?x = [] \<or> (\<exists>s5. ?x = [s5])" unfolding map_filter_eqs by (auto split: option.split)
  have "files_tail C io K None (?x @ A @ [s]) = Some (Some last_tag)" using assms(4) s(1) old by simp
  then have "files_tail C io K None (A @ [s]) = Some (Some last_tag)"
  proof (cases "?x = []")
    case False
    with x obtain s5 where "?x = [s5]" by blast
    moreover obtain a fs where "A @ [s] = a # fs" by (cases "A @ [s]") auto
    ultimately have "files_tail C io K None (s5 # a # fs) = Some (Some last_tag)" and A: "A @ [s] = a # fs"
      using \<open>files_tail C io K None (?x @ A @ [s]) = Some (Some last_tag)\<close> by simp_all
    then obtain x where "files_tail C io K (Some x) (a # fs) = Some (Some last_tag)"
      unfolding files_tail.simps(2) [of C io K None s5] bind_eq_Some_conv by blast
    from files_tail_no_anchor [OF this] show ?thesis unfolding A .
  qed simp
  then have t: "files_tail C io K None (present_files ?R) = Some (Some h)"
    using s'(3) files_tail_append [of C io K None "A @ [s]" "[s']"] by (simp add: p)
  moreover have e: "events_in io ?R = concat (map (\<lambda>s. events_of io (file_lines s)) (A @ [s]))"
    using s'(2,4) by (simp add: events_in_def p)
  moreover have "events_in io files = concat (map (\<lambda>s. events_of io (file_lines s)) ?x) @ events_in io ?R"
    unfolding e by (simp add: events_in_def old)
  moreover have "?R 5 = None \<Longrightarrow> files 5 = None \<and> ?x = []" unfolding R by (simp split: if_splits)
  moreover have "?R 0 = Some s'" unfolding R by simp
  ultimately show ?thesis using s'(2) by (auto simp: audit_inv_def suffix_def)
qed

lemma audit_run_inv:
  assumes "hmac_ok C" "audit_inv C io K files" "\<forall>call \<in> set calls. call_ok io call"
  shows "audit_inv C io K (audit_run C io (Some K) max_bytes calls files)
    \<and> suffix (events_in io (audit_run C io (Some K) max_bytes calls files)) (events_in io files @ written_events calls)
    \<and> (audit_run C io (Some K) max_bytes calls files 5 = None \<longrightarrow>
        files 5 = None \<and> events_in io (audit_run C io (Some K) max_bytes calls files) = events_in io files @ written_events calls)"
  using assms(2,3)
proof (induction calls arbitrary: files)
  case Nil
  then show ?case by (simp add: written_events_def)
next
  case (Cons call calls)
  obtain E event details where call: "call = (E, event, details)" by (cases call)
  obtain last_tag f where w: "write_entry C io K (le_now E) (le_writes E) event details (read_last_hmac io (files 0), files 0) = (last_tag, f)"
    by (metis surj_pair)
  have c: "call_ok io (E, event, details)" using Cons.prems(2) call by simp
  define f1 where "f1 = files(0 := f)"
  define f2 where "f2 = maybe_rotate C io K (max 1024 max_bytes) E last_tag f1"
  note a = append_step [OF assms(1) Cons.prems(1) c w, folded f1_def]
  have "f1 5 = files 5" by (simp add: f1_def)
  have "f1 0 = None \<or> files_tail C io K None (present_files f1) = Some (Some last_tag)" using a by (auto simp: f1_def)
  note r = rotate_step [OF assms(1) conjunct1 [OF a] c this, of "max 1024 max_bytes", folded f2_def]
  have l: "audit_log C io (Some K) max_bytes E event details files = f2" using w by (simp add: audit_log_def f1_def f2_def)
  note ih = Cons.IH [OF conjunct1 [OF r]]
  define w1 where "w1 = written_events [(E, event, details)]"
  have we: "written_events (call # calls) = w1 @ written_events calls" by (simp add: w1_def written_events_def call)
  have e1: "events_in io f1 = events_in io files @ w1" using a by (simp add: w1_def)
  have run: "audit_run C io (Some K) max_bytes (call # calls) files = audit_run C io (Some K) max_bytes calls f2"
    using l call by simp
  obtain zs where "events_in io f1 = zs @ events_in io f2" using r by (auto simp: suffix_def)
  then have "events_in io files @ written_events (call # calls) = zs @ events_in io f2 @ written_events calls"
    using e1 we by simp
  then have "suffix (events_in io f2 @ written_events calls) (events_in io files @ written_events (call # calls))"
    by (auto simp: suffix_def)
  moreover have "\<forall>call \<in> set calls. call_ok io call" using Cons.prems(2) by simp
  ultimately show ?case
    unfolding run using ih r e1 we \<open>f1 5 = files 5\<close> by (auto intro: suffix_order.trans)
qed



section \<open>Tampering\<close>

text \<open>What the verifier authenticates: the text of an entry without its tag, and the message that is
  authenticated, which starts with the tag before it.\<close>

definition entry_text :: "float_io \<Rightarrow> string \<Rightarrow> string" where
  "entry_text io l = (case loads io l of Some (JObj d) \<Rightarrow> dumps_sorted io (JObj (dpop ''hmac'' d)) | _ \<Rightarrow> [])"

fun chain_messages :: "crypto \<Rightarrow> float_io \<Rightarrow> bytes \<Rightarrow> string \<Rightarrow> string list \<Rightarrow> string list" where
  "chain_messages C io K prev [] = []"
| "chain_messages C io K prev (l # ls) =
     (prev @ entry_text io l) # chain_messages C io K (mac_hex C K (prev @ entry_text io l)) ls"

abbreviation log_messages :: "crypto \<Rightarrow> float_io \<Rightarrow> bytes \<Rightarrow> string \<Rightarrow> string list" where
  "log_messages C io K s \<equiv> chain_messages C io K AUDIT_GENESIS (file_lines s)"

lemma append_left_eq: "xs @ us = ys @ vs \<Longrightarrow> length xs = length ys \<Longrightarrow> xs = ys"
  by simp

lemma length_chain_messages [simp]: "length (chain_messages C io K prev ls) = length ls"
  by (induction ls arbitrary: prev) auto

lemma chain_messages_nth:
  "i < length ls \<Longrightarrow> chain_messages C io K prev ls ! i =
     (if i = 0 then prev else mac_hex C K (chain_messages C io K prev ls ! (i - 1))) @ entry_text io (ls ! i)"
proof (induction ls arbitrary: prev i)
  case (Cons l ls)
  then show ?case by (cases i; cases "i - 1") auto
qed simp

text \<open>C16: tampering is evident. Take a log and a file in its place that verifies, such that the tags of
  the log do not collide and no tag of the file was forged: every message it authenticates is one
  the node authenticated in the log. Then the file holds the log's entries from the first one on,
  unchanged and in order; nothing but its end can be missing.\<close>

theorem audit_tamper_evident:
  assumes "hmac_ok C" "distinct (AUDIT_GENESIS # map (mac_hex C K) (log_messages C io K s))"
    and "fst (audit_verify C io (Some K) (Some s'))"
    and "set (log_messages C io K s') \<subseteq> set (log_messages C io K s)"
  shows "\<exists>k. map (entry_text io) (file_lines s') = take k (map (entry_text io) (file_lines s))
    \<and> k = fst (snd (audit_verify C io (Some K) (Some s')))"
proof -
  let ?M = "log_messages C io K s" and ?M' = "log_messages C io K s'"
  let ?ls = "file_lines s" and ?ls' = "file_lines s'"
  let ?before = "\<lambda>M i. if i = 0 then AUDIT_GENESIS else mac_hex C K (M ! (i - 1))"
  have len: "length (?before M i) = 64" for M i
    using assms(1) by (simp add: mac_hex_def hmac_ok_def AUDIT_GENESIS_def)
  have same: "i < length ?ls \<and> ?M' ! i = ?M ! i" if "i < length ?ls'" for i
    using that
  proof (induction i rule: less_induct)
    case (less i)
    then have "?M' ! i \<in> set ?M" using assms(4) nth_mem [of i ?M'] by auto
    then obtain j where j: "j < length ?ls" "?M ! j = ?M' ! i" by (auto simp: in_set_conv_nth)
    from trans [OF chain_messages_nth [OF j(1), symmetric] trans [OF j(2) chain_messages_nth [OF less.prems]]]
    have "?before ?M j @ entry_text io (?ls ! j) = ?before ?M' i @ entry_text io (?ls' ! i)" .
    moreover have "length (?before ?M j) = length (?before ?M' i)" by (simp only: len)
    ultimately have "?before ?M j = ?before ?M' i" by (rule append_left_eq)
    moreover have "?before ?M' i = ?before ?M i" "i = 0 \<or> i - 1 < length ?ls"
      using less.IH [of "i - 1"] less.prems by (cases i; simp)+
    moreover have "AUDIT_GENESIS \<noteq> mac_hex C K (?M ! k)" if "k < length ?ls" for k
      using assms(2) nth_mem [of k ?M] that by auto
    moreover have "mac_hex C K (?M ! k) = mac_hex C K (?M ! l) \<longleftrightarrow> k = l" if "k < length ?ls" "l < length ?ls" for k l
      using assms(2) that nth_eq_iff_index_eq [of "map (mac_hex C K) ?M" k l] by simp
    ultimately have "i = j" using j(1) by (auto split: if_splits) (metis Suc_pred less_imp_diff_less)+
    then show ?case using j by simp
  qed
  have le: "length ?ls' \<le> length ?ls" using same [of "length ?ls"] by (meson less_irrefl not_le)
  have "entry_text io (?ls' ! i) = entry_text io (?ls ! i)" if "i < length ?ls'" for i
  proof -
    have b: "?before ?M' i = ?before ?M i" using same [of "i - 1"] that by auto
    from same [OF that] have "i < length ?ls" "?M' ! i = ?M ! i" by auto
    from trans [OF chain_messages_nth [OF that, symmetric] trans [OF this(2) chain_messages_nth [OF this(1)]]]
    have "?before ?M' i @ entry_text io (?ls' ! i) = ?before ?M i @ entry_text io (?ls ! i)" .
    then show ?thesis unfolding b by (simp only: same_append_eq)
  qed
  then have "map (entry_text io) ?ls' = take (length ?ls') (map (entry_text io) ?ls)"
    using le by (intro nth_equalityI) auto
  moreover have "fst (snd (audit_verify C io (Some K) (Some s'))) = length ?ls'"
    using assms(3) by (rule_tac verify_linesE [of C io K None AUDIT_GENESIS 0 ?ls']) (auto simp: audit_verify_def)
  ultimately show ?thesis by simp
qed

text \<open>The end of a log can be cut off without a trace: every part of a file up to a line end verifies
  if the file does.\<close>

lemma tail_deletion_undetected:
  assumes "fst (audit_verify C io (Some K) (Some (s @ newline # rest)))"
  shows "fst (audit_verify C io (Some K) (Some s))"
proof -
  have "chain_tail C io K a p ls \<noteq> None" if "chain_tail C io K a p (ls @ ms) \<noteq> None" for a p ls ms
    using that by (induction ls arbitrary: a p) (auto split: bind_splits)
  then show ?thesis using assms unfolding verify_chain_tail file_lines_newline by blast
qed

lemma sample_audit_tags:
  "mac_hex sample_crypto [] (AUDIT_GENESIS @ x) = hex_of (replicate 32 48)"
  "mac_hex sample_crypto [] (hex_of (replicate 32 48) @ x) = hex_of (concat (replicate 16 [51, 48]))"
proof -
  have "take 32 (utf8 (s @ x) @ replicate 32 0) = take 32 (utf8 s)" if "32 \<le> length (utf8 s)" for s
    using that by (simp add: utf8_def)
  moreover have "utf8 AUDIT_GENESIS = replicate 64 48" by code_simp
  moreover have "take 32 (utf8 (hex_of (replicate 32 48))) = concat (replicate 16 [51, 48])" "length (utf8 (hex_of (replicate 32 48))) = 64"
    by code_simp+
  ultimately show "mac_hex sample_crypto [] (AUDIT_GENESIS @ x) = hex_of (replicate 32 48)"
    "mac_hex sample_crypto [] (hex_of (replicate 32 48) @ x) = hex_of (concat (replicate 16 [51, 48]))"
    by (simp_all add: mac_hex_def sample_crypto_def pad_def)
qed

text \<open>A log of two entries, and what is left when the second one is cut off.\<close>

theorem audit_tamper_evident_witness:
  "\<exists>l1 l2. let s1 = append_line None l1; s2 = append_line (Some s1) l2 in
     fst (audit_verify sample_crypto sample_io (Some []) (Some s2))
     \<and> fst (audit_verify sample_crypto sample_io (Some []) (Some s1))
     \<and> (\<exists>k. map (entry_text sample_io) (file_lines s1) = take k (map (entry_text sample_io) (file_lines s2)) \<and> k = 1)"
proof -
  let ?C = sample_crypto and ?io = sample_io
  let ?t1 = "hex_of (replicate 32 48)" and ?t2 = "hex_of (concat (replicate 16 [51, 48]))"
  have h: "hmac_ok ?C" by (simp add: hmac_ok_def sample_crypto_def)
  have w: "float_ok ?io 0" "wf_json ?io (JObj [])" by simp_all
  obtain h1 l1 where a1: "audit_line ?C ?io [] AUDIT_GENESIS 0 ''STARTUP'' [] = (h1, l1)" by (metis surj_pair)
  from audit_line_reads [OF w a1] obtain d1 where
    d1: "file_lines l1 = [l1]" "h1 = ?t1" "loads ?io l1 = Some (JObj d1)" "dget d1 ''hmac'' = Some (JStr h1)"
    unfolding sample_audit_tags by blast
  obtain h2 l2 where a2: "audit_line ?C ?io [] ?t1 0 ''SHUTDOWN'' [] = (h2, l2)" by (metis surj_pair)
  from audit_line_reads [OF w a2] obtain d2 where
    d2: "file_lines l2 = [l2]" "h2 = ?t2" "loads ?io l2 = Some (JObj d2)" "dget d2 ''hmac'' = Some (JStr h2)"
    unfolding sample_audit_tags by blast
  define s1 where "s1 = append_line None l1"
  define s2 where "s2 = append_line (Some s1) l2"
  have f: "file_lines s1 = [l1]" "file_lines s2 = [l1, l2]"
    using file_lines_append [OF d1(1)] file_lines_append [OF d2(1)] by (simp_all add: s1_def s2_def)
  have tags: "entry_tag ?C ?io [] None AUDIT_GENESIS l1 = Some ?t1" "entry_tag ?C ?io [] None ?t1 l2 = Some ?t2"
    using d1 d2 by (simp_all add: entry_tag_def Let_def sample_audit_tags del: sort_json.simps)
  have v: "fst (audit_verify ?C ?io (Some []) (Some s2))" "fst (audit_verify ?C ?io (Some []) (Some s1))"
    unfolding verify_chain_tail f by (simp_all add: tags)
  have "AUDIT_GENESIS \<noteq> ?t1 \<and> AUDIT_GENESIS \<noteq> ?t2 \<and> ?t1 \<noteq> ?t2" by code_simp
  then have "distinct (AUDIT_GENESIS # map (mac_hex ?C []) (log_messages ?C ?io [] s2))"
    by (simp add: f sample_audit_tags)
  moreover have "set (log_messages ?C ?io [] s1) \<subseteq> set (log_messages ?C ?io [] s2)" by (simp add: f)
  ultimately have "\<exists>k. map (entry_text ?io) (file_lines s1) = take k (map (entry_text ?io) (file_lines s2))
     \<and> k = fst (snd (audit_verify ?C ?io (Some []) (Some s1)))"
    by (rule audit_tamper_evident [OF h _ v(2)])
  moreover have "fst (snd (audit_verify ?C ?io (Some []) (Some s1))) = 1"
    using d1 by (simp add: audit_verify_def f sample_audit_tags Let_def del: sort_json.simps)
  ultimately show ?thesis using v unfolding s1_def s2_def Let_def by auto
qed

section \<open>Signed exports\<close>

fun export_entries :: "float_io \<Rightarrow> json \<Rightarrow> string list \<Rightarrow> (json list \<times> json) py" where
  "export_entries io final [] = Inr ([], final)"
| "export_entries io final (l # ls) = (case loads io l of
     None \<Rightarrow> Inl (ValueError ''JSONDecodeError'')
   | Some (JObj d) \<Rightarrow> py_bind (export_entries io (dget_default final d ''hmac'') ls) (\<lambda>(es, f). Inr (JObj d # es, f))
   | Some _ \<Rightarrow> Inl (TypeError ''entry is not an object''))"

definition export_bundle :: "json list \<Rightarrow> json \<Rightarrow> time \<Rightarrow> string \<Rightarrow> (string, json) dict" where
  "export_bundle es final now fp = [(''entries'', JArr es), (''final_hmac'', final), (''entry_count'', JInt (int (length es))),
     (''exported_at'', JFloat now), (''signer'', JStr fp)]"

definition export_signed :: "crypto \<Rightarrow> float_io \<Rightarrow> bytes \<Rightarrow> string \<Rightarrow> time \<Rightarrow> string option \<Rightarrow> json py" where
  "export_signed C io signing_key fp now f =
     py_bind (export_entries io (JStr (replicate 64 (CHR ''0''))) (case f of None \<Rightarrow> [] | Some s \<Rightarrow> file_lines s)) (\<lambda>(es, final).
       let body = export_bundle es final now fp;
           signature = ed_sign C signing_key (utf8 (dumps_sorted io (JObj body))) in
       Inr (JObj (body @ [(''signature'', JStr (b64encode signature))])))"

datatype export_verdict = ExportInvalid string | ExportValid json json

definition verify_signed_export :: "crypto \<Rightarrow> float_io \<Rightarrow> json \<Rightarrow> export_verdict py" where
  "verify_signed_export C io file_json = (case file_json of
     JObj d \<Rightarrow>
       (let signature = dget_default JNull d ''signature''; bundle = dpop ''signature'' d;
            canonical = utf8 (dumps_sorted io (JObj bundle));
            signer_fp = dget_default (JStr []) bundle ''signer''; pubkey = dget_default JNull bundle ''signer_pubkey'';
            verdict = ExportValid signer_fp (dget_default (JInt 0) bundle ''entry_count'') in
        if \<not> truthy signature then Inr (ExportInvalid ''Missing signature'')
        else if \<not> truthy pubkey then Inr verdict
        else (case (py_str pubkey, py_str signature) of
          (Some pk, Some sg) \<Rightarrow>
            (case (b64decode pk, b64decode sg) of
               (Some vk, Some sig) \<Rightarrow>
                 if length vk \<noteq> 32 then Inl (ValueError ''The key must be exactly 32 bytes long'')
                 else (case nacl_verify C vk canonical sig of
                   Inl BadSignatureError \<Rightarrow> Inr (ExportInvalid ''Signature verification failed'')
                 | Inl e \<Rightarrow> Inl e
                 | Inr b \<Rightarrow> if JStr (take 32 (hex_of (sha256 C vk))) \<noteq> signer_fp then Inr (ExportInvalid ''Fingerprint mismatch'')
                     else Inr verdict)
             | _ \<Rightarrow> Inl (ValueError ''base64''))
        | _ \<Rightarrow> Inl (TypeError ''base64 input''))
       )
   | _ \<Rightarrow> Inl (TypeError ''export is not an object''))"

text \<open>An export never carries the signer's key, so its verification checks nothing: the entries, the
  signer and the signature itself can all be replaced.\<close>

lemma export_verification_vacuous:
  assumes "export_signed C io sk fp now f = Inr (JObj d)" "signature \<noteq> []"
  shows "dget d ''signer_pubkey'' = None
    \<and> verify_signed_export C io (JObj (dset ''signature'' (JStr signature) (dset ''signer'' (JStr signer) (dset ''entries'' (JArr es) d))))
      = Inr (ExportValid (JStr signer) (the (dget d ''entry_count'')))"
proof -
  obtain es0 final sg where "d = export_bundle es0 final now fp @ [(''signature'', sg)]"
    using assms(1) by (auto simp: export_signed_def Let_def py_bind_Inr_iff)
  then show ?thesis using assms(2) by (simp add: verify_signed_export_def export_bundle_def Let_def)
qed

end
