(* ===== verification/Keys.thy ===== *)
theory Keys
  imports Sample
begin

text \<open>
  keys.py: the identity keys of a node, the key file in its legacy and its master-seed form, and the migration from the
  one to the other.

  \<^item> Argon2id and the multiplication by the base point of Curve25519 are library code: the record \<open>key_lib\<close>.
  \<^item> A key file is the JSON object in it; printing it and reading it back is the \<open>json\<close> module's business
    (\<open>Json_Codec\<close>). Random bytes, and whether a write or a copy succeeds, are arguments.
\<close>

record key_lib =
  kl_argon2id :: "bytes \<Rightarrow> bytes \<Rightarrow> bytes"
  kl_base_mult :: "bytes \<Rightarrow> bytes"

definition KEYS_FORMAT_MASTER_SEED_V1 :: string where
  "KEYS_FORMAT_MASTER_SEED_V1 = ''master-seed-v1''"

definition HKDF_INFO_X25519 :: bytes where
  "HKDF_INFO_X25519 = utf8 ''ironmesh-identity-x25519-v1'' @ [0]"

section \<open>Derivation\<close>

definition x25519_public_from_seed :: "key_lib \<Rightarrow> bytes \<Rightarrow> bytes py" where
  "x25519_public_from_seed L seed = (if length seed \<noteq> 32 then Inl (ValueError ''x25519_seed must be 32 bytes'') else Inr (kl_base_mult L seed))"

definition compute_x25519_binding :: "crypto \<Rightarrow> bytes \<Rightarrow> bytes \<Rightarrow> bytes py" where
  "compute_x25519_binding C ed_secret x25519_public = sign_detached_with_context C ed_secret SIG_CTX_X25519_BINDING x25519_public"

text \<open>RFC 5869; a digest is 32 bytes, so that the loop runs for that many blocks.\<close>

fun hkdf_blocks :: "crypto \<Rightarrow> bytes \<Rightarrow> bytes \<Rightarrow> bytes \<Rightarrow> nat \<Rightarrow> nat \<Rightarrow> bytes" where
  "hkdf_blocks C prk info t counter 0 = []"
| "hkdf_blocks C prk info t counter (Suc n) =
     (let t1 = hmac_sha256 C prk (t @ info @ [word_of_nat counter]) in t1 @ hkdf_blocks C prk info t1 (counter + 1) n)"

definition hkdf_sha256 :: "crypto \<Rightarrow> bytes \<Rightarrow> bytes \<Rightarrow> bytes \<Rightarrow> int \<Rightarrow> bytes py" where
  "hkdf_sha256 C secret salt info n =
    (if n \<le> 0 \<or> n > 32 * 255 then Inl (ValueError ''HKDF length out of range'')
     else Inr (take (nat n) (hkdf_blocks C (hmac_sha256 C salt secret) info [] 1 ((nat n + 31) div 32))))"

definition x25519_seed_of :: "crypto \<Rightarrow> bytes \<Rightarrow> bytes \<Rightarrow> bytes py" where
  "x25519_seed_of C ed_secret salt = hkdf_sha256 C ed_secret salt HKDF_INFO_X25519 32"

section \<open>Keys\<close>

record agent_keys =
  ak_secret :: bytes
  ak_public :: bytes
  ak_name :: json
  ak_x25519_seed :: "bytes option"
  ak_hkdf_salt :: "bytes option"
  ak_x25519_public :: "bytes option"
  ak_binding :: "bytes option"

definition get_fingerprint :: "crypto \<Rightarrow> agent_keys \<Rightarrow> string" where
  "get_fingerprint C k = take 32 (hex_of (sha256 C (ak_public k)))"

definition is_master_seed_format :: "agent_keys \<Rightarrow> bool" where
  "is_master_seed_format k = (ak_x25519_seed k \<noteq> None \<and> ak_hkdf_salt k \<noteq> None)"

definition get_x25519_secret :: "crypto \<Rightarrow> agent_keys \<Rightarrow> bytes" where
  "get_x25519_secret C k = (case ak_x25519_seed k of Some s \<Rightarrow> s | None \<Rightarrow> ed_to_curve_secret C (ak_secret k))"

definition get_x25519_public :: "crypto \<Rightarrow> agent_keys \<Rightarrow> bytes" where
  "get_x25519_public C k = (case ak_x25519_public k of Some p \<Rightarrow> p | None \<Rightarrow> ed_to_curve_public C (ak_public k))"

text \<open>The master-seed form of an Ed25519 key, with a fresh salt.\<close>

definition master_seed_keys :: "crypto \<Rightarrow> key_lib \<Rightarrow> bytes \<Rightarrow> bytes \<Rightarrow> bytes \<Rightarrow> json \<Rightarrow> agent_keys py" where
  "master_seed_keys C L salt ed_secret ed_pub name = py_bind (x25519_seed_of C ed_secret salt) (\<lambda>seed.
     py_bind (x25519_public_from_seed L seed) (\<lambda>pub.
       py_bind (compute_x25519_binding C ed_secret pub) (\<lambda>sig.
         Inr \<lparr> ak_secret = ed_secret, ak_public = ed_pub, ak_name = name, ak_x25519_seed = Some seed, ak_hkdf_salt = Some salt,
               ak_x25519_public = Some pub, ak_binding = Some sig \<rparr>)))"

definition generate_keypair :: "crypto \<Rightarrow> key_lib \<Rightarrow> bytes \<Rightarrow> bytes \<Rightarrow> string \<Rightarrow> bool \<Rightarrow> agent_keys py" where
  "generate_keypair C L random_seed random_salt name master =
    (if master then master_seed_keys C L random_salt random_seed (ed_public C random_seed) (JStr name)
     else Inr \<lparr> ak_secret = random_seed, ak_public = ed_public C random_seed, ak_name = JStr name, ak_x25519_seed = None,
            ak_hkdf_salt = None, ak_x25519_public = None, ak_binding = None \<rparr>)"

section \<open>The key file\<close>

type_synonym key_file = "(string, json) dict"

record save_env =
  sv_salt :: bytes
  sv_nonce :: bytes
  sv_nonce2 :: bytes

definition argon_key :: "key_lib \<Rightarrow> string \<Rightarrow> bytes \<Rightarrow> bytes py" where
  "argon_key L passphrase salt =
    (if length salt \<noteq> 16 then Inl (ValueError ''salt must be exactly 16 bytes long'') else Inr (kl_argon2id L (utf8 passphrase) salt))"

definition b64_json :: "bytes \<Rightarrow> json" where
  "b64_json bs = JStr (b64encode bs)"

definition put_opt :: "string \<Rightarrow> bytes option \<Rightarrow> key_file \<Rightarrow> key_file" where
  "put_opt k v d = (case v of None \<Rightarrow> d | Some bs \<Rightarrow> dset k (b64_json bs) d)"

definition key_file_header :: "agent_keys \<Rightarrow> key_file" where
  "key_file_header k =
    (let d = [(''version'', JInt (if is_master_seed_format k then 3 else 2)), (''agent_name'', ak_name k), (''ed25519_public'', b64_json (ak_public k))] in
     if is_master_seed_format k
     then put_opt ''x25519_binding_signature'' (ak_binding k) (put_opt ''x25519_public'' (ak_x25519_public k)
            (put_opt ''hkdf_salt'' (ak_hkdf_salt k) (dset ''format'' (JStr KEYS_FORMAT_MASTER_SEED_V1) d)))
     else d)"

definition seed_or_empty :: "agent_keys \<Rightarrow> bytes" where
  "seed_or_empty k = (case ak_x25519_seed k of Some s \<Rightarrow> s | None \<Rightarrow> [])"

text \<open>The object \<open>save_keys\<close> writes in place of the old file.\<close>

definition save_keys :: "crypto \<Rightarrow> key_lib \<Rightarrow> save_env \<Rightarrow> agent_keys \<Rightarrow> string option \<Rightarrow> bool \<Rightarrow> key_file py" where
  "save_keys C L E k passphrase allow_plaintext =
    (case (if passphrase = Some [] then None else passphrase) of
       None \<Rightarrow>
         if \<not> allow_plaintext then Inl (ValueError ''Passphrase is required to encrypt identity keys at rest'')
         else (let d = dset ''encrypted'' (JBool False) (dset ''ed25519_secret'' (b64_json (ak_secret k)) (key_file_header k)) in
           Inr (if is_master_seed_format k then dset ''x25519_seed'' (b64_json (seed_or_empty k)) d else d))
     | Some pw \<Rightarrow> py_bind (argon_key L pw (sv_salt E)) (\<lambda>key.
         let d = dset ''encrypted'' (JBool True) (dset ''salt'' (b64_json (sv_salt E))
                   (dset ''ed25519_secret_encrypted'' (b64_json (box_encrypt C key (sv_nonce E) (ak_secret k))) (key_file_header k))) in
         Inr (if is_master_seed_format k
              then dset ''x25519_seed_encrypted'' (b64_json (box_encrypt C key (sv_nonce2 E) (seed_or_empty k))) d else d)))"

section \<open>Loading\<close>

definition b64_entry :: "string \<Rightarrow> key_file \<Rightarrow> bytes py" where
  "b64_entry k d = (case dget d k of
     None \<Rightarrow> Inl (KeyError k)
   | Some (JStr s) \<Rightarrow> (case b64decode s of None \<Rightarrow> Inl (ValueError ''base64'') | Some bs \<Rightarrow> Inr bs)
   | Some _ \<Rightarrow> Inl (TypeError k))"

definition is_master_seed_file :: "key_file \<Rightarrow> bool" where
  "is_master_seed_file d = (dget d ''format'' = Some (JStr KEYS_FORMAT_MASTER_SEED_V1))"

definition public_entry :: "key_file \<Rightarrow> bytes py" where
  "public_entry d = (case dget d ''ed25519_public'' of
     None \<Rightarrow> Inl (KeyError ''ed25519_public'')
   | Some (JStr s) \<Rightarrow>
       if length s > 100 then Inl (ValueError ''Invalid Ed25519 public key base64'')
       else (case b64decode s of
         None \<Rightarrow> Inl (ValueError ''base64'')
       | Some pub \<Rightarrow> if length pub \<noteq> 32 then Inl (ValueError ''Invalid Ed25519 public key length'') else Inr pub)
   | Some (JArr xs) \<Rightarrow> Inl (ValueError ''Invalid Ed25519 public key base64'')
   | Some (JObj kvs) \<Rightarrow> Inl (ValueError ''Invalid Ed25519 public key base64'')
   | Some _ \<Rightarrow> Inl (TypeError ''len''))"

definition opened_entry :: "crypto \<Rightarrow> bytes \<Rightarrow> string \<Rightarrow> key_file \<Rightarrow> bytes py" where
  "opened_entry C key k d = py_bind (b64_entry k d) (\<lambda>c.
     case box_decrypt C key c of None \<Rightarrow> Inl (ValueError ''Wrong passphrase or corrupted key file'') | Some m \<Rightarrow> Inr m)"

text \<open>The secret and, in a master-seed file that has it, the seed.\<close>

definition secret_entries :: "crypto \<Rightarrow> key_lib \<Rightarrow> string option \<Rightarrow> key_file \<Rightarrow> (bytes \<times> bytes option) py" where
  "secret_entries C L passphrase d =
    (let opt = (\<lambda>k r. if is_master_seed_file d \<and> dget d k \<noteq> None then py_bind r (\<lambda>s. Inr (Some s)) else Inr None) in
     if truthy (dget_default (JBool False) d ''encrypted'') then
       (case (if passphrase = Some [] then None else passphrase) of
          None \<Rightarrow> Inl (ValueError ''Key file is encrypted but no passphrase provided'')
        | Some pw \<Rightarrow> py_bind (b64_entry ''salt'' d) (\<lambda>salt. py_bind (argon_key L pw salt) (\<lambda>key.
            py_bind (opened_entry C key ''ed25519_secret_encrypted'' d) (\<lambda>sec.
              py_bind (opt ''x25519_seed_encrypted'' (opened_entry C key ''x25519_seed_encrypted'' d)) (\<lambda>seed. Inr (sec, seed))))))
     else py_bind (b64_entry ''ed25519_secret'' d) (\<lambda>sec.
       py_bind (opt ''x25519_seed'' (b64_entry ''x25519_seed'' d)) (\<lambda>seed. Inr (sec, seed))))"

text \<open>The seed must be the one derived from the secret and the salt.\<close>

definition checked_seed :: "crypto \<Rightarrow> bytes \<Rightarrow> bytes option \<Rightarrow> key_file \<Rightarrow> (bytes \<times> bytes) py" where
  "checked_seed C sec seed d = (case seed of
     None \<Rightarrow> Inl (ValueError ''master-seed envelope missing or malformed x25519_seed'')
   | Some s \<Rightarrow>
       if length s \<noteq> 32 then Inl (ValueError ''master-seed envelope missing or malformed x25519_seed'')
       else (case dget d ''hkdf_salt'' of
         Some (JStr b64) \<Rightarrow>
           (case b64decode b64 of
              None \<Rightarrow> Inl (ValueError ''base64'')
            | Some salt \<Rightarrow>
                if length salt \<noteq> 16 then Inl (ValueError ''master-seed hkdf_salt has wrong length'')
                else py_bind (x25519_seed_of C sec salt) (\<lambda>expected.
                  if expected \<noteq> s then Inl (ValueError ''master-seed x25519_seed does not match HKDF derivation'') else Inr (s, salt)))
       | _ \<Rightarrow> Inl (ValueError ''master-seed envelope missing hkdf_salt'')))"

definition stored_binding :: "crypto \<Rightarrow> key_lib \<Rightarrow> bytes \<Rightarrow> bytes \<Rightarrow> key_file \<Rightarrow> (bytes \<times> bytes) py" where
  "stored_binding C L sec seed d = (case (dget d ''x25519_public'', dget d ''x25519_binding_signature'') of
     (Some (JStr p), Some (JStr s)) \<Rightarrow>
       (case (b64decode p, b64decode s) of (Some pub, Some sig) \<Rightarrow> Inr (pub, sig) | _ \<Rightarrow> Inl (ValueError ''base64''))
   | _ \<Rightarrow> py_bind (x25519_public_from_seed L seed) (\<lambda>pub. py_bind (compute_x25519_binding C sec pub) (\<lambda>sig. Inr (pub, sig))))"

definition checked_binding :: "crypto \<Rightarrow> key_lib \<Rightarrow> bytes \<Rightarrow> bytes \<Rightarrow> key_file \<Rightarrow> (bytes \<times> bytes) py" where
  "checked_binding C L sec seed d = py_bind (stored_binding C L sec seed d) (\<lambda>(pub, sig).
     py_bind (x25519_public_from_seed L seed) (\<lambda>expected.
       if expected \<noteq> pub then Inl (ValueError ''master-seed x25519_public does not match scalar base mult of x25519_seed'')
       else (case verify_detached_with_context C (ed_public C sec) SIG_CTX_X25519_BINDING pub sig of
         Inl e \<Rightarrow> Inl (ValueError ''x25519_binding_signature failed to verify'') | Inr r \<Rightarrow> Inr (pub, sig))))"

definition load_keys :: "crypto \<Rightarrow> key_lib \<Rightarrow> key_file \<Rightarrow> string option \<Rightarrow> agent_keys py" where
  "load_keys C L d passphrase = py_bind (public_entry d) (\<lambda>pub.
     py_bind (secret_entries C L passphrase d) (\<lambda>(sec, seed).
       if length sec \<noteq> 32 then Inl (ValueError ''Invalid Ed25519 secret key length'')
       else if ed_public C sec \<noteq> pub then Inl (ValueError ''Ed25519 secret key does not match public key'')
       else (let legacy = \<lparr> ak_secret = sec, ak_public = pub, ak_name = dget_default (JStr []) d ''agent_name'', ak_x25519_seed = seed,
                   ak_hkdf_salt = None, ak_x25519_public = None, ak_binding = None \<rparr> in
         if \<not> is_master_seed_file d then Inr legacy
         else py_bind (checked_seed C sec seed d) (\<lambda>(s, salt). py_bind (checked_binding C L sec s d) (\<lambda>(x, sig).
           Inr (legacy\<lparr>ak_hkdf_salt := Some salt, ak_x25519_public := Some x, ak_binding := Some sig\<rparr>))))))"

section \<open>Migration\<close>

record key_disk =
  kd_file :: key_file
  kd_backup :: "key_file option"

text \<open>The two ends of the migration that touch the disk: \<open>copies\<close> is whether the backup can be made, \<open>writes\<close> whether
  the new file can be put in place. A failing one raises \<open>OSError\<close>, here a \<open>RuntimeError\<close>.\<close>

definition migrate_keys :: "crypto \<Rightarrow> key_lib \<Rightarrow> save_env \<Rightarrow> bytes \<Rightarrow> bool \<Rightarrow> bool \<Rightarrow> string option \<Rightarrow> bool \<Rightarrow> key_disk \<Rightarrow> agent_keys py \<times> key_disk" where
  "migrate_keys C L E salt copies writes passphrase allow_plaintext K =
    (if is_master_seed_file (kd_file K) then (Inl (ValueError ''already in master-seed format''), K)
     else (case py_bind (load_keys C L (kd_file K) passphrase) (\<lambda>k.
               if ak_x25519_seed k \<noteq> None then Inl (ValueError ''internal: load_keys produced x25519_seed for a legacy file'')
               else master_seed_keys C L salt (ak_secret k) (ak_public k) (ak_name k)) of
       Inl e \<Rightarrow> (Inl e, K)
     | Inr m \<Rightarrow>
         if kd_backup K = None \<and> \<not> copies then (Inl (RuntimeError ''copy''), K)
         else (let K1 = K\<lparr>kd_backup := (case kd_backup K of None \<Rightarrow> Some (kd_file K) | Some b \<Rightarrow> Some b)\<rparr> in
           case save_keys C L E m passphrase allow_plaintext of
             Inl e \<Rightarrow> (Inl e, K1)
           | Inr d \<Rightarrow> if writes then (Inr m, K1\<lparr>kd_file := d\<rparr>) else (Inl (RuntimeError ''replace''), K1))))"

section \<open>Consistent keys\<close>

definition keys_ok :: "crypto \<Rightarrow> key_lib \<Rightarrow> agent_keys \<Rightarrow> bool" where
  "keys_ok C L k = (length (ak_secret k) = 32 \<and> length (ak_public k) = 32 \<and> ed_public C (ak_secret k) = ak_public k \<and>
     (case ak_x25519_seed k of
        None \<Rightarrow> ak_hkdf_salt k = None \<and> ak_x25519_public k = None \<and> ak_binding k = None
      | Some s \<Rightarrow> (\<exists>salt sig. length s = 32 \<and> length salt = 16 \<and> ak_hkdf_salt k = Some salt \<and> x25519_seed_of C (ak_secret k) salt = Inr s
          \<and> ak_x25519_public k = Some (kl_base_mult L s) \<and> ak_binding k = Some sig
          \<and> verify_detached_with_context C (ak_public k) SIG_CTX_X25519_BINDING (kl_base_mult L s) sig = Inr True)))"

lemma length_hkdf_blocks: "hmac_ok C \<Longrightarrow> length (hkdf_blocks C prk info t c n) = 32 * n"
  by (induction n arbitrary: t c) (simp_all add: hmac_ok_def Let_def)

lemma length_hkdf: "hmac_ok C \<Longrightarrow> hkdf_sha256 C secret salt info n = Inr bs \<Longrightarrow> length bs = nat n"
  by (auto simp: hkdf_sha256_def length_hkdf_blocks split: if_splits)

lemma x25519_seed_exists: "hmac_ok C \<Longrightarrow> \<exists>s. x25519_seed_of C sec salt = Inr s \<and> length s = 32"
  using length_hkdf [of C sec salt HKDF_INFO_X25519 32]
  by (cases "hkdf_sha256 C sec salt HKDF_INFO_X25519 32") (simp_all add: x25519_seed_of_def, simp add: hkdf_sha256_def)

lemma verify_Inr_True: "verify_detached_with_context C vk ctx m sig = Inr r \<Longrightarrow> r = True"
  by (auto simp: verify_detached_with_context_def nacl_verify_def split: if_splits)

lemma master_seed_keys_ok:
  assumes "ed25519_ok C" "hmac_ok C" "length salt = 16" "length sec = 32" "length (ed_public C sec) = 32"
  shows "\<exists>k. master_seed_keys C L salt sec (ed_public C sec) name = Inr k \<and> keys_ok C L k \<and> is_master_seed_format k
    \<and> ak_secret k = sec \<and> ak_public k = ed_public C sec \<and> ak_name k = name"
proof -
  obtain s where s: "x25519_seed_of C sec salt = Inr s" "length s = 32" using x25519_seed_exists [OF assms(2)] by blast
  obtain sig where sig: "compute_x25519_binding C sec (kl_base_mult L s) = Inr sig"
    by (simp add: compute_x25519_binding_def sign_detached_with_context_def SIG_CTX_X25519_BINDING_def)
  have "verify_detached_with_context C (ed_public C sec) SIG_CTX_X25519_BINDING (kl_base_mult L s) sig = Inr True"
    using sign_verify_context [OF assms(1)] sig by (simp add: compute_x25519_binding_def)
  then show ?thesis
    using assms s sig by (simp add: master_seed_keys_def x25519_public_from_seed_def keys_ok_def is_master_seed_format_def)
qed

lemma load_keys_ok:
  assumes "load_keys C L d passphrase = Inr k"
  shows "keys_ok C L k"
proof -
  obtain pub sec seed where l: "public_entry d = Inr pub" "secret_entries C L passphrase d = Inr (sec, seed)" "length sec = 32" "ed_public C sec = pub"
    using assms by (auto simp: load_keys_def py_bind_Inr_iff split: if_splits)
  have pub: "length pub = 32" using l(1) by (auto simp: public_entry_def split: option.splits json.splits if_splits)
  show ?thesis
  proof (cases "is_master_seed_file d")
    case False
    have "seed = None" using l(2) False
      by (auto simp: secret_entries_def Let_def py_bind_Inr_iff split: if_splits option.splits)
    then show ?thesis using assms l pub False by (auto simp: load_keys_def keys_ok_def)
  next
    case True
    obtain s salt x sig where c: "checked_seed C sec seed d = Inr (s, salt)" "checked_binding C L sec s d = Inr (x, sig)"
      "k = \<lparr> ak_secret = sec, ak_public = pub, ak_name = dget_default (JStr []) d ''agent_name'', ak_x25519_seed = seed,
             ak_hkdf_salt = Some salt, ak_x25519_public = Some x, ak_binding = Some sig \<rparr>"
      using assms l True by (auto simp: load_keys_def py_bind_Inr_iff Let_def split: if_splits)
    have s: "seed = Some s" "length s = 32" "length salt = 16" "x25519_seed_of C sec salt = Inr s"
      using c(1) by (auto simp: checked_seed_def py_bind_Inr_iff split: option.splits if_splits json.splits)
    have x: "x = kl_base_mult L s" "verify_detached_with_context C (ed_public C sec) SIG_CTX_X25519_BINDING x sig = Inr True"
      using c(2) s(2) verify_Inr_True
      by (auto simp: checked_binding_def py_bind_Inr_iff x25519_public_from_seed_def split: if_splits sum.splits)
    show ?thesis using s x l(3,4) pub by (simp add: c(3) keys_ok_def)
  qed
qed

text \<open>C34: whatever key file loads, and whatever was done to it, the keys are consistent: the secret belongs to the public key,
  and a seed, its salt, its public key and the binding signature are all there, derived from the secret and verified, or
  all absent.\<close>

theorem loaded_keys_consistent:
  assumes "load_keys C L d passphrase = Inr k"
  shows "keys_ok C L k"
  using assms by (rule load_keys_ok)

section \<open>Saving and loading\<close>

lemma length_b64_sextets: "length (b64_sextets ns) = 4 * ((length ns + 2) div 3)"
  by (induction ns rule: b64_sextets.induct) (simp_all, presburger)

lemma short_b64: "length bs = 32 \<Longrightarrow> length (b64encode bs) \<le> 100"
  by (simp add: b64encode_def length_b64_sextets Let_def)

lemma dget_put_opt: "dget (put_opt k v d) x = (if x = k \<and> v \<noteq> None then map_option b64_json v else dget d x)"
  by (simp add: put_opt_def split: option.split)

lemma header_get:
  assumes "keys_ok C L k"
  shows "dget (key_file_header k) ''ed25519_public'' = Some (b64_json (ak_public k))"
    "dget (key_file_header k) ''agent_name'' = Some (ak_name k)"
    "is_master_seed_file (key_file_header k) \<longleftrightarrow> is_master_seed_format k"
    "is_master_seed_format k \<Longrightarrow> dget (key_file_header k) ''hkdf_salt'' = map_option b64_json (ak_hkdf_salt k)"
    "is_master_seed_format k \<Longrightarrow> dget (key_file_header k) ''x25519_public'' = map_option b64_json (ak_x25519_public k)"
    "is_master_seed_format k \<Longrightarrow> dget (key_file_header k) ''x25519_binding_signature'' = map_option b64_json (ak_binding k)"
  by (simp_all add: key_file_header_def dget_put_opt is_master_seed_file_def Let_def)

lemma b64_entry_json: "dget d k = Some (b64_json bs) \<Longrightarrow> b64_entry k d = Inr bs"
  by (simp add: b64_entry_def b64_json_def b64decode_b64encode)

text \<open>The two shapes of a saved file.\<close>

lemma saved_plain:
  assumes "save_keys C L E k passphrase plain = Inr d" "passphrase = None \<or> passphrase = Some []"
  shows "d = (let d = dset ''encrypted'' (JBool False) (dset ''ed25519_secret'' (b64_json (ak_secret k)) (key_file_header k)) in
      if is_master_seed_format k then dset ''x25519_seed'' (b64_json (seed_or_empty k)) d else d)"
proof -
  have "(if passphrase = Some [] then None else passphrase) = None" using assms(2) by auto
  then show ?thesis using assms(1) by (simp add: save_keys_def Let_def split: if_splits)
qed

lemma saved_encrypted:
  assumes "save_keys C L E k (Some pw) plain = Inr d" "pw \<noteq> []"
  shows "\<exists>key. argon_key L pw (sv_salt E) = Inr key \<and> d = (let d = dset ''encrypted'' (JBool True) (dset ''salt'' (b64_json (sv_salt E))
                   (dset ''ed25519_secret_encrypted'' (b64_json (box_encrypt C key (sv_nonce E) (ak_secret k))) (key_file_header k))) in
         if is_master_seed_format k
              then dset ''x25519_seed_encrypted'' (b64_json (box_encrypt C key (sv_nonce2 E) (seed_or_empty k))) d else d)"
proof -
  have "(if Some pw = Some [] then None else Some pw) = Some pw" using assms(2) by simp
  with assms(1) have "py_bind (argon_key L pw (sv_salt E)) (\<lambda>key.
         let d = dset ''encrypted'' (JBool True) (dset ''salt'' (b64_json (sv_salt E))
                   (dset ''ed25519_secret_encrypted'' (b64_json (box_encrypt C key (sv_nonce E) (ak_secret k))) (key_file_header k))) in
         Inr (if is_master_seed_format k
              then dset ''x25519_seed_encrypted'' (b64_json (box_encrypt C key (sv_nonce2 E) (seed_or_empty k))) d else d)) = Inr d"
    by (simp only: save_keys_def option.case)
  then show ?thesis unfolding py_bind_Inr_iff Let_def sum.inject by (blast intro: sym)
qed

lemma saved_header:
  assumes "save_keys C L E k passphrase plain = Inr d" "x \<notin> {''encrypted'', ''ed25519_secret'', ''x25519_seed'', ''salt'', ''ed25519_secret_encrypted'', ''x25519_seed_encrypted''}"
  shows "dget d x = dget (key_file_header k) x"
proof (cases "passphrase = None \<or> passphrase = Some []")
  case True
  show ?thesis unfolding saved_plain [OF assms(1) True] Let_def using assms(2) by simp
next
  case False
  then obtain pw where pw: "passphrase = Some pw" "pw \<noteq> []" by auto
  obtain key where "d = (let d = dset ''encrypted'' (JBool True) (dset ''salt'' (b64_json (sv_salt E))
                   (dset ''ed25519_secret_encrypted'' (b64_json (box_encrypt C key (sv_nonce E) (ak_secret k))) (key_file_header k))) in
         if is_master_seed_format k
              then dset ''x25519_seed_encrypted'' (b64_json (box_encrypt C key (sv_nonce2 E) (seed_or_empty k))) d else d)"
    using saved_encrypted [OF assms(1) [unfolded pw(1)] pw(2)] by blast
  note d = this
  show ?thesis unfolding d Let_def using assms(2) by simp
qed

lemma header_no_secrets:
  "x \<in> {''encrypted'', ''ed25519_secret'', ''x25519_seed'', ''salt'', ''ed25519_secret_encrypted'', ''x25519_seed_encrypted''}
    \<Longrightarrow> dget (key_file_header k) x = None"
  by (elim insertE emptyE) (simp_all add: key_file_header_def dget_put_opt Let_def)

lemma saved_secrets:
  assumes "secretbox_ok C" "save_keys C L E k passphrase plain = Inr d" "is_master_seed_file d \<longleftrightarrow> is_master_seed_format k"
    "is_master_seed_format k \<longleftrightarrow> ak_x25519_seed k \<noteq> None"
  shows "secret_entries C L passphrase d = Inr (ak_secret k, ak_x25519_seed k)"
proof (cases "passphrase = None \<or> passphrase = Some []")
  case True
  note d = saved_plain [OF assms(2) True]
  have e: "dget d ''encrypted'' = Some (JBool False)" "dget d ''ed25519_secret'' = Some (b64_json (ak_secret k))"
    "dget d ''x25519_seed'' = (if is_master_seed_format k then Some (b64_json (seed_or_empty k)) else None)"
    by (simp_all add: d Let_def header_no_secrets)
  show ?thesis
    using assms(3,4) by (auto simp: secret_entries_def e b64_entry_json Let_def seed_or_empty_def)
next
  case False
  then obtain pw where pw: "passphrase = Some pw" "pw \<noteq> []" by auto
  then obtain key where key: "argon_key L pw (sv_salt E) = Inr key"
    and d: "d = (let d = dset ''encrypted'' (JBool True) (dset ''salt'' (b64_json (sv_salt E))
                   (dset ''ed25519_secret_encrypted'' (b64_json (box_encrypt C key (sv_nonce E) (ak_secret k))) (key_file_header k))) in
         if is_master_seed_format k
              then dset ''x25519_seed_encrypted'' (b64_json (box_encrypt C key (sv_nonce2 E) (seed_or_empty k))) d else d)"
    using saved_encrypted [OF assms(2) [unfolded pw(1)] pw(2)] by blast
  have e: "dget d ''encrypted'' = Some (JBool True)" "dget d ''salt'' = Some (b64_json (sv_salt E))"
    "dget d ''ed25519_secret_encrypted'' = Some (b64_json (box_encrypt C key (sv_nonce E) (ak_secret k)))"
    "dget d ''x25519_seed_encrypted'' = (if is_master_seed_format k then Some (b64_json (box_encrypt C key (sv_nonce2 E) (seed_or_empty k))) else None)"
    by (simp_all add: d Let_def header_no_secrets)
  show ?thesis
    using assms(1,3,4) pw key
    by (auto simp: secret_entries_def e b64_entry_json opened_entry_def secretbox_ok_def Let_def seed_or_empty_def)
qed

lemma saved_keys_load:
  assumes "secretbox_ok C" "keys_ok C L k" "save_keys C L E k passphrase plain = Inr d"
  shows "load_keys C L d passphrase = Inr k"
proof -
  note h = saved_header [OF assms(3)]
  note g = header_get [OF assms(2)]
  have m: "is_master_seed_file d \<longleftrightarrow> is_master_seed_format k" using h [of "''format''"] g(3) by (simp add: is_master_seed_file_def)
  have f: "is_master_seed_format k \<longleftrightarrow> ak_x25519_seed k \<noteq> None"
    using assms(2) by (auto simp: keys_ok_def is_master_seed_format_def split: option.splits)
  note sec = saved_secrets [OF assms(1,3) m f]
  have lens: "length (ak_secret k) = 32" "length (ak_public k) = 32" "ed_public C (ak_secret k) = ak_public k"
    using assms(2) by (simp_all add: keys_ok_def)
  have pub: "public_entry d = Inr (ak_public k)"
    using h [of "''ed25519_public''"] g(1) short_b64 [OF lens(2)] lens(2)
    by (simp add: public_entry_def b64_json_def b64decode_b64encode)
  have name: "dget_default (JStr []) d ''agent_name'' = ak_name k" using h [of "''agent_name''"] g(2) by simp
  show ?thesis
  proof (cases "ak_x25519_seed k")
    case None
    then have "ak_hkdf_salt k = None" "ak_x25519_public k = None" "ak_binding k = None" using assms(2) by (simp_all add: keys_ok_def)
    then show ?thesis using None f m name lens by (simp add: load_keys_def pub sec)
  next
    case (Some s)
    then obtain salt sig where s: "length s = 32" "length salt = 16" "ak_hkdf_salt k = Some salt" "x25519_seed_of C (ak_secret k) salt = Inr s"
      "ak_x25519_public k = Some (kl_base_mult L s)" "ak_binding k = Some sig"
      "verify_detached_with_context C (ak_public k) SIG_CTX_X25519_BINDING (kl_base_mult L s) sig = Inr True"
      using assms(2) by (auto simp: keys_ok_def)
    have M: "is_master_seed_format k" "is_master_seed_file d" using Some f m by simp_all
    have e: "dget d ''hkdf_salt'' = Some (b64_json salt)" "dget d ''x25519_public'' = Some (b64_json (kl_base_mult L s))"
      "dget d ''x25519_binding_signature'' = Some (b64_json sig)"
      using h g(4-6) [OF M(1)] s(3,5,6) by simp_all
    have "checked_seed C (ak_secret k) (Some s) d = Inr (s, salt)" using s e by (simp add: checked_seed_def b64_json_def b64decode_b64encode)
    moreover have "checked_binding C L (ak_secret k) s d = Inr (kl_base_mult L s, sig)"
      using s e lens by (simp add: checked_binding_def stored_binding_def b64_json_def b64decode_b64encode x25519_public_from_seed_def)
    ultimately show ?thesis using M(2) Some s name lens by (simp add: load_keys_def pub sec)
  qed
qed

text \<open>C33: consistent keys come back from the file they were saved to, in both formats, encrypted or not, with the passphrase
  they were saved under.\<close>

theorem keys_file_roundtrip:
  assumes "secretbox_ok C" "keys_ok C L k" "save_keys C L E k passphrase plain = Inr d"
  shows "load_keys C L d passphrase = Inr k"
  using assms by (rule saved_keys_load)

text \<open>C35: a migration keeps the identity. From any legacy file that loads it leaves a master-seed file that loads under the
  same passphrase to the same Ed25519 keys and name, with the old file kept as the backup of the first attempt; whatever
  fails on the way, the key file is untouched.\<close>

theorem migration_keeps_identity:
  assumes "secretbox_ok C" "ed25519_ok C" "hmac_ok C" "length salt = 16"
    and "load_keys C L (kd_file K) passphrase = Inr k" "migrate_keys C L E salt copies writes passphrase plain K = (r, K')"
  shows "case r of
      Inl e \<Rightarrow> kd_file K' = kd_file K \<and> (kd_backup K' = kd_backup K \<or> kd_backup K = None \<and> kd_backup K' = Some (kd_file K))
    | Inr m \<Rightarrow> ak_secret m = ak_secret k \<and> ak_public m = ak_public k \<and> ak_name m = ak_name k \<and> is_master_seed_format m
        \<and> load_keys C L (kd_file K') passphrase = Inr m
        \<and> kd_backup K' = Some (case kd_backup K of None \<Rightarrow> kd_file K | Some b \<Rightarrow> b)"
proof -
  have ok: "keys_ok C L k" using load_keys_ok [OF assms(5)] .
  then have k: "length (ak_secret k) = 32" "ak_public k = ed_public C (ak_secret k)" "length (ed_public C (ak_secret k)) = 32"
    by (simp_all add: keys_ok_def)
  obtain m where m: "master_seed_keys C L salt (ak_secret k) (ak_public k) (ak_name k) = Inr m" "keys_ok C L m" "is_master_seed_format m"
      "ak_secret m = ak_secret k" "ak_public m = ak_public k" "ak_name m = ak_name k"
    using master_seed_keys_ok [OF assms(2-4) k(1,3), of L "ak_name k"] k(2) by auto
  have again: "load_keys C L d passphrase = Inr m" if "save_keys C L E m passphrase plain = Inr d" for d
    by (rule saved_keys_load [OF assms(1) m(2) that])
  show ?thesis
    using assms(5,6) m again
    by (auto simp: migrate_keys_def Let_def split: if_splits sum.splits option.splits)
qed

section \<open>The format field\<close>

text \<open>The field that marks a master-seed file is not protected: without it any file that loads still loads, as a legacy one.
  The node falls back to the dual use of its Ed25519 key, and none of the checks on the seed is made.\<close>

lemma secrets_without_format:
  "secret_entries C L pw d = Inr (sec, seed) \<Longrightarrow> secret_entries C L pw (dpop ''format'' d) = Inr (sec, None)"
  by (auto simp: secret_entries_def is_master_seed_file_def b64_entry_def opened_entry_def py_bind_Inr_iff Let_def split: if_splits option.splits)

lemma format_field_downgrades:
  assumes "load_keys C L d passphrase = Inr k"
  shows "load_keys C L (dpop ''format'' d) passphrase
    = Inr (k\<lparr>ak_x25519_seed := None, ak_hkdf_salt := None, ak_x25519_public := None, ak_binding := None\<rparr>)"
proof -
  obtain pub sec seed where l: "public_entry d = Inr pub" "secret_entries C L passphrase d = Inr (sec, seed)" "length sec = 32" "ed_public C sec = pub"
    using assms by (auto simp: load_keys_def py_bind_Inr_iff split: if_splits)
  have k: "ak_secret k = sec" "ak_public k = pub" "ak_name k = dget_default (JStr []) d ''agent_name''"
    using assms l by (auto simp: load_keys_def py_bind_Inr_iff Let_def split: if_splits)
  have "public_entry (dpop ''format'' d) = Inr pub" using l(1) by (simp add: public_entry_def)
  moreover have "\<not> is_master_seed_file (dpop ''format'' d)" by (simp add: is_master_seed_file_def)
  ultimately show ?thesis
    using l(3,4) k secrets_without_format [OF l(2)] by (simp add: load_keys_def)
qed

section \<open>Sample keys\<close>

definition sample_key_lib :: key_lib where
  "sample_key_lib = \<lparr> kl_argon2id = (\<lambda>p s. pad 32 (p @ s)), kl_base_mult = pad 32 \<rparr>"

definition sample_save_env :: save_env where
  "sample_save_env = \<lparr> sv_salt = pad 16 [7], sv_nonce = [1], sv_nonce2 = [2] \<rparr>"

lemma sample_hmac: "hmac_ok sample_crypto"
  by (simp add: hmac_ok_def sample_crypto_def)

lemma save_succeeds:
  assumes "pw \<noteq> []"
  shows "\<exists>d. save_keys C L (sample_save_env) k (Some pw) plain = Inr d"
  using assms by (simp add: save_keys_def argon_key_def sample_save_env_def Let_def)

lemma sample_master:
  "\<exists>k d. keys_ok sample_crypto sample_key_lib k \<and> is_master_seed_format k
    \<and> save_keys sample_crypto sample_key_lib sample_save_env k (Some ''pw'') False = Inr d"
proof -
  obtain k where k: "keys_ok sample_crypto sample_key_lib k" "is_master_seed_format k"
    using master_seed_keys_ok [OF sample_crypto_ok(2) sample_hmac, of "pad 16 [9]" "pad 32 [5]" sample_key_lib "JStr ''carol''"] by auto
  then show ?thesis using save_succeeds [of "''pw''" sample_crypto sample_key_lib k False] by auto
qed

theorem keys_file_roundtrip_witness:
  "\<exists>k d. is_master_seed_format k \<and> save_keys sample_crypto sample_key_lib sample_save_env k (Some ''pw'') False = Inr d
     \<and> load_keys sample_crypto sample_key_lib d (Some ''pw'') = Inr k"
  using sample_master keys_file_roundtrip [OF sample_crypto_ok(1)] by blast

theorem loaded_keys_consistent_witness:
  "\<exists>k d. is_master_seed_format k \<and> load_keys sample_crypto sample_key_lib d (Some ''pw'') = Inr k \<and> keys_ok sample_crypto sample_key_lib k"
proof -
  obtain k d where k: "keys_ok sample_crypto sample_key_lib k" "is_master_seed_format k"
    "save_keys sample_crypto sample_key_lib sample_save_env k (Some ''pw'') False = Inr d" using sample_master by blast
  note l = saved_keys_load [OF sample_crypto_ok(1) k(1,3)]
  show ?thesis using k(2) l loaded_keys_consistent [OF l] by blast
qed

theorem migration_keeps_identity_witness:
  "\<exists>d m K'. migrate_keys sample_crypto sample_key_lib sample_save_env (pad 16 [9]) True True (Some ''pw'') False \<lparr> kd_file = d, kd_backup = None \<rparr> = (Inr m, K')
     \<and> ak_secret m = pad 32 [5] \<and> load_keys sample_crypto sample_key_lib (kd_file K') (Some ''pw'') = Inr m \<and> kd_backup K' = Some d"
proof -
  let ?k = "\<lparr> ak_secret = pad 32 [5], ak_public = ed_public sample_crypto (pad 32 [5]), ak_name = JStr ''carol'', ak_x25519_seed = None,
      ak_hkdf_salt = None, ak_x25519_public = None, ak_binding = None \<rparr>"
  have ok: "keys_ok sample_crypto sample_key_lib ?k" by (simp add: keys_ok_def)
  obtain d where d: "save_keys sample_crypto sample_key_lib sample_save_env ?k (Some ''pw'') False = Inr d"
    using save_succeeds [of "''pw''"] by blast
  note l = saved_keys_load [OF sample_crypto_ok(1) ok d]
  have f: "\<not> is_master_seed_file d"
    using saved_header [OF d, of "''format''"] header_get(3) [OF ok] by (simp add: is_master_seed_file_def is_master_seed_format_def)
  obtain m where m: "master_seed_keys sample_crypto sample_key_lib (pad 16 [9]) (pad 32 [5]) (ed_public sample_crypto (pad 32 [5])) (JStr ''carol'') = Inr m"
    using master_seed_keys_ok [OF sample_crypto_ok(2) sample_hmac, of "pad 16 [9]" "pad 32 [5]" sample_key_lib "JStr ''carol''"] by auto
  obtain d2 where d2: "save_keys sample_crypto sample_key_lib sample_save_env m (Some ''pw'') False = Inr d2"
    using save_succeeds [of "''pw''"] by blast
  let ?K = "\<lparr> kd_file = d, kd_backup = None \<rparr>"
  have run: "migrate_keys sample_crypto sample_key_lib sample_save_env (pad 16 [9]) True True (Some ''pw'') False ?K = (Inr m, \<lparr> kd_file = d2, kd_backup = Some d \<rparr>)"
    using f l m d2 by (simp add: migrate_keys_def)
  have "length (pad 16 [9::8 word]) = 16" "load_keys sample_crypto sample_key_lib (kd_file ?K) (Some ''pw'') = Inr ?k" using l by simp_all
  from migration_keeps_identity [OF sample_crypto_ok(1,2) sample_hmac this run] run show ?thesis
    by (intro exI [of _ d] exI [of _ m] exI [of _ "\<lparr> kd_file = d2, kd_backup = Some d \<rparr>"]) simp
qed

end
