(* ===== verification/Config.thy ===== *)
theory Config
  imports Handshake
begin

text \<open>
  config.py: the settings of a node with their defaults, read from a file or from the environment, and saved.

  \<^item> A configuration is the dictionary of its attributes; a file is the JSON value in it, \<open>None\<close> when it is missing or
    unreadable. The environment is a function from names to values.
  \<^item> \<open>float()\<close> is an argument: \<open>None\<close> is a \<open>ValueError\<close>, \<open>Some None\<close> an infinity or not a number.
\<close>

section \<open>Settings\<close>

type_synonym config = "(string, json) dict"

definition default_config :: config where
  "default_config = [
     (''agent_name'', JStr ''agent''), (''keys_path'', JStr ''~/.ironmesh/keys.json''), (''keys_passphrase'', JNull),
     (''port'', JInt 8765), (''tls_cert'', JNull), (''tls_key'', JNull), (''max_message_size'', JInt 1048576),
     (''passphrase'', JNull), (''passphrase_file'', JNull),
     (''db_path'', JStr ''~/.ironmesh/data.db''), (''trust_path'', JStr ''~/.ironmesh/known_peers.json''),
     (''msg_rate_sustained'', JFloat 20), (''msg_rate_burst'', JInt 100), (''conn_rate_per_minute'', JInt 10),
     (''log_level'', JStr ''INFO''), (''log_file'', JNull),
     (''replay_max_age'', JFloat 30), (''replay_window_size'', JInt 1024),
     (''heartbeat_interval'', JInt 30), (''cleanup_interval'', JInt 3600), (''reconnect_interval'', JInt 15),
     (''queue_flush_interval'', JInt 5), (''prune_days'', JInt 30),
     (''mesh_routing'', JStr ''relay''), (''max_hops'', JInt 5), (''route_announce_interval'', JFloat 30), (''route_ttl'', JFloat 90),
     (''routes_path'', JStr ''~/.ironmesh/routes.json''),
     (''dedup_sources_max'', JInt 128), (''dedup_per_source_max'', JInt 1024), (''dedup_cache_ttl'', JFloat 300),
     (''capabilities'', JArr []), (''capabilities_path'', JStr ''~/.ironmesh/capabilities.json''), (''capability_announce_interval'', JFloat 60),
     (''audit_log_max_bytes'', JInt 10485760), (''metrics_format'', JStr ''prometheus''), (''log_format'', JStr ''text''),
     (''rns_enabled'', JBool False), (''rns_configdir'', JNull), (''rns_announce_interval'', JFloat 300),
     (''rns_ratchets_enabled'', JBool True), (''rns_ratchet_interval'', JFloat 1800), (''rns_retained_ratchets'', JInt 8),
     (''rns_skip_handshake'', JBool False), (''rns_require_link_binding'', JBool False), (''e2e_strict_confidentiality'', JBool False),
     (''rns_group_broadcast'', JBool False), (''require_message_promotion'', JBool False), (''pending_trust_queue_cap'', JInt 100),
     (''group_crypto_suite'', JNull)]"

text \<open>\<open>__post_init__\<close>.\<close>

definition clamp_config :: "config \<Rightarrow> config" where
  "clamp_config c =
    (let c1 = (case Option.bind (dget c ''route_announce_interval'') py_number of
           Some t \<Rightarrow> if t < 1 then dset ''route_announce_interval'' (JFloat 1) c else c | None \<Rightarrow> c) in
     if dget c1 ''mesh_routing'' \<in> {Some (JStr ''off''), Some (JStr ''passive''), Some (JStr ''relay'')} then c1
     else dset ''mesh_routing'' (JStr ''relay'') c1)"

section \<open>The environment\<close>

definition TRUE_WORDS :: "string list" where "TRUE_WORDS = [''1'', ''true'', ''yes'', ''on'']"
definition FALSE_WORDS :: "string list" where "FALSE_WORDS = [''0'', ''false'', ''no'', ''off'']"

type_synonym environment = "string \<Rightarrow> string option"

text \<open>\<open>None\<close> of the value: unset or blank.\<close>

definition env_value :: "environment \<Rightarrow> string \<Rightarrow> string option" where
  "env_value env name = (case env name of None \<Rightarrow> None | Some raw \<Rightarrow> if py_strip raw = [] then None else Some (py_strip raw))"

definition parse_env_flag :: "environment \<Rightarrow> string \<Rightarrow> json \<Rightarrow> json py" where
  "parse_env_flag env name dflt = (case env_value env name of
     None \<Rightarrow> Inr dflt
   | Some v \<Rightarrow>
       (let w = map lower_char v in
        if w \<in> set TRUE_WORDS then Inr (JBool True)
        else if w \<in> set FALSE_WORDS then Inr (JBool False)
        else Inl (ValueError (name @ '' is not a recognised boolean''))))"

datatype limit_kind = IntLimit | FloatLimit

type_synonym float_reader = "string \<Rightarrow> real option option"

definition parse_env_limit :: "float_reader \<Rightarrow> environment \<Rightarrow> string \<Rightarrow> json \<Rightarrow> limit_kind \<Rightarrow> real \<Rightarrow> json py" where
  "parse_env_limit fl env name dflt kind least = (case env_value env name of
     None \<Rightarrow> Inr dflt
   | Some v \<Rightarrow>
       (case kind of
          IntLimit \<Rightarrow> (case int_of_str v of
            None \<Rightarrow> Inl (ValueError (name @ '' is not a valid int''))
          | Some i \<Rightarrow> if of_int i < least then Inl (ValueError (name @ '' is too small'')) else Inr (JInt i))
        | FloatLimit \<Rightarrow> (case fl v of
            None \<Rightarrow> Inl (ValueError (name @ '' is not a valid float''))
          | Some None \<Rightarrow> Inl (ValueError (name @ '' must be a finite number''))
          | Some (Some r) \<Rightarrow> if r < least then Inl (ValueError (name @ '' is too small'')) else Inr (JFloat r))))"

definition env_strings :: "(string \<times> string) list" where
  "env_strings = [(''IRONMESH_NAME'', ''agent_name''), (''IRONMESH_PASSPHRASE'', ''passphrase''), (''IRONMESH_KEYS_PATH'', ''keys_path''),
     (''IRONMESH_DB_PATH'', ''db_path''), (''IRONMESH_LOG_LEVEL'', ''log_level''), (''IRONMESH_LOG_FILE'', ''log_file''),
     (''IRONMESH_TLS_CERT'', ''tls_cert''), (''IRONMESH_TLS_KEY'', ''tls_key''), (''IRONMESH_PASSPHRASE_FILE'', ''passphrase_file''),
     (''IRONMESH_RNS_CONFIGDIR'', ''rns_configdir'')]"

definition env_flags :: "(string \<times> string) list" where
  "env_flags = [(''IRONMESH_RNS_ENABLED'', ''rns_enabled''), (''IRONMESH_RNS_RATCHETS'', ''rns_ratchets_enabled''),
     (''IRONMESH_REQUIRE_MSG_PROMOTION'', ''require_message_promotion'')]"

definition env_limits :: "(string \<times> string \<times> limit_kind \<times> real) list" where
  "env_limits = [(''IRONMESH_RNS_RATCHET_INTERVAL'', ''rns_ratchet_interval'', FloatLimit, 1),
     (''IRONMESH_RNS_RETAINED_RATCHETS'', ''rns_retained_ratchets'', IntLimit, 1),
     (''IRONMESH_PENDING_QUEUE_CAP'', ''pending_trust_queue_cap'', IntLimit, 1)]"

definition config_get :: "string \<Rightarrow> config \<Rightarrow> json" where
  "config_get attr c = (case dget c attr of Some v \<Rightarrow> v | None \<Rightarrow> JNull)"

definition set_strings :: "environment \<Rightarrow> config \<Rightarrow> config" where
  "set_strings env c = fold (\<lambda>(var, attr) c. case env var of None \<Rightarrow> c | Some v \<Rightarrow> dset attr (JStr v) c) env_strings c"

text \<open>Only the port is read leniently: what does not parse leaves the default.\<close>

definition set_port :: "environment \<Rightarrow> config \<Rightarrow> config" where
  "set_port env c = (case Option.bind (env ''IRONMESH_PORT'') int_of_str of None \<Rightarrow> c | Some i \<Rightarrow> dset ''port'' (JInt i) c)"

fun set_flags :: "environment \<Rightarrow> (string \<times> string) list \<Rightarrow> config \<Rightarrow> config py" where
  "set_flags env [] c = Inr c"
| "set_flags env ((var, attr) # fs) c = py_bind (parse_env_flag env var (config_get attr c)) (\<lambda>v. set_flags env fs (dset attr v c))"

fun set_limits :: "float_reader \<Rightarrow> environment \<Rightarrow> (string \<times> string \<times> limit_kind \<times> real) list \<Rightarrow> config \<Rightarrow> config py" where
  "set_limits fl env [] c = Inr c"
| "set_limits fl env ((var, attr, kind, least) # ls) c =
     py_bind (parse_env_limit fl env var (config_get attr c) kind least) (\<lambda>v. set_limits fl env ls (dset attr v c))"

definition config_from_env :: "float_reader \<Rightarrow> environment \<Rightarrow> config py" where
  "config_from_env fl env = py_bind (set_flags env env_flags (set_port env (set_strings env (clamp_config default_config)))) (set_limits fl env env_limits)"

section \<open>The file\<close>

text \<open>The functions of the class, which \<open>hasattr\<close> finds as well. Python's own attributes (names in double underscores) are left out.\<close>

definition config_methods :: "string list" where
  "config_methods = [''from_file'', ''from_env'', ''save'']"

definition config_from_file :: "json option \<Rightarrow> config" where
  "config_from_file file = (case file of
     Some (JObj data) \<Rightarrow> fold (\<lambda>(k, v) c. if k \<in> set (dkeys c) \<or> k \<in> set config_methods then dset k v c else c) data (clamp_config default_config)
   | _ \<Rightarrow> clamp_config default_config)"

definition unsaved :: "string list" where
  "unsaved = [''passphrase'', ''keys_passphrase'', ''group_crypto_suite'']"

definition config_save :: "config \<Rightarrow> json" where
  "config_save c = JObj (filter (\<lambda>(k, v). k \<notin> set unsaved) c)"

section \<open>What holds of settings\<close>

lemma default_clamped: "clamp_config default_config = default_config"
  by code_simp

lemma default_keys: "dwf default_config" "set config_methods \<inter> set (dkeys default_config) = {}"
  by code_simp+

lemma fold_file_get:
  assumes "dwf data" "set (dkeys data) \<subseteq> set (dkeys c)"
  shows "dget (fold (\<lambda>(k, v) c. if k \<in> set (dkeys c) \<or> k \<in> set config_methods then dset k v c else c) data c) x
    = (case dget data x of Some v \<Rightarrow> Some v | None \<Rightarrow> dget c x)"
  using assms
proof (induction data arbitrary: c)
  case (Cons e data)
  obtain k v where e: "e = (k, v)" by (rule prod.exhaust)
  have "k \<in> set (dkeys c)" "set (dkeys data) \<subseteq> set (dkeys (dset k v c))" "dwf data" "k \<notin> set (dkeys data)"
    using Cons.prems e by (auto simp: set_dkeys_dset)
  note k = this
  have n: "dget data k = None" using k(4) by (simp add: dget_None_iff)
  have "dget (fold (\<lambda>(k, v) c. if k \<in> set (dkeys c) \<or> k \<in> set config_methods then dset k v c else c) (e # data) c) x
    = (case dget data x of Some v' \<Rightarrow> Some v' | None \<Rightarrow> dget (dset k v c) x)"
    using Cons.IH [OF k(3,2)] k(1) by (simp add: e)
  then show ?case using n by (cases "x = k") (simp_all add: e split: option.split)
qed simp

text \<open>Settings survive a save and a load, and secrets never reach the disk: whatever the values, the file read back gives
  every setting of the configuration that was saved, except the passphrases and the reserved suite, which the file does
  not hold and which come back as their defaults.\<close>

lemma config_file_roundtrip:
  assumes "dwf c" "set (dkeys c) = set (dkeys default_config)"
  shows "(x \<notin> set unsaved \<longrightarrow> dget (config_from_file (Some (config_save c))) x = dget c x)
    \<and> (x \<in> set unsaved \<longrightarrow> dget (config_from_file (Some (config_save c))) x = dget default_config x
         \<and> (\<forall>data. config_save c = JObj data \<longrightarrow> x \<notin> set (dkeys data)))"
proof -
  let ?data = "filter (\<lambda>(k, v). k \<notin> set unsaved) c"
  have g: "dget ?data x = (if x \<in> set unsaved then None else dget c x)" for x
    by (induction c) auto
  have sub: "set (dkeys ?data) \<subseteq> set (dkeys (clamp_config default_config))" using assms(2) by (auto simp: default_clamped)
  have w: "dwf ?data" using assms(1) by (simp add: distinct_map_filter)
  have r: "dget (config_from_file (Some (config_save c))) x = (case dget ?data x of Some v \<Rightarrow> Some v | None \<Rightarrow> dget default_config x)"
    unfolding config_from_file_def config_save_def option.case json.case fold_file_get [OF w sub] by (simp only: default_clamped)
  have "dget c x = None \<longleftrightarrow> dget default_config x = None" using assms(2) by (simp add: dget_None_iff)
  moreover have "x \<in> set unsaved \<Longrightarrow> config_save c = JObj data \<Longrightarrow> x \<notin> set (dkeys data)" for data
    by (auto simp: config_save_def)
  ultimately show ?thesis unfolding r g by (auto split: option.split)
qed

text \<open>A value that is set but is no word for on or off is refused, it never turns a control off.\<close>

lemma env_typo_refused:
  assumes "env_value env name = Some v" "map lower_char v \<notin> set TRUE_WORDS" "map lower_char v \<notin> set FALSE_WORDS"
  shows "\<exists>e. parse_env_flag env name dflt = Inl e"
  using assms by (simp add: parse_env_flag_def Let_def)

lemma env_limit_bound:
  assumes "parse_env_limit fl env name dflt kind least = Inr v" "env_value env name \<noteq> None"
  shows "\<exists>r. py_number v = Some r \<and> least \<le> r"
  using assms by (auto simp: parse_env_limit_def py_number.simps split: limit_kind.splits option.splits if_splits)

text \<open>Values from a file are not clamped as those of the constructor are, and they may replace the functions of the class.\<close>

lemma file_values_not_clamped:
  "dget (config_from_file (Some (JObj [(''mesh_routing'', JStr ''bogus'')]))) ''mesh_routing'' = Some (JStr ''bogus'')"
  by code_simp

lemma file_replaces_method: "dget (config_from_file (Some (JObj [(''save'', JInt 1)]))) ''save'' = Some (JInt 1)"
  by code_simp

end
