(* ===== verification/Spec2Isabelle.thy ===== *)
theory Spec2Isabelle
  imports Nat_Relay Hooks Federation Conversation Upkeep Audit_Log Keys Config
begin

text \<open>
  Verification of IronMesh, an encrypted mesh messenger for agents (the Python sources of the
  repository's root directory).

  \<^bold>\<open>The program.\<close> A daemon (bridge.py) accepts and dials connections, runs a handshake on each
  (handshake.py), and then exchanges frames (protocol.py) that are encrypted under the session key
  and signed (crypto.py). Messages for other nodes are relayed along learned routes (mesh.py,
  routing.py). Who may connect is decided by a trust-on-first-use store (trust.py, trust_ops.py) with
  single-use invites (invite.py); what happened is kept in a hash-chained log (audit.py). Around
  that: a public relay (nat_relay.py), a capability registry (capabilities.py), a gateway between two
  meshes (federation.py), plugin hooks (hooks.py) and conversation envelopes (conversation.py).

  \<^bold>\<open>Theories, from the bottom up.\<close>
  \<^item> \<open>Prelude\<close>: raised exceptions (\<open>py_error\<close>, \<open>'a py\<close>), dictionaries as association lists
    (\<open>dget\<close>, \<open>dset\<close>, \<open>dpop\<close>), big-endian integers and UTF-8. \<open>Json\<close>, \<open>Json_Codec\<close>, \<open>Base64\<close>: the
    standard library's \<open>json\<close> and \<open>base64\<close> as far as the daemon uses them, with the round trips.
  \<^item> \<open>Wire\<close>: protocol.py's constants, schemas and canonical signed bodies. \<open>Crypto\<close>: crypto.py and
    mesh_crypto.py over a record \<open>crypto\<close> of libsodium primitives. \<open>Frames\<close>, \<open>Frame_Codec\<close>: the class
    \<open>Frame\<close>. \<open>Replay\<close>, \<open>Peers\<close>, \<open>Rate_Limits\<close>: \<open>ReplayGuard\<close>, \<open>PeerState\<close>, \<open>MessageBus\<close>,
    \<open>TokenBucket\<close> and ratelimit.py.
  \<^item> \<open>Sending\<close>: \<open>_send_frame\<close> and the offline queue of routing.py. \<open>Routes\<close>, \<open>Dedup\<close>, \<open>Breaker\<close>,
    \<open>Mesh\<close>: the classes of mesh.py.
  \<^item> \<open>Nat_Relay\<close>, \<open>Hooks\<close>, \<open>Globs\<close> (\<open>fnmatch\<close>), \<open>Sealed_File\<close>, \<open>Capabilities\<close>, \<open>Federation\<close>,
    \<open>Conversation\<close>: the files of these names.
  \<^item> \<open>Trust\<close> (trust.py), \<open>Invites\<close> (invite.py), \<open>Trust_Ops\<close> (trust_ops.py), \<open>Audit_Log\<close> (audit.py),
    \<open>Handshake\<close> (handshake.py and \<open>_handle_connection\<close> of bridge.py), \<open>Rekey\<close> (the rotation of
    session keys in handshake.py and routing.py).
  \<^item> \<open>Receive\<close>: the inbound path of routing.py, from \<open>_handle_message\<close> to the bus, over all of the
    above; \<open>Delivery\<close>: what a published message has passed, and the way of a message from one daemon
    to the other.
  \<^item> \<open>Message_Store\<close>: the tables of store.py and their operations; \<open>Outbound\<close>: the outbound path of
    routing.py, sending to a node, by name and by capability.
  \<^item> \<open>Upkeep\<close>: the background tasks of bridge.py, each as the body of one round.
  \<^item> \<open>Keys\<close>: keys.py, the identity keys and their file. \<open>Config\<close>: config.py, the settings from file and environment.
  \<^item> \<open>Sample\<close>: concrete primitives without strength that satisfy every law assumed, for the
    witnesses.

  \<^bold>\<open>Conventions.\<close> A class is a record, its methods are functions from the old state to the
  new one; a raised exception is \<open>Inl\<close> of a \<open>py_error\<close> or of the module's own error type. Time is a
  real number and an argument, as are random bytes, fresh identifiers and whether a file write or a
  send succeeds. Python's strings are HOL strings (code points below 256), bytes are \<open>8 word list\<close>,
  integers are \<open>int\<close> where Python's are unbounded. JSON floats are printed and read by a parameter
  \<open>float_io\<close>. Dictionaries keep their insertion order, as Python's do; sets are lists without
  repetition. Coroutines are cut at their \<open>await\<close>s where another one may change the state in between.

  \<^bold>\<open>What is assumed.\<close> The primitives of libsodium are parameters: \<open>secretbox_ok\<close> and
  \<open>ed25519_ok\<close> say that opening what was sealed, and verifying what was signed, succeeds;
  \<open>sha256_ok\<close> and \<open>hmac_ok\<close> give the length of digests. No unforgeability is assumed; theorems about
  attackers name the collision or the forgery that would be needed as an alternative or a hypothesis.

  \<^bold>\<open>What is shown.\<close>
  \<^item> Frames: what is sent is received, what is accepted has passed every check, each sequence number
    is accepted at most once, the inner signature binds the message; signed bodies of different
    kinds never coincide.
  \<^item> Mesh: relays never loop and relay once, two neighbours never route through each other, the
    bounded deduplication cache withstands floods below its budgets, the breaker refines its
    state machine, routes survive a restart.
  \<^item> Handshake: two honest daemons end with the same key under each other's identity; a live
    connection has passed every check of the server. A rotation run to its end leaves both with the
    same new key.
  \<^item> Daemon to daemon: what one sends is published by the other, and nothing is published that was
    not opened, verified, admitted and new.
  \<^item> Outbound: in strict mode no hop reads a message, the bounded offline queue gives way by priority,
    re-encrypting the database changes nothing that is read from it.
  \<^item> Background tasks: claims on a reconnect are exclusive, one of two daemons dials, a drop raises one
    alarm, the announcements a daemon signs are accepted by the others.
  \<^item> Keys: saved keys load back, what loads is consistent, a migration keeps the identity. Settings: they survive
    a save and a load, secrets stay off the disk, a mistyped switch is refused.
  \<^item> Trust: a first pin binds, pins survive restarts, foreign files are not overwritten, an invite
    admits one peer over any interleaving of checks, restarts and failing writes, revocations reach
    every peer, the message gate fails closed.
  \<^item> Audit: whatever is logged, with failing writes and rotations, verifies; a file that verifies
    in place of the log without forged tags is a prefix of it.
  \<^item> Relay, hooks, capabilities, federation and conversations: their functional contracts.

  Where the code falls short of its documentation the theories hold a lemma that shows it, next to
  the component's properties (for example \<open>header_sequence_malleable\<close>,
  \<open>relay_never_trips_breaker\<close>, \<open>identityless_hello_bypasses_tofu\<close>).

  \<^bold>\<open>Bounds and fuel.\<close> No definition needs fuel: loops are structural recursions over the
  received lists or have a measure (the trimming loops of the caches).

  \<^bold>\<open>Not modelled.\<close> The command line, the dashboard, metrics and telemetry, the Reticulum and
  LXMF transports, the agent servers and adapters: their behaviour is that of the packages they
  wrap. The daemon's start-up, its HTTP endpoints and the scheduling of its tasks are asyncio
  glue around the operations modelled here.
\<close>

end
